(* ===== verification/Rust_Num.thy ===== *)
theory Rust_Num
  imports Rust_Str
begin

text \<open>
  Parsing and printing of numbers and of IPv4 addresses as the Rust standard library
  does them: \<open>str::parse::<uN>\<close>, \<open>from_str_radix\<close>, \<open>{}\<close>, \<open>{:02x}\<close>, \<open>{:04X}\<close> and
  \<open>Ipv4Addr\<close>'s \<open>FromStr\<close> and \<open>Display\<close>.
\<close>

section \<open>Parsing integers\<close>

definition digit_val :: "nat \<Rightarrow> char \<Rightarrow> nat option" where
  "digit_val r c = (let n = of_char c :: nat;
       d = (if 48 \<le> n \<and> n \<le> 57 then n - 48
            else if 97 \<le> n \<and> n \<le> 122 then n - 87
            else if 65 \<le> n \<and> n \<le> 90 then n - 55 else r)
     in if d < r then Some d else None)"

fun digits_nat :: "nat \<Rightarrow> nat \<Rightarrow> string \<Rightarrow> nat option" where
  "digits_nat r acc [] = Some acc"
| "digits_nat r acc (c # cs) =
     (case digit_val r c of None \<Rightarrow> None | Some d \<Rightarrow> digits_nat r (acc * r + d) cs)"

text \<open>
  A leading plus sign is accepted when something follows it; a minus sign is an
  invalid digit for an unsigned type; a value that does not fit is an error.
\<close>

definition strip_plus :: "string \<Rightarrow> string" where
  "strip_plus s = (if length s > 1 \<and> hd s = CHR ''+'' then tl s else s)"

definition parse_unsigned :: "nat \<Rightarrow> nat \<Rightarrow> string \<Rightarrow> nat option" where
  "parse_unsigned bits r s = (let ds = strip_plus s in
     if ds = [] then None
     else Option.bind (digits_nat r 0 ds) (\<lambda>n. if n < 2 ^ bits then Some n else None))"

definition parse_u8 :: "string \<Rightarrow> u8 option" where
  "parse_u8 s = map_option word_of_nat (parse_unsigned 8 10 s)"
definition parse_u32 :: "string \<Rightarrow> u32 option" where
  "parse_u32 s = map_option word_of_nat (parse_unsigned 32 10 s)"
definition parse_u64 :: "string \<Rightarrow> u64 option" where
  "parse_u64 s = map_option word_of_nat (parse_unsigned 64 10 s)"

definition parse_i64 :: "string \<Rightarrow> int option" where
  "parse_i64 s =
     (if length s > 1 \<and> hd s = CHR ''-''
      then Option.bind (digits_nat 10 0 (tl s)) (\<lambda>n. if n \<le> 2 ^ 63 then Some (- int n) else None)
      else map_option int (parse_unsigned 63 10 s))"

section \<open>Printing integers\<close>

definition digit_char :: "nat \<Rightarrow> char" where
  "digit_char d = char_of (48 + d)"

fun dec :: "nat \<Rightarrow> string" where
  "dec n = (if n < 10 then [digit_char n] else dec (n div 10) @ [digit_char (n mod 10)])"

declare dec.simps [simp del]

definition hex_lower :: "nat \<Rightarrow> char" where
  "hex_lower d = (if d < 10 then char_of (48 + d) else char_of (87 + d))"
definition hex_upper :: "nat \<Rightarrow> char" where
  "hex_upper d = (if d < 10 then char_of (48 + d) else char_of (55 + d))"

fun hex_fixed :: "(nat \<Rightarrow> char) \<Rightarrow> nat \<Rightarrow> nat \<Rightarrow> string" where
  "hex_fixed f 0 n = []"
| "hex_fixed f (Suc k) n = hex_fixed f k (n div 16) @ [f (n mod 16)]"

definition fmt_02x :: "u8 \<Rightarrow> string" where "fmt_02x b = hex_fixed hex_lower 2 (unat b)"
definition fmt_04X :: "u16 \<Rightarrow> string" where "fmt_04X w = hex_fixed hex_upper 4 (unat w)"

lemma of_char_of_nat [simp]: "n < 256 \<Longrightarrow> (of_char (char_of n) :: nat) = n"
  by simp

lemma digit_val_digit_char: "d < 10 \<Longrightarrow> d < r \<Longrightarrow> digit_val r (digit_char d) = Some d"
  by (simp add: digit_val_def digit_char_def)

lemma digit_val_hex_lower: "d < 16 \<Longrightarrow> digit_val 16 (hex_lower d) = Some d"
  by (simp add: digit_val_def hex_lower_def)

lemma digit_val_hex_upper: "d < 16 \<Longrightarrow> digit_val 16 (hex_upper d) = Some d"
  by (simp add: digit_val_def hex_upper_def)

lemma digit_val_lt: "digit_val r c = Some d \<Longrightarrow> d < r"
  by (auto simp: digit_val_def Let_def split: if_splits)

lemma digits_nat_append:
  "digits_nat r acc (s @ t) = Option.bind (digits_nat r acc s) (\<lambda>n. digits_nat r n t)"
  by (induction r acc s rule: digits_nat.induct) (auto split: option.splits)

lemma digits_nat_dec: "digits_nat 10 0 (dec n) = Some n"
proof (induction n rule: dec.induct)
  case (1 n)
  show ?case
  proof (cases "n < 10")
    case True
    then show ?thesis by (subst dec.simps) (simp add: digit_val_digit_char)
  next
    case False
    with 1 have "digits_nat 10 0 (dec (n div 10)) = Some (n div 10)" by simp
    with False show ?thesis
      by (subst dec.simps) (simp add: digits_nat_append digit_val_digit_char)
  qed
qed

lemma hex_fixed_digits:
  assumes "\<And>d. d < 16 \<Longrightarrow> digit_val 16 (f d) = Some d"
  shows "digits_nat 16 0 (hex_fixed f k n) = Some (n mod 16 ^ k)"
proof (induction k arbitrary: n)
  case (Suc k)
  have "n div 16 mod 16 ^ k * 16 + n mod 16 = n mod (16 * 16 ^ k)"
    by (simp add: mod_mult2_eq)
  with Suc show ?case by (simp add: digits_nat_append assms)
qed simp

lemma length_hex_fixed [simp]: "length (hex_fixed f k n) = k"
  by (induction k arbitrary: n) auto

lemma set_hex_fixed: "c \<in> set (hex_fixed f k n) \<Longrightarrow> \<exists>d<16. c = f d"
proof (induction k arbitrary: n)
  case (Suc k)
  have "\<exists>d<16. f (n mod 16) = f d" by (intro exI [of _ "n mod 16"]) simp
  with Suc show ?case by auto
qed simp

lemma dec_nonempty [simp]: "dec n \<noteq> []"
  by (subst dec.simps) simp

lemma digit_char_is_digit: "d < 10 \<Longrightarrow> is_ascii_digit (digit_char d)"
  by (simp add: is_ascii_digit_def digit_char_def)

lemma dec_digits: "c \<in> set (dec n) \<Longrightarrow> is_ascii_digit c"
proof (induction n rule: dec.induct)
  case (1 n)
  show ?case
  proof (cases "n < 10")
    case True
    with 1(2) show ?thesis by (subst (asm) dec.simps) (simp add: digit_char_is_digit)
  next
    case False
    with 1(2) have "c \<in> set (dec (n div 10)) \<or> c = digit_char (n mod 10)"
      by (subst (asm) dec.simps) auto
    with 1(1) False show ?thesis by (auto simp: digit_char_is_digit)
  qed
qed

lemma strip_plus_digits: "\<forall>c\<in>set s. is_ascii_digit c \<Longrightarrow> strip_plus s = s"
  by (cases s) (auto simp: strip_plus_def is_ascii_digit_def)

lemma parse_unsigned_dec: "n < 2 ^ bits \<Longrightarrow> parse_unsigned bits 10 (dec n) = Some n"
  by (simp add: parse_unsigned_def strip_plus_digits dec_digits digits_nat_dec)

lemma parse_u64_dec [codec_simps]: "parse_u64 (dec (unat w)) = Some w"
  using unat_u64_lt [of w] by (simp add: parse_u64_def parse_unsigned_dec)

lemma parse_u8_dec [codec_simps]: "parse_u8 (dec (unat w)) = Some w"
  using unat_u8_lt [of w] by (simp add: parse_u8_def parse_unsigned_dec)

section \<open>IPv4 addresses\<close>

text \<open>
  An \<open>Ipv4Addr\<close> is its \<open>u32\<close> value, as \<open>u32::from\<close> gives it. The parser wants four
  decimal octets of one to three digits without a leading zero and nothing else.
\<close>

type_synonym ipv4 = u32

definition ipv4_new :: "u8 \<Rightarrow> u8 \<Rightarrow> u8 \<Rightarrow> u8 \<Rightarrow> ipv4" where
  "ipv4_new a b c d = u32_be [a, b, c, d]"

definition parse_octet :: "string \<Rightarrow> u8 option" where
  "parse_octet w =
     (if 1 \<le> length w \<and> length w \<le> 3 \<and> (\<forall>c\<in>set w. is_ascii_digit c) \<and>
         (length w > 1 \<longrightarrow> hd w \<noteq> CHR ''0'')
      then parse_u8 w else None)"

definition parse_ipv4 :: "string \<Rightarrow> ipv4 option" where
  "parse_ipv4 s = (case map parse_octet (split_char (CHR ''.'') s) of
       [Some a, Some b, Some c, Some d] \<Rightarrow> Some (ipv4_new a b c d)
     | _ \<Rightarrow> None)"

definition fmt_ipv4 :: "ipv4 \<Rightarrow> string" where
  "fmt_ipv4 ip = join ''.'' (map (\<lambda>b. dec (unat b)) (u32_to_be ip))"

lemma dec_small: "n < 10 \<Longrightarrow> dec n = [digit_char n]"
  by (simp add: dec.simps)

lemma dec_step: "10 \<le> n \<Longrightarrow> dec n = dec (n div 10) @ [digit_char (n mod 10)]"
  by (subst dec.simps) simp

lemma hd_dec: "0 < n \<Longrightarrow> hd (dec n) \<noteq> CHR ''0''"
proof (induction n rule: dec.induct)
  case (1 n)
  have z: "digit_char d \<noteq> CHR ''0''" if "0 < d" "d < 10" for d
  proof
    assume "digit_char d = CHR ''0''"
    then have "(of_char (digit_char d) :: nat) = 48" by simp
    with that show False by (simp add: digit_char_def)
  qed
  show ?case
  proof (cases "n < 10")
    case True
    with 1(2) z show ?thesis by (simp add: dec_small)
  next
    case False
    with 1 show ?thesis by (simp add: dec_step)
  qed
qed

lemma length_dec_u8: "n < 256 \<Longrightarrow> length (dec n) \<le> 3"
proof -
  assume "n < 256"
  then have "n div 10 div 10 < 10" by simp
  then show ?thesis
    by (cases "n < 10"; cases "n div 10 < 10") (simp_all add: dec_small dec_step)
qed

lemma parse_octet_dec [codec_simps]: "parse_octet (dec (unat b)) = Some b"
proof -
  have l: "length (dec (unat b)) \<le> 3" by (simp add: length_dec_u8)
  have "hd (dec (unat b)) \<noteq> CHR ''0''" if "1 < length (dec (unat b))"
  proof (rule hd_dec, rule ccontr)
    assume "\<not> 0 < unat b"
    with that show False by (simp add: dec_small)
  qed
  moreover have "1 \<le> length (dec (unat b))"
    by (simp add: Suc_le_eq)
  ultimately show ?thesis
    using l by (simp add: parse_octet_def dec_digits parse_u8_dec)
qed

lemma list4: "length xs = 4 \<Longrightarrow> \<exists>a b c d. xs = [a, b, c, d]"
  by (auto simp: length_Suc_conv eval_nat_numeral)

lemma parse_fmt_ipv4 [codec_simps]: "parse_ipv4 (fmt_ipv4 ip) = Some ip"
proof -
  obtain a b c d where o: "u32_to_be ip = [a, b, c, d]"
    using list4 [of "u32_to_be ip"] by auto
  have nd: "\<forall>w\<in>set (map (\<lambda>b. dec (unat b)) [a, b, c, d]). CHR ''.'' \<notin> set w"
    by (auto simp: is_ascii_digit_def dest!: dec_digits)
  have "split_char (CHR ''.'') (fmt_ipv4 ip) = map (\<lambda>b. dec (unat b)) [a, b, c, d]"
    unfolding fmt_ipv4_def o by (rule split_char_join [OF _ nd]) simp
  then show ?thesis
    using u32_be_to_be [of ip]
    by (simp add: parse_ipv4_def parse_octet_dec ipv4_new_def o)
qed

end
