(* ===== verification/Rust_Utf.thy ===== *)
theory Rust_Utf
  imports Rust_Str
begin

text \<open>
  UTF-8 and UTF-16 as \<open>String::from_utf8_lossy\<close>, \<open>str::from_utf8\<close>,
  \<open>str::encode_utf16\<close> and \<open>String::from_utf16_lossy\<close> use them. Byte and unit
  values are natural numbers here; a lossy decoder replaces every maximal
  ill-formed subpart by U+FFFD.
\<close>

section \<open>UTF-8\<close>

definition cont :: "nat \<Rightarrow> bool" where "cont b \<longleftrightarrow> 0x80 \<le> b \<and> b \<le> 0xBF"

text \<open>The byte at an index, or 0 past the end: \<open>safe_get\<close> of the standard library.\<close>

definition at :: "nat list \<Rightarrow> nat \<Rightarrow> nat" where
  "at bs i = (if i < length bs then bs ! i else 0)"

text \<open>The allowed second byte of a three- and four-byte sequence.\<close>

definition second3 :: "nat \<Rightarrow> nat \<Rightarrow> bool" where
  "second3 b c \<longleftrightarrow> (if b = 0xE0 then 0xA0 \<le> c \<and> c \<le> 0xBF
     else if b = 0xED then 0x80 \<le> c \<and> c \<le> 0x9F else cont c)"
definition second4 :: "nat \<Rightarrow> nat \<Rightarrow> bool" where
  "second4 b c \<longleftrightarrow> (if b = 0xF0 then 0x90 \<le> c \<and> c \<le> 0xBF
     else if b = 0xF4 then 0x80 \<le> c \<and> c \<le> 0x8F else cont c)"

text \<open>
  One step on a non-empty input: the code point and how many bytes it took, or the
  length of the ill-formed subpart.
\<close>

definition utf8_step :: "nat list \<Rightarrow> nat option \<times> nat" where
  "utf8_step bs = (let b = at bs 0; c = at bs 1; d = at bs 2; e = at bs 3 in
     if b < 0x80 then (Some b, 1)
     else if 0xC2 \<le> b \<and> b \<le> 0xDF then
       (if cont c then (Some ((b - 0xC0) * 64 + (c - 0x80)), 2) else (None, 1))
     else if 0xE0 \<le> b \<and> b \<le> 0xEF then
       (if \<not> second3 b c then (None, 1) else if \<not> cont d then (None, 2)
        else (Some ((b - 0xE0) * 4096 + (c - 0x80) * 64 + (d - 0x80)), 3))
     else if 0xF0 \<le> b \<and> b \<le> 0xF4 then
       (if \<not> second4 b c then (None, 1) else if \<not> cont d then (None, 2)
        else if \<not> cont e then (None, 3)
        else (Some ((b - 0xF0) * 262144 + (c - 0x80) * 4096 + (d - 0x80) * 64 + (e - 0x80)), 4))
     else (None, 1))"

lemma utf8_step_pos: "0 < snd (utf8_step bs)"
  by (simp add: utf8_step_def Let_def)

function utf8_decode :: "nat list \<Rightarrow> nat option list" where
  "utf8_decode bs = (if bs = [] then []
     else fst (utf8_step bs) # utf8_decode (drop (snd (utf8_step bs)) bs))"
  by pat_completeness auto
termination
  by (relation "measure length") (use utf8_step_pos in auto)

declare utf8_decode.simps [simp del]

definition utf8_encode :: "nat \<Rightarrow> nat list" where
  "utf8_encode n =
     (if n < 0x80 then [n]
      else if n < 0x800 then [0xC0 + n div 64, 0x80 + n mod 64]
      else if n < 0x10000 then [0xE0 + n div 4096, 0x80 + n div 64 mod 64, 0x80 + n mod 64]
      else [0xF0 + n div 262144, 0x80 + n div 4096 mod 64, 0x80 + n div 64 mod 64, 0x80 + n mod 64])"

definition scalar :: "nat \<Rightarrow> bool" where
  "scalar n \<longleftrightarrow> n < 0x110000 \<and> \<not> (0xD800 \<le> n \<and> n \<le> 0xDFFF)"

definition codes :: "string \<Rightarrow> nat list" where "codes s = map of_char s"
definition uncodes :: "nat list \<Rightarrow> string" where "uncodes bs = map char_of bs"

text \<open>\<open>str::from_utf8(..).is_ok()\<close>, \<open>str::chars\<close> and \<open>String::from_utf8_lossy\<close>.\<close>

definition utf8_valid :: "string \<Rightarrow> bool" where
  "utf8_valid s \<longleftrightarrow> None \<notin> set (utf8_decode (codes s))"

definition chars :: "string \<Rightarrow> nat list" where
  "chars s = map (\<lambda>c. unwrap_or c 0xFFFD) (utf8_decode (codes s))"

definition from_chars :: "nat list \<Rightarrow> string" where
  "from_chars cs = uncodes (concat (map utf8_encode cs))"

definition from_utf8_lossy :: "string \<Rightarrow> string" where
  "from_utf8_lossy s = from_chars (chars s)"

definition from_utf8 :: "string \<Rightarrow> string option" where
  "from_utf8 s = (if utf8_valid s then Some s else None)"

lemma cont_mod [simp]: "cont (128 + n mod 64)"
proof -
  have "n mod 64 < 64" by simp
  then show ?thesis by (simp add: cont_def)
qed

lemma at_Cons [simp]: "at (b # bs) 0 = b" "at (b # bs) (Suc i) = at bs i"
  by (simp_all add: at_def)

lemma at_numeral [simp]: "at (b # bs) (numeral k) = at bs (pred_numeral k)"
  by (simp add: numeral_eq_Suc)

lemma at_Nil [simp]: "at [] i = 0"
  by (simp add: at_def)

lemma take_numeral' [simp]: "take (numeral k) (b # bs) = b # take (pred_numeral k) bs"
  by (simp add: numeral_eq_Suc)

lemma at_nonzero: "0 < at bs i \<Longrightarrow> i < length bs"
  by (auto simp: at_def split: if_splits)


lemma split64': "n = n div 64 * 64 + n mod 64" for n :: nat
  by simp

lemma split64: "n = n div 4096 * 4096 + n div 64 mod 64 * 64 + n mod 64" for n :: nat
proof -
  have "n div 4096 = n div 64 div 64" by (simp add: div_mult2_eq [symmetric])
  then have "n div 64 = n div 4096 * 64 + n div 64 mod 64"
    using split64' [of "n div 64"] by simp
  then have "n div 64 * 64 = n div 4096 * 4096 + n div 64 mod 64 * 64" by linarith
  then show ?thesis using split64' [of n] by linarith
qed

lemma utf8_step_encode:
  assumes "scalar n"
  shows "utf8_step (utf8_encode n @ rest) = (Some n, length (utf8_encode n))"
proof -
  consider "n < 0x80" | "0x80 \<le> n" "n < 0x800" | "0x800 \<le> n" "n < 0x10000"
    | "0x10000 \<le> n" "n < 0x110000"
    using assms by (force simp: scalar_def)
  then show ?thesis
  proof cases
    case 1
    then show ?thesis by (simp add: utf8_step_def utf8_encode_def)
  next
    case 2
    then have "2 \<le> n div 64" "n div 64 < 32" by auto
    with 2 show ?thesis by (simp add: utf8_step_def utf8_encode_def Let_def)
  next
    case 3
    define x where "x = n div 4096"
    define y where "y = n div 64 mod 64"
    define z where "z = n mod 64"
    have n: "n = x * 4096 + y * 64 + z"
      using split64 [of n] by (simp add: x_def y_def z_def)
    have x: "x < 16" using 3 by (auto simp: x_def)
    have y: "y < 64" "z < 64" by (simp_all add: y_def z_def)
    have "x = 0 \<Longrightarrow> 32 \<le> y" using 3(1) n y by simp
    moreover have "x = 13 \<Longrightarrow> y < 32" using assms n y by (auto simp: scalar_def)
    ultimately have "second3 (224 + x) (128 + y)"
      using y by (auto simp: second3_def cont_def)
    moreover have "cont (128 + z)" using y by (simp add: cont_def)
    moreover have "utf8_encode n = [224 + x, 128 + y, 128 + z]"
      using 3 by (simp add: utf8_encode_def x_def y_def z_def)
    ultimately show ?thesis
      using x n by (simp add: utf8_step_def Let_def)
  next
    case 4
    define w where "w = n div 262144"
    define x where "x = n div 4096 mod 64"
    define y where "y = n div 64 mod 64"
    define z where "z = n mod 64"
    have n: "n = w * 262144 + x * 4096 + y * 64 + z"
      using split64 [of n] split64' [of "n div 4096"]
      by (simp add: w_def x_def y_def z_def div_mult2_eq [symmetric])
    have w: "w < 5" using 4 by (auto simp: w_def)
    have x: "x < 64" "y < 64" "z < 64" by (simp_all add: x_def y_def z_def)
    have "w = 0 \<Longrightarrow> 16 \<le> x" using 4(1) n x by simp
    moreover have "w = 4 \<Longrightarrow> x < 16" using 4(2) n x by simp
    ultimately have "second4 (240 + w) (128 + x)"
      using x by (auto simp: second4_def cont_def)
    moreover have "cont (128 + y)" "cont (128 + z)" using x by (simp_all add: cont_def)
    moreover have "utf8_encode n = [240 + w, 128 + x, 128 + y, 128 + z]"
      using 4 by (simp add: utf8_encode_def w_def x_def y_def z_def)
    ultimately show ?thesis
      using w n by (simp add: utf8_step_def Let_def)
  qed
qed

lemma utf8_encode_nonempty [simp]: "utf8_encode n \<noteq> []"
  by (simp add: utf8_encode_def)

lemma utf8_encode_bytes: "scalar n \<Longrightarrow> \<forall>b\<in>set (utf8_encode n). b < 256"
proof -
  assume "scalar n"
  then have "n < 0x110000" by (simp add: scalar_def)
  then have "n div 262144 < 5" "n < 0x800 \<Longrightarrow> n div 64 < 32" "n < 0x10000 \<Longrightarrow> n div 4096 < 16"
    by auto
  moreover have "m mod 64 < 64" for m :: nat by simp
  note this [of n] this [of "n div 64"] this [of "n div 4096"]
  ultimately show ?thesis by (auto simp: utf8_encode_def)
qed

lemma utf8_decode_encode:
  "\<forall>n\<in>set cs. scalar n \<Longrightarrow> utf8_decode (concat (map utf8_encode cs)) = map Some cs"
proof (induction cs)
  case Nil
  then show ?case by (simp add: utf8_decode.simps)
next
  case (Cons n cs)
  then show ?case
    by (subst utf8_decode.simps) (simp add: utf8_step_encode)
qed

section \<open>UTF-16\<close>

definition utf16_units :: "nat \<Rightarrow> nat list" where
  "utf16_units n = (if n < 0x10000 then [n]
     else [0xD800 + (n - 0x10000) div 0x400, 0xDC00 + (n - 0x10000) mod 0x400])"

definition encode_utf16 :: "string \<Rightarrow> nat list" where
  "encode_utf16 s = concat (map utf16_units (chars s))"

fun decode_utf16 :: "nat list \<Rightarrow> nat list" where
  "decode_utf16 [] = []"
| "decode_utf16 (u # us) =
     (if u < 0xD800 \<or> 0xDFFF < u then u # decode_utf16 us
      else if 0xDC00 \<le> u then 0xFFFD # decode_utf16 us
      else (case us of [] \<Rightarrow> [0xFFFD]
        | v # vs \<Rightarrow>
            if 0xDC00 \<le> v \<and> v \<le> 0xDFFF
            then (0x10000 + (u - 0xD800) * 0x400 + (v - 0xDC00)) # decode_utf16 vs
            else 0xFFFD # decode_utf16 us))"

definition from_utf16_lossy :: "nat list \<Rightarrow> string" where
  "from_utf16_lossy us = from_chars (decode_utf16 us)"

lemma decode_utf16_units:
  assumes "scalar n"
  shows "decode_utf16 (utf16_units n @ us) = n # decode_utf16 us"
proof (cases "n < 0x10000")
  case True
  with assms show ?thesis by (auto simp: utf16_units_def scalar_def)
next
  case False
  define m where "m = n - 0x10000"
  from False assms have m: "n = 0x10000 + m" "m < 0x100000" by (auto simp: m_def scalar_def)
  define q where "q = m div 1024"
  define r where "r = m mod 1024"
  have "q < 1024" "r < 1024" "m = q * 1024 + r" using m(2) by (auto simp: q_def r_def)
  moreover have "utf16_units n = [0xD800 + q, 0xDC00 + r]"
    using m(1) by (simp add: utf16_units_def q_def r_def)
  ultimately show ?thesis using m by simp
qed

lemma decode_utf16_encode:
  "\<forall>n\<in>set cs. scalar n \<Longrightarrow> decode_utf16 (concat (map utf16_units cs)) = cs"
  by (induction cs) (simp_all add: decode_utf16_units)

lemma utf16_units_bound: "scalar n \<Longrightarrow> \<forall>u\<in>set (utf16_units n). u < 65536"
proof -
  assume "scalar n"
  then have "n - 65536 < 1048576" by (auto simp: scalar_def)
  then have "(n - 65536) div 1024 < 1024" by auto
  moreover have "(n - 65536) mod 1024 < 1024" by simp
  ultimately show ?thesis by (auto simp: utf16_units_def)
qed

lemma utf16_units_zero: "0 < n \<Longrightarrow> 0 \<notin> set (utf16_units n)"
  by (auto simp: utf16_units_def)

lemma codes_uncodes: "\<forall>b\<in>set bs. b < 256 \<Longrightarrow> codes (uncodes bs) = bs"
  by (induction bs) (auto simp: codes_def uncodes_def)

lemma uncodes_codes [simp]: "uncodes (codes s) = s"
  by (simp add: codes_def uncodes_def comp_def)

lemma chars_from_chars [codec_simps]:
  assumes "\<forall>n\<in>set cs. scalar n"
  shows "chars (from_chars cs) = cs"
proof -
  have "\<forall>b\<in>set (concat (map utf8_encode cs)). b < 256"
    using assms utf8_encode_bytes by auto
  then have "codes (from_chars cs) = concat (map utf8_encode cs)"
    by (simp add: from_chars_def codes_uncodes)
  with assms show ?thesis
    by (simp add: chars_def utf8_decode_encode comp_def)
qed

lemma utf8_valid_from_chars:
  assumes "\<forall>n\<in>set cs. scalar n"
  shows "utf8_valid (from_chars cs)"
proof -
  have "\<forall>b\<in>set (concat (map utf8_encode cs)). b < 256"
    using assms utf8_encode_bytes by auto
  then have "codes (from_chars cs) = concat (map utf8_encode cs)"
    by (simp add: from_chars_def codes_uncodes)
  with assms show ?thesis
    by (auto simp: utf8_valid_def utf8_decode_encode)
qed

lemma utf16_round_trip [codec_simps]:
  "\<forall>n\<in>set cs. scalar n \<Longrightarrow> from_utf16_lossy (encode_utf16 (from_chars cs)) = from_chars cs"
  by (simp add: from_utf16_lossy_def encode_utf16_def chars_from_chars decode_utf16_encode)

text \<open>ASCII text is valid and its code points are its bytes.\<close>

definition ascii :: "string \<Rightarrow> bool" where
  "ascii s \<longleftrightarrow> (\<forall>c\<in>set s. (of_char c :: nat) < 128)"

lemma utf8_decode_ascii: "\<forall>b\<in>set bs. b < 128 \<Longrightarrow> utf8_decode bs = map Some bs"
proof (induction bs)
  case Nil
  then show ?case by (simp add: utf8_decode.simps)
next
  case (Cons b bs)
  then show ?case by (subst utf8_decode.simps) (simp add: utf8_step_def)
qed

lemma chars_ascii: "ascii s \<Longrightarrow> chars s = codes s"
  by (simp add: chars_def ascii_def codes_def utf8_decode_ascii comp_def)

lemma from_chars_ascii: "ascii s \<Longrightarrow> from_chars (codes s) = s"
proof (induction s)
  case (Cons c s)
  then show ?case
    by (simp add: ascii_def from_chars_def codes_def uncodes_def utf8_encode_def)
qed (simp add: from_chars_def codes_def uncodes_def)

lemma ascii_scalars: "ascii s \<Longrightarrow> \<forall>n\<in>set (codes s). scalar n"
  by (auto simp: ascii_def codes_def scalar_def)

lemma utf8_valid_ascii: "ascii s \<Longrightarrow> utf8_valid s"
  using utf8_valid_from_chars [of "codes s"] by (simp add: from_chars_ascii ascii_scalars)

lemma from_utf8_lossy_ascii: "ascii s \<Longrightarrow> from_utf8_lossy s = s"
  by (simp add: from_utf8_lossy_def chars_ascii from_chars_ascii)

end
