(* ===== verification/Sysfs.thy ===== *)
theory Sysfs
  imports Rust_Num Rust_Utf
begin

text \<open>
  The part of \<open>sysfs\<close> and of \<open>std::fs\<close> the collectors read: a tree of attributes,
  directories and symbolic links, and \<open>read_trimmed\<close> (\<open>src/probe/mod.rs\<close>). A path is
  the list of its components below a root node the caller holds.
\<close>

text \<open>
  \<open>NoAccess\<close> is a node whose reads fail; a link carries its target text and the node it
  resolves to, when that exists.
\<close>

datatype fsnode =
    Attr string
  | NoAccess
  | Dir "(string \<times> fsnode) list"
  | Link string "fsnode option"

primrec follow :: "fsnode \<Rightarrow> fsnode option" where
  "follow (Attr s) = Some (Attr s)"
| "follow NoAccess = Some NoAccess"
| "follow (Dir es) = Some (Dir es)"
| "follow (Link t n) = (case map_option follow n of None \<Rightarrow> None | Some r \<Rightarrow> r)"

definition child :: "fsnode \<Rightarrow> string \<Rightarrow> fsnode option" where
  "child n name = (case follow n of
       Some (Dir es) \<Rightarrow> map_of es name
     | _ \<Rightarrow> None)"

text \<open>\<open>lstat\<close>-style lookup: links are followed on the way, not at the end.\<close>

fun lookup :: "fsnode \<Rightarrow> string list \<Rightarrow> fsnode option" where
  "lookup n [] = Some n"
| "lookup n (p # ps) = Option.bind (child n p) (\<lambda>m. lookup m ps)"

text \<open>\<open>Path::exists\<close>, \<open>fs::read_to_string(..).ok()\<close>, \<open>fs::read_link\<close> and \<open>fs::read_dir\<close>.\<close>

definition path_exists :: "fsnode \<Rightarrow> string list \<Rightarrow> bool" where
  "path_exists n ps \<longleftrightarrow> Option.bind (lookup n ps) follow \<noteq> None"

definition read_to_string :: "fsnode \<Rightarrow> string list \<Rightarrow> string option" where
  "read_to_string n ps = (case Option.bind (lookup n ps) follow of
       Some (Attr s) \<Rightarrow> if utf8_valid s then Some s else None
     | _ \<Rightarrow> None)"

definition read_link :: "fsnode \<Rightarrow> string list \<Rightarrow> string option" where
  "read_link n ps = (case lookup n ps of Some (Link t _) \<Rightarrow> Some t | _ \<Rightarrow> None)"

definition read_dir :: "fsnode \<Rightarrow> string list \<Rightarrow> string list option" where
  "read_dir n ps = (case Option.bind (lookup n ps) follow of
       Some (Dir es) \<Rightarrow> Some (map fst es)
     | _ \<Rightarrow> None)"

text \<open>Entry names that are valid UTF-8: \<open>file_name().into_string().ok()\<close>.\<close>

definition utf8_names :: "string list \<Rightarrow> string list" where
  "utf8_names ns = filter utf8_valid ns"

text \<open>\<open>read_trimmed\<close>: the trimmed contents, or \<open>None\<close> when unreadable or blank.\<close>

definition read_trimmed :: "fsnode \<Rightarrow> string list \<Rightarrow> string option" where
  "read_trimmed n ps = Option.bind (read_to_string n ps)
     (\<lambda>raw. let trimmed = trim raw in if trimmed = [] then None else Some trimmed)"

section \<open>Trimming of plain text\<close>

text \<open>Printable ASCII without the space: never trimmed.\<close>

definition graphic :: "char \<Rightarrow> bool" where
  "graphic c \<longleftrightarrow> 0x21 \<le> (of_char c :: nat) \<and> of_char c \<le> (0x7E :: nat)"

lemma ws_chars_ends: "\<forall>w\<in>set ws_chars. w \<noteq> [] \<and> \<not> graphic (hd w) \<and> \<not> graphic (last w)"
  by (simp add: ws_chars_def graphic_def)

lemma strip_any_graphic:
  assumes "\<forall>w\<in>set ps. w \<noteq> [] \<longrightarrow> \<not> graphic (hd w)" and "s = [] \<or> graphic (hd s)"
  shows "strip_any ps s = s"
proof (rule strip_any_fix, intro ballI impI notI)
  fix p
  assume p: "p \<in> set ps" "p \<noteq> []" "starts_with p s"
  then obtain t where "s = p @ t" by (auto simp: starts_with_iff)
  with p(2) have "s \<noteq> []" "hd s = hd p" by auto
  with assms p show False by auto
qed

lemma trim_start_graphic: "s = [] \<or> graphic (hd s) \<Longrightarrow> trim_start s = s"
  unfolding trim_start_def using ws_chars_ends by (intro strip_any_graphic) auto

lemma trim_end_graphic: "s = [] \<or> graphic (last s) \<Longrightarrow> trim_end s = s"
proof -
  assume "s = [] \<or> graphic (last s)"
  then have "strip_any (map rev ws_chars) (rev s) = rev s"
    using ws_chars_ends by (intro strip_any_graphic) (auto simp: hd_rev)
  then show ?thesis by (simp add: trim_end_def)
qed

lemma trim_graphic: "s = [] \<or> graphic (hd s) \<and> graphic (last s) \<Longrightarrow> trim s = s"
  unfolding trim_def using trim_start_graphic [of s] trim_end_graphic [of s] by auto

lemma starts_with_simps [simp]:
  "starts_with [] s"
  "starts_with (c # p) (d # s) \<longleftrightarrow> c = d \<and> starts_with p s"
  "\<not> starts_with (c # p) []"
  by (auto simp: starts_with_def)

lemma strip_any_newline:
  "strip_any (map rev ws_chars) (CHR 0x0A # s) = strip_any (map rev ws_chars) s"
  by (subst strip_any.simps) (simp add: ws_chars_def)

lemma trim_line:
  assumes "s \<noteq> []" "graphic (hd s)" "graphic (last s)"
  shows "trim (s @ [CHR 0x0A]) = s"
proof -
  have "trim_start (s @ [CHR 0x0A]) = s @ [CHR 0x0A]"
    using assms by (intro trim_start_graphic) simp
  moreover have "trim_end (s @ [CHR 0x0A]) = trim_end s"
    by (simp add: trim_end_def strip_any_newline)
  ultimately show ?thesis using assms trim_end_graphic [of s] by (simp add: trim_def)
qed

lemma trim_blank: "trim [CHR 0x0A] = []"
proof -
  have "trim_start [CHR 0x0A] = strip_any ws_chars []"
    unfolding trim_start_def by (subst strip_any.simps) (simp add: ws_chars_def)
  also have "\<dots> = []" by (rule strip_any_graphic) (use ws_chars_ends in auto)
  finally show ?thesis using trim_end_graphic [of "[]"] by (simp add: trim_def)
qed

text \<open>An attribute holding a line of plain ASCII reads as that line.\<close>

lemma graphic_ascii: "\<forall>c\<in>set s. graphic c \<Longrightarrow> ascii s"
  by (auto simp: ascii_def graphic_def)

lemma read_trimmed_line:
  assumes "lookup n ps = Some (Attr (s @ [CHR 0x0A]))" "s \<noteq> []" "\<forall>c\<in>set s. graphic c"
  shows "read_trimmed n ps = Some s"
proof -
  have "ascii (s @ [CHR 0x0A])" using graphic_ascii [OF assms(3)] by (simp add: ascii_def)
  with assms show ?thesis
    by (simp add: read_trimmed_def read_to_string_def utf8_valid_ascii trim_line)
qed

lemma read_trimmed_plain:
  assumes "lookup n ps = Some (Attr s)" "s \<noteq> []" "\<forall>c\<in>set s. graphic c"
  shows "read_trimmed n ps = Some s"
  using assms graphic_ascii [OF assms(3)]
  by (simp add: read_trimmed_def read_to_string_def utf8_valid_ascii trim_graphic)

lemma read_trimmed_missing: "lookup n ps = None \<Longrightarrow> read_trimmed n ps = None"
  by (simp add: read_trimmed_def read_to_string_def)

lemma read_trimmed_nonempty: "read_trimmed n ps = Some s \<Longrightarrow> s \<noteq> []"
  by (auto simp: read_trimmed_def Let_def bind_eq_Some_conv split: if_splits)

end
