(* ===== verification/Net_Config.thy ===== *)
theory Net_Config
  imports Sysfs
begin

text \<open>
  The address arithmetic of \<open>src/net.rs\<close>: subnet masks and the static network
  specification \<open>beskar7.ip\<close>.
\<close>

section \<open>Errors\<close>

datatype net_error =
    NoInterface
  | BootifNoMatch string
  | StaticAmbiguous
  | SysRead string
  | SocketError errno
  | DhcpTimeout
  | DhcpMalformed
  | NetlinkError string errno

section \<open>Masks\<close>

definition count_ones :: "u32 \<Rightarrow> nat" where
  "count_ones w = length (filter (bit w) [0..<32])"

text \<open>\<open>u32::leading_ones\<close>: how many of the top bits are set before the first clear one.\<close>

definition leading_ones :: "u32 \<Rightarrow> nat" where
  "leading_ones w = length (takeWhile (bit w) (rev [0..<32]))"

definition mask_to_prefix_len :: "ipv4 \<Rightarrow> u8" where
  "mask_to_prefix_len m =
     (let ones = count_ones m in
      if leading_ones m = ones then word_of_nat ones else 24)"

text \<open>The netmask of a prefix length.\<close>

definition prefix_mask :: "nat \<Rightarrow> ipv4" where
  "prefix_mask p = push_bit (32 - p) (mask p)"

definition parse_mask :: "string \<Rightarrow> u8 option" where
  "parse_mask s = (case parse_ipv4 s of
       Some m \<Rightarrow> Some (mask_to_prefix_len m)
     | None \<Rightarrow> Option.bind (parse_u8 s) (\<lambda>p. if p \<le> 32 then Some p else None))"

section \<open>The static specification\<close>

record static_ip =
  st_ip :: ipv4
  st_gateway :: "ipv4 option"
  st_prefix_len :: u8
  st_dns :: "ipv4 list"

definition static_ip_parse :: "string \<Rightarrow> static_ip option" where
  "static_ip_parse value = (let f = split_char (CHR '':'') value in
     if length f < 4 \<or> length f > 5 then None
     else Option.bind (parse_ipv4 (f ! 0)) (\<lambda>ip.
       Option.bind (if f ! 2 = [] then Some None else map_option Some (parse_ipv4 (f ! 2))) (\<lambda>gateway.
       Option.bind (parse_mask (f ! 3)) (\<lambda>prefix_len.
       Option.bind (if length f = 5 \<and> f ! 4 \<noteq> []
             then map_option (\<lambda>d. [d]) (parse_ipv4 (f ! 4)) else Some []) (\<lambda>dns.
       Some \<lparr>st_ip = ip, st_gateway = gateway, st_prefix_len = prefix_len, st_dns = dns\<rparr>)))))"

section \<open>Lemmas\<close>

lemma bit_prefix_mask: "p \<le> 32 \<Longrightarrow> bit (prefix_mask p) i \<longleftrightarrow> 32 - p \<le> i \<and> i < 32"
  by (auto simp: prefix_mask_def bit_simps)

lemma prefix_mask_filter: "p \<le> 32 \<Longrightarrow> filter (bit (prefix_mask p)) [0..<32] = [32 - p..<32]"
proof -
  assume p: "p \<le> 32"
  then have "[0..<32] = [0..<32 - p] @ [32 - p..<32]"
    using upt_add_eq_append [of 0 "32 - p" p] by simp
  moreover have "filter (bit (prefix_mask p)) [0..<32 - p] = []"
    using p by (simp add: filter_empty_conv bit_prefix_mask)
  moreover have "filter (bit (prefix_mask p)) [32 - p..<32] = [32 - p..<32]"
    using p by (intro filter_True) (simp add: bit_prefix_mask)
  ultimately show ?thesis by simp
qed

lemma count_ones_prefix_mask: "p \<le> 32 \<Longrightarrow> count_ones (prefix_mask p) = p"
  by (simp add: count_ones_def prefix_mask_filter)

lemma leading_ones_prefix_mask: "p \<le> 32 \<Longrightarrow> leading_ones (prefix_mask p) = p"
proof -
  assume p: "p \<le> 32"
  then have "rev [0..<32] = rev [32 - p..<32] @ rev [0..<32 - p]"
    using upt_add_eq_append [of 0 "32 - p" p] by simp
  moreover have "takeWhile (bit (prefix_mask p)) (rev [32 - p..<32] @ rev [0..<32 - p]) = rev [32 - p..<32]"
  proof (cases "p = 32")
    case True
    then show ?thesis by (simp add: takeWhile_eq_all_conv bit_prefix_mask)
  next
    case False
    then have r: "rev [0..<32 - p] = (32 - p - 1) # rev [0..<32 - p - 1]"
      using p by (cases "32 - p") auto
    have all: "\<And>i. i \<in> set (rev [32 - p..<32]) \<Longrightarrow> bit (prefix_mask p) i"
      using p by (simp add: bit_prefix_mask)
    have stop: "\<not> bit (prefix_mask p) (32 - p - 1)"
      using p False by (simp add: bit_prefix_mask)
    show ?thesis
      unfolding r by (subst takeWhile_append2) (use all stop in simp_all)
  qed
  ultimately show ?thesis using p by (simp add: leading_ones_def)
qed

lemma mask_round_trip: "p \<le> 32 \<Longrightarrow> mask_to_prefix_len (prefix_mask p) = word_of_nat p"
  by (simp add: mask_to_prefix_len_def count_ones_prefix_mask leading_ones_prefix_mask)

lemma count_ones_le: "count_ones w \<le> 32"
  unfolding count_ones_def by (rule order.trans [OF length_filter_le]) simp

text \<open>A mask with as many leading ones as ones is the mask of that length.\<close>

lemma leading_bits: "j < leading_ones m \<Longrightarrow> bit m (31 - j)"
proof -
  assume j: "j < leading_ones m"
  let ?w = "takeWhile (bit m) (rev [0..<32])"
  have l: "j < length ?w" using j by (simp add: leading_ones_def)
  then have "j < 32" using length_takeWhile_le [of "bit m" "rev [0..<32]"] by simp
  have "bit m (?w ! j)" using nth_mem [OF l] set_takeWhileD by metis
  also have "?w ! j = rev [0..<32] ! j" using l by (rule takeWhile_nth)
  also have "\<dots> = 31 - j" using \<open>j < 32\<close> by (simp add: rev_nth)
  finally show ?thesis .
qed

lemma contiguous_mask:
  assumes "leading_ones m = count_ones m"
  shows "m = prefix_mask (count_ones m)"
proof -
  let ?n = "count_ones m"
  have n: "?n \<le> 32" by (rule count_ones_le)
  have top: "{i. 32 - ?n \<le> i \<and> i < 32} \<subseteq> {i. i < 32 \<and> bit m i}"
  proof
    fix i
    assume i: "i \<in> {i. 32 - ?n \<le> i \<and> i < 32}"
    then have "31 - i < leading_ones m" using assms n by auto
    from leading_bits [OF this] i show "i \<in> {i. i < 32 \<and> bit m i}" by auto
  qed
  have "card {i. 32 - ?n \<le> i \<and> i < 32} = ?n"
  proof -
    have "{i. 32 - ?n \<le> i \<and> i < 32} = {32 - ?n..<32}" by auto
    then show ?thesis using n by simp
  qed
  moreover have "card {i. i < 32 \<and> bit m i} = ?n"
  proof -
    have "?n = card (set (filter (bit m) [0..<32]))"
      unfolding count_ones_def by (rule distinct_card [symmetric]) simp
    also have "set (filter (bit m) [0..<32]) = {i. i < 32 \<and> bit m i}" by auto
    finally show ?thesis by simp
  qed
  ultimately have "{i. 32 - ?n \<le> i \<and> i < 32} = {i. i < 32 \<and> bit m i}"
    using top by (intro card_subset_eq) simp_all
  then have eq: "(32 - ?n \<le> i \<and> i < 32) = (i < 32 \<and> bit m i)" for i by blast
  show ?thesis
  proof (rule bit_word_eqI)
    fix i
    assume "i < LENGTH(32)"
    then show "bit m i = bit (prefix_mask ?n) i" using eq [of i] n by (simp add: bit_prefix_mask)
  qed
qed

lemma mask_to_prefix_len_le: "mask_to_prefix_len m \<le> 32"
proof (cases "leading_ones m = count_ones m")
  case True
  have "count_ones m < 256" using count_ones_le [of m] by linarith
  with True show ?thesis
    using count_ones_le [of m]
    by (simp add: mask_to_prefix_len_def word_le_nat_alt unat_u8_of_nat)
qed (simp add: mask_to_prefix_len_def)

lemma parse_mask_le: "parse_mask s = Some p \<Longrightarrow> p \<le> 32"
  by (auto simp: parse_mask_def mask_to_prefix_len_le bind_eq_Some_conv split: option.splits if_splits)

text \<open>A decimal prefix length is not an address.\<close>

lemma parse_ipv4_no_dot: "CHR ''.'' \<notin> set s \<Longrightarrow> parse_ipv4 s = None"
proof -
  assume "CHR ''.'' \<notin> set s"
  then have "split_pred (\<lambda>c. c = CHR ''.'') s = [s]" by (intro split_pred_none) auto
  then show ?thesis by (simp add: parse_ipv4_def split_char_def split: option.splits)
qed

lemma parse_mask_prefix: "p \<le> 32 \<Longrightarrow> parse_mask (dec (unat p)) = Some p"
proof -
  assume "p \<le> 32"
  moreover have "parse_ipv4 (dec (unat p)) = None"
    by (intro parse_ipv4_no_dot notI) (auto simp: is_ascii_digit_def dest: dec_digits)
  ultimately show ?thesis by (simp add: parse_mask_def parse_u8_dec)
qed

text \<open>The text form of a specification: \<open><ip>::<gw>:<prefix>[:<dns>]\<close>.\<close>

definition static_ip_text :: "static_ip \<Rightarrow> string" where
  "static_ip_text s = join '':''
     ([fmt_ipv4 (st_ip s), [], (case st_gateway s of None \<Rightarrow> [] | Some g \<Rightarrow> fmt_ipv4 g),
       dec (unat (st_prefix_len s))] @ map fmt_ipv4 (st_dns s))"

lemma set_join: "set (join d ws) \<subseteq> set d \<union> \<Union> (set (map set ws))"
  by (induction d ws rule: join.induct) auto

lemma fmt_ipv4_chars: "c \<in> set (fmt_ipv4 ip) \<Longrightarrow> c = CHR ''.'' \<or> is_ascii_digit c"
  using set_join [of "''.''" "map (\<lambda>b. dec (unat b)) (u32_to_be ip)"]
  by (auto simp: fmt_ipv4_def dest!: dec_digits)

lemma fmt_ipv4_nonempty [simp]: "fmt_ipv4 ip \<noteq> []"
proof
  assume "fmt_ipv4 ip = []"
  then have "parse_ipv4 [] = Some ip" using parse_fmt_ipv4 [of ip] by simp
  then show False by (simp add: parse_ipv4_no_dot)
qed

lemma colon_free: "CHR '':'' \<notin> set (fmt_ipv4 ip)" "CHR '':'' \<notin> set (dec n)"
  by (auto simp: is_ascii_digit_def dest!: fmt_ipv4_chars dec_digits)

lemma static_ip_round_trip:
  assumes "st_prefix_len s \<le> 32" "length (st_dns s) \<le> 1"
  shows "static_ip_parse (static_ip_text s) = Some s"
proof -
  define ws where "ws = [fmt_ipv4 (st_ip s), [],
    (case st_gateway s of None \<Rightarrow> [] | Some g \<Rightarrow> fmt_ipv4 g), dec (unat (st_prefix_len s))]
    @ map fmt_ipv4 (st_dns s)"
  have "split_char (CHR '':'') (static_ip_text s) = ws"
    unfolding static_ip_text_def ws_def
    by (rule split_char_join) (auto simp: colon_free split: option.splits)
  moreover have "length ws = 4 + length (st_dns s)" by (simp add: ws_def)
  moreover have "(if ws ! 2 = [] then Some None else map_option Some (parse_ipv4 (ws ! 2)))
      = Some (st_gateway s)"
    by (cases "st_gateway s") (simp_all add: ws_def parse_fmt_ipv4)
  moreover have "(if length ws = 5 \<and> ws ! 4 \<noteq> [] then map_option (\<lambda>d. [d]) (parse_ipv4 (ws ! 4))
      else Some []) = Some (st_dns s)"
    using assms(2) by (cases "st_dns s") (auto simp: ws_def parse_fmt_ipv4)
  moreover have "ws ! 0 = fmt_ipv4 (st_ip s)" "ws ! 3 = dec (unat (st_prefix_len s))"
    by (simp_all add: ws_def)
  ultimately show ?thesis
    using assms by (simp add: static_ip_parse_def Let_def parse_fmt_ipv4 parse_mask_prefix)
qed

section \<open>Properties\<close>

text \<open>
  A static network specification written as \<open><ip>::<gw>:<prefix>[:<dns>]\<close> parses back to
  itself, for every address, optional gateway, prefix length up to 32 and at most one DNS
  server.
\<close>

theorem static_ip_text_parse:
  assumes "st_prefix_len s \<le> 32" "length (st_dns s) \<le> 1"
  shows "static_ip_parse (static_ip_text s) = Some s"
  using assms by (rule static_ip_round_trip)

theorem static_ip_text_parse_witness:
  "static_ip_parse (static_ip_text \<lparr>st_ip = ipv4_new 192 168 150 10,
     st_gateway = Some (ipv4_new 192 168 150 1), st_prefix_len = 24, st_dns = []\<rparr>) =
   Some \<lparr>st_ip = ipv4_new 192 168 150 10, st_gateway = Some (ipv4_new 192 168 150 1),
     st_prefix_len = 24, st_dns = []\<rparr>"
  by (rule static_ip_text_parse) simp_all

text \<open>
  The prefix length of a mask is at most 32; the mask of a prefix length gives that
  length back, and a mask whose set bits are not all at the top gives 24.
\<close>

lemma mask_prefix_spec:
  "mask_to_prefix_len m \<le> 32 \<and>
   (if \<exists>p\<le>32. m = prefix_mask p
    then m = prefix_mask (unat (mask_to_prefix_len m)) else mask_to_prefix_len m = 24)"
proof (cases "\<exists>p\<le>32. m = prefix_mask p")
  case True
  then obtain p where "p \<le> 32" "m = prefix_mask p" by blast
  moreover from this have "unat (mask_to_prefix_len m) = p"
    by (simp add: mask_round_trip unat_u8_of_nat)
  ultimately show ?thesis by (auto simp: mask_to_prefix_len_le)
next
  case False
  then have "leading_ones m \<noteq> count_ones m" using contiguous_mask [of m] count_ones_le [of m] by metis
  then have "mask_to_prefix_len m = 24" by (simp add: mask_to_prefix_len_def)
  with False show ?thesis by simp
qed

end
