(* ===== verification/Cmdline.thy ===== *)
theory Cmdline
  imports Net_Config
begin

text \<open>
  \<open>src/cmdline.rs\<close> and \<open>src/secret.rs\<close>: the boot parameters rendered on the kernel
  command line, their parser and its errors, and the redacted printing of the token.
\<close>

section \<open>Secrets\<close>

text \<open>\<open>Secret(String)\<close>: only \<open>expose\<close> gives the value; debug printing gives a fixed text.\<close>

datatype secret = Secret (expose: string)

definition secret_new :: "string \<Rightarrow> secret" where "secret_new s = Secret s"
definition secret_debug :: "secret \<Rightarrow> string" where "secret_debug s = ''Secret([redacted])''"

section \<open>Parameters\<close>

record boot_params =
  bp_api :: string
  bp_namespace :: string
  bp_host :: string
  bp_token :: secret
  bp_target :: string
  bp_target_digest :: string
  bp_provider_id :: string
  bp_ca :: string
  bp_disk :: "string option"
  bp_bootif :: "string option"
  bp_ip :: "static_ip option"
  bp_timeout :: "u64 option"
  bp_debug :: bool

datatype cmdline_error =
    MissingRequired string
  | InvalidTimeout
  | InvalidStaticIp
  | CmdlineIo io_error

text \<open>The local variables of the parser.\<close>

record parse_state =
  p_api :: "string option"
  p_namespace :: "string option"
  p_host :: "string option"
  p_token :: "string option"
  p_target :: "string option"
  p_target_digest :: "string option"
  p_provider_id :: "string option"
  p_ca :: "string option"
  p_disk :: "string option"
  p_bootif :: "string option"
  p_ip :: "static_ip option"
  p_timeout :: "u64 option"
  p_debug :: bool

definition init_state :: parse_state where
  "init_state = \<lparr>p_api = None, p_namespace = None, p_host = None, p_token = None, p_target = None,
     p_target_digest = None, p_provider_id = None, p_ca = None, p_disk = None, p_bootif = None,
     p_ip = None, p_timeout = None, p_debug = False\<rparr>"

definition non_empty :: "string \<Rightarrow> string option" where
  "non_empty v = (if v = [] then None else Some v)"

text \<open>One \<open>key=value\<close> of the loop's \<open>match\<close>.\<close>

definition set_key :: "string \<Rightarrow> string \<Rightarrow> parse_state \<Rightarrow> cmdline_error + parse_state" where
  "set_key key v st =
     (if key = ''beskar7.api'' then Inr (st\<lparr>p_api := non_empty v\<rparr>)
      else if key = ''beskar7.namespace'' then Inr (st\<lparr>p_namespace := non_empty v\<rparr>)
      else if key = ''beskar7.host'' then Inr (st\<lparr>p_host := non_empty v\<rparr>)
      else if key = ''beskar7.token'' then Inr (st\<lparr>p_token := non_empty v\<rparr>)
      else if key = ''beskar7.target'' then Inr (st\<lparr>p_target := non_empty v\<rparr>)
      else if key = ''beskar7.target-digest'' then Inr (st\<lparr>p_target_digest := non_empty v\<rparr>)
      else if key = ''beskar7.provider-id'' then Inr (st\<lparr>p_provider_id := non_empty v\<rparr>)
      else if key = ''beskar7.ca'' then Inr (st\<lparr>p_ca := non_empty v\<rparr>)
      else if key = ''beskar7.disk'' then Inr (st\<lparr>p_disk := non_empty v\<rparr>)
      else if key = ''BOOTIF'' then Inr (st\<lparr>p_bootif := non_empty v\<rparr>)
      else if key = ''beskar7.ip'' then
        (case non_empty v of None \<Rightarrow> Inr st
         | Some w \<Rightarrow> rbind (ok_or (static_ip_parse w) InvalidStaticIp)
             (\<lambda>ip. Inr (st\<lparr>p_ip := Some ip\<rparr>)))
      else if key = ''beskar7.timeout'' then
        (if v = [] then Inr st
         else rbind (ok_or (parse_u64 v) InvalidTimeout) (\<lambda>secs. Inr (st\<lparr>p_timeout := Some secs\<rparr>)))
      else if key = ''beskar7.debug'' then Inr (st\<lparr>p_debug := eq_ignore_ascii_case v ''true''\<rparr>)
      else Inr st)"

definition set_param :: "string \<Rightarrow> parse_state \<Rightarrow> cmdline_error + parse_state" where
  "set_param param st = (case split_once (CHR ''='') param of
       None \<Rightarrow> Inr st
     | Some (key, v) \<Rightarrow> set_key key v st)"

fun set_params :: "string list \<Rightarrow> parse_state \<Rightarrow> cmdline_error + parse_state" where
  "set_params [] st = Inr st"
| "set_params (p # ps) st = rbind (set_param p st) (set_params ps)"

definition required :: "parse_state \<Rightarrow> (string \<times> string option) list" where
  "required st =
     [(''beskar7.api'', p_api st), (''beskar7.namespace'', p_namespace st),
      (''beskar7.host'', p_host st), (''beskar7.token'', p_token st),
      (''beskar7.target'', p_target st), (''beskar7.target-digest'', p_target_digest st),
      (''beskar7.provider-id'', p_provider_id st), (''beskar7.ca'', p_ca st)]"

definition missing :: "parse_state \<Rightarrow> string list" where
  "missing st = map fst (filter (\<lambda>(name, value). value = None) (required st))"

definition params_parse :: "string \<Rightarrow> cmdline_error + boot_params" where
  "params_parse cmdline =
     rbind (set_params (split_ascii_whitespace cmdline) init_state) (\<lambda>st.
     if missing st \<noteq> [] then Inl (MissingRequired (join '', '' (missing st)))
     else Inr \<lparr>bp_api = the (p_api st), bp_namespace = the (p_namespace st),
            bp_host = the (p_host st), bp_token = secret_new (the (p_token st)),
            bp_target = the (p_target st), bp_target_digest = the (p_target_digest st),
            bp_provider_id = the (p_provider_id st), bp_ca = the (p_ca st),
            bp_disk = p_disk st, bp_bootif = p_bootif st, bp_ip = p_ip st,
            bp_timeout = p_timeout st, bp_debug = p_debug st\<rparr>)"

definition from_proc_cmdline :: "io_error + string \<Rightarrow> cmdline_error + boot_params" where
  "from_proc_cmdline contents = rbind (map_err CmdlineIo contents) params_parse"

section \<open>What a key ends up with\<close>

text \<open>The values given for a key, in order.\<close>

definition values_of :: "string \<Rightarrow> string list \<Rightarrow> string list" where
  "values_of key ps = List.map_filter (\<lambda>p. case split_once (CHR ''='') p of
       Some (k, v) \<Rightarrow> if k = key then Some v else None | None \<Rightarrow> None) ps"

definition last_value :: "string \<Rightarrow> string list \<Rightarrow> string option" where
  "last_value key ps = (if values_of key ps = [] then None else non_empty (last (values_of key ps)))"

lemma values_of_Nil [simp]: "values_of k [] = []"
  by (simp add: values_of_def map_filter_simps)

lemma values_of_Cons:
  "values_of k (p # ps) = (case split_once (CHR ''='') p of
      Some (k', v) \<Rightarrow> if k' = k then v # values_of k ps else values_of k ps
    | None \<Rightarrow> values_of k ps)"
  by (auto simp: values_of_def map_filter_simps split: option.splits)

text \<open>A field that one key sets to its value and no other touches.\<close>

lemma field_last:
  assumes step: "\<And>k v st st'. set_key k v st = Inr st' \<Longrightarrow>
      sel st' = (if k = key then non_empty v else sel st)"
  shows "set_params ps st = Inr st' \<Longrightarrow>
     sel st' = (if values_of key ps = [] then sel st else last_value key ps)"
proof (induction ps arbitrary: st)
  case (Cons p ps)
  from Cons.prems obtain st1 where 1: "set_param p st = Inr st1" "set_params ps st1 = Inr st'"
    by (auto simp: rbind_eq_Inr)
  show ?case
  proof (cases "split_once (CHR ''='') p")
    case None
    with 1 Cons.IH show ?thesis by (simp add: set_param_def values_of_Cons last_value_def)
  next
    case (Some kv)
    obtain k v where kv: "kv = (k, v)" by fastforce
    with Some 1(1) have "sel st1 = (if k = key then non_empty v else sel st)"
      by (intro step) (simp add: set_param_def)
    with Cons.IH [OF 1(2)] Some kv show ?thesis by (simp add: values_of_Cons last_value_def)
  qed
qed simp

lemma set_key_fields:
  assumes "set_key k v st = Inr st'"
  shows "p_api st' = (if k = ''beskar7.api'' then non_empty v else p_api st)"
    "p_namespace st' = (if k = ''beskar7.namespace'' then non_empty v else p_namespace st)"
    "p_host st' = (if k = ''beskar7.host'' then non_empty v else p_host st)"
    "p_token st' = (if k = ''beskar7.token'' then non_empty v else p_token st)"
    "p_target st' = (if k = ''beskar7.target'' then non_empty v else p_target st)"
    "p_target_digest st' = (if k = ''beskar7.target-digest'' then non_empty v else p_target_digest st)"
    "p_provider_id st' = (if k = ''beskar7.provider-id'' then non_empty v else p_provider_id st)"
    "p_ca st' = (if k = ''beskar7.ca'' then non_empty v else p_ca st)"
    "p_disk st' = (if k = ''beskar7.disk'' then non_empty v else p_disk st)"
    "p_bootif st' = (if k = ''BOOTIF'' then non_empty v else p_bootif st)"
  using assms by (auto simp: set_key_def rbind_eq_Inr split: if_splits option.splits)

text \<open>The required keys, and which of them are absent.\<close>

definition required_keys :: "string list" where
  "required_keys = [''beskar7.api'', ''beskar7.namespace'', ''beskar7.host'', ''beskar7.token'',
     ''beskar7.target'', ''beskar7.target-digest'', ''beskar7.provider-id'', ''beskar7.ca'']"

definition absent_keys :: "string list \<Rightarrow> string list" where
  "absent_keys ps = filter (\<lambda>k. last_value k ps = None) required_keys"

lemma field_last_init:
  assumes "\<And>k v st st'. set_key k v st = Inr st' \<Longrightarrow>
      sel st' = (if k = key then non_empty v else sel st)"
    and "sel init_state = None" and "set_params ps init_state = Inr st"
  shows "sel st = last_value key ps"
  using field_last [where sel = sel and key = key, OF assms(1) assms(3)] assms(2)
  by (simp add: last_value_def)

lemma fields_last:
  assumes "set_params ps init_state = Inr st"
  shows "p_api st = last_value ''beskar7.api'' ps"
    "p_namespace st = last_value ''beskar7.namespace'' ps"
    "p_host st = last_value ''beskar7.host'' ps"
    "p_token st = last_value ''beskar7.token'' ps"
    "p_target st = last_value ''beskar7.target'' ps"
    "p_target_digest st = last_value ''beskar7.target-digest'' ps"
    "p_provider_id st = last_value ''beskar7.provider-id'' ps"
    "p_ca st = last_value ''beskar7.ca'' ps"
    "p_disk st = last_value ''beskar7.disk'' ps"
    "p_bootif st = last_value ''BOOTIF'' ps"
proof -
  note I = field_last_init [OF _ _ assms]
  show "p_api st = last_value ''beskar7.api'' ps"
    by (rule I [OF set_key_fields(1)]) (simp_all add: init_state_def)
  show "p_namespace st = last_value ''beskar7.namespace'' ps"
    by (rule I [OF set_key_fields(2)]) (simp_all add: init_state_def)
  show "p_host st = last_value ''beskar7.host'' ps"
    by (rule I [OF set_key_fields(3)]) (simp_all add: init_state_def)
  show "p_token st = last_value ''beskar7.token'' ps"
    by (rule I [OF set_key_fields(4)]) (simp_all add: init_state_def)
  show "p_target st = last_value ''beskar7.target'' ps"
    by (rule I [OF set_key_fields(5)]) (simp_all add: init_state_def)
  show "p_target_digest st = last_value ''beskar7.target-digest'' ps"
    by (rule I [OF set_key_fields(6)]) (simp_all add: init_state_def)
  show "p_provider_id st = last_value ''beskar7.provider-id'' ps"
    by (rule I [OF set_key_fields(7)]) (simp_all add: init_state_def)
  show "p_ca st = last_value ''beskar7.ca'' ps"
    by (rule I [OF set_key_fields(8)]) (simp_all add: init_state_def)
  show "p_disk st = last_value ''beskar7.disk'' ps"
    by (rule I [OF set_key_fields(9)]) (simp_all add: init_state_def)
  show "p_bootif st = last_value ''BOOTIF'' ps"
    by (rule I [OF set_key_fields(10)]) (simp_all add: init_state_def)
qed

lemma missing_absent:
  assumes "set_params ps init_state = Inr st"
  shows "missing st = absent_keys ps"
  unfolding missing_def required_def absent_keys_def required_keys_def fields_last [OF assms]
  by (simp only: filter.simps list.simps prod.case fst_conv if_distrib [of "map fst"] cong: if_cong)

lemma set_key_ok:
  "(\<exists>st'. set_key k v st = Inr st') \<longleftrightarrow>
     \<not> (v \<noteq> [] \<and> (k = ''beskar7.ip'' \<and> static_ip_parse v = None \<or>
        k = ''beskar7.timeout'' \<and> parse_u64 v = None))"
  by (cases "static_ip_parse v"; cases "parse_u64 v") (auto simp: set_key_def non_empty_def)

text \<open>Replacing the token's value.\<close>

definition retoken :: "(string \<Rightarrow> string) \<Rightarrow> string \<Rightarrow> string" where
  "retoken f p = (case split_once (CHR ''='') p of
       Some (k, v) \<Rightarrow> if k = ''beskar7.token'' then k @ ''='' @ f v else p
     | None \<Rightarrow> p)"

lemma values_of_retoken:
  "k \<noteq> ''beskar7.token'' \<Longrightarrow> values_of k (map (retoken f) ps) = values_of k ps"
proof (induction ps)
  case (Cons p ps)
  have "split_once (CHR ''='') (''beskar7.token'' @ ''='' @ w) = Some (''beskar7.token'', w)" for w
    by simp
  with Cons show ?case
    by (auto simp: values_of_Cons retoken_def split: option.splits if_splits)
qed simp

lemma values_of_token:
  "values_of ''beskar7.token'' (map (retoken f) ps) = map f (values_of ''beskar7.token'' ps)"
proof (induction ps)
  case (Cons p ps)
  have "split_once (CHR ''='') (''beskar7.token'' @ ''='' @ w) = Some (''beskar7.token'', w)" for w
    by simp
  with Cons show ?case
    by (auto simp: values_of_Cons retoken_def split: option.splits if_splits)
qed simp

lemma absent_retoken:
  assumes "\<And>v. f v = [] \<longleftrightarrow> v = []"
  shows "absent_keys (map (retoken f) ps) = absent_keys ps"
proof -
  have "last_value k (map (retoken f) ps) = None \<longleftrightarrow> last_value k ps = None" for k
    by (cases "k = ''beskar7.token''")
      (auto simp: last_value_def values_of_retoken values_of_token non_empty_def last_map assms)
  then show ?thesis by (simp add: absent_keys_def)
qed

section \<open>Properties\<close>

text \<open>
  The fields of the other optional keys: an empty \<open>beskar7.ip\<close> or \<open>beskar7.timeout\<close> changes nothing, and
  every \<open>beskar7.debug\<close> counts.
\<close>

lemma field_fold:
  assumes step: "\<And>k v st st'. set_key k v st = Inr st' \<Longrightarrow> sel st' = (if k = key then upd v (sel st) else sel st)"
  shows "set_params ps st = Inr st' \<Longrightarrow> sel st' = fold upd (values_of key ps) (sel st)"
proof (induction ps arbitrary: st)
  case (Cons p ps)
  from Cons.prems obtain st1 where 1: "set_param p st = Inr st1" "set_params ps st1 = Inr st'"
    by (auto simp: rbind_eq_Inr)
  show ?case
  proof (cases "split_once (CHR ''='') p")
    case None
    with 1 Cons.IH show ?thesis by (simp add: set_param_def values_of_Cons)
  next
    case (Some kv)
    obtain k v where kv: "kv = (k, v)" by fastforce
    with Some 1(1) have "sel st1 = (if k = key then upd v (sel st) else sel st)"
      by (intro step) (simp add: set_param_def)
    with Cons.IH [OF 1(2)] Some kv show ?thesis by (simp add: values_of_Cons)
  qed
qed simp

definition last_given :: "string \<Rightarrow> string list \<Rightarrow> string option" where
  "last_given key ps = (case rev (filter (\<lambda>v. v \<noteq> []) (values_of key ps)) of [] \<Rightarrow> None | v # _ \<Rightarrow> Some v)"

lemma fold_given:
  "fold (\<lambda>v old. if v = [] then old else f v) vs old =
     (case rev (filter (\<lambda>v. v \<noteq> []) vs) of [] \<Rightarrow> old | v # _ \<Rightarrow> f v)"
  by (induction vs rule: rev_induct) auto

lemma fold_newest: "fold (\<lambda>v _. f v) vs old = (case rev vs of [] \<Rightarrow> old | v # _ \<Rightarrow> f v)"
  by (induction vs rule: rev_induct) auto

lemma optional_fields:
  assumes "set_params ps init_state = Inr st"
  shows "p_ip st = Option.bind (last_given ''beskar7.ip'' ps) static_ip_parse"
    "p_timeout st = Option.bind (last_given ''beskar7.timeout'' ps) parse_u64"
    "p_debug st = (case rev (values_of ''beskar7.debug'' ps) of [] \<Rightarrow> False | v # _ \<Rightarrow> eq_ignore_ascii_case v ''true'')"
proof -
  have "p_ip st' = (if k = ''beskar7.ip'' then if v = [] then p_ip st else static_ip_parse v else p_ip st)"
    if "set_key k v st = Inr st'" for k v st st'
    using that by (auto simp: set_key_def non_empty_def rbind_eq_Inr ok_or_eq_Inr split: if_splits option.splits)
  from field_fold [where sel = p_ip and upd = "\<lambda>v old. if v = [] then old else static_ip_parse v", OF this assms]
  show "p_ip st = Option.bind (last_given ''beskar7.ip'' ps) static_ip_parse"
    unfolding fold_given by (simp add: init_state_def last_given_def split: list.split)
  have "p_timeout st' = (if k = ''beskar7.timeout'' then if v = [] then p_timeout st else parse_u64 v else p_timeout st)"
    if "set_key k v st = Inr st'" for k v st st'
    using that by (auto simp: set_key_def non_empty_def rbind_eq_Inr ok_or_eq_Inr split: if_splits option.splits)
  from field_fold [where sel = p_timeout and upd = "\<lambda>v old. if v = [] then old else parse_u64 v", OF this assms]
  show "p_timeout st = Option.bind (last_given ''beskar7.timeout'' ps) parse_u64"
    unfolding fold_given by (simp add: init_state_def last_given_def split: list.split)
  have "p_debug st' = (if k = ''beskar7.debug'' then eq_ignore_ascii_case v ''true'' else p_debug st)"
    if "set_key k v st = Inr st'" for k v st st'
    using that by (auto simp: set_key_def non_empty_def rbind_eq_Inr split: if_splits option.splits)
  from field_fold [where sel = p_debug and upd = "\<lambda>v _. eq_ignore_ascii_case v ''true''", OF this assms]
  show "p_debug st = (case rev (values_of ''beskar7.debug'' ps) of [] \<Rightarrow> False | v # _ \<Rightarrow> eq_ignore_ascii_case v ''true'')"
    unfolding fold_newest by (simp add: init_state_def split: list.split)
qed

text \<open>The error a malformed parameter is, and that the first one decides.\<close>

definition malformed :: "string \<Rightarrow> cmdline_error option" where
  "malformed param = (case split_once (CHR ''='') param of
       None \<Rightarrow> None
     | Some (key, v) \<Rightarrow>
         if v = [] then None
         else if key = ''beskar7.ip'' then (if static_ip_parse v = None then Some InvalidStaticIp else None)
         else if key = ''beskar7.timeout'' then (if parse_u64 v = None then Some InvalidTimeout else None)
         else None)"

lemma set_param_malformed:
  "case malformed p of Some e \<Rightarrow> set_param p st = Inl e | None \<Rightarrow> \<exists>st'. set_param p st = Inr st'"
proof (cases "split_once (CHR ''='') p")
  case (Some kv)
  obtain k v where "kv = (k, v)" by fastforce
  with Some set_key_ok [of k v st] show ?thesis
    by (auto simp: set_param_def malformed_def set_key_def non_empty_def rbind_def ok_or_def split: option.splits)
qed (simp add: malformed_def set_param_def)

lemma set_params_malformed:
  "case List.map_filter malformed ps of e # _ \<Rightarrow> set_params ps st = Inl e | [] \<Rightarrow> \<exists>st'. set_params ps st = Inr st'"
proof (induction ps arbitrary: st)
  case (Cons p ps)
  from set_param_malformed [of p st] show ?case
  proof (cases "malformed p")
    case None
    with set_param_malformed [of p st] obtain st1 where "set_param p st = Inr st1" by auto
    with Cons.IH [of st1] None show ?thesis by (simp add: map_filter_simps split: list.split_asm list.split)
  qed (simp add: map_filter_simps)
qed (simp add: map_filter_simps)

text \<open>
  C35: parsing the command line. The first malformed \<open>beskar7.ip\<close> or \<open>beskar7.timeout\<close> is the error,
  of its kind; without one, the error lists exactly the names of the required keys whose last value
  is absent or empty, in their fixed order. A success has the last value of every required key and
  of \<open>beskar7.disk\<close> and \<open>BOOTIF\<close> (none when that is empty); of \<open>beskar7.ip\<close> and \<open>beskar7.timeout\<close> what the last value
  that is not empty reads as, so here an empty last occurrence does not win, other than the
  parser's documentation says; and \<open>beskar7.debug\<close> is on when its last value is \<open>true\<close> in any case.
\<close>

theorem params_parse_spec:
  fixes cmdline
  defines "ps \<equiv> split_ascii_whitespace cmdline"
  shows "case params_parse cmdline of
     Inl e \<Rightarrow> (case List.map_filter malformed ps of
         first # _ \<Rightarrow> e = first
       | [] \<Rightarrow> absent_keys ps \<noteq> [] \<and> e = MissingRequired (join '', '' (absent_keys ps)))
   | Inr p \<Rightarrow> List.map_filter malformed ps = [] \<and> absent_keys ps = [] \<and>
       last_value ''beskar7.api'' ps = Some (bp_api p) \<and>
       last_value ''beskar7.namespace'' ps = Some (bp_namespace p) \<and>
       last_value ''beskar7.host'' ps = Some (bp_host p) \<and>
       last_value ''beskar7.token'' ps = Some (expose (bp_token p)) \<and>
       last_value ''beskar7.target'' ps = Some (bp_target p) \<and>
       last_value ''beskar7.target-digest'' ps = Some (bp_target_digest p) \<and>
       last_value ''beskar7.provider-id'' ps = Some (bp_provider_id p) \<and>
       last_value ''beskar7.ca'' ps = Some (bp_ca p) \<and>
       last_value ''beskar7.disk'' ps = bp_disk p \<and> last_value ''BOOTIF'' ps = bp_bootif p \<and>
       Option.bind (last_given ''beskar7.ip'' ps) static_ip_parse = bp_ip p \<and>
       Option.bind (last_given ''beskar7.timeout'' ps) parse_u64 = bp_timeout p \<and>
       (case rev (values_of ''beskar7.debug'' ps) of
          [] \<Rightarrow> False | v # _ \<Rightarrow> eq_ignore_ascii_case v ''true'') = bp_debug p"
proof (cases "List.map_filter malformed ps")
  case (Cons e es)
  with set_params_malformed [of ps init_state] have "params_parse cmdline = Inl e"
    by (simp add: params_parse_def ps_def)
  with Cons show ?thesis by simp
next
  case Nil
  with set_params_malformed [of ps init_state] obtain st where st: "set_params ps init_state = Inr st" by auto
  show ?thesis
  proof (cases "absent_keys ps = []")
    case False
    with st Nil show ?thesis
      by (simp add: params_parse_def ps_def [symmetric] missing_absent)
  next
    case True
    then have "\<forall>k\<in>set required_keys. last_value k ps \<noteq> None"
      by (simp add: absent_keys_def filter_empty_conv)
    then have "last_value k ps = Some (the (last_value k ps))" if "k \<in> set required_keys" for k
      using that by simp
    note this [of "''beskar7.api''"] this [of "''beskar7.namespace''"] this [of "''beskar7.host''"]
      this [of "''beskar7.token''"] this [of "''beskar7.target''"]
      this [of "''beskar7.target-digest''"] this [of "''beskar7.provider-id''"]
      this [of "''beskar7.ca''"]
    with st Nil True show ?thesis
      by (simp add: params_parse_def ps_def [symmetric] missing_absent [OF st]
          fields_last [OF st] optional_fields [OF st] secret_new_def required_keys_def)
  qed
qed

end
