(* ===== verification/Smbios.thy ===== *)
theory Smbios
  imports Rust_Utf
begin

text \<open>
  \<open>src/smbios.rs\<close>: splitting the raw SMBIOS table into structures, the bounds-checked
  little-endian field accessors and the numbered strings. Offsets are positions in the
  table, as in the code's errors.
\<close>

section \<open>Data\<close>

definition TYPE_END_OF_TABLE :: u8 where "TYPE_END_OF_TABLE = 127"

record smb_structure =
  header_type :: u8
  handle :: u16
  s_data :: bytes
  s_strings :: "string list"

datatype smbios_error = Truncated nat | BadLength nat nat | SmbiosIo io_error

section \<open>Field accessors\<close>

definition s_byte :: "smb_structure \<Rightarrow> nat \<Rightarrow> u8 option" where
  "s_byte s off = (if off < length (s_data s) then Some (s_data s ! off) else None)"

definition s_word :: "smb_structure \<Rightarrow> nat \<Rightarrow> u16 option" where
  "s_word s off = map_option u16_le (slice (s_data s) off (off + 2))"

definition s_dword :: "smb_structure \<Rightarrow> nat \<Rightarrow> u32 option" where
  "s_dword s off = map_option u32_le (slice (s_data s) off (off + 4))"

definition s_qword :: "smb_structure \<Rightarrow> nat \<Rightarrow> u64 option" where
  "s_qword s off = map_option u64_le (slice (s_data s) off (off + 8))"

definition string_by_number :: "smb_structure \<Rightarrow> u8 \<Rightarrow> string option" where
  "string_by_number s number = (if number = 0 then None
     else let i = unat (number - 1) in
       if i < length (s_strings s) then Some (s_strings s ! i) else None)"

definition s_string :: "smb_structure \<Rightarrow> nat \<Rightarrow> string option" where
  "s_string s off = Option.bind (s_byte s off) (string_by_number s)"

section \<open>The string set\<close>

text \<open>The offset of the first zero byte from \<open>p\<close> on, or the table's length.\<close>

definition find_nul :: "bytes \<Rightarrow> nat \<Rightarrow> nat" where
  "find_nul raw p = p + length (takeWhile (\<lambda>b. b \<noteq> 0) (drop p raw))"

function string_loop :: "bytes \<Rightarrow> nat \<Rightarrow> nat \<Rightarrow> smbios_error + string list \<times> nat" where
  "string_loop raw so p =
     (let q = find_nul raw p in
      if q \<ge> length raw then Inl (Truncated so)
      else let str = from_utf8_lossy (of_bytes (take (q - p) (drop p raw))); p' = q + 1 in
        if p' \<ge> length raw then Inl (Truncated so)
        else if raw ! p' = 0 then Inr ([str], p' + 1)
        else rbind (string_loop raw so p') (\<lambda>(strs, next). Inr (str # strs, next)))"
  by pat_completeness auto
termination
  by (relation "measure (\<lambda>(raw, so, p). length raw - p)") (auto simp: find_nul_def)

declare string_loop.simps [simp del]

definition parse_string_set :: "bytes \<Rightarrow> nat \<Rightarrow> nat \<Rightarrow> smbios_error + string list \<times> nat" where
  "parse_string_set raw start so =
     (if start + 2 > length raw then Inl (Truncated so)
      else if raw ! start = 0 \<and> raw ! (start + 1) = 0 then Inr ([], start + 2)
      else string_loop raw so start)"

lemma string_loop_next: "string_loop raw so p = Inr (strs, n) \<Longrightarrow> p < n \<and> n \<le> length raw"
proof (induction raw so p arbitrary: strs rule: string_loop.induct)
  case (1 raw so p)
  define q where "q = find_nul raw p"
  have qp: "p \<le> q" by (simp add: q_def find_nul_def)
  note step = 1(2) [unfolded string_loop.simps [of raw so p], folded q_def]
  have q: "q < length raw" "q + 1 < length raw"
    using step by (auto simp: Let_def split: if_splits)
  show ?case
  proof (cases "raw ! (q + 1) = 0")
    case True
    with step q qp show ?thesis by (simp add: Let_def)
  next
    case False
    with step q obtain strs' where rec: "string_loop raw so (q + 1) = Inr (strs', n)"
      by (auto simp: Let_def rbind_eq_Inr)
    have "q + 1 < n \<and> n \<le> length raw"
      by (rule 1(1) [OF q_def _ refl refl, of strs']) (use q False rec in auto)
    with qp show ?thesis by simp
  qed
qed

lemma parse_string_set_next:
  "parse_string_set raw start so = Inr (strs, n) \<Longrightarrow> start < n \<and> n \<le> length raw"
  by (auto simp: parse_string_set_def dest: string_loop_next split: if_splits)

section \<open>The table\<close>

function parse_from :: "bytes \<Rightarrow> nat \<Rightarrow> smbios_error + smb_structure list" where
  "parse_from raw pos =
     (if pos + 4 > length raw then Inr []
      else let len = unat (raw ! (pos + 1)) in
        if len < 4 then Inl (BadLength pos len)
        else if pos + len > length raw then Inl (Truncated pos)
        else (case parse_string_set raw (pos + len) pos of
            Inl e \<Rightarrow> Inl e
          | Inr (strs, next) \<Rightarrow>
              let s = \<lparr>header_type = raw ! pos, handle = u16_le (take 2 (drop (pos + 2) raw)),
                    s_data = take len (drop pos raw), s_strings = strs\<rparr> in
              if header_type s = TYPE_END_OF_TABLE then Inr [s]
              else rbind (parse_from raw next) (\<lambda>rest. Inr (s # rest))))"
  by pat_completeness auto
termination
  by (relation "measure (\<lambda>(raw, pos). length raw - pos)")
    (auto dest!: parse_string_set_next)

declare parse_from.simps [simp del]

definition parse_table :: "bytes \<Rightarrow> smbios_error + smb_structure list" where
  "parse_table raw = parse_from raw 0"

definition from_path :: "io_error + bytes \<Rightarrow> smbios_error + smb_structure list" where
  "from_path contents = rbind (map_err SmbiosIo contents) parse_table"

section \<open>Encoding\<close>

text \<open>
  A structure in its specified layout: the header with its length, the formatted area and
  the string set (the code's test helper \<open>encode_structure\<close>).
\<close>

definition encode_strings :: "string list \<Rightarrow> bytes" where
  "encode_strings strs = (if strs = [] then [0, 0]
     else concat (map (\<lambda>s. as_bytes s @ [0]) strs) @ [0])"

definition encode_structure :: "u8 \<Rightarrow> u16 \<Rightarrow> bytes \<Rightarrow> string list \<Rightarrow> bytes" where
  "encode_structure ty hndl formatted strs =
     [ty, word_of_nat (4 + length formatted)] @ u16_to_le hndl @ formatted @ encode_strings strs"

text \<open>A string that can be stored: not empty, no NUL, and unchanged by the lossy decoder.\<close>

definition str_ok :: "string \<Rightarrow> bool" where
  "str_ok s \<longleftrightarrow> s \<noteq> [] \<and> 0 \<notin> set (as_bytes s) \<and> from_utf8_lossy s = s"

lemma find_nul_app:
  "0 \<notin> set a \<Longrightarrow> length pre = p \<Longrightarrow> find_nul (pre @ a @ 0 # post) p = p + length a"
proof -
  assume "0 \<notin> set a" "length pre = p"
  moreover from this have "takeWhile (\<lambda>b. b \<noteq> 0) (a @ 0 # post) = a" by (induction a) auto
  ultimately show ?thesis by (auto simp: find_nul_def)
qed

lemma string_loop_encode:
  "strs \<noteq> [] \<Longrightarrow> \<forall>s\<in>set strs. str_ok s \<Longrightarrow>
     raw = pre @ concat (map (\<lambda>s. as_bytes s @ [0]) strs) @ 0 # post \<Longrightarrow>
     string_loop raw so (length pre) =
       Inr (strs, length pre + length (concat (map (\<lambda>s. as_bytes s @ [0]) strs)) + 1)"
proof (induction strs arbitrary: pre)
  case (Cons s strs)
  let ?more = "concat (map (\<lambda>s. as_bytes s @ [0]) strs) @ 0 # post"
  have raw: "raw = pre @ as_bytes s @ 0 # ?more" using Cons.prems(3) by simp
  have s: "str_ok s" using Cons.prems(2) by simp
  then have nul: "find_nul raw (length pre) = length pre + length s"
    unfolding raw by (subst find_nul_app) (simp_all add: str_ok_def)
  have lt: "length pre + length s < length raw" "length pre + length s + 1 < length raw"
    unfolding raw by simp_all
  have str: "from_utf8_lossy (of_bytes (take (length s) (drop (length pre) raw))) = s"
    using s unfolding raw by (simp add: str_ok_def)
  have nxt: "raw ! (length pre + length s + 1) = ?more ! 0"
    unfolding raw by (simp add: nth_append)
  show ?case
  proof (cases strs)
    case Nil
    with nul lt str nxt show ?thesis
      by (subst string_loop.simps) (simp add: Let_def)
  next
    case (Cons t ts)
    have "t \<noteq> []" "0 \<notin> set (as_bytes t)" using Cons.prems(2) Cons by (auto simp: str_ok_def)
    then have "?more ! 0 \<noteq> 0" using Cons by (cases t) (auto simp: as_bytes_def)
    moreover have "string_loop raw so (length (pre @ as_bytes s @ [0])) =
        Inr (strs, length (pre @ as_bytes s @ [0]) + length (concat (map (\<lambda>s. as_bytes s @ [0]) strs)) + 1)"
      using Cons.prems Cons raw by (intro Cons.IH) simp_all
    ultimately show ?thesis
      using nul lt str nxt by (subst string_loop.simps) (simp add: Let_def)
  qed
qed simp

lemma parse_string_set_encode:
  assumes "\<forall>s\<in>set strs. str_ok s"
  shows "parse_string_set (pre @ encode_strings strs @ post) (length pre) so =
    Inr (strs, length pre + length (encode_strings strs))"
proof (cases strs)
  case Nil
  then show ?thesis by (simp add: parse_string_set_def encode_strings_def nth_append)
next
  case (Cons t ts)
  let ?raw = "pre @ encode_strings strs @ post"
  have "t \<noteq> []" "0 \<notin> set (as_bytes t)" using assms Cons by (auto simp: str_ok_def)
  then have "?raw ! length pre \<noteq> 0"
    using Cons by (cases t) (auto simp: encode_strings_def nth_append as_bytes_def)
  moreover have "\<not> length pre + 2 > length ?raw"
    using Cons \<open>t \<noteq> []\<close> by (cases t) (simp_all add: encode_strings_def as_bytes_def)
  moreover have "string_loop ?raw so (length pre) =
      Inr (strs, length pre + length (concat (map (\<lambda>s. as_bytes s @ [0]) strs)) + 1)"
    by (rule string_loop_encode [OF _ assms]) (use Cons in \<open>simp_all add: encode_strings_def\<close>)
  ultimately show ?thesis using Cons by (simp add: parse_string_set_def encode_strings_def)
qed

text \<open>A structure that can be stored: its formatted area fits the length byte.\<close>

definition mk_structure :: "u8 \<Rightarrow> u16 \<Rightarrow> bytes \<Rightarrow> string list \<Rightarrow> smb_structure" where
  "mk_structure ty hndl formatted strs = \<lparr>header_type = ty, handle = hndl,
     s_data = [ty, word_of_nat (4 + length formatted)] @ u16_to_le hndl @ formatted,
     s_strings = strs\<rparr>"

lemma parse_from_step:
  assumes "length formatted \<le> 251" "\<forall>s\<in>set strs. str_ok s"
  shows "parse_from (pre @ encode_structure ty hndl formatted strs @ post) (length pre) =
    (if ty = TYPE_END_OF_TABLE then Inr [mk_structure ty hndl formatted strs]
     else rbind (parse_from (pre @ encode_structure ty hndl formatted strs @ post)
              (length (pre @ encode_structure ty hndl formatted strs)))
          (\<lambda>rest. Inr (mk_structure ty hndl formatted strs # rest)))"
proof -
  let ?raw = "pre @ encode_structure ty hndl formatted strs @ post"
  let ?d = "[ty, word_of_nat (4 + length formatted)] @ u16_to_le hndl @ formatted"
  have raw: "?raw = (pre @ ?d) @ encode_strings strs @ post" by (simp add: encode_structure_def)
  have len: "unat (?raw ! (length pre + 1)) = 4 + length formatted"
    using assms(1) unat_u8_of_nat [of "4 + length formatted"]
    by (simp add: encode_structure_def nth_append)
  have fits: "\<not> length pre + 4 > length ?raw" "\<not> length pre + (4 + length formatted) > length ?raw"
    by (simp_all add: encode_structure_def)
  have set: "parse_string_set ?raw (length pre + (4 + length formatted)) so =
      Inr (strs, length (pre @ encode_structure ty hndl formatted strs))" for so
  proof -
    have e1: "length pre + (4 + length formatted) = length (pre @ ?d)" by simp
    have e2: "length (pre @ encode_structure ty hndl formatted strs) =
        length (pre @ ?d) + length (encode_strings strs)" by (simp add: encode_structure_def)
    show ?thesis unfolding raw e1 e2 by (rule parse_string_set_encode [OF assms(2)])
  qed
  have h: "?raw ! length pre = ty" "u16_le (take 2 (drop (length pre + 2) ?raw)) = hndl"
    by (simp_all add: encode_structure_def nth_append)
  have d: "take (4 + length formatted) (drop (length pre) ?raw) = ?d"
  proof -
    have "drop (length pre) ?raw = ?d @ encode_strings strs @ post"
      by (simp add: encode_structure_def)
    moreover have "4 + length formatted = length ?d" by simp
    ultimately show ?thesis by (metis append_eq_conv_conj)
  qed
  show ?thesis
    unfolding parse_from.simps [of ?raw "length pre"] Let_def len set
    using fits by (simp only: if_False sum.case prod.case h d mk_structure_def
        smb_structure.select_convs) simp
qed

section \<open>Properties\<close>

text \<open>The encoding of a list of structures, each given by its parts.\<close>

type_synonym parts = "u8 \<times> u16 \<times> bytes \<times> string list"

definition parts_ok :: "parts \<Rightarrow> bool" where
  "parts_ok = (\<lambda>(ty, hndl, formatted, strs). length formatted \<le> 251 \<and> (\<forall>s\<in>set strs. str_ok s))"

definition encode_parts :: "parts \<Rightarrow> bytes" where
  "encode_parts = (\<lambda>(ty, hndl, formatted, strs). encode_structure ty hndl formatted strs)"

definition parts_structure :: "parts \<Rightarrow> smb_structure" where
  "parts_structure = (\<lambda>(ty, hndl, formatted, strs). mk_structure ty hndl formatted strs)"

lemma parse_from_parts:
  "\<forall>p\<in>set ps. parts_ok p \<and> fst p \<noteq> TYPE_END_OF_TABLE \<Longrightarrow>
     parse_from (pre @ concat (map encode_parts ps) @ post) (length pre) =
       rbind (parse_from (pre @ concat (map encode_parts ps) @ post)
                (length pre + length (concat (map encode_parts ps))))
             (\<lambda>rest. Inr (map parts_structure ps @ rest))"
proof (induction ps arbitrary: pre)
  case Nil
  then show ?case by (cases "parse_from (pre @ post) (length pre)") simp_all
next
  case (Cons p ps)
  obtain ty hn f strs where p: "p = (ty, hn, f, strs)" by (cases p)
  with Cons.prems have ok: "length f \<le> 251" "\<forall>s\<in>set strs. str_ok s" "ty \<noteq> TYPE_END_OF_TABLE"
    by (simp_all add: parts_ok_def)
  let ?e = "encode_structure ty hn f strs"
  have "parse_from ((pre @ ?e) @ concat (map encode_parts ps) @ post) (length (pre @ ?e)) =
      rbind (parse_from ((pre @ ?e) @ concat (map encode_parts ps) @ post)
              (length (pre @ ?e) + length (concat (map encode_parts ps))))
        (\<lambda>rest. Inr (map parts_structure ps @ rest))"
    using Cons.prems by (intro Cons.IH) simp
  then show ?case
    using parse_from_step [OF ok(1,2), of pre ty hn "concat (map encode_parts ps) @ post"] ok(3)
    by (cases "parse_from (pre @ ?e @ concat (map encode_parts ps) @ post)
        (length pre + (length ?e + length (concat (map encode_parts ps))))")
      (simp_all add: p encode_parts_def parts_structure_def add.assoc)
qed

text \<open>
  C38: the parser inverts the SMBIOS layout. Structures whose formatted area fits the length
  byte and whose strings are not empty and NUL-free parse back to themselves, up to and
  including the first end-of-table structure, whatever follows it; without one they end
  with the buffer.
\<close>

theorem parse_table_encode:
  assumes "\<forall>p\<in>set ps. parts_ok p \<and> fst p \<noteq> TYPE_END_OF_TABLE"
    and "parts_ok last_p" "fst last_p = TYPE_END_OF_TABLE"
  shows "parse_table (concat (map encode_parts ps) @ encode_parts last_p @ junk) =
      Inr (map parts_structure ps @ [parts_structure last_p]) \<and>
    parse_table (concat (map encode_parts ps)) = Inr (map parts_structure ps)"
proof
  obtain ty hn f strs where p: "last_p = (ty, hn, f, strs)" by (cases last_p)
  with assms(2,3) have ok: "length f \<le> 251" "\<forall>s\<in>set strs. str_ok s" "ty = TYPE_END_OF_TABLE"
    by (simp_all add: parts_ok_def)
  have "parse_from (concat (map encode_parts ps) @ encode_parts last_p @ junk)
      (length (concat (map encode_parts ps))) = Inr [parts_structure last_p]"
    using parse_from_step [OF ok(1,2), of "concat (map encode_parts ps)" ty hn junk] ok(3)
    by (simp add: p encode_parts_def parts_structure_def)
  with parse_from_parts [OF assms(1), of "[]" "encode_parts last_p @ junk"]
  show "parse_table (concat (map encode_parts ps) @ encode_parts last_p @ junk) =
      Inr (map parts_structure ps @ [parts_structure last_p])"
    by (simp add: parse_table_def)
  have "parse_from raw (length raw) = Inr []" for raw by (simp add: parse_from.simps)
  with parse_from_parts [OF assms(1), of "[]" "[]"]
  show "parse_table (concat (map encode_parts ps)) = Inr (map parts_structure ps)"
    by (simp add: parse_table_def)
qed

theorem parse_table_encode_witness:
  "parse_table (encode_structure 1 1 [1, 0] [''Dell''] @ encode_structure 127 2 [] [] @ [9, 9]) =
     Inr [mk_structure 1 1 [1, 0] [''Dell''], mk_structure 127 2 [] []] \<and>
   parse_table (encode_structure 1 1 [1, 0] [''Dell'']) = Inr [mk_structure 1 1 [1, 0] [''Dell'']]"
proof -
  have "str_ok ''Dell''"
    by (simp add: str_ok_def from_utf8_lossy_ascii ascii_def as_bytes_def char_byte_def)
  then have ok: "\<forall>p\<in>set [(1, 1, [1, 0], [''Dell''])]. parts_ok p \<and> fst p \<noteq> TYPE_END_OF_TABLE"
    "parts_ok (127, 2, [], [])" "fst (127 :: u8, 2, [], []) = TYPE_END_OF_TABLE"
    by (simp_all add: parts_ok_def TYPE_END_OF_TABLE_def)
  from parse_table_encode [OF ok, of "[9, 9]"] show ?thesis
    by (simp add: encode_parts_def parts_structure_def)
qed

end
