(* ===== verification/Probe.thy ===== *)
theory Probe
  imports Smbios Sysfs
begin

text \<open>
  \<open>src/report.rs\<close> and \<open>src/probe/\<close>: the inspection report and its collectors, over the
  parsed SMBIOS structures and the \<open>/sys\<close> trees. What \<open>getifaddrs\<close> lists is an argument.
\<close>

section \<open>The report\<close>

record cpu = c_id :: string  c_vendor :: string  c_model :: string
  c_cores :: u32  c_threads :: u32  c_frequency :: string

record memory_module = m_id :: string  m_type :: string  m_capacity :: string  m_speed :: string

record disk = d_name :: string  d_model :: string  d_size_gb :: u64  d_type :: string
  d_serial :: string

record nic = n_name :: string  n_mac :: string  n_driver :: string  n_speed :: string
  n_ips :: "string list"

record inspection_report =
  manufacturer :: string
  model :: string
  serial_number :: string
  cpus :: "cpu list"
  memory :: "memory_module list"
  disks :: "disk list"
  nics :: "nic list"
  boot_mode_detected :: string
  firmware_version :: string

definition cleaned :: "string option \<Rightarrow> string" where
  "cleaned v = unwrap_or (map_option trim v) []"

section \<open>System identity\<close>

definition TYPE_BIOS :: u8 where "TYPE_BIOS = 0"
definition TYPE_SYSTEM :: u8 where "TYPE_SYSTEM = 1"
definition OFF_BIOS_VERSION :: nat where "OFF_BIOS_VERSION = 5"
definition OFF_SYS_MANUFACTURER :: nat where "OFF_SYS_MANUFACTURER = 4"
definition OFF_SYS_PRODUCT :: nat where "OFF_SYS_PRODUCT = 5"
definition OFF_SYS_SERIAL :: nat where "OFF_SYS_SERIAL = 7"

record system_info = si_manufacturer :: string  si_model :: string  si_serial_number :: string
  si_firmware_version :: string  si_boot_mode :: string

definition find_type :: "smb_structure list \<Rightarrow> u8 \<Rightarrow> smb_structure option" where
  "find_type ss ty = find (\<lambda>s. header_type s = ty) ss"

definition system_from_parts :: "smb_structure list \<Rightarrow> bool \<Rightarrow> system_info" where
  "system_from_parts ss efi_present =
     (let sys = find_type ss TYPE_SYSTEM; bios = find_type ss TYPE_BIOS in
      \<lparr>si_manufacturer = cleaned (Option.bind sys (\<lambda>s. s_string s OFF_SYS_MANUFACTURER)),
       si_model = cleaned (Option.bind sys (\<lambda>s. s_string s OFF_SYS_PRODUCT)),
       si_serial_number = cleaned (Option.bind sys (\<lambda>s. s_string s OFF_SYS_SERIAL)),
       si_firmware_version = cleaned (Option.bind bios (\<lambda>s. s_string s OFF_BIOS_VERSION)),
       si_boot_mode = (if efi_present then ''UEFI'' else ''Legacy'')\<rparr>)"

section \<open>Processors\<close>

definition TYPE_PROCESSOR :: u8 where "TYPE_PROCESSOR = 4"
definition PROCESSOR_TYPE_CENTRAL :: u8 where "PROCESSOR_TYPE_CENTRAL = 3"
definition STATUS_POPULATED :: u8 where "STATUS_POPULATED = 0x40"
definition COUNT_USE_EXTENDED :: u8 where "COUNT_USE_EXTENDED = 0xFF"
definition SPEED_UNKNOWN :: u16 where "SPEED_UNKNOWN = 0xFFFF"

definition is_central_populated :: "smb_structure \<Rightarrow> bool" where
  "is_central_populated s =
     (if s_byte s 0x05 \<noteq> Some PROCESSOR_TYPE_CENTRAL then False
      else (case s_byte s 0x18 of
          Some status \<Rightarrow> status AND STATUS_POPULATED \<noteq> 0
        | None \<Rightarrow> True))"

definition cpu_count :: "smb_structure \<Rightarrow> nat \<Rightarrow> nat \<Rightarrow> u32" where
  "cpu_count s byte_off word_off = (case s_byte s byte_off of
       Some n \<Rightarrow> if n = COUNT_USE_EXTENDED then unwrap_or (map_option ucast (s_word s word_off)) 0
         else ucast n
     | None \<Rightarrow> 0)"

text \<open>
  \<open>f64::from(m) / 1000.0\<close> printed with one decimal. The quotient is the binary64 number
  nearest to \<open>m / 1000\<close>, \<open>mant / 2 ^ k\<close> with a 53-bit mantissa; printing rounds its exact
  value. Both roundings go to the nearest, ties to even.
\<close>

definition round_half_even :: "nat \<Rightarrow> nat \<Rightarrow> nat" where
  "round_half_even a b = (let q = a div b; r = a mod b in
     if 2 * r < b then q else if b < 2 * r then q + 1 else if even q then q else q + 1)"

fun scale_of :: "nat \<Rightarrow> nat \<Rightarrow> nat" where
  "scale_of m 0 = 0"
| "scale_of m (Suc k) = (if m * 2 ^ Suc k < 1000 * 2 ^ 53 then Suc k else scale_of m k)"

definition tenths_of_thousandths :: "nat \<Rightarrow> nat" where
  "tenths_of_thousandths m = (let k = scale_of m 63; mant = round_half_even (m * 2 ^ k) 1000
     in round_half_even (mant * 10) (2 ^ k))"

definition frequency :: "u16 option \<Rightarrow> string" where
  "frequency mhz = (case mhz of
       None \<Rightarrow> []
     | Some m \<Rightarrow> if m = 0 \<or> m = SPEED_UNKNOWN then []
         else (let t = tenths_of_thousandths (unat m)
               in dec (t div 10) @ ''.'' @ dec (t mod 10) @ ''GHz''))"

definition cpu_decode :: "smb_structure \<Rightarrow> cpu" where
  "cpu_decode s = \<lparr>c_id = cleaned (s_string s 0x04), c_vendor = cleaned (s_string s 0x07),
     c_model = cleaned (s_string s 0x10), c_cores = cpu_count s 0x23 0x2A,
     c_threads = cpu_count s 0x25 0x2E, c_frequency = frequency (s_word s 0x16)\<rparr>"

definition cpu_collect :: "smb_structure list \<Rightarrow> cpu list" where
  "cpu_collect ss =
     map cpu_decode (filter is_central_populated (filter (\<lambda>s. header_type s = TYPE_PROCESSOR) ss))"

section \<open>Memory\<close>

definition TYPE_MEMORY_DEVICE :: u8 where "TYPE_MEMORY_DEVICE = 17"
definition SIZE_EMPTY :: u16 where "SIZE_EMPTY = 0"
definition SIZE_UNKNOWN :: u16 where "SIZE_UNKNOWN = 0xFFFF"
definition SIZE_USE_EXTENDED :: u16 where "SIZE_USE_EXTENDED = 0x7FFF"
definition SIZE_UNIT_KB_BIT :: u16 where "SIZE_UNIT_KB_BIT = 0x8000"
definition MIB_PER_GIB :: nat where "MIB_PER_GIB = 1024"

definition format_capacity :: "nat \<Rightarrow> string" where
  "format_capacity mib =
     (if mib \<noteq> 0 \<and> mib mod MIB_PER_GIB = 0 then dec (mib div MIB_PER_GIB) @ ''GiB''
      else dec mib @ ''MiB'')"

text \<open>The size in MiB, \<open>None\<close> for an empty slot or an unknown size.\<close>

definition size_mib :: "smb_structure \<Rightarrow> nat option" where
  "size_mib s = Option.bind (s_word s 0x0C) (\<lambda>size.
     if size = SIZE_EMPTY \<or> size = SIZE_UNKNOWN then None
     else if size = SIZE_USE_EXTENDED then map_option unat (s_dword s 0x1C)
     else if size AND SIZE_UNIT_KB_BIT \<noteq> 0 then Some (unat (size AND NOT SIZE_UNIT_KB_BIT) div 1024)
     else Some (unat size))"

definition capacity :: "smb_structure \<Rightarrow> string option" where
  "capacity s = map_option format_capacity (size_mib s)"

definition memory_type :: "u8 option \<Rightarrow> string" where
  "memory_type code =
     (if code = Some 0x12 then ''DDR'' else if code = Some 0x13 then ''DDR2''
      else if code = Some 0x14 then ''DDR2 FB-DIMM'' else if code = Some 0x18 then ''DDR3''
      else if code = Some 0x1A then ''DDR4'' else if code = Some 0x1B then ''LPDDR''
      else if code = Some 0x1C then ''LPDDR2'' else if code = Some 0x1D then ''LPDDR3''
      else if code = Some 0x1E then ''LPDDR4'' else if code = Some 0x22 then ''DDR5''
      else if code = Some 0x23 then ''LPDDR5'' else ''Unknown'')"

definition memory_speed :: "u16 option \<Rightarrow> string" where
  "memory_speed mts = (case mts of
       None \<Rightarrow> []
     | Some v \<Rightarrow> if v = 0 \<or> v = SPEED_UNKNOWN then [] else dec (unat v) @ ''MHz'')"

definition memory_decode :: "smb_structure \<Rightarrow> memory_module option" where
  "memory_decode s = map_option (\<lambda>c. \<lparr>m_id = cleaned (s_string s 0x10),
     m_type = memory_type (s_byte s 0x12), m_capacity = c, m_speed = memory_speed (s_word s 0x15)\<rparr>)
     (capacity s)"

definition memory_collect :: "smb_structure list \<Rightarrow> memory_module list" where
  "memory_collect ss = List.map_filter memory_decode (filter (\<lambda>s. header_type s = TYPE_MEMORY_DEVICE) ss)"

section \<open>Disks\<close>

definition BYTES_PER_SECTOR :: u64 where "BYTES_PER_SECTOR = 512"
definition BYTES_PER_GB :: u64 where "BYTES_PER_GB = 1000000000"

definition disk_type :: "string \<Rightarrow> string option \<Rightarrow> string" where
  "disk_type name rotational =
     (if starts_with ''nvme'' name then ''NVMe''
      else if rotational = Some ''0'' then ''SSD'' else ''HDD'')"

definition disk_serial :: "fsnode \<Rightarrow> string \<Rightarrow> string" where
  "disk_serial d name = (case read_trimmed d [name, ''device'', ''serial''] of
       Some s \<Rightarrow> s
     | None \<Rightarrow> unwrap_or (read_trimmed d [name, ''device'', ''wwid'']) [])"

text \<open>The multiplication wraps, as release builds do.\<close>

definition disk_decode :: "fsnode \<Rightarrow> string \<Rightarrow> disk option" where
  "disk_decode d name =
     (if \<not> utf8_valid name then None
      else if \<not> path_exists d [name, ''device''] then None
      else if read_trimmed d [name, ''removable''] = Some ''1'' then None
      else (case Option.bind (read_trimmed d [name, ''size'']) parse_u64 of
          None \<Rightarrow> None
        | Some sectors \<Rightarrow> if sectors = 0 then None
            else Some \<lparr>d_name = ''/dev/'' @ name,
              d_model = unwrap_or (read_trimmed d [name, ''device'', ''model'']) [],
              d_size_gb = sectors * BYTES_PER_SECTOR div BYTES_PER_GB,
              d_type = disk_type name (read_trimmed d [name, ''queue'', ''rotational'']),
              d_serial = disk_serial d name\<rparr>))"

definition disk_collect_from :: "fsnode \<Rightarrow> disk list" where
  "disk_collect_from d = (case read_dir d [] of
       None \<Rightarrow> []
     | Some names \<Rightarrow> List.map_filter (disk_decode d) (sort names))"

section \<open>Network interfaces\<close>

text \<open>\<open>IpAddr\<close>, ordered as the derived \<open>Ord\<close>: IPv4 before IPv6, then by value.\<close>

datatype ip_addr = V4 ipv4 | V6 "128 word"

instantiation ip_addr :: linorder
begin

definition less_eq_ip_addr :: "ip_addr \<Rightarrow> ip_addr \<Rightarrow> bool" where
  "less_eq_ip_addr a b = (case (a, b) of
       (V4 x, V4 y) \<Rightarrow> x \<le> y | (V4 _, V6 _) \<Rightarrow> True
     | (V6 _, V4 _) \<Rightarrow> False | (V6 x, V6 y) \<Rightarrow> x \<le> y)"

definition less_ip_addr :: "ip_addr \<Rightarrow> ip_addr \<Rightarrow> bool" where
  "less_ip_addr a b \<longleftrightarrow> a \<le> b \<and> \<not> b \<le> a"

instance
  by standard (auto simp: less_eq_ip_addr_def less_ip_addr_def split: ip_addr.splits)

end

text \<open>
  \<open>Ipv6Addr\<close>'s \<open>Display\<close>: an IPv4-mapped address prints its last 32 bits dotted, any other
  prints its segments in hexadecimal with the first longest run of two or more zero
  segments contracted.
\<close>

definition segments :: "128 word \<Rightarrow> nat list" where
  "segments w = map (\<lambda>i. unat (drop_bit (16 * (7 - i)) w) mod 65536) [0..<8]"

fun hex_text :: "nat \<Rightarrow> string" where
  "hex_text n = (if n < 16 then [hex_lower n] else hex_text (n div 16) @ [hex_lower (n mod 16)])"

declare hex_text.simps [simp del]

definition zero_run :: "nat list \<Rightarrow> nat \<Rightarrow> nat" where
  "zero_run segs i = length (takeWhile (\<lambda>s. s = 0) (drop i segs))"

definition longest_run :: "nat list \<Rightarrow> nat \<times> nat" where
  "longest_run segs = foldl (\<lambda>(s, n) i. if zero_run segs i > n then (i, zero_run segs i) else (s, n))
     (0, 0) [0..<length segs]"

definition fmt_ipv6 :: "128 word \<Rightarrow> string" where
  "fmt_ipv6 w = (let segs = segments w in
     if take 6 segs = [0, 0, 0, 0, 0, 0xFFFF]
     then ''::ffff:'' @ fmt_ipv4 (ucast w)
     else (let (start, n) = longest_run segs; text = (\<lambda>ss. join '':'' (map hex_text ss)) in
       if n > 1 then text (take start segs) @ ''::'' @ text (drop (start + n) segs)
       else text segs))"

definition fmt_ip :: "ip_addr \<Rightarrow> string" where
  "fmt_ip ip = (case ip of V4 a \<Rightarrow> fmt_ipv4 a | V6 a \<Rightarrow> fmt_ipv6 a)"

text \<open>
  The address map of \<open>interface_addresses\<close>, from what \<open>getifaddrs\<close> lists: an interface name
  with its address when that is an IP address; \<open>None\<close> when the call fails.
\<close>

definition interface_addresses ::
  "(string \<times> ip_addr option) list option \<Rightarrow> string \<Rightarrow> ip_addr list option" where
  "interface_addresses ifaddrs name = (case ifaddrs of
       None \<Rightarrow> None
     | Some es \<Rightarrow> (let ips = List.map_filter (\<lambda>(n, ip). if n = name then ip else None) es in
         if ips = [] then None else Some (remdups_adj (sort ips))))"

text \<open>
  \<open>{}\<close> of \<open>mbps as f64 / 1000.0\<close> is the shortest decimal that reads back as the quotient:
  the three decimals without trailing zeros. This is exact below \<open>10 ^ 15\<close> Mbit/s.
\<close>

definition gbps_text :: "nat \<Rightarrow> string" where
  "gbps_text m = (let frac = m mod 1000;
       digits = [digit_char (frac div 100), digit_char (frac div 10 mod 10), digit_char (frac mod 10)]
     in dec (m div 1000) @ ''.'' @ trim_end_matches (\<lambda>c. c = CHR ''0'') digits)"

definition nic_speed :: "string option \<Rightarrow> string" where
  "nic_speed raw = (case Option.bind raw parse_i64 of
       None \<Rightarrow> []
     | Some v \<Rightarrow> if \<not> v > 0 then []
         else (let mbps = nat v in
           if mbps mod 1000 = 0 then dec (mbps div 1000) @ ''Gbps''
           else if mbps > 1000 then gbps_text mbps @ ''Gbps''
           else dec mbps @ ''Mbps''))"

definition nic_driver :: "fsnode \<Rightarrow> string \<Rightarrow> string" where
  "nic_driver d name =
     unwrap_or (map_option from_utf8_lossy
       (Option.bind (read_link d [name, ''device'', ''driver'']) path_file_name)) []"

definition nic_decode ::
  "fsnode \<Rightarrow> (string \<Rightarrow> ip_addr list option) \<Rightarrow> string \<Rightarrow> nic option" where
  "nic_decode d addrs name =
     (if \<not> utf8_valid name then None
      else if \<not> path_exists d [name, ''device''] then None
      else Some \<lparr>n_name = name,
        n_mac = unwrap_or (read_trimmed d [name, ''address'']) [],
        n_driver = nic_driver d name,
        n_speed = nic_speed (read_trimmed d [name, ''speed'']),
        n_ips = unwrap_or (map_option (map fmt_ip) (addrs name)) []\<rparr>)"

definition nic_collect_from :: "fsnode \<Rightarrow> (string \<Rightarrow> ip_addr list option) \<Rightarrow> nic list" where
  "nic_collect_from d addrs = (case read_dir d [] of
       None \<Rightarrow> []
     | Some names \<Rightarrow> List.map_filter (nic_decode d addrs) (sort names))"

section \<open>Assembly\<close>

definition assemble ::
  "smb_structure list \<Rightarrow> bool \<Rightarrow> disk list \<Rightarrow> nic list \<Rightarrow> inspection_report" where
  "assemble ss efi_present ds ns = (let sys = system_from_parts ss efi_present in
     \<lparr>manufacturer = si_manufacturer sys, model = si_model sys,
      serial_number = si_serial_number sys, cpus = cpu_collect ss, memory = memory_collect ss,
      disks = ds, nics = ns, boot_mode_detected = si_boot_mode sys,
      firmware_version = si_firmware_version sys\<rparr>)"

text \<open>The live collection: the DMI blob, the EFI marker, the two \<open>/sys\<close> trees, the addresses.\<close>

definition probe_collect ::
  "io_error + bytes \<Rightarrow> bool \<Rightarrow> fsnode \<Rightarrow> fsnode \<Rightarrow> (string \<times> ip_addr option) list option \<Rightarrow>
     inspection_report" where
  "probe_collect dmi efi_present block_dir net_dir ifaddrs =
     assemble (unwrap_or (result_ok (from_path dmi)) []) efi_present (disk_collect_from block_dir)
       (nic_collect_from net_dir (interface_addresses ifaddrs))"

section \<open>Lemmas\<close>

text \<open>Reading a capacity text back, in MiB.\<close>

definition capacity_mib :: "string \<Rightarrow> nat option" where
  "capacity_mib c = (case strip_suffix ''GiB'' c of
       Some n \<Rightarrow> map_option (\<lambda>k. k * 1024) (digits_nat 10 0 n)
     | None \<Rightarrow> Option.bind (strip_suffix ''MiB'' c) (digits_nat 10 0))"

lemma capacity_mib_format: "capacity_mib (format_capacity n) = Some n"
proof (cases "n \<noteq> 0 \<and> n mod 1024 = 0")
  case True
  moreover from this have "n div 1024 * 1024 = n" by auto
  ultimately show ?thesis
    by (simp add: capacity_mib_def format_capacity_def MIB_PER_GIB_def digits_nat_dec)
next
  case False
  have "strip_suffix ''GiB'' (dec n @ ''MiB'') = None"
    by (auto simp: strip_suffix_def strip_prefix_def starts_with_def)
  moreover have "strip_suffix ''MiB'' (dec n @ ''MiB'') = Some (dec n)" by (rule strip_suffix_app)
  moreover have "format_capacity n = dec n @ ''MiB''"
    using False by (auto simp: format_capacity_def MIB_PER_GIB_def)
  ultimately show ?thesis by (simp add: capacity_mib_def digits_nat_dec)
qed

lemma map_filter_length: "length (List.map_filter f xs) = length (filter (\<lambda>x. f x \<noteq> None) xs)"
  by (induction xs) (auto simp: map_filter_simps split: option.splits)

lemma sorted_distinct_remdups_adj: "sorted xs \<Longrightarrow> distinct (remdups_adj xs)"
proof (induction xs rule: remdups_adj.induct)
  case (3 x y xs)
  show ?case
  proof (cases "x = y")
    case False
    with 3 have "x \<notin> set (y # xs)" by auto
    with False 3 show ?thesis by auto
  qed (use 3 in simp)
qed simp_all

section \<open>The lists\<close>

text \<open>
  Memory modules: there is one entry per memory device with a known, non-zero size, in
  table order, and the capacity text of each reads back as the device's size in MiB.
\<close>

lemma memory_collect_spec:
  "map (\<lambda>m. capacity_mib (m_capacity m)) (memory_collect ss) =
     map size_mib (filter (\<lambda>s. header_type s = TYPE_MEMORY_DEVICE \<and> size_mib s \<noteq> None) ss)"
proof (induction ss)
  case (Cons s ss)
  then show ?case
    by (cases "size_mib s")
      (auto simp: memory_collect_def map_filter_simps memory_decode_def capacity_def
        capacity_mib_format)
qed (simp add: memory_collect_def map_filter_simps)

text \<open>
  Every reported disk is a fixed block device: its directory has a \<open>device\<close> entry, it is
  not marked removable, and its size attribute is a non-zero number of 512-byte sectors, of
  which the reported size is the whole decimal gigabytes whenever the byte count fits 64
  bits.
\<close>

lemma disk_collect_fixed:
  assumes "x \<in> set (disk_collect_from d)"
  shows "\<exists>name sectors. disk_decode d name = Some x \<and> d_name x = ''/dev/'' @ name \<and>
     path_exists d [name, ''device''] \<and> read_trimmed d [name, ''removable''] \<noteq> Some ''1'' \<and>
     Option.bind (read_trimmed d [name, ''size'']) parse_u64 = Some sectors \<and> sectors \<noteq> 0 \<and>
     unat (d_size_gb x) = (unat sectors * 512 mod 2 ^ 64) div 1000000000"
proof -
  obtain names where "read_dir d [] = Some names" "x \<in> set (List.map_filter (disk_decode d) (sort names))"
    using assms by (cases "read_dir d []") (auto simp: disk_collect_from_def)
  then obtain name where x: "disk_decode d name = Some x" by (auto simp: set_map_filter)
  then obtain sectors where s: "Option.bind (read_trimmed d [name, ''size'']) parse_u64 = Some sectors"
    by (auto simp: disk_decode_def split: if_splits option.splits)
  from x s have "d_size_gb x = sectors * BYTES_PER_SECTOR div BYTES_PER_GB" "sectors \<noteq> 0"
      "d_name x = ''/dev/'' @ name" "path_exists d [name, ''device'']"
      "read_trimmed d [name, ''removable''] \<noteq> Some ''1''"
    by (auto simp: disk_decode_def split: if_splits)
  with x s show ?thesis
    by (intro exI [of _ name] exI [of _ sectors])
      (simp add: BYTES_PER_SECTOR_def BYTES_PER_GB_def unat_div unat_word_ariths)
qed

text \<open>A 960 GB NVMe disk beside a loop device.\<close>

definition demo_block :: fsnode where
  "demo_block = Dir [(''nvme0n1'', Dir [(''device'', Dir []), (''size'', Attr ''1875385008'')]),
     (''loop0'', Dir [(''size'', Attr ''8'')])]"

lemma demo_block_disks:
  "disk_collect_from demo_block = [\<lparr>d_name = ''/dev/nvme0n1'', d_model = [], d_size_gb = 960,
     d_type = ''NVMe'', d_serial = []\<rparr>]"
proof -
  have v: "utf8_valid ''nvme0n1''" "utf8_valid ''loop0''"
    by (simp_all add: utf8_valid_ascii ascii_def)
  have r: "read_trimmed demo_block [''nvme0n1'', ''size''] = Some ''1875385008''"
    by (rule read_trimmed_plain) (simp_all add: demo_block_def child_def graphic_def)
  have m: "read_trimmed demo_block [''nvme0n1'', ''removable''] = None"
    "read_trimmed demo_block [''nvme0n1'', ''device'', ''model''] = None"
    "read_trimmed demo_block [''nvme0n1'', ''device'', ''serial''] = None"
    "read_trimmed demo_block [''nvme0n1'', ''device'', ''wwid''] = None"
    "read_trimmed demo_block [''nvme0n1'', ''queue'', ''rotational''] = None"
    by (rule read_trimmed_missing, simp add: demo_block_def child_def)+
  have p: "path_exists demo_block [''nvme0n1'', ''device'']" "\<not> path_exists demo_block [''loop0'', ''device'']"
    by (simp_all add: path_exists_def demo_block_def child_def)
  have n: "parse_u64 ''1875385008'' = Some 1875385008"
    by (simp add: parse_u64_def parse_unsigned_def strip_plus_def digit_val_def)
  have "disk_decode demo_block ''nvme0n1'' = Some \<lparr>d_name = ''/dev/nvme0n1'', d_model = [],
      d_size_gb = 960, d_type = ''NVMe'', d_serial = []\<rparr>"
    by (simp add: disk_decode_def v r m p n disk_type_def disk_serial_def BYTES_PER_SECTOR_def
        BYTES_PER_GB_def)
  moreover have "disk_decode demo_block ''loop0'' = None" by (simp add: disk_decode_def v p)
  moreover have "read_dir demo_block [] = Some [''nvme0n1'', ''loop0'']"
    by (simp add: read_dir_def demo_block_def)
  moreover have "sort [''nvme0n1'', ''loop0''] = [''loop0'', ''nvme0n1'']"
    by (simp add: less_eq_char_def list_less_def lexord_def)
  ultimately show ?thesis by (simp add: disk_collect_from_def map_filter_simps)
qed

lemma disk_collect_fixed_witness:
  "\<exists>name sectors. disk_decode demo_block name = Some \<lparr>d_name = ''/dev/nvme0n1'', d_model = [],
       d_size_gb = 960, d_type = ''NVMe'', d_serial = []\<rparr> \<and>
     read_trimmed demo_block [name, ''removable''] \<noteq> Some ''1'' \<and>
     Option.bind (read_trimmed demo_block [name, ''size'']) parse_u64 = Some sectors \<and>
     960 = (unat sectors * 512 mod 2 ^ 64) div 1000000000"
proof -
  let ?x = "\<lparr>d_name = ''/dev/nvme0n1'', d_model = [], d_size_gb = 960,
    d_type = ''NVMe'', d_serial = []\<rparr>"
  have "?x \<in> set (disk_collect_from demo_block)" by (simp add: demo_block_disks)
  from disk_collect_fixed [OF this] obtain name sectors where
    "disk_decode demo_block name = Some ?x"
    "read_trimmed demo_block [name, ''removable''] \<noteq> Some ''1''"
    "Option.bind (read_trimmed demo_block [name, ''size'']) parse_u64 = Some sectors"
    "unat (d_size_gb ?x) = (unat sectors * 512 mod 2 ^ 64) div 1000000000" by blast
  then show ?thesis by (intro exI [of _ name] exI [of _ sectors]) simp
qed

text \<open>
  The addresses reported for an interface are exactly the IP addresses listed for it,
  each once, IPv4 before IPv6 and in numeric order.
\<close>

lemma interface_addresses_spec:
  "(case interface_addresses (Some es) name of
      None \<Rightarrow> filter (\<lambda>(n, ip). n = name \<and> ip \<noteq> None) es = []
    | Some ips \<Rightarrow> sorted ips \<and> distinct ips \<and> ips \<noteq> [] \<and>
        set ips = {ip. (name, Some ip) \<in> set es}) \<and>
   interface_addresses None name = None"
proof -
  let ?ips = "List.map_filter (\<lambda>(n, ip). if n = name then ip else None) es"
  have s: "set ?ips = {ip. (name, Some ip) \<in> set es}"
    by (auto simp: set_map_filter split: if_splits) force
  have e: "?ips = [] \<longleftrightarrow> filter (\<lambda>(n, ip). n = name \<and> ip \<noteq> None) es = []"
    by (induction es) (auto simp: map_filter_simps split: option.splits if_splits)
  have "sorted (remdups_adj (sort ?ips))" "distinct (remdups_adj (sort ?ips))"
    by (simp_all add: sorted_distinct_remdups_adj)
  moreover have "sort ?ips = [] \<longleftrightarrow> ?ips = []" by (metis set_sort set_empty)
  ultimately show ?thesis
    using s e by (auto simp: interface_addresses_def Let_def)
qed

end
