(* ===== verification/Image.thy ===== *)
theory Image
  imports Rust_Num
begin

text \<open>
  \<open>src/image.rs\<close>: the digest-pinned fetch of the target image. The SHA-256 function,
  the HTTP exchange, the body reader and the sink are parameters; the parsing of the
  digest, the scheme check, the streaming loop with its size bound and the digest gate
  are the code's.
\<close>

section \<open>Data\<close>

definition DEFAULT_MAX_IMAGE_BYTES :: u64 where
  "DEFAULT_MAX_IMAGE_BYTES = 16 * 1024 * 1024 * 1024"

definition READ_BUF_BYTES :: nat where "READ_BUF_BYTES = 1024 * 1024"

datatype image_error =
    InvalidDigestFormat
  | UnsupportedScheme
  | ImageHttp u16
  | ImageTransport string
  | TooLarge u64
  | ImageRead io_error
  | ImageWrite io_error
  | DigestMismatch string string

text \<open>\<open>Sha256Digest([u8; 32])\<close>.\<close>

datatype sha256_digest = Sha256Digest (digest_bytes: bytes)

section \<open>Parsing and printing a digest\<close>

definition hex_nibble :: "u8 \<Rightarrow> u8 option" where
  "hex_nibble b =
     (if char_byte (CHR ''0'') \<le> b \<and> b \<le> char_byte (CHR ''9'') then Some (b - char_byte (CHR ''0''))
      else if char_byte (CHR ''a'') \<le> b \<and> b \<le> char_byte (CHR ''f'')
      then Some (b - char_byte (CHR ''a'') + 10)
      else None)"

definition hex_pair :: "bytes \<Rightarrow> image_error + u8" where
  "hex_pair p =
     rbind (ok_or (hex_nibble (p ! 0)) InvalidDigestFormat) (\<lambda>hi.
     rbind (ok_or (hex_nibble (p ! 1)) InvalidDigestFormat) (\<lambda>lo.
     Inr (push_bit 4 hi OR lo)))"

fun try_map :: "('a \<Rightarrow> 'e + 'b) \<Rightarrow> 'a list \<Rightarrow> 'e + 'b list" where
  "try_map f [] = Inr []"
| "try_map f (x # xs) = rbind (f x) (\<lambda>y. rbind (try_map f xs) (\<lambda>ys. Inr (y # ys)))"

definition digest_parse :: "string \<Rightarrow> image_error + sha256_digest" where
  "digest_parse s =
     rbind (ok_or (strip_prefix ''sha256:'' s) InvalidDigestFormat) (\<lambda>hex.
     if length hex \<noteq> 64 then Inl InvalidDigestFormat
     else rbind (try_map hex_pair (chunks_exact 2 (as_bytes hex))) (\<lambda>bs. Inr (Sha256Digest bs)))"

definition digest_display :: "sha256_digest \<Rightarrow> string" where
  "digest_display d = ''sha256:'' @ concat (map fmt_02x (digest_bytes d))"

section \<open>The scheme check\<close>

definition validate_image_scheme :: "string \<Rightarrow> image_error + unit" where
  "validate_image_scheme url = (case split_once_str ''://'' url of
       Some (scheme, _) \<Rightarrow>
         if eq_ignore_ascii_case scheme ''http'' \<or> eq_ignore_ascii_case scheme ''https''
         then Inr () else Inl UnsupportedScheme
     | None \<Rightarrow> Inl UnsupportedScheme)"

section \<open>Streaming\<close>

text \<open>
  A reader is a function of its state and the room in the buffer; the buffer cannot hold
  more than that room, so what is read back is a prefix. A sink takes a write of a whole
  buffer (\<open>write_all\<close>) and a flush. \<open>Take\<close> reads nothing more once its limit is used up,
  and never asks the inner reader for more than what is left of it.
\<close>

type_synonym 'r reader = "'r \<Rightarrow> nat \<Rightarrow> (io_error + bytes) \<times> 'r"
type_synonym 'w writer = "bytes \<Rightarrow> 'w \<Rightarrow> (io_error + unit) \<times> 'w"
type_synonym 'w flusher = "'w \<Rightarrow> (io_error + unit) \<times> 'w"

definition saturating_add :: "'a::len word \<Rightarrow> 'a word \<Rightarrow> 'a word" where
  "saturating_add a b = (if unat a + unat b < 2 ^ LENGTH('a) then a + b else - 1)"

definition take_read :: "'r reader \<Rightarrow> 'r \<Rightarrow> u64 \<Rightarrow> (io_error + bytes) \<times> 'r" where
  "take_read rd r limit =
     (if limit = 0 then (Inr [], r)
      else let room = min READ_BUF_BYTES (unat limit); (x, r') = rd r room in
        (map_sum id (take room) x, r'))"

text \<open>
  The loop: \<open>count\<close> counts the bytes read, \<open>fed\<close> is what the hasher has been fed, in order.
  The bound is checked before the bytes are hashed or written.
\<close>

function stream_loop ::
  "'r reader \<Rightarrow> 'w writer \<Rightarrow> u64 \<Rightarrow> 'r \<Rightarrow> u64 \<Rightarrow> u64 \<Rightarrow> bytes \<Rightarrow> 'w \<Rightarrow>
     (image_error + u64 \<times> bytes) \<times> 'w" where
  "stream_loop rd wr max_bytes r limit count fed w =
     (case take_read rd r limit of
        (Inl e, _) \<Rightarrow> (Inl (ImageRead e), w)
      | (Inr buf, r') \<Rightarrow>
          if buf = [] then (Inr (count, fed), w)
          else let count' = count + word_of_nat (length buf) in
            if count' > max_bytes then (Inl (TooLarge max_bytes), w)
            else (case wr buf w of
                (Inl e, w') \<Rightarrow> (Inl (ImageWrite e), w')
              | (Inr _, w') \<Rightarrow>
                  stream_loop rd wr max_bytes r' (limit - word_of_nat (length buf)) count'
                    (fed @ buf) w'))"
  by pat_completeness auto

lemma take_read_length:
  assumes "take_read rd r limit = (Inr buf, r')"
  shows "length buf \<le> unat limit"
proof -
  obtain x r'' where rd: "rd r (min READ_BUF_BYTES (unat limit)) = (x, r'')" by fastforce
  show ?thesis
  proof (cases "limit = 0")
    case False
    with assms rd have "map_sum id (take (min READ_BUF_BYTES (unat limit))) x = Inr buf"
      by (simp add: take_read_def Let_def)
    then show ?thesis by (cases x) auto
  qed (use assms in \<open>simp add: take_read_def\<close>)
qed

lemma unat_minus_len:
  assumes "n \<le> unat (limit :: u64)"
  shows "unat (limit - word_of_nat n) = unat limit - n"
proof -
  have "n < 18446744073709551616" using assms unat_u64_lt [of limit] by linarith
  then have "unat (word_of_nat n :: u64) = n" by (simp add: unat_of_nat)
  with assms show ?thesis by (simp add: unat_sub word_le_nat_alt)
qed

lemma buf_shrinks:
  "b \<noteq> [] \<Longrightarrow> length b \<le> n \<Longrightarrow> n - length b < n"
  by (cases b) auto

termination stream_loop
  by (relation "measure (\<lambda>(rd, wr, m, r, limit, t, f, w). unat limit)")
    (auto dest!: take_read_length [OF sym] simp: unat_minus_len buf_shrinks)

declare stream_loop.simps [simp del]

definition stream_verify ::
  "(bytes \<Rightarrow> bytes) \<Rightarrow> 'r reader \<Rightarrow> 'w writer \<Rightarrow> 'w flusher \<Rightarrow> 'r \<Rightarrow> sha256_digest \<Rightarrow> u64 \<Rightarrow> 'w \<Rightarrow>
     (image_error + u64) \<times> 'w" where
  "stream_verify sha rd wr fl r expected max_bytes w =
     (case stream_loop rd wr max_bytes r (saturating_add max_bytes 1) 0 [] w of
        (Inl e, w') \<Rightarrow> (Inl e, w')
      | (Inr (count, fed), w') \<Rightarrow>
          (case fl w' of
             (Inl e, w'') \<Rightarrow> (Inl (ImageWrite e), w'')
           | (Inr _, w'') \<Rightarrow>
               let computed = Sha256Digest (sha fed) in
               if computed \<noteq> expected
               then (Inl (DigestMismatch (digest_display expected) (digest_display computed)), w'')
               else (Inr count, w'')))"

section \<open>The agent\<close>

text \<open>
  The settings an HTTP agent is built with: the certificates it trusts (\<open>None\<close> is no verification),
  its timeouts in milliseconds, how many redirects it follows, and whether a status other than
  2xx is an error of the call. The calls themselves are parameters of the models.
\<close>

record 'cert agent_config =
  ag_trust :: "'cert list option"
  ag_timeout_connect :: nat
  ag_timeout_global :: "nat option"
  ag_timeout_recv_body :: "nat option"
  ag_max_redirects :: nat
  ag_status_as_error :: bool

definition IMAGE_CONNECT_TIMEOUT :: nat where "IMAGE_CONNECT_TIMEOUT = 30 * 1000"
definition RECV_BODY_TIMEOUT :: nat where "RECV_BODY_TIMEOUT = 2 * 60 * 60 * 1000"

definition no_verify_tls_config :: "'cert list option" where "no_verify_tls_config = None"

definition image_agent :: "'cert agent_config" where
  "image_agent = \<lparr>ag_trust = no_verify_tls_config, ag_timeout_connect = IMAGE_CONNECT_TIMEOUT,
     ag_timeout_global = None, ag_timeout_recv_body = Some RECV_BODY_TIMEOUT, ag_max_redirects = 0,
     ag_status_as_error = False\<rparr>"

text \<open>An HTTP request as the program composes it, of the image fetch and of the callback client.\<close>

record request =
  rq_method :: string
  rq_url :: string
  rq_headers :: "(string \<times> string) list"
  rq_body :: bytes

definition image_get :: "string \<Rightarrow> request" where
  "image_get url = \<lparr>rq_method = ''GET'', rq_url = url, rq_headers = [], rq_body = []\<rparr>"

text \<open>
  \<open>ImageFetcher::fetch_to\<close>: the agent's exchange is a parameter that answers a request with a
  transport error (its fixed kind) or a status and the body's reader state.
\<close>

definition fetch_to ::
  "(request \<Rightarrow> string + u16 \<times> 'r) \<Rightarrow> (bytes \<Rightarrow> bytes) \<Rightarrow> 'r reader \<Rightarrow> 'w writer \<Rightarrow> 'w flusher \<Rightarrow>
     string \<Rightarrow> sha256_digest \<Rightarrow> u64 \<Rightarrow> 'w \<Rightarrow> (image_error + u64) \<times> 'w" where
  "fetch_to get sha rd wr fl url expected max_bytes w =
     (case validate_image_scheme url of
        Inl e \<Rightarrow> (Inl e, w)
      | Inr _ \<Rightarrow>
          (case get (image_get url) of
             Inl kind \<Rightarrow> (Inl (ImageTransport kind), w)
           | Inr (code, r) \<Rightarrow>
               if \<not> (200 \<le> code \<and> code < 300) then (Inl (ImageHttp code), w)
               else stream_verify sha rd wr fl r expected max_bytes w))"

section \<open>Digest lemmas\<close>

lemma char_byte_nat [simp]: "unat (char_byte c) = of_char c"
proof -
  have "of_char c < (256 :: nat)" by simp
  then show ?thesis by (simp add: char_byte_def unat_of_nat)
qed

text \<open>The lowercase hexadecimal digits, and \<open>hex_nibble\<close> on them.\<close>

definition is_lower_hex :: "char \<Rightarrow> bool" where
  "is_lower_hex c \<longleftrightarrow>
     (CHR ''0'' \<le> c \<and> c \<le> CHR ''9'') \<or> (CHR ''a'' \<le> c \<and> c \<le> CHR ''f'')"

lemma nat16_cases: "d < (16 :: nat) \<Longrightarrow>
    d \<in> {0, 1, 2, 3, 4, 5, 6, 7, 8, 9, 10, 11, 12, 13, 14, 15}"
  by (simp, presburger)

lemma hex_nibble_digit: "d < 16 \<Longrightarrow> hex_nibble (char_byte (hex_lower d)) = Some (word_of_nat d)"
  by (drule nat16_cases, elim insertE)
    (simp_all add: hex_nibble_def hex_lower_def char_byte_def)

lemma hex_nibble_Some: "(\<exists>w. hex_nibble (char_byte c) = Some w) \<longleftrightarrow> is_lower_hex c"
  by (auto simp: hex_nibble_def word_le_nat_alt is_lower_hex_def less_eq_char_def)

text \<open>A pair of nibbles and the byte they make.\<close>

lemma nibble_or:
  assumes "hi < 16" "lo < 16"
  shows "push_bit 4 (word_of_nat hi) OR word_of_nat lo = (word_of_nat (16 * hi + lo) :: u8)"
proof -
  have "\<not> bit lo n" if "4 \<le> n" for n
  proof -
    have "lo < 2 ^ n" using assms(2) power_increasing [OF that, of "2 :: nat"] by simp
    then show ?thesis by (simp add: bit_iff_odd)
  qed
  then have "push_bit 4 (word_of_nat hi) + word_of_nat lo
      = push_bit 4 (word_of_nat hi) OR (word_of_nat lo :: u8)"
    by (intro disjunctive_add_eq_or bit_word_eqI) (auto simp: bit_simps)
  then show ?thesis by (simp add: push_bit_eq_mult) (metis mult.commute)
qed

lemma is_lower_hex_hex_lower: "d < 16 \<Longrightarrow> is_lower_hex (hex_lower d)"
  using hex_nibble_digit hex_nibble_Some by blast

lemma is_lower_hexE:
  assumes "is_lower_hex c"
  obtains d where "d < 16" "c = hex_lower d"
proof -
  define d where "d = (if CHR ''a'' \<le> c then of_char c - 87 else of_char c - 48 :: nat)"
  have "d < 16 \<and> of_char (hex_lower d) = (of_char c :: nat)"
    using assms by (auto simp: d_def is_lower_hex_def less_eq_char_def hex_lower_def)
  then show thesis using that [of d] by (metis char_of_char)
qed

lemma fmt_02x_hex:
  "hi < 16 \<Longrightarrow> lo < 16 \<Longrightarrow> fmt_02x (word_of_nat (16 * hi + lo)) = [hex_lower hi, hex_lower lo]"
proof -
  assume h: "hi < 16" "lo < 16"
  then have "unat (word_of_nat (16 * hi + lo) :: u8) = 16 * hi + lo"
    by (intro unat_u8_of_nat) simp
  moreover have "(16 * hi + lo) div 16 = hi" "(16 * hi + lo) mod 16 = lo" using h by auto
  ultimately show ?thesis using h by (simp add: fmt_02x_def numeral_2_eq_2)
qed

lemma hex_pair_digits:
  "hi < 16 \<Longrightarrow> lo < 16 \<Longrightarrow>
     hex_pair [char_byte (hex_lower hi), char_byte (hex_lower lo)] = Inr (word_of_nat (16 * hi + lo))"
  by (simp add: hex_pair_def hex_nibble_digit nibble_or)

lemma hex_pair_ok_iff:
  "is_ok (hex_pair [char_byte a, char_byte b]) \<longleftrightarrow> is_lower_hex a \<and> is_lower_hex b"
  by (cases "hex_nibble (char_byte a)"; cases "hex_nibble (char_byte b)")
    (auto simp: hex_pair_def hex_nibble_Some [symmetric])

lemma fmt_02x_split: "\<exists>hi<16. \<exists>lo<16. b = word_of_nat (16 * hi + lo) \<and> fmt_02x b = [hex_lower hi, hex_lower lo]"
proof -
  have "unat b div 16 < 16" "unat b mod 16 < 16"
    using unat_u8_lt [of b] by (simp_all only: less_mult_imp_div_less)
  moreover have b: "b = word_of_nat (16 * (unat b div 16) + unat b mod 16)" by simp
  ultimately show ?thesis using fmt_02x_hex by metis
qed

lemma try_map_ok_iff: "is_ok (try_map f xs) \<longleftrightarrow> (\<forall>x\<in>set xs. is_ok (f x))"
  by (induction xs) (auto simp: result_iffs split: sum.splits)

lemma length_try_map: "try_map f xs = Inr ys \<Longrightarrow> length ys = length xs"
  by (induction xs arbitrary: ys) (auto simp: result_iffs)

text \<open>Reading the printed bytes of a digest back, and printing what was read.\<close>

lemma try_map_fmt:
  "try_map hex_pair (chunks_exact 2 (as_bytes (concat (map fmt_02x bs)))) = Inr bs"
proof (induction bs)
  case (Cons b bs)
  obtain hi lo where "hi < 16" "lo < 16" "b = word_of_nat (16 * hi + lo)"
      "fmt_02x b = [hex_lower hi, hex_lower lo]"
    using fmt_02x_split by blast
  moreover from this have "chunks_exact 2 (as_bytes (concat (map fmt_02x (b # bs))))
      = [char_byte (hex_lower hi), char_byte (hex_lower lo)]
        # chunks_exact 2 (as_bytes (concat (map fmt_02x bs)))"
    using chunks_exact_append [of "[char_byte (hex_lower hi), char_byte (hex_lower lo)]" 2]
    by (simp add: as_bytes_def)
  ultimately show ?case using Cons by (simp add: hex_pair_digits)
qed (simp add: as_bytes_def chunks_exact_short)

lemma length_concat_fmt: "length (concat (map fmt_02x bs)) = 2 * length bs"
  by (induction bs) (simp_all add: fmt_02x_def)

lemma hex_text_ok:
  "even (length hex) \<Longrightarrow>
     is_ok (try_map hex_pair (chunks_exact 2 (as_bytes hex))) \<longleftrightarrow> list_all is_lower_hex hex"
proof (induction "length hex" arbitrary: hex rule: less_induct)
  case less
  show ?case
  proof (cases hex)
    case (Cons a t)
    with less(2) obtain b u where t: "t = b # u" by (cases t) auto
    have "chunks_exact 2 (as_bytes hex) = [char_byte a, char_byte b] # chunks_exact 2 (as_bytes u)"
      using chunks_exact_append [of "[char_byte a, char_byte b]" 2 "as_bytes u"] Cons t
      by (simp add: as_bytes_def)
    with less Cons t show ?thesis
      unfolding try_map_ok_iff by (simp add: hex_pair_ok_iff)
  qed (simp add: as_bytes_def chunks_exact_short)
qed

lemma hex_text_fmt:
  "even (length hex) \<Longrightarrow> list_all is_lower_hex hex \<Longrightarrow> \<exists>bs. concat (map fmt_02x bs) = hex"
proof (induction "length hex" arbitrary: hex rule: less_induct)
  case less
  show ?case
  proof (cases hex)
    case Nil
    then have "concat (map fmt_02x []) = hex" by simp
    then show ?thesis by blast
  next
    case (Cons a t)
    with less(2) obtain b u where t: "t = b # u" by (cases t) auto
    with less(3) Cons obtain hi lo where h: "hi < 16" "lo < 16" "a = hex_lower hi" "b = hex_lower lo"
      by (auto elim!: is_lower_hexE)
    from less Cons t obtain bs where "concat (map fmt_02x bs) = u" by fastforce
    then have "concat (map fmt_02x (word_of_nat (16 * hi + lo) # bs)) = hex"
      using Cons t h fmt_02x_hex [OF h(1,2)] by (simp del: of_nat_add of_nat_mult)
    then show ?thesis by blast
  qed
qed

definition digest_syntax :: "string \<Rightarrow> bool" where
  "digest_syntax s \<longleftrightarrow>
     (\<exists>hex. s = ''sha256:'' @ hex \<and> length hex = 64 \<and> list_all is_lower_hex hex)"

lemma digest_parse_display:
  "length (digest_bytes d) = 32 \<Longrightarrow> digest_parse (digest_display d) = Inr d"
  unfolding digest_parse_def digest_display_def strip_prefix_app
  by (simp add: length_concat_fmt try_map_fmt)

lemma digest_parse_text:
  assumes "length hex = 64" "list_all is_lower_hex hex"
  shows "\<exists>d. digest_parse (''sha256:'' @ hex) = Inr d \<and> length (digest_bytes d) = 32 \<and>
           digest_display d = ''sha256:'' @ hex"
proof -
  obtain bs where bs: "concat (map fmt_02x bs) = hex"
    using hex_text_fmt [of hex] assms by auto
  with assms have "length bs = 32" using length_concat_fmt [of bs] by simp
  with bs show ?thesis
    using digest_parse_display [of "Sha256Digest bs"] by (auto simp: digest_display_def)
qed

lemma digest_parse_reject:
  assumes "\<not> digest_syntax s"
  shows "digest_parse s = Inl InvalidDigestFormat"
proof (cases "strip_prefix ''sha256:'' s")
  case None
  then show ?thesis by (simp add: digest_parse_def)
next
  case (Some hex)
  then have s: "s = ''sha256:'' @ hex" by (simp add: strip_prefix_Some)
  show ?thesis
  proof (cases "length hex = 64")
    case True
    with assms s have "\<not> list_all is_lower_hex hex" by (simp add: digest_syntax_def)
    with True have nok: "\<not> is_ok (try_map hex_pair (chunks_exact 2 (as_bytes hex)))"
      by (simp add: hex_text_ok)
    have e: "try_map hex_pair ps = Inl x \<Longrightarrow> x = InvalidDigestFormat" for ps x
      by (induction ps) (auto simp: hex_pair_def result_iffs)
    show ?thesis
    proof (cases "try_map hex_pair (chunks_exact 2 (as_bytes hex))")
      case (Inl x)
      with e True s show ?thesis unfolding digest_parse_def s strip_prefix_app by simp
    qed (use nok in simp)
  next
    case False
    with Some show ?thesis by (simp add: digest_parse_def)
  qed
qed

section \<open>The sink contract and what streaming leaves behind\<close>

text \<open>
  A sink that behaves like a byte stream: a write that succeeds appends the whole buffer,
  one that fails has appended some prefix of it, and a flush appends nothing.
\<close>

locale byte_sink =
  fixes wr :: "'w writer" and fl :: "'w flusher" and written :: "'w \<Rightarrow> bytes"
  assumes write_ok: "wr b w = (Inr u, w') \<Longrightarrow> written w' = written w @ b"
    and write_err: "wr b w = (Inl e, w') \<Longrightarrow> \<exists>n. written w' = written w @ take n b"
    and flush_id: "fl w = (x, w') \<Longrightarrow> written w' = written w"
begin

lemma loop_sound:
  assumes "stream_loop rd wr m r limit cnt fed w = (x, w')"
    and "unat limit + unat cnt < 2 ^ 64" "cnt \<le> m"
  shows "\<exists>new. written w' = written w @ new \<and> unat cnt + length new \<le> unat m \<and>
    (\<forall>c fed'. x = Inr (c, fed') \<longrightarrow> fed' = fed @ new \<and> unat c = unat cnt + length new)"
  using assms
proof (induction "unat limit" arbitrary: r limit cnt fed w rule: less_induct)
  case less
  obtain y r' where tr: "take_read rd r limit = (y, r')" by fastforce
  note step = less(2) [unfolded stream_loop.simps [of rd wr m r limit] tr prod.case]
  have m: "unat cnt \<le> unat m" using less(4) by (simp add: word_le_nat_alt)
  have stop: ?case if "w' = w" "\<And>c f. x = Inr (c, f) \<Longrightarrow> c = cnt \<and> f = fed"
    using that m by (intro exI [of _ "[]"]) auto
  show ?case
  proof (cases y)
    case (Inl e)
    with step show ?thesis by (intro stop) auto
  next
    case (Inr buf)
    define n where "n = length buf"
    have n: "n \<le> unat limit" using take_read_length [of rd r limit buf r'] tr Inr by (simp add: n_def)
    have cn: "unat (cnt + word_of_nat n) = unat cnt + n"
    proof -
      have small: "unat cnt + n < 18446744073709551616" using n less(3) by simp
      then have "unat (word_of_nat n :: u64) = n" by (intro unat_u64_of_nat) simp
      with small show ?thesis by (simp add: unat_word_ariths)
    qed
    note step' = step [unfolded Inr sum.case Let_def n_def [symmetric]]
    show ?thesis
    proof (cases "buf = [] \<or> cnt + word_of_nat n > m")
      case True
      with step' show ?thesis by (intro stop) (auto split: if_splits)
    next
      case False
      then have le: "unat cnt + n \<le> unat m"
        using cn by (simp add: word_le_nat_alt linorder_not_less)
      obtain z w1 where wr: "wr buf w = (z, w1)" by fastforce
      show ?thesis
      proof (cases z)
        case (Inl e)
        with wr obtain k where "written w1 = written w @ take k buf" using write_err by blast
        moreover have "x = Inl (ImageWrite e) \<and> w' = w1" using step' False wr Inl by auto
        ultimately show ?thesis
          using le by (intro exI [of _ "take k buf"]) (auto simp: n_def)
      next
        case (Inr u)
        with wr have w1: "written w1 = written w @ buf" using write_ok by blast
        have rec: "stream_loop rd wr m r' (limit - word_of_nat n) (cnt + word_of_nat n)
            (fed @ buf) w1 = (x, w')"
          using step' False wr Inr by auto
        have lim: "unat (limit - word_of_nat n) = unat limit - n" by (rule unat_minus_len [OF n])
        have "\<exists>new. written w' = written w1 @ new \<and>
            unat (cnt + word_of_nat n) + length new \<le> unat m \<and>
            (\<forall>c fed'. x = Inr (c, fed') \<longrightarrow> fed' = (fed @ buf) @ new \<and>
               unat c = unat (cnt + word_of_nat n) + length new)"
        proof (rule less(1) [OF _ rec])
          show "unat (limit - word_of_nat n) < unat limit"
            using lim n False by (simp add: n_def buf_shrinks)
          show "unat (limit - word_of_nat n) + unat (cnt + word_of_nat n) < 2 ^ 64"
            using lim cn n less(3) by simp
          show "cnt + word_of_nat n \<le> m" using False by (simp add: linorder_not_less)
        qed
        then obtain new where "written w' = written w1 @ new"
            "unat cnt + n + length new \<le> unat m"
            "\<forall>c fed'. x = Inr (c, fed') \<longrightarrow> fed' = (fed @ buf) @ new \<and>
               unat c = unat cnt + n + length new"
          unfolding cn by blast
        then show ?thesis using w1 by (intro exI [of _ "buf @ new"]) (auto simp: n_def)
      qed
    qed
  qed
qed

lemma verify_sound:
  assumes "stream_verify sha rd wr fl r d m w = (x, w')"
  shows "\<exists>new. written w' = written w @ new \<and> length new \<le> unat m \<and>
    (\<forall>c. x = Inr c \<longrightarrow> unat c = length new \<and> Sha256Digest (sha new) = d)"
proof -
  obtain y w1 where l: "stream_loop rd wr m r (saturating_add m 1) 0 [] w = (y, w1)" by fastforce
  have "unat (saturating_add m 1) + unat (0 :: u64) < 2 ^ 64" by simp
  from loop_sound [OF l this] obtain new where new: "written w1 = written w @ new"
      "length new \<le> unat m"
      "\<forall>c f. y = Inr (c, f) \<longrightarrow> f = new \<and> unat c = length new"
    by auto
  obtain z w2 where f: "fl w1 = (z, w2)" by fastforce
  with flush_id new(1) have w2: "written w2 = written w @ new" by metis
  have "(w' = w1 \<or> w' = w2) \<and> (\<forall>c. x = Inr c \<longrightarrow>
      (\<exists>f. y = Inr (c, f) \<and> Sha256Digest (sha f) = d))"
    using assms l f by (auto simp: stream_verify_def Let_def split: sum.splits if_splits prod.splits)
  with new w2 show ?thesis by (intro exI [of _ new]) auto
qed

end

section \<open>Properties\<close>

text \<open>
  C34: the digest parser accepts exactly \<open>sha256:\<close> followed by 64 lowercase hexadecimal
  digits, gives 32 bytes that print back as the text it read, and otherwise answers
  \<open>InvalidDigestFormat\<close>.
\<close>

theorem digest_parse_spec:
  "case digest_parse s of
     Inr d \<Rightarrow> digest_syntax s \<and> length (digest_bytes d) = 32 \<and> digest_display d = s
   | Inl e \<Rightarrow> \<not> digest_syntax s \<and> e = InvalidDigestFormat"
proof (cases "digest_syntax s")
  case True
  then obtain hex where s: "s = ''sha256:'' @ hex" and hex: "length hex = 64" "list_all is_lower_hex hex"
    unfolding digest_syntax_def by blast
  obtain d where "digest_parse s = Inr d" "length (digest_bytes d) = 32" "digest_display d = s"
    using digest_parse_text [OF hex] unfolding s by blast
  with True show ?thesis by simp
next
  case False
  then show ?thesis by (simp add: digest_parse_reject)
qed

lemma split_once_str_first:
  "CHR '':'' \<notin> set a \<Longrightarrow> split_once_str ''://'' (a @ ''://'' @ b) = Some (a, b)"
  by (induction a) (auto simp: starts_with_iff)

lemma lower_http: "to_ascii_lowercase ''http'' = ''http''" "to_ascii_lowercase ''https'' = ''https''"
  by (simp_all add: to_ascii_lowercase_def)

lemma lower_colon: "CHR '':'' \<in> set a \<Longrightarrow> CHR '':'' \<in> set (to_ascii_lowercase a)"
  by (force simp: to_ascii_lowercase_def)

text \<open>
  an image URL passes the scheme check exactly when it starts with \<open>http://\<close> or
  \<open>https://\<close>, in any ASCII case.
\<close>

lemma image_scheme_spec:
  "validate_image_scheme url = Inr () \<longleftrightarrow>
     (\<exists>scheme rest. url = scheme @ ''://'' @ rest \<and>
        to_ascii_lowercase scheme \<in> {''http'', ''https''})"
proof
  assume "validate_image_scheme url = Inr ()"
  then obtain a b where "split_once_str ''://'' url = Some (a, b)"
      "eq_ignore_ascii_case a ''http'' \<or> eq_ignore_ascii_case a ''https''"
    by (auto simp: validate_image_scheme_def split: option.splits if_splits)
  then have "url = a @ ''://'' @ b" "to_ascii_lowercase a \<in> {''http'', ''https''}"
    using lower_http split_once_str_Some by (blast, simp add: eq_ignore_ascii_case_def)
  then show "\<exists>scheme rest. url = scheme @ ''://'' @ rest \<and>
      to_ascii_lowercase scheme \<in> {''http'', ''https''}" by blast
next
  assume "\<exists>scheme rest. url = scheme @ ''://'' @ rest \<and>
      to_ascii_lowercase scheme \<in> {''http'', ''https''}"
  then obtain a b where u: "url = a @ ''://'' @ b" and l: "to_ascii_lowercase a \<in> {''http'', ''https''}"
    by blast
  have "CHR '':'' \<notin> set a" using l lower_colon [of a] by auto
  then have "split_once_str ''://'' url = Some (a, b)" unfolding u by (rule split_once_str_first)
  then show "validate_image_scheme url = Inr ()"
    using l lower_http by (simp add: validate_image_scheme_def eq_ignore_ascii_case_def)
qed

end
