(* ===== verification/Client.thy ===== *)
theory Client
  imports Cmdline Probe Image
begin

text \<open>
  \<open>src/client.rs\<close>: the callback client. A request is sent by a parameter that answers with a
  transport error or a response and threads its own state; base64, PEM and certificate
  checks, and JSON serialisation, are parameters too. Sleeping records the milliseconds.
\<close>

section \<open>Data\<close>

definition MAX_ATTEMPTS :: nat where "MAX_ATTEMPTS = 5"
definition BACKOFF_BASE :: nat where "BACKOFF_BASE = 500"
definition BACKOFF_CAP :: nat where "BACKOFF_CAP = 8000"
definition CONNECT_TIMEOUT :: nat where "CONNECT_TIMEOUT = 10 * 1000"
definition CALL_TIMEOUT :: nat where "CALL_TIMEOUT = 30 * 1000"
definition MAX_BOOTSTRAP_BYTES :: nat where "MAX_BOOTSTRAP_BYTES = 4 * 1024 * 1024"
definition PROVISIONED_BODY :: bytes where
  "PROVISIONED_BODY = as_bytes ([CHR 0x7B, CHR 0x22] @ ''status'' @ [CHR 0x22, CHR '':'', CHR 0x22] @
     ''provisioned'' @ [CHR 0x22, CHR 0x7D])"

datatype client_error =
    CaDecode
  | CaEmpty
  | CaInvalid
  | Http u16
  | Transport string
  | Body
  | BootstrapTooLarge
  | Serialize
  | RetriesExhausted client_error

text \<open>The cases of \<open>ureq::Error\<close> the code tells apart.\<close>

datatype ureq_error = ConnectionFailed | TimedOut | Tls | UreqIo | HostNotFound | TooManyRedirects
  | OtherUreq

definition transport_kind :: "ureq_error \<Rightarrow> string" where
  "transport_kind e = (case e of
       ConnectionFailed \<Rightarrow> ''connection failed'' | TimedOut \<Rightarrow> ''timeout'' | Tls \<Rightarrow> ''tls''
     | UreqIo \<Rightarrow> ''io'' | HostNotFound \<Rightarrow> ''host not found''
     | TooManyRedirects \<Rightarrow> ''too many redirects'' | OtherUreq \<Rightarrow> ''transport'')"

text \<open>A response: its status, the bytes its body delivers, and whether reading then fails.\<close>

record response =
  rs_status :: u16
  rs_body :: bytes
  rs_broken :: bool

section \<open>Retries\<close>

datatype 'a attempt = Done 'a | Retry client_error | Fatal client_error

text \<open>\<open>u64::checked_shl\<close> and \<open>Duration::saturating_mul\<close>, in milliseconds.\<close>

definition backoff :: "nat \<Rightarrow> nat" where
  "backoff n = (let factor = (if n < 64 then 2 ^ n else 2 ^ 64 - 1) in
     min (BACKOFF_BASE * min factor (2 ^ 32 - 1)) BACKOFF_CAP)"

text \<open>
  The loop of \<open>run_with_retries\<close> from attempt \<open>n\<close> with \<open>k\<close> attempts left: the result, the
  state of the attempts, and the sleeps.
\<close>

fun retry_loop ::
  "nat \<Rightarrow> nat \<Rightarrow> client_error option \<Rightarrow> (nat \<Rightarrow> 's \<Rightarrow> 'a attempt \<times> 's) \<Rightarrow> 's \<Rightarrow>
     (client_error + 'a) \<times> 's \<times> nat list" where
  "retry_loop n 0 last_err attempt s = (Inl (RetriesExhausted (unwrap_or last_err Body)), s, [])"
| "retry_loop n (Suc k) last_err attempt s = (case attempt n s of
       (Done v, s') \<Rightarrow> (Inr v, s', [])
     | (Fatal e, s') \<Rightarrow> (Inl e, s', [])
     | (Retry e, s') \<Rightarrow>
         (case retry_loop (n + 1) k (Some e) attempt s' of
            (r, s'', sleeps) \<Rightarrow> (r, s'', (if k \<noteq> 0 then backoff n # sleeps else sleeps))))"

definition run_with_retries ::
  "nat \<Rightarrow> (nat \<Rightarrow> 's \<Rightarrow> 'a attempt \<times> 's) \<Rightarrow> 's \<Rightarrow> (client_error + 'a) \<times> 's \<times> nat list" where
  "run_with_retries max_attempts attempt s = retry_loop 0 max_attempts None attempt s"

section \<open>One attempt\<close>

definition is_transient :: "u16 \<Rightarrow> bool" where
  "is_transient status \<longleftrightarrow> status = 408 \<or> status = 429 \<or> (500 \<le> status \<and> status \<le> 599)"

datatype verdict = VRetry client_error | VFatal client_error

definition into_attempt :: "verdict \<Rightarrow> 'a attempt" where
  "into_attempt v = (case v of VRetry e \<Rightarrow> Retry e | VFatal e \<Rightarrow> Fatal e)"

definition classify_status :: "ureq_error + response \<Rightarrow> verdict + response" where
  "classify_status result = (case result of
       Inr resp \<Rightarrow> (let code = rs_status resp in
         if 200 \<le> code \<and> code < 300 then Inr resp
         else if is_transient code then Inl (VRetry (Http code))
         else Inl (VFatal (Http code)))
     | Inl e \<Rightarrow> Inl (VRetry (Transport (transport_kind e))))"

text \<open>\<open>take(limit + 1)\<close> then \<open>read_to_end\<close>: a failure past the taken bytes is not seen.\<close>

definition read_capped :: "response \<Rightarrow> nat \<Rightarrow> client_error + bytes" where
  "read_capped resp limit =
     (let buf = take (limit + 1) (rs_body resp) in
      if rs_broken resp \<and> length (rs_body resp) < limit + 1 then Inl Body
      else if length buf > limit then Inl BootstrapTooLarge
      else Inr buf)"

definition accept_attempt :: "ureq_error + response \<Rightarrow> unit attempt" where
  "accept_attempt result = (case classify_status result of
       Inr _ \<Rightarrow> Done () | Inl v \<Rightarrow> into_attempt v)"

definition bootstrap_attempt :: "ureq_error + response \<Rightarrow> bytes attempt" where
  "bootstrap_attempt result = (case classify_status result of
       Inr resp \<Rightarrow> (case read_capped resp MAX_BOOTSTRAP_BYTES of
           Inr bytes \<Rightarrow> Done bytes
         | Inl BootstrapTooLarge \<Rightarrow> Fatal BootstrapTooLarge
         | Inl e \<Rightarrow> Retry e)
     | Inl v \<Rightarrow> into_attempt v)"

section \<open>URLs and trust\<close>

definition endpoint_url :: "string \<Rightarrow> string \<Rightarrow> string \<Rightarrow> string \<Rightarrow> string" where
  "endpoint_url kind api namespace host =
     trim_end_matches (\<lambda>c. c = CHR ''/'') api @ ''/api/v1/'' @ kind @ ''/'' @ namespace @ ''/'' @ host"

definition inspection_url :: "string \<Rightarrow> string \<Rightarrow> string \<Rightarrow> string" where
  "inspection_url = endpoint_url ''inspection''"
definition bootstrap_url :: "string \<Rightarrow> string \<Rightarrow> string \<Rightarrow> string" where
  "bootstrap_url = endpoint_url ''bootstrap''"
definition provisioned_url :: "string \<Rightarrow> string \<Rightarrow> string \<Rightarrow> string" where
  "provisioned_url = endpoint_url ''provisioned''"
definition provision_failed_url :: "string \<Rightarrow> string \<Rightarrow> string \<Rightarrow> string" where
  "provision_failed_url = endpoint_url ''provision-failed''"

text \<open>
  The certificates a request trusts: base64 decoding, the PEM iterator and the root store's
  acceptance are arguments.
\<close>

definition tls_config ::
  "(string \<Rightarrow> bytes option) \<Rightarrow> (bytes \<Rightarrow> (unit + 'cert) list) \<Rightarrow> ('cert \<Rightarrow> bool) \<Rightarrow> string \<Rightarrow>
     client_error + 'cert list" where
  "tls_config decode pem_certs acceptable ca =
     rbind (ok_or (decode (trim ca)) CaDecode) (\<lambda>pem.
     rbind (try_map (map_err (\<lambda>_. CaInvalid)) (pem_certs pem)) (\<lambda>certs.
     if certs = [] then Inl CaEmpty
     else if list_all acceptable certs then Inr certs else Inl CaInvalid))"

section \<open>The client\<close>

record 'cert client =
  cl_roots :: "'cert list"
  cl_inspection_url :: string
  cl_bootstrap_url :: string
  cl_provisioned_url :: string
  cl_provision_failed_url :: string
  cl_token :: secret

definition client_new ::
  "(string \<Rightarrow> bytes option) \<Rightarrow> (bytes \<Rightarrow> (unit + 'cert) list) \<Rightarrow> ('cert \<Rightarrow> bool) \<Rightarrow> boot_params \<Rightarrow>
     client_error + 'cert client" where
  "client_new decode pem_certs acceptable p =
     rbind (tls_config decode pem_certs acceptable (bp_ca p)) (\<lambda>roots.
     Inr \<lparr>cl_roots = roots, cl_inspection_url = inspection_url (bp_api p) (bp_namespace p) (bp_host p),
       cl_bootstrap_url = bootstrap_url (bp_api p) (bp_namespace p) (bp_host p),
       cl_provisioned_url = provisioned_url (bp_api p) (bp_namespace p) (bp_host p),
       cl_provision_failed_url = provision_failed_url (bp_api p) (bp_namespace p) (bp_host p),
       cl_token = bp_token p\<rparr>)"

text \<open>The agent of a client: only the delivered certificates, no redirects, every status handed back.\<close>

definition client_agent :: "'cert client \<Rightarrow> 'cert agent_config" where
  "client_agent c = \<lparr>ag_trust = Some (cl_roots c), ag_timeout_connect = CONNECT_TIMEOUT,
     ag_timeout_global = Some CALL_TIMEOUT, ag_timeout_recv_body = None, ag_max_redirects = 0,
     ag_status_as_error = False\<rparr>"

text \<open>\<open>http\<close> sends one request trusting the given roots; \<open>'s\<close> is the state of the network.\<close>

type_synonym ('cert, 's) http = "'cert list \<Rightarrow> request \<Rightarrow> 's \<Rightarrow> (ureq_error + response) \<times> 's"

definition bearer :: "'cert client \<Rightarrow> string" where
  "bearer c = ''Bearer '' @ expose (cl_token c)"

definition post_json :: "'cert client \<Rightarrow> string \<Rightarrow> bytes \<Rightarrow> request" where
  "post_json c url body = \<lparr>rq_method = ''POST'', rq_url = url,
     rq_headers = [(''Authorization'', bearer c), (''Content-Type'', ''application/json'')],
     rq_body = body\<rparr>"

definition get_bootstrap :: "'cert client \<Rightarrow> request" where
  "get_bootstrap c = \<lparr>rq_method = ''GET'', rq_url = cl_bootstrap_url c,
     rq_headers = [(''Authorization'', bearer c)], rq_body = []\<rparr>"

definition attempts ::
  "('cert, 's) http \<Rightarrow> 'cert client \<Rightarrow> request \<Rightarrow> (ureq_error + response \<Rightarrow> 'a attempt) \<Rightarrow>
     nat \<Rightarrow> 's \<Rightarrow> 'a attempt \<times> 's" where
  "attempts http c rq verdict n s = (case http (cl_roots c) rq s of (res, s') \<Rightarrow> (verdict res, s'))"

definition submit_report ::
  "('cert, 's) http \<Rightarrow> (inspection_report \<Rightarrow> bytes option) \<Rightarrow> 'cert client \<Rightarrow> inspection_report \<Rightarrow>
     's \<Rightarrow> (client_error + unit) \<times> 's \<times> nat list" where
  "submit_report http to_json c report s = (case to_json report of
       None \<Rightarrow> (Inl Serialize, s, [])
     | Some body \<Rightarrow> run_with_retries MAX_ATTEMPTS
         (attempts http c (post_json c (cl_inspection_url c) body) accept_attempt) s)"

definition fetch_bootstrap ::
  "('cert, 's) http \<Rightarrow> 'cert client \<Rightarrow> 's \<Rightarrow> (client_error + bytes) \<times> 's \<times> nat list" where
  "fetch_bootstrap http c s =
     run_with_retries MAX_ATTEMPTS (attempts http c (get_bootstrap c) bootstrap_attempt) s"

definition provisioned ::
  "('cert, 's) http \<Rightarrow> 'cert client \<Rightarrow> 's \<Rightarrow> (client_error + unit) \<times> 's \<times> nat list" where
  "provisioned http c s = run_with_retries MAX_ATTEMPTS
     (attempts http c (post_json c (cl_provisioned_url c) PROVISIONED_BODY) accept_attempt) s"

text \<open>\<open>reason_json\<close> is serde's serialisation of the body with that reason.\<close>

definition provision_failed ::
  "('cert, 's) http \<Rightarrow> (string \<Rightarrow> bytes option) \<Rightarrow> 'cert client \<Rightarrow> string \<Rightarrow>
     's \<Rightarrow> (client_error + unit) \<times> 's \<times> nat list" where
  "provision_failed http reason_json c reason s = (case reason_json reason of
       None \<Rightarrow> (Inl Serialize, s, [])
     | Some body \<Rightarrow> run_with_retries MAX_ATTEMPTS
         (attempts http c (post_json c (cl_provision_failed_url c) body) accept_attempt) s)"

section \<open>Lemmas\<close>

definition is_retry :: "'a attempt \<Rightarrow> bool" where
  "is_retry a \<longleftrightarrow> (case a of Retry _ \<Rightarrow> True | _ \<Rightarrow> False)"

definition final_result :: "'a attempt \<Rightarrow> client_error + 'a" where
  "final_result a = (case a of Done v \<Rightarrow> Inr v | Fatal e \<Rightarrow> Inl e | Retry e \<Rightarrow> Inl e)"

definition retry_error :: "'a attempt \<Rightarrow> client_error option" where
  "retry_error a = (case a of Retry e \<Rightarrow> Some e | _ \<Rightarrow> None)"

lemma attempt_simps [simp]:
  "\<not> is_retry (Done v)" "\<not> is_retry (Fatal e)" "is_retry (Retry e)"
  "final_result (Done v) = Inr v" "final_result (Fatal e) = Inl e" "retry_error (Retry e) = Some e"
  by (simp_all add: is_retry_def final_result_def retry_error_def)

text \<open>Against a script of answers, one for each attempt.\<close>

definition scripted :: "(nat \<Rightarrow> 'a attempt) \<Rightarrow> nat \<Rightarrow> nat \<Rightarrow> 'a attempt \<times> nat" where
  "scripted out n calls = (out calls, calls + 1)"

lemma scripted_apply [simp]: "scripted out n calls = (out calls, calls + 1)"
  by (simp add: scripted_def)

lemma map_upt_less: "n < m \<Longrightarrow> map f [n..<m] = f n # map f [n + 1..<m]"
  by (simp add: upt_conv_Cons)

lemma retry_loop_scripted:
  "retry_loop n k last_err (scripted out) n =
     (case find (\<lambda>i. \<not> is_retry (out i)) [n..<n + k] of
        Some i \<Rightarrow> (final_result (out i), i + 1, map backoff [n..<i])
      | None \<Rightarrow> (Inl (RetriesExhausted (if k = 0 then unwrap_or last_err Body
            else the (retry_error (out (n + k - 1))))), n + k, map backoff [n..<n + k - 1]))"
proof (induction k arbitrary: n last_err)
  case (Suc k)
  have u: "[n..<n + Suc k] = n # [n + 1..<n + 1 + k]" by (subst upt_conv_Cons) simp_all
  show ?case
  proof (cases "out n")
    case (Retry e)
    let ?P = "\<lambda>i. \<not> is_retry (out i)"
    have step: "retry_loop n (Suc k) last_err (scripted out) n =
        (case retry_loop (n + 1) k (Some e) (scripted out) (n + 1) of
           (r, s, sleeps) \<Rightarrow> (r, s, if k \<noteq> 0 then backoff n # sleeps else sleeps))"
      using Retry by simp
    have f: "find ?P [n..<n + Suc k] = find ?P [n + 1..<n + 1 + k]"
      unfolding u using Retry by simp
    show ?thesis
    proof (cases "find ?P [n + 1..<n + 1 + k]")
      case None
      then show ?thesis unfolding step f Suc.IH
        using Retry by (cases "k = 0") (simp_all add: map_upt_less)
    next
      case (Some i)
      then have "i \<in> set [n + 1..<n + 1 + k]" by (rule find_eq_SomeD [THEN conjunct1])
      then have "n < i" "k \<noteq> 0" by auto
      with Some show ?thesis unfolding step f Suc.IH by (simp add: map_upt_less)
    qed
  qed (unfold u, simp_all)
qed simp

lemma backoff_nat: "backoff n = min (500 * 2 ^ n) 8000"
proof (cases "n < 5")
  case True
  then have "n \<in> {0, 1, 2, 3, 4}" by auto
  then show ?thesis by (auto simp: backoff_def BACKOFF_BASE_def BACKOFF_CAP_def)
next
  case False
  then have p: "(32 :: nat) \<le> 2 ^ n" using power_increasing [of 5 n "2 :: nat"] by simp
  then have "32 \<le> min (if n < 64 then 2 ^ n else 2 ^ 64 - 1) (2 ^ 32 - 1 :: nat)" by auto
  with p show ?thesis
    by (simp add: backoff_def BACKOFF_BASE_def BACKOFF_CAP_def Let_def)
qed

text \<open>The state after \<open>n\<close> exchanges of a request, and the answer to the next one.\<close>

definition sent_times :: "('cert, 's) http \<Rightarrow> 'cert list \<Rightarrow> request \<Rightarrow> nat \<Rightarrow> 's \<Rightarrow> 's" where
  "sent_times http roots rq n s = ((\<lambda>s. snd (http roots rq s)) ^^ n) s"

definition nth_answer :: "('cert, 's) http \<Rightarrow> 'cert list \<Rightarrow> request \<Rightarrow> 's \<Rightarrow> nat \<Rightarrow> ureq_error + response" where
  "nth_answer http roots rq s n = fst (http roots rq (sent_times http roots rq n s))"

lemma sent_times_simps [simp]:
  "sent_times http roots rq 0 s = s"
  "sent_times http roots rq n (snd (http roots rq s)) = sent_times http roots rq (Suc n) s"
  using funpow_swap1 [of "\<lambda>s. snd (http roots rq s)" n s] by (simp_all add: sent_times_def)

lemma nth_answer_simps [simp]:
  "nth_answer http roots rq s 0 = fst (http roots rq s)"
  "nth_answer http roots rq (snd (http roots rq s)) n = nth_answer http roots rq s (Suc n)"
  by (simp_all add: nth_answer_def)

text \<open>A call of the client asks until an answer is not to be retried, or the budget is used up.\<close>

lemma retry_loop_answers:
  fixes http :: "('cert, 's) http"
  assumes "retry_loop i (Suc k) last_err (attempts http c rq verdict) s = (r, s', sleeps)"
  defines "answer \<equiv> nth_answer http (cl_roots c) rq s" and "n \<equiv> length sleeps"
  shows "n \<le> k \<and> s' = sent_times http (cl_roots c) rq (Suc n) s \<and> (\<forall>j<n. is_retry (verdict (answer j))) \<and>
    (case verdict (answer n) of Done v \<Rightarrow> r = Inr v | Fatal e \<Rightarrow> r = Inl e
     | Retry e \<Rightarrow> n = k \<and> r = Inl (RetriesExhausted e))"
  using assms(1) unfolding answer_def n_def
proof (induction k arbitrary: i last_err s sleeps)
  case 0
  then show ?case
    by (cases "verdict (fst (http (cl_roots c) rq s))") (auto simp: attempts_def sent_times_def case_prod_beta)
next
  case (Suc k)
  obtain res s1 where h: "http (cl_roots c) rq s = (res, s1)" by fastforce
  then have s1: "s1 = snd (http (cl_roots c) rq s)" "res = fst (http (cl_roots c) rq s)" by simp_all
  show ?case
  proof (cases "verdict res")
    case (Retry e)
    obtain r2 s2 sl2 where rec: "retry_loop (i + 1) (Suc k) (Some e) (attempts http c rq verdict) s1 = (r2, s2, sl2)"
      using prod_cases3 by blast
    have "retry_loop i (Suc (Suc k)) last_err (attempts http c rq verdict) s =
        (case retry_loop (i + 1) (Suc k) (Some e) (attempts http c rq verdict) s1 of
           (r, s, sleeps) \<Rightarrow> (r, s, if Suc k \<noteq> 0 then backoff i # sleeps else sleeps))"
      by (subst retry_loop.simps) (simp add: attempts_def h Retry)
    with Suc.prems rec have eq: "r2 = r" "s2 = s'" "sleeps = backoff i # sl2" by auto
    from Suc.IH [OF rec [unfolded eq(1,2)]] Retry eq(3) show ?thesis
      by (auto simp: s1 less_Suc_eq_0_disj split: attempt.splits)
  qed (use Suc.prems h in \<open>auto simp: attempts_def sent_times_def\<close>)
qed

lemma bootstrap_attempt_Done:
  assumes "bootstrap_attempt res = Done data"
  shows "\<exists>resp. res = Inr resp \<and> 200 \<le> rs_status resp \<and> rs_status resp < 300 \<and>
    rs_body resp = data \<and> \<not> rs_broken resp \<and> length data \<le> 4194304"
proof -
  from assms obtain resp where r: "res = Inr resp" "200 \<le> rs_status resp" "rs_status resp < 300"
      "read_capped resp MAX_BOOTSTRAP_BYTES = Inr data"
    by (auto simp: bootstrap_attempt_def classify_status_def into_attempt_def Let_def
        split: sum.splits if_splits client_error.splits)
  from r(4) have l: "length (rs_body resp) \<le> MAX_BOOTSTRAP_BYTES" "\<not> rs_broken resp"
      "data = take (MAX_BOOTSTRAP_BYTES + 1) (rs_body resp)"
    by (auto simp: read_capped_def Let_def split: if_splits)
  then have "data = rs_body resp" by simp
  with r l(1,2) show ?thesis by (auto simp: MAX_BOOTSTRAP_BYTES_def)
qed

text \<open>Which answer an error is the error of: a final one, and one that is retried.\<close>

definition final_error :: "ureq_error + response \<Rightarrow> client_error \<Rightarrow> bool" where
  "final_error answer e = (case answer of
       Inl _ \<Rightarrow> False
     | Inr resp \<Rightarrow>
         if rs_status resp \<in> {200..<300} then e = BootstrapTooLarge \<and> 4194304 < length (rs_body resp)
         else e = Http (rs_status resp) \<and> rs_status resp \<notin> {408, 429} \<union> {500..599})"

definition transient_error :: "ureq_error + response \<Rightarrow> client_error \<Rightarrow> bool" where
  "transient_error answer e = (case answer of
       Inl u \<Rightarrow> e = Transport (transport_kind u)
     | Inr resp \<Rightarrow>
         if rs_status resp \<in> {200..<300} then e = Body \<and> rs_broken resp \<and> length (rs_body resp) \<le> 4194304
         else e = Http (rs_status resp) \<and> rs_status resp \<in> {408, 429} \<union> {500..599})"

lemma bootstrap_attempt_Fatal: "bootstrap_attempt res = Fatal e \<Longrightarrow> final_error res e"
  by (auto simp: final_error_def is_transient_def bootstrap_attempt_def classify_status_def into_attempt_def
      read_capped_def MAX_BOOTSTRAP_BYTES_def Let_def split: sum.splits if_splits client_error.splits)

lemma bootstrap_attempt_Retry: "bootstrap_attempt res = Retry e \<Longrightarrow> transient_error res e"
  by (auto simp: transient_error_def is_transient_def bootstrap_attempt_def classify_status_def into_attempt_def
      read_capped_def MAX_BOOTSTRAP_BYTES_def Let_def split: sum.splits if_splits client_error.splits)

section \<open>Properties\<close>

text \<open>
  C26: retrying. Against any script of attempt outcomes, the result is that of the first
  outcome that is not transient within the budget, with one sleep before each further attempt
  and no attempt after it; when all are transient, the last error is wrapped as exhausted
  after exactly the budget, without a sleep at the end. The sleeps double from half a second
  up to eight seconds.
\<close>

theorem run_with_retries_spec:
  "run_with_retries budget (scripted out) 0 =
     (case find (\<lambda>i. \<not> is_retry (out i)) [0..<budget] of
        Some i \<Rightarrow> (final_result (out i), i + 1, map (\<lambda>n. min (500 * 2 ^ n) 8000) [0..<i])
      | None \<Rightarrow> (Inl (RetriesExhausted (if budget = 0 then Body
            else the (retry_error (out (budget - 1))))), budget,
          map (\<lambda>n. min (500 * 2 ^ n) 8000) [0..<budget - 1]))"
proof -
  have b: "backoff = (\<lambda>n. min (500 * 2 ^ n) 8000)" by (rule ext) (rule backoff_nat)
  show ?thesis
    unfolding run_with_retries_def b [symmetric]
    by (rule retry_loop_scripted [of 0 budget None out, unfolded add_0 unwrap_or_simps])
qed

text \<open>
  C27: fetching the bootstrap data. The request is sent once more than there were sleeps, at most five times,
  and every answer but the last is one to retry: a transport error, one of the transient
  statuses, or a body that broke off. The result is the last answer's: its complete body, of at most
  4 MiB, when it is a success; its own status, or that its body is too large, when that is a final
  error (\<open>final_error\<close>); and when it too is one to retry, it was the fifth, and the error names it as
  the last of the exhausted attempts, with its own status or kind (\<open>transient_error\<close>).
\<close>

theorem fetch_bootstrap_spec:
  "case fetch_bootstrap http c s of (r, s', sleeps) \<Rightarrow>
     let answer = nth_answer http (cl_roots c) (get_bootstrap c) s; n = length sleeps in
     n < 5 \<and> s' = sent_times http (cl_roots c) (get_bootstrap c) (n + 1) s \<and>
     list_all (\<lambda>i. \<exists>e. transient_error (answer i) e) [0..<n] \<and>
     (case r of
        Inr data \<Rightarrow> \<exists>resp. answer n = Inr resp \<and> 200 \<le> rs_status resp \<and> rs_status resp < 300 \<and>
          rs_body resp = data \<and> \<not> rs_broken resp \<and> length data \<le> 4194304
      | Inl (RetriesExhausted e) \<Rightarrow> n = 4 \<and> transient_error (answer 4) e
      | Inl e \<Rightarrow> final_error (answer n) e)"
proof -
  obtain r s' sl where f: "fetch_bootstrap http c s = (r, s', sl)" using prod_cases3 by blast
  then have "retry_loop 0 (Suc 4) None (attempts http c (get_bootstrap c) bootstrap_attempt) s = (r, s', sl)"
    by (simp add: fetch_bootstrap_def run_with_retries_def MAX_ATTEMPTS_def del: retry_loop.simps)
  note a = retry_loop_answers [OF this]
  let ?answer = "nth_answer http (cl_roots c) (get_bootstrap c) s"
  have "\<exists>e. transient_error (?answer j) e" if "j < length sl" for j
  proof -
    from a that have "is_retry (bootstrap_attempt (?answer j))" by blast
    then obtain e where "bootstrap_attempt (?answer j) = Retry e" by (auto simp: is_retry_def split: attempt.splits)
    then show ?thesis by (blast intro: bootstrap_attempt_Retry)
  qed
  then have retried: "list_all (\<lambda>i. \<exists>e. transient_error (?answer i) e) [0..<length sl]" by (simp add: list_all_iff)
  have "case r of
      Inr data \<Rightarrow> \<exists>resp. ?answer (length sl) = Inr resp \<and> 200 \<le> rs_status resp \<and> rs_status resp < 300 \<and>
        rs_body resp = data \<and> \<not> rs_broken resp \<and> length data \<le> 4194304
    | Inl (RetriesExhausted e) \<Rightarrow> length sl = 4 \<and> transient_error (?answer 4) e
    | Inl e \<Rightarrow> final_error (?answer (length sl)) e"
  proof (cases "bootstrap_attempt (?answer (length sl))")
    case (Done v)
    with a bootstrap_attempt_Done [OF Done] show ?thesis by simp
  next
    case (Retry e)
    with a bootstrap_attempt_Retry [OF Retry] show ?thesis by simp
  next
    case (Fatal e)
    then have e: "final_error (?answer (length sl)) e" by (rule bootstrap_attempt_Fatal)
    have "\<nexists>e'. e = RetriesExhausted e'" using e by (auto simp: final_error_def split: sum.splits if_splits)
    with a Fatal e show ?thesis by (cases e) auto
  qed
  with a retried show ?thesis unfolding f Let_def by simp
qed

end
