(* ===== verification/Dhcp.thy ===== *)
theory Dhcp
  imports Net_Config
begin

text \<open>
  \<open>src/net/dhcp.rs\<close>: building and parsing DHCP packets, and the one-shot exchange over a
  socket. The socket is explicit: what its receive calls return, one after the other, what
  its sends return, and the packets it sent.
\<close>

section \<open>Constants\<close>

definition OP_REQUEST :: u8 where "OP_REQUEST = 1"
definition OP_REPLY :: u8 where "OP_REPLY = 2"
definition HTYPE_ETHER :: u8 where "HTYPE_ETHER = 1"
definition HLEN_ETHER :: u8 where "HLEN_ETHER = 6"
definition FLAG_BROADCAST :: "bytes" where "FLAG_BROADCAST = [0x80, 0x00]"
definition MAGIC :: bytes where "MAGIC = [99, 130, 83, 99]"
definition COOKIE_OFFSET :: nat where "COOKIE_OFFSET = 236"
definition CHADDR_OFFSET :: nat where "CHADDR_OFFSET = 28"
definition YIADDR_OFFSET :: nat where "YIADDR_OFFSET = 16"
definition XID_OFFSET :: nat where "XID_OFFSET = 4"
definition OPT_SUBNET_MASK :: u8 where "OPT_SUBNET_MASK = 1"
definition OPT_ROUTER :: u8 where "OPT_ROUTER = 3"
definition OPT_DNS :: u8 where "OPT_DNS = 6"
definition OPT_LEASE_TIME :: u8 where "OPT_LEASE_TIME = 51"
definition OPT_REQUESTED_IP :: u8 where "OPT_REQUESTED_IP = 50"
definition OPT_MSG_TYPE :: u8 where "OPT_MSG_TYPE = 53"
definition OPT_SERVER_ID :: u8 where "OPT_SERVER_ID = 54"
definition OPT_PARAM_LIST :: u8 where "OPT_PARAM_LIST = 55"
definition OPT_PAD :: u8 where "OPT_PAD = 0"
definition OPT_END :: u8 where "OPT_END = 255"
definition DHCP_DISCOVER :: u8 where "DHCP_DISCOVER = 1"
definition DHCP_OFFER :: u8 where "DHCP_OFFER = 2"
definition DHCP_REQUEST :: u8 where "DHCP_REQUEST = 3"
definition DHCP_ACK :: u8 where "DHCP_ACK = 5"
definition MAX_ROUNDS :: nat where "MAX_ROUNDS = 4"

lemmas dhcp_consts = OP_REQUEST_def OP_REPLY_def HTYPE_ETHER_def HLEN_ETHER_def
  FLAG_BROADCAST_def MAGIC_def COOKIE_OFFSET_def CHADDR_OFFSET_def YIADDR_OFFSET_def
  XID_OFFSET_def OPT_SUBNET_MASK_def OPT_ROUTER_def OPT_DNS_def OPT_LEASE_TIME_def
  OPT_REQUESTED_IP_def OPT_MSG_TYPE_def OPT_SERVER_ID_def OPT_PARAM_LIST_def OPT_PAD_def
  OPT_END_def DHCP_DISCOVER_def DHCP_OFFER_def DHCP_REQUEST_def DHCP_ACK_def

section \<open>Data\<close>

record lease =
  l_ip :: ipv4
  l_prefix_len :: u8
  l_gateway :: "ipv4 option"
  l_dns :: "ipv4 list"

record reply =
  msg_type :: u8
  yiaddr :: ipv4
  server_id :: "ipv4 option"
  r_mask :: "ipv4 option"
  router :: "ipv4 option"
  r_dns :: "ipv4 list"

section \<open>Building a packet\<close>

text \<open>\<open>p[i..i + n].copy_from_slice(b)\<close>.\<close>

definition put :: "bytes \<Rightarrow> nat \<Rightarrow> bytes \<Rightarrow> bytes" where
  "put p i b = take i p @ b @ drop (i + length b) p"

definition ip_option :: "u8 \<Rightarrow> ipv4 option \<Rightarrow> bytes" where
  "ip_option code ip = (case ip of None \<Rightarrow> [] | Some a \<Rightarrow> [code, 4] @ u32_to_be a)"

definition build_packet :: "u8 \<Rightarrow> u32 \<Rightarrow> bytes \<Rightarrow> ipv4 option \<Rightarrow> ipv4 option \<Rightarrow> bytes" where
  "build_packet ty xid mac requested_ip sid =
     (let p = replicate (COOKIE_OFFSET + 4) 0;
          p = p[0 := OP_REQUEST, 1 := HTYPE_ETHER, 2 := HLEN_ETHER];
          p = put p XID_OFFSET (u32_to_be xid);
          p = put p 10 FLAG_BROADCAST;
          p = put p CHADDR_OFFSET mac;
          p = put p COOKIE_OFFSET MAGIC
      in p @ [OPT_MSG_TYPE, 1, ty] @ ip_option OPT_REQUESTED_IP requested_ip
           @ ip_option OPT_SERVER_ID sid
           @ [OPT_PARAM_LIST, 4, OPT_SUBNET_MASK, OPT_ROUTER, OPT_DNS, OPT_LEASE_TIME]
           @ [OPT_END])"

section \<open>Parsing a reply\<close>

definition ip4 :: "bytes \<Rightarrow> ipv4" where
  "ip4 b = ipv4_new (b ! 0) (b ! 1) (b ! 2) (b ! 3)"

text \<open>What one option does to the reply read so far.\<close>

definition apply_opt :: "u8 \<Rightarrow> bytes \<Rightarrow> reply \<Rightarrow> reply" where
  "apply_opt code val r =
     (if code = OPT_MSG_TYPE \<and> length val \<ge> 1 then r\<lparr>msg_type := val ! 0\<rparr>
      else if code = OPT_SERVER_ID \<and> length val \<ge> 4 then r\<lparr>server_id := Some (ip4 val)\<rparr>
      else if code = OPT_SUBNET_MASK \<and> length val \<ge> 4 then r\<lparr>r_mask := Some (ip4 val)\<rparr>
      else if code = OPT_ROUTER \<and> length val \<ge> 4 then r\<lparr>router := Some (ip4 val)\<rparr>
      else if code = OPT_DNS then r\<lparr>r_dns := r_dns r @ map ip4 (chunks_exact 4 val)\<rparr>
      else r)"

text \<open>The option loop, on the bytes from the read position to the end of the buffer.\<close>

function parse_opts :: "bytes \<Rightarrow> reply \<Rightarrow> reply" where
  "parse_opts [] r = r"
| "parse_opts (code # rest) r =
     (if code = OPT_PAD then parse_opts rest r
      else if code = OPT_END then r
      else (case rest of
          [] \<Rightarrow> r
        | n # tail \<Rightarrow>
            if unat n > length tail then r
            else parse_opts (drop (unat n) tail) (apply_opt code (take (unat n) tail) r)))"
  by pat_completeness auto
termination
  by (relation "measure (\<lambda>(b, r). length b)") auto

definition parse_reply :: "bytes \<Rightarrow> u32 \<Rightarrow> reply option" where
  "parse_reply buf xid =
     (if length buf < COOKIE_OFFSET + 4 \<or> buf ! 0 \<noteq> OP_REPLY
         \<or> u32_be (take 4 (drop XID_OFFSET buf)) \<noteq> xid
         \<or> take 4 (drop COOKIE_OFFSET buf) \<noteq> MAGIC
      then None
      else let r = parse_opts (drop (COOKIE_OFFSET + 4) buf)
             \<lparr>msg_type = 0, yiaddr = u32_be (take 4 (drop YIADDR_OFFSET buf)), server_id = None,
              r_mask = None, router = None, r_dns = []\<rparr>
        in if msg_type r \<noteq> 0 then Some r else None)"

section \<open>The exchange\<close>

text \<open>
  One return of \<open>recv\<close>: an error, or a datagram together with whether the deadline of the
  round has passed once it has been looked at. A socket with no more events times out.
\<close>

datatype recv_event = RecvErr errno | Datagram bytes bool

record dhcp_sock =
  inbox :: "recv_event list"
  send_results :: "errno option list"
  sent :: "bytes list"

definition rc_to_result :: "errno option \<Rightarrow> net_error + unit" where
  "rc_to_result rc = (case rc of None \<Rightarrow> Inr () | Some e \<Rightarrow> Inl (SocketError e))"

text \<open>The system calls of \<open>Socket::open_dhcp\<close>, in order; the first that fails ends it.\<close>

datatype open_call = SysSocket | SetReuseAddr | SetBroadcast | BindToDevice string
  | SetRcvTimeout | BindClientPort

definition open_calls :: "string \<Rightarrow> open_call list" where
  "open_calls iface = [SysSocket, SetReuseAddr, SetBroadcast, BindToDevice iface,
     SetRcvTimeout, BindClientPort]"

fun run_calls :: "(open_call \<Rightarrow> errno option) \<Rightarrow> open_call list \<Rightarrow> net_error + unit" where
  "run_calls os [] = Inr ()"
| "run_calls os (c # cs) = rbind (rc_to_result (os c)) (\<lambda>_. run_calls os cs)"

definition open_dhcp :: "(open_call \<Rightarrow> errno option) \<Rightarrow> string \<Rightarrow> net_error + unit" where
  "open_dhcp os iface = run_calls os (open_calls iface)"

definition send_broadcast :: "bytes \<Rightarrow> dhcp_sock \<Rightarrow> (net_error + unit) \<times> dhcp_sock" where
  "send_broadcast pkt s = (case send_results s of
       [] \<Rightarrow> (Inr (), s\<lparr>sent := sent s @ [pkt]\<rparr>)
     | None # rs \<Rightarrow> (Inr (), s\<lparr>sent := sent s @ [pkt], send_results := rs\<rparr>)
     | Some e # rs \<Rightarrow> (Inl (SocketError e), s\<lparr>send_results := rs\<rparr>))"

fun recv_loop :: "u32 \<Rightarrow> u8 \<Rightarrow> recv_event list \<Rightarrow> (net_error + reply option) \<times> recv_event list" where
  "recv_loop xid want [] = (Inr None, [])"
| "recv_loop xid want (RecvErr e # evs) =
     (if e = EAGAIN \<or> e = EINTR then (Inr None, evs) else (Inl (SocketError e), evs))"
| "recv_loop xid want (Datagram d late # evs) =
     (case parse_reply (take 4096 d) xid of
        Some r \<Rightarrow> if msg_type r = want then (Inr (Some r), evs)
          else if late then (Inr None, evs) else recv_loop xid want evs
      | None \<Rightarrow> if late then (Inr None, evs) else recv_loop xid want evs)"

definition recv_reply :: "u32 \<Rightarrow> u8 \<Rightarrow> dhcp_sock \<Rightarrow> (net_error + reply option) \<times> dhcp_sock" where
  "recv_reply xid want s =
     (let (r, evs) = recv_loop xid want (inbox s) in (r, s\<lparr>inbox := evs\<rparr>))"

definition lease_of :: "reply \<Rightarrow> lease" where
  "lease_of ack = \<lparr>l_ip = yiaddr ack,
     l_prefix_len = unwrap_or (map_option mask_to_prefix_len (r_mask ack)) 24,
     l_gateway = router ack, l_dns = r_dns ack\<rparr>"

fun acquire_rounds :: "nat \<Rightarrow> u32 \<Rightarrow> bytes \<Rightarrow> dhcp_sock \<Rightarrow> (net_error + lease) \<times> dhcp_sock" where
  "acquire_rounds 0 xid mac s = (Inl DhcpTimeout, s)"
| "acquire_rounds (Suc n) xid mac s =
     (case send_broadcast (build_packet DHCP_DISCOVER xid mac None None) s of
        (Inl e, s1) \<Rightarrow> (Inl e, s1)
      | (Inr _, s1) \<Rightarrow>
     (case recv_reply xid DHCP_OFFER s1 of
        (Inl e, s2) \<Rightarrow> (Inl e, s2)
      | (Inr None, s2) \<Rightarrow> acquire_rounds n xid mac s2
      | (Inr (Some offer), s2) \<Rightarrow>
     (case send_broadcast
         (build_packet DHCP_REQUEST xid mac (Some (yiaddr offer)) (server_id offer)) s2 of
        (Inl e, s3) \<Rightarrow> (Inl e, s3)
      | (Inr _, s3) \<Rightarrow>
     (case recv_reply xid DHCP_ACK s3 of
        (Inl e, s4) \<Rightarrow> (Inl e, s4)
      | (Inr None, s4) \<Rightarrow> acquire_rounds n xid mac s4
      | (Inr (Some ack), s4) \<Rightarrow> (Inr (lease_of ack), s4)))))"

definition random_xid :: "bytes option \<Rightarrow> u32" where
  "random_xid urandom = (case urandom of None \<Rightarrow> 0xB7B70001 | Some b \<Rightarrow> u32_le b)"

definition acquire ::
  "(open_call \<Rightarrow> errno option) \<Rightarrow> bytes option \<Rightarrow> string \<Rightarrow> bytes \<Rightarrow> dhcp_sock \<Rightarrow>
     (net_error + lease) \<times> dhcp_sock" where
  "acquire os urandom iface mac s = (case open_dhcp os iface of
       Inl e \<Rightarrow> (Inl e, s)
     | Inr _ \<Rightarrow> acquire_rounds MAX_ROUNDS (random_xid urandom) mac s)"

section \<open>Packets\<close>

lemma length_put [simp]: "i + length b \<le> length p \<Longrightarrow> length (put p i b) = length p"
  by (simp add: put_def)

lemma put_nth: "i + length b \<le> length p \<Longrightarrow> j < length p \<Longrightarrow>
    put p i b ! j = (if i \<le> j \<and> j < i + length b then b ! (j - i) else p ! j)"
  by (auto simp: put_def nth_append)

lemma put_field: "i + length b \<le> length p \<Longrightarrow> take (length b) (drop i (put p i b)) = b"
  by (simp add: put_def)

lemma put_field_other:
  "i + length b \<le> length p \<Longrightarrow> j + n \<le> length p \<Longrightarrow> j + n \<le> i \<or> i + length b \<le> j \<Longrightarrow>
     take n (drop j (put p i b)) = take n (drop j p)"
  by (rule nth_equalityI) (auto simp: put_nth)

lemma build_packet_op:
  "length mac = 6 \<Longrightarrow> build_packet ty xid mac a b ! 0 = OP_REQUEST"
  by (simp add: build_packet_def Let_def dhcp_consts nth_append put_nth)

lemma parse_own_packet:
  "length mac = 6 \<Longrightarrow> parse_reply (build_packet ty xid mac a b) x = None"
  by (simp add: parse_reply_def build_packet_op) (simp add: dhcp_consts)

text \<open>
  A server's reply in reference form: the fixed header, then options each preceded by any
  number of pad bytes, the end option and anything after it.
\<close>

definition encode_opt :: "nat \<times> u8 \<times> bytes \<Rightarrow> bytes" where
  "encode_opt = (\<lambda>(pads, code, val).
     replicate pads OPT_PAD @ [code, word_of_nat (length val)] @ val)"

definition opt_ok :: "nat \<times> u8 \<times> bytes \<Rightarrow> bool" where
  "opt_ok = (\<lambda>(pads, code, val). code \<noteq> OPT_PAD \<and> code \<noteq> OPT_END \<and> length val < 256)"

definition server_packet :: "u32 \<Rightarrow> ipv4 \<Rightarrow> (nat \<times> u8 \<times> bytes) list \<Rightarrow> bytes \<Rightarrow> bytes" where
  "server_packet xid yi opts junk =
     put (put (put ((replicate 240 0)[0 := OP_REPLY]) XID_OFFSET (u32_to_be xid))
        YIADDR_OFFSET (u32_to_be yi)) COOKIE_OFFSET MAGIC
     @ concat (map encode_opt opts) @ OPT_END # junk"

definition apply_opts :: "(nat \<times> u8 \<times> bytes) list \<Rightarrow> reply \<Rightarrow> reply" where
  "apply_opts opts r = fold (\<lambda>(pads, code, val). apply_opt code val) opts r"

lemma parse_opts_pads: "parse_opts (replicate k OPT_PAD @ bs) r = parse_opts bs r"
  by (induction k) simp_all

lemma parse_opts_encode:
  "\<forall>opt\<in>set opts. opt_ok opt \<Longrightarrow>
     parse_opts (concat (map encode_opt opts) @ OPT_END # junk) r = apply_opts opts r"
proof (induction opts arbitrary: r)
  case Nil
  then show ?case by (simp add: apply_opts_def dhcp_consts)
next
  case (Cons opt opts)
  obtain k c v where o: "opt = (k, c, v)" by (cases opt)
  with Cons.prems have "c \<noteq> OPT_PAD" "c \<noteq> OPT_END" "length v < 256"
    by (simp_all add: opt_ok_def)
  with Cons o show ?case
    by (simp add: encode_opt_def parse_opts_pads unat_u8_of_nat apply_opts_def)
qed

lemma take_drop_append: "i + n \<le> length h \<Longrightarrow> take n (drop i (h @ x)) = take n (drop i h)"
  by simp

lemma server_packet_header:
  fixes xid yi
  defines "h \<equiv> put (put (put ((replicate 240 0)[0 := OP_REPLY]) XID_OFFSET (u32_to_be xid))
        YIADDR_OFFSET (u32_to_be yi)) COOKIE_OFFSET MAGIC"
  shows "length h = 240" "h ! 0 = OP_REPLY" "take 4 (drop XID_OFFSET h) = u32_to_be xid"
    "take 4 (drop YIADDR_OFFSET h) = u32_to_be yi" "take 4 (drop COOKIE_OFFSET h) = MAGIC"
proof -
  let ?p0 = "(replicate 240 0)[0 := OP_REPLY] :: bytes"
  let ?p1 = "put ?p0 4 (u32_to_be xid)"
  let ?p2 = "put ?p1 16 (u32_to_be yi)"
  have h: "h = put ?p2 236 MAGIC"
    by (simp add: h_def XID_OFFSET_def YIADDR_OFFSET_def COOKIE_OFFSET_def)
  have M: "length MAGIC = 4" by (simp add: MAGIC_def)
  show "length h = 240" by (simp add: h M)
  show "h ! 0 = OP_REPLY" by (simp add: h M put_nth)
  have "take 4 (drop 4 h) = take 4 (drop 4 ?p1)"
    by (simp add: h M put_field_other)
  also have "\<dots> = u32_to_be xid" using put_field [of 4 "u32_to_be xid" ?p0] by simp
  finally show "take 4 (drop XID_OFFSET h) = u32_to_be xid" by (simp add: XID_OFFSET_def)
  have "take 4 (drop 16 h) = take 4 (drop 16 ?p2)"
    by (simp add: h M put_field_other)
  also have "\<dots> = u32_to_be yi" using put_field [of 16 "u32_to_be yi" ?p1] by simp
  finally show "take 4 (drop YIADDR_OFFSET h) = u32_to_be yi" by (simp add: YIADDR_OFFSET_def)
  show "take 4 (drop COOKIE_OFFSET h) = MAGIC"
    using put_field [of 236 MAGIC ?p2] by (simp add: h M COOKIE_OFFSET_def)
qed

text \<open>The reply before any option is read.\<close>

definition empty_reply :: "ipv4 \<Rightarrow> reply" where
  "empty_reply yi = \<lparr>msg_type = 0, yiaddr = yi, server_id = None, r_mask = None, router = None,
     r_dns = []\<rparr>"

lemma parse_server_packet:
  assumes "\<forall>opt\<in>set opts. opt_ok opt"
  shows "parse_reply (server_packet xid yi opts junk) xid' =
    (let r = apply_opts opts (empty_reply yi) in
     if xid' = xid \<and> msg_type r \<noteq> 0 then Some r else None)"
proof -
  note H = server_packet_header [of xid yi]
  have "\<not> length (server_packet xid yi opts junk) < 240"
    using H(1) by (simp add: server_packet_def)
  moreover have "server_packet xid yi opts junk ! 0 = OP_REPLY"
    using H(1,2) by (simp add: server_packet_def nth_append)
  moreover have "take 4 (drop XID_OFFSET (server_packet xid yi opts junk)) = u32_to_be xid"
    "take 4 (drop YIADDR_OFFSET (server_packet xid yi opts junk)) = u32_to_be yi"
    "take 4 (drop COOKIE_OFFSET (server_packet xid yi opts junk)) = MAGIC"
    using H unfolding server_packet_def
    by (subst take_drop_append; simp add: XID_OFFSET_def YIADDR_OFFSET_def COOKIE_OFFSET_def)+
  moreover have "drop 240 (server_packet xid yi opts junk)
      = concat (map encode_opt opts) @ OPT_END # junk"
    using H(1) by (simp add: server_packet_def)
  ultimately show ?thesis
    using assms by (auto simp: parse_reply_def parse_opts_encode empty_reply_def Let_def
        COOKIE_OFFSET_def)
qed

section \<open>The exchange\<close>

text \<open>What a receive that returns a reply has consumed: the reply's datagram, last.\<close>

lemma recv_loop_Some:
  "recv_loop xid want evs = (Inr (Some r), evs') \<Longrightarrow>
     \<exists>pre d b. evs = pre @ Datagram d b # evs' \<and> parse_reply (take 4096 d) xid = Some r \<and>
       msg_type r = want"
proof (induction xid want evs rule: recv_loop.induct)
  case (3 xid want d late evs)
  consider (hit) "parse_reply (take 4096 d) xid = Some r" "msg_type r = want" "evs' = evs"
    | (skip) "recv_loop xid want evs = (Inr (Some r), evs')" "\<not> late"
        "\<forall>q. parse_reply (take 4096 d) xid = Some q \<longrightarrow> msg_type q \<noteq> want"
    using 3(3) by (auto split: option.splits if_splits)
  then show ?case
  proof cases
    case hit
    then show ?thesis by (intro exI [of _ "[]"] exI [of _ d] exI [of _ late]) simp
  next
    case skip
    then have "\<exists>pre d b. evs = pre @ Datagram d b # evs' \<and>
        parse_reply (take 4096 d) xid = Some r \<and> msg_type r = want"
      using 3 by (cases "parse_reply (take 4096 d) xid") (auto split: if_splits)
    then show ?thesis by (metis append_Cons)
  qed
qed (auto split: if_splits)

lemma recv_loop_suffix: "recv_loop xid want evs = (x, evs') \<Longrightarrow> \<exists>pre. evs = pre @ evs'"
proof (induction xid want evs rule: recv_loop.induct)
  case (3 xid want d late evs)
  consider "evs' = evs" | "recv_loop xid want evs = (x, evs')" "\<not> late"
        "\<forall>q. parse_reply (take 4096 d) xid = Some q \<longrightarrow> msg_type q \<noteq> want"
    using 3(3) by (auto split: option.splits if_splits)
  then show ?case
  proof cases
    case 2
    then have "\<exists>pre. evs = pre @ evs'"
      using 3 by (cases "parse_reply (take 4096 d) xid") (auto split: if_splits)
    then show ?thesis by (metis append_Cons)
  qed (metis append_Cons append_Nil)
qed (auto split: if_splits)

lemma recv_reply_Some:
  "recv_reply xid want s = (Inr (Some r), s') \<Longrightarrow>
     sent s' = sent s \<and>
     (\<exists>pre d b. inbox s = pre @ Datagram d b # inbox s' \<and> parse_reply (take 4096 d) xid = Some r \<and>
       msg_type r = want)"
  by (auto simp: recv_reply_def split: prod.splits dest!: recv_loop_Some)

lemma recv_reply_frame:
  "recv_reply xid want s = (x, s') \<Longrightarrow> sent s' = sent s \<and> (\<exists>pre. inbox s = pre @ inbox s')"
  by (auto simp: recv_reply_def split: prod.splits dest!: recv_loop_suffix)

lemma send_broadcast_ok:
  "send_broadcast pkt s = (Inr u, s') \<Longrightarrow> sent s' = sent s @ [pkt] \<and> inbox s' = inbox s"
  by (auto simp: send_broadcast_def split: list.splits option.splits)

lemma send_broadcast_err:
  "send_broadcast pkt s = (Inl e, s') \<Longrightarrow>
     sent s' = sent s \<and> inbox s' = inbox s \<and> (\<exists>n. e = SocketError n)"
  by (auto simp: send_broadcast_def split: list.splits option.splits)

text \<open>
  The contract of a lease: it was offered and acknowledged, in this order, by replies to
  this transaction, and the last packet sent asks for the offered address.
\<close>

definition leased :: "u32 \<Rightarrow> bytes \<Rightarrow> recv_event list \<Rightarrow> bytes list \<Rightarrow> lease \<Rightarrow> bool" where
  "leased xid mac evs out l \<longleftrightarrow>
     (\<exists>pre d1 b1 mid d2 b2 post offer ack.
        evs = pre @ Datagram d1 b1 # mid @ Datagram d2 b2 # post \<and>
        parse_reply (take 4096 d1) xid = Some offer \<and> msg_type offer = DHCP_OFFER \<and>
        parse_reply (take 4096 d2) xid = Some ack \<and> msg_type ack = DHCP_ACK \<and>
        l = lease_of ack \<and>
        (\<exists>front. out = front @ [build_packet DHCP_DISCOVER xid mac None None,
            build_packet DHCP_REQUEST xid mac (Some (yiaddr offer)) (server_id offer)]))"

lemma leased_prefix: "leased xid mac evs out l \<Longrightarrow> leased xid mac (pre @ evs) out l"
  unfolding leased_def by (metis append.assoc)

lemma acquire_rounds_leased:
  "acquire_rounds n xid mac s = (Inr l, s') \<Longrightarrow> leased xid mac (inbox s) (sent s') l"
proof (induction n arbitrary: s)
  case (Suc n)
  let ?D = "build_packet DHCP_DISCOVER xid mac None None"
  obtain x1 s1 where 1: "send_broadcast ?D s = (x1, s1)" by fastforce
  from Suc.prems 1 obtain u1 where x1: "x1 = Inr u1" by (cases x1) auto
  obtain x2 s2 where 2: "recv_reply xid DHCP_OFFER s1 = (x2, s2)" by fastforce
  from Suc.prems 1 x1 2 obtain o2 where x2: "x2 = Inr o2" by (cases x2) auto
  from send_broadcast_ok 1 x1 have b1: "sent s1 = sent s @ [?D]" "inbox s1 = inbox s" by blast+
  show ?case
  proof (cases o2)
    case None
    with Suc.prems 1 x1 2 x2 have "acquire_rounds n xid mac s2 = (Inr l, s')" by simp
    then have "leased xid mac (inbox s2) (sent s') l" by (rule Suc.IH)
    moreover obtain pre where "inbox s1 = pre @ inbox s2" using recv_reply_frame [OF 2] by blast
    ultimately show ?thesis using b1 by (simp add: leased_prefix)
  next
    case (Some offer)
    let ?R = "build_packet DHCP_REQUEST xid mac (Some (yiaddr offer)) (server_id offer)"
    from 2 x2 Some obtain pre d1 e1 where offer: "sent s2 = sent s1"
        "inbox s1 = pre @ Datagram d1 e1 # inbox s2"
        "parse_reply (take 4096 d1) xid = Some offer" "msg_type offer = DHCP_OFFER"
      using recv_reply_Some by blast
    obtain x3 s3 where 3: "send_broadcast ?R s2 = (x3, s3)" by fastforce
    from Suc.prems 1 x1 2 x2 Some 3 obtain u3 where x3: "x3 = Inr u3" by (cases x3) auto
    with 3 send_broadcast_ok have b3: "sent s3 = sent s2 @ [?R]" "inbox s3 = inbox s2" by blast+
    obtain x4 s4 where 4: "recv_reply xid DHCP_ACK s3 = (x4, s4)" by fastforce
    from Suc.prems 1 x1 2 x2 Some 3 x3 4 obtain o4 where x4: "x4 = Inr o4" by (cases x4) auto
    show ?thesis
    proof (cases o4)
      case None
      with Suc.prems 1 x1 2 x2 Some 3 x3 4 x4 have "acquire_rounds n xid mac s4 = (Inr l, s')"
        by simp
      then have "leased xid mac (inbox s4) (sent s') l" by (rule Suc.IH)
      moreover obtain q where "inbox s3 = q @ inbox s4" using recv_reply_frame [OF 4] by blast
      ultimately have "leased xid mac ((pre @ Datagram d1 e1 # q) @ inbox s4) (sent s') l"
        by (intro leased_prefix)
      with offer b1 b3 \<open>inbox s3 = q @ inbox s4\<close> show ?thesis by simp
    next
      case (Some ack)
      with 4 x4 obtain q d2 e2 where ack: "sent s4 = sent s3"
          "inbox s3 = q @ Datagram d2 e2 # inbox s4"
          "parse_reply (take 4096 d2) xid = Some ack" "msg_type ack = DHCP_ACK"
        using recv_reply_Some by blast
      have res: "l = lease_of ack" "s' = s4"
        using Suc.prems 1 x1 2 x2 \<open>o2 = Some offer\<close> 3 x3 4 x4 Some by simp_all
      have "inbox s = pre @ Datagram d1 e1 # q @ Datagram d2 e2 # inbox s4"
        using b1 offer b3 ack by simp
      moreover have "sent s' = sent s @ [?D, ?R]" using res ack b3 offer b1 by simp
      ultimately show ?thesis using offer ack res unfolding leased_def by blast
    qed
  qed
qed simp

text \<open>
  At most two packets a round, all of them one of the client's two kinds.
\<close>

lemma acquire_rounds_sent:
  "acquire_rounds n xid mac s = (x, s') \<Longrightarrow>
     \<exists>out. sent s' = sent s @ out \<and> length out \<le> 2 * n \<and>
       (\<forall>p\<in>set out. \<exists>ty a b. p = build_packet ty xid mac a b)"
proof (induction n arbitrary: s)
  case (Suc n)
  let ?D = "build_packet DHCP_DISCOVER xid mac None None"
  have more: "\<exists>out. sent s' = sent s @ out \<and> length out \<le> 2 * Suc n \<and>
       (\<forall>p\<in>set out. \<exists>ty a b. p = build_packet ty xid mac a b)"
    if "acquire_rounds n xid mac t = (x, s')" "sent t = sent s @ h" "length h \<le> 2"
      "\<forall>p\<in>set h. \<exists>ty a b. p = build_packet ty xid mac a b" for t h
  proof -
    from Suc.IH [OF that(1)] obtain out where "sent s' = sent t @ out" "length out \<le> 2 * n"
        "\<forall>p\<in>set out. \<exists>ty a b. p = build_packet ty xid mac a b" by blast
    with that(2-4) show ?thesis by (intro exI [of _ "h @ out"]) auto
  qed
  have stop: "\<exists>out. sent s' = sent s @ out \<and> length out \<le> 2 * Suc n \<and>
       (\<forall>p\<in>set out. \<exists>ty a b. p = build_packet ty xid mac a b)"
    if "sent s' = sent s @ h" "length h \<le> 2"
      "\<forall>p\<in>set h. \<exists>ty a b. p = build_packet ty xid mac a b" for h
    using that by (intro exI [of _ h]) auto
  obtain x1 s1 where 1: "send_broadcast ?D s = (x1, s1)" by fastforce
  obtain x2 s2 where 2: "recv_reply xid DHCP_OFFER s1 = (x2, s2)" by fastforce
  note f2 = conjunct1 [OF recv_reply_frame [OF 2]]
  have D: "\<exists>ty a b. ?D = build_packet ty xid mac a b" by blast
  show ?case
  proof (cases x1)
    case (Inl e)
    with Suc.prems 1 send_broadcast_err [of ?D s e s1] show ?thesis by (intro stop [of "[]"]) auto
  next
    case (Inr u)
    with 1 send_broadcast_ok have b1: "sent s1 = sent s @ [?D]" by blast
    consider (stopped) "s' = s2" | (again) "acquire_rounds n xid mac s2 = (x, s')"
      | (offer) offer where "x2 = Inr (Some offer)"
      using Suc.prems 1 Inr 2 by (auto split: sum.splits option.splits)
    then show ?thesis
    proof cases
      case stopped
      with b1 f2 D show ?thesis by (intro stop [of "[?D]"]) auto
    next
      case again
      with b1 f2 D show ?thesis by (intro more [of s2 "[?D]"]) auto
    next
      case offer
      let ?R = "build_packet DHCP_REQUEST xid mac (Some (yiaddr offer)) (server_id offer)"
      have R: "\<exists>ty a b. ?R = build_packet ty xid mac a b" by blast
      obtain x3 s3 where 3: "send_broadcast ?R s2 = (x3, s3)" by fastforce
      obtain x4 s4 where 4: "recv_reply xid DHCP_ACK s3 = (x4, s4)" by fastforce
      note f4 = conjunct1 [OF recv_reply_frame [OF 4]]
      show ?thesis
      proof (cases x3)
        case (Inl e)
        with Suc.prems 1 Inr 2 offer 3 send_broadcast_err [of ?R s2 e s3] b1 f2 D show ?thesis
          by (intro stop [of "[?D]"]) auto
      next
        case (Inr v)
        with 3 send_broadcast_ok have b3: "sent s3 = sent s2 @ [?R]" by blast
        consider "s' = s4" | "acquire_rounds n xid mac s4 = (x, s')"
          using Suc.prems 1 \<open>x1 = Inr u\<close> 2 offer 3 Inr 4 by (auto split: sum.splits option.splits)
        then show ?thesis
        proof cases
          case 1
          with b1 b3 f2 f4 D R show ?thesis by (intro stop [of "[?D, ?R]"]) auto
        next
          case 2
          with b1 b3 f2 f4 D R show ?thesis by (intro more [of s4 "[?D, ?R]"]) auto
        qed
      qed
    qed
  qed
qed simp

section \<open>Properties\<close>

text \<open>
  C39: parsing a server's reply. For options written as type, length and value, each after
  any number of pad bytes and closed by the end option, the parser applies the options in
  order to an empty reply, whatever follows the end option, and answers only for the
  transaction it was asked about and when a message type was given.
\<close>

theorem parse_reply_options:
  assumes "\<forall>opt\<in>set opts. opt_ok opt"
  shows "parse_reply (server_packet xid yi opts junk) xid' =
    (let r = fold (\<lambda>(pads, code, val). apply_opt code val) opts (empty_reply yi) in
     if xid' = xid \<and> msg_type r \<noteq> 0 then Some r else None)"
  using parse_server_packet [OF assms] by (simp add: apply_opts_def)

theorem parse_reply_options_witness:
  "parse_reply (server_packet 7 9 [(0, OPT_MSG_TYPE, [5]), (2, OPT_ROUTER, [10, 0, 0, 1])] [1, 2]) 7 =
     Some \<lparr>msg_type = 5, yiaddr = 9, server_id = None, r_mask = None,
       router = Some (ipv4_new 10 0 0 1), r_dns = []\<rparr>"
  by (subst parse_reply_options)
    (simp_all add: opt_ok_def apply_opt_def empty_reply_def ip4_def dhcp_consts)

text \<open>
  the client never takes one of its own broadcasts for a reply, whatever their
  transaction and options.
\<close>

lemma own_packet_ignored:
  assumes "length mac = 6"
  shows "parse_reply (build_packet ty xid mac requested sid) xid' = None"
  using assms by (rule parse_own_packet)

lemma own_packet_ignored_witness:
  "parse_reply (build_packet DHCP_DISCOVER 1 [1, 2, 3, 4, 5, 6] None None) 1 = None"
  by (rule own_packet_ignored) simp

text \<open>
  C33: a lease comes from an OFFER of this transaction followed by an ACK of it, with the
  request for the offered address as the last packet sent; and whatever the outcome at most
  eight packets, two for each of the four rounds, are sent.
\<close>

theorem acquire_lease:
  assumes "acquire os urandom iface mac s = (x, s')"
  shows "(\<forall>l. x = Inr l \<longrightarrow> leased (random_xid urandom) mac (inbox s) (sent s') l) \<and>
    (\<exists>out. sent s' = sent s @ out \<and> length out \<le> 8)"
proof (cases "open_dhcp os iface")
  case (Inl e)
  with assms show ?thesis by (auto simp: acquire_def)
next
  case (Inr u)
  with assms have a: "acquire_rounds MAX_ROUNDS (random_xid urandom) mac s = (x, s')"
    by (simp add: acquire_def)
  from acquire_rounds_sent [OF a] have "\<exists>out. sent s' = sent s @ out \<and> length out \<le> 8"
    by (auto simp: MAX_ROUNDS_def)
  with a show ?thesis using acquire_rounds_leased by blast
qed

text \<open>A server that offers 10.0.0.9 and acknowledges it, to the fixed transaction.\<close>

definition demo_offer :: bytes where
  "demo_offer = server_packet 0xB7B70001 (ipv4_new 10 0 0 9) [(0, OPT_MSG_TYPE, [DHCP_OFFER])] []"
definition demo_ack :: bytes where
  "demo_ack = server_packet 0xB7B70001 (ipv4_new 10 0 0 9) [(0, OPT_MSG_TYPE, [DHCP_ACK])] []"
definition demo_sock :: dhcp_sock where
  "demo_sock = \<lparr>inbox = [Datagram demo_offer False, Datagram demo_ack False], send_results = [],
     sent = []\<rparr>"

lemma demo_parse:
  "parse_reply (take 4096 demo_offer) 0xB7B70001 =
     Some ((empty_reply (ipv4_new 10 0 0 9))\<lparr>msg_type := DHCP_OFFER\<rparr>)"
  "parse_reply (take 4096 demo_ack) 0xB7B70001 =
     Some ((empty_reply (ipv4_new 10 0 0 9))\<lparr>msg_type := DHCP_ACK\<rparr>)"
proof -
  have "length demo_offer = 244" "length demo_ack = 244"
    using server_packet_header(1) by (simp_all add: demo_offer_def demo_ack_def server_packet_def encode_opt_def)
  then show "parse_reply (take 4096 demo_offer) 0xB7B70001 =
     Some ((empty_reply (ipv4_new 10 0 0 9))\<lparr>msg_type := DHCP_OFFER\<rparr>)"
    "parse_reply (take 4096 demo_ack) 0xB7B70001 =
     Some ((empty_reply (ipv4_new 10 0 0 9))\<lparr>msg_type := DHCP_ACK\<rparr>)"
    by (simp_all add: demo_offer_def demo_ack_def parse_server_packet opt_ok_def apply_opts_def
        apply_opt_def dhcp_consts)
qed

theorem acquire_lease_witness:
  "\<exists>s'. acquire (\<lambda>_. None) None ''eth0'' [1, 2, 3, 4, 5, 6] demo_sock =
       (Inr \<lparr>l_ip = ipv4_new 10 0 0 9, l_prefix_len = 24, l_gateway = None, l_dns = []\<rparr>, s') \<and>
     leased 0xB7B70001 [1, 2, 3, 4, 5, 6] (inbox demo_sock) (sent s')
       \<lparr>l_ip = ipv4_new 10 0 0 9, l_prefix_len = 24, l_gateway = None, l_dns = []\<rparr> \<and>
     length (sent s') = 2"
proof -
  have x: "random_xid None = 0xB7B70001" by (simp add: random_xid_def)
  have rounds: "MAX_ROUNDS = Suc 3" by (simp add: MAX_ROUNDS_def)
  have "acquire_rounds MAX_ROUNDS 0xB7B70001 [1, 2, 3, 4, 5, 6] demo_sock =
      (Inr \<lparr>l_ip = ipv4_new 10 0 0 9, l_prefix_len = 24, l_gateway = None, l_dns = []\<rparr>,
       \<lparr>inbox = [], send_results = [],
         sent = [build_packet DHCP_DISCOVER 0xB7B70001 [1, 2, 3, 4, 5, 6] None None,
           build_packet DHCP_REQUEST 0xB7B70001 [1, 2, 3, 4, 5, 6] (Some (ipv4_new 10 0 0 9)) None]\<rparr>)"
    unfolding rounds acquire_rounds.simps(2)
    by (simp add: demo_sock_def send_broadcast_def recv_reply_def demo_parse lease_of_def
        empty_reply_def)
  then have a: "acquire (\<lambda>_. None) None ''eth0'' [1, 2, 3, 4, 5, 6] demo_sock =
      (Inr \<lparr>l_ip = ipv4_new 10 0 0 9, l_prefix_len = 24, l_gateway = None, l_dns = []\<rparr>,
       \<lparr>inbox = [], send_results = [],
         sent = [build_packet DHCP_DISCOVER 0xB7B70001 [1, 2, 3, 4, 5, 6] None None,
           build_packet DHCP_REQUEST 0xB7B70001 [1, 2, 3, 4, 5, 6] (Some (ipv4_new 10 0 0 9)) None]\<rparr>)"
    by (simp add: acquire_def open_dhcp_def open_calls_def rc_to_result_def x)
  from acquire_lease [OF a] show ?thesis unfolding x using a by auto
qed

end
