(* ===== verification/Netlink.thy ===== *)
theory Netlink
  imports Net_Config
begin

text \<open>
  \<open>src/net/netlink.rs\<close>: the RTNETLINK messages that bring a link up or down, assign an
  address and add the default route, and the reading of the kernel's acknowledgement.
  The native byte order is little-endian, as on the \<open>x86_64\<close> hosts the initramfs is built
  for. The socket's system calls are parameters.
\<close>

section \<open>Constants\<close>

definition RTM_NEWLINK :: u16 where "RTM_NEWLINK = 16"
definition RTM_NEWADDR :: u16 where "RTM_NEWADDR = 20"
definition RTM_NEWROUTE :: u16 where "RTM_NEWROUTE = 24"
definition NLM_F_REQUEST :: u16 where "NLM_F_REQUEST = 0x001"
definition NLM_F_ACK :: u16 where "NLM_F_ACK = 0x004"
definition NLM_F_CREATE :: u16 where "NLM_F_CREATE = 0x400"
definition NLM_F_REPLACE :: u16 where "NLM_F_REPLACE = 0x100"
definition NLMSG_ERROR :: u16 where "NLMSG_ERROR = 2"
definition NLMSGHDR_LEN :: nat where "NLMSGHDR_LEN = 16"
definition RTATTR_HDR_LEN :: nat where "RTATTR_HDR_LEN = 4"
definition IFF_UP :: u32 where "IFF_UP = 1"
definition AF_INET_U8 :: u8 where "AF_INET_U8 = 2"
definition IFA_ADDRESS :: u16 where "IFA_ADDRESS = 1"
definition IFA_LOCAL :: u16 where "IFA_LOCAL = 2"
definition RTA_OIF :: u16 where "RTA_OIF = 4"
definition RTA_GATEWAY :: u16 where "RTA_GATEWAY = 5"
definition RT_TABLE_MAIN :: u8 where "RT_TABLE_MAIN = 254"
definition RTPROT_STATIC :: u8 where "RTPROT_STATIC = 4"
definition RT_SCOPE_UNIVERSE :: u8 where "RT_SCOPE_UNIVERSE = 0"
definition RTN_UNICAST :: u8 where "RTN_UNICAST = 1"
definition NL_SEQ :: u32 where "NL_SEQ = 1"

lemmas netlink_consts = RTM_NEWLINK_def RTM_NEWADDR_def RTM_NEWROUTE_def NLM_F_REQUEST_def
  NLM_F_ACK_def NLM_F_CREATE_def NLM_F_REPLACE_def NLMSG_ERROR_def NLMSGHDR_LEN_def
  RTATTR_HDR_LEN_def IFF_UP_def AF_INET_U8_def IFA_ADDRESS_def IFA_LOCAL_def RTA_OIF_def
  RTA_GATEWAY_def RT_TABLE_MAIN_def RTPROT_STATIC_def RT_SCOPE_UNIVERSE_def RTN_UNICAST_def
  NL_SEQ_def

section \<open>Builders\<close>

text \<open>\<open>(n + 3) & !3\<close> clears the two low bits.\<close>

definition align4 :: "nat \<Rightarrow> nat" where
  "align4 n = (n + 3) div 4 * 4"

definition push_nlmsghdr :: "bytes \<Rightarrow> u16 \<Rightarrow> u16 \<Rightarrow> bytes" where
  "push_nlmsghdr buf ty flags =
     buf @ u32_to_le 0 @ u16_to_le ty @ u16_to_le flags @ u32_to_le NL_SEQ @ u32_to_le 0"

definition push_rtattr :: "bytes \<Rightarrow> u16 \<Rightarrow> bytes \<Rightarrow> bytes" where
  "push_rtattr buf ty payload =
     (let len = RTATTR_HDR_LEN + length payload;
          b = buf @ u16_to_le (word_of_nat len) @ u16_to_le ty @ payload
      in b @ replicate (align4 (length b) - length b) 0)"

definition finalize :: "bytes \<Rightarrow> bytes" where
  "finalize buf = u32_to_le (word_of_nat (length buf)) @ drop 4 buf"

definition build_link_set_flags :: "u32 \<Rightarrow> u32 \<Rightarrow> bytes" where
  "build_link_set_flags ifindex flags =
     finalize (push_nlmsghdr [] RTM_NEWLINK (NLM_F_REQUEST OR NLM_F_ACK)
       @ [0, 0] @ u16_to_le 0 @ u32_to_le ifindex @ u32_to_le flags @ u32_to_le IFF_UP)"

definition build_add_address :: "u32 \<Rightarrow> ipv4 \<Rightarrow> u8 \<Rightarrow> bytes" where
  "build_add_address ifindex ip prefix_len =
     (let b = push_nlmsghdr [] RTM_NEWADDR
                (NLM_F_REQUEST OR NLM_F_ACK OR NLM_F_CREATE OR NLM_F_REPLACE);
          b = b @ [AF_INET_U8, prefix_len, 0, RT_SCOPE_UNIVERSE] @ u32_to_le ifindex;
          b = push_rtattr b IFA_LOCAL (u32_to_be ip);
          b = push_rtattr b IFA_ADDRESS (u32_to_be ip)
      in finalize b)"

definition build_add_route :: "u32 \<Rightarrow> ipv4 \<Rightarrow> bytes" where
  "build_add_route ifindex gw =
     (let b = push_nlmsghdr [] RTM_NEWROUTE (NLM_F_REQUEST OR NLM_F_ACK OR NLM_F_CREATE);
          b = b @ [AF_INET_U8, 0, 0, 0, RT_TABLE_MAIN, RTPROT_STATIC, RT_SCOPE_UNIVERSE, RTN_UNICAST]
                @ u32_to_le 0;
          b = push_rtattr b RTA_GATEWAY (u32_to_be gw);
          b = push_rtattr b RTA_OIF (u32_to_le ifindex)
      in finalize b)"

section \<open>The exchange with the kernel\<close>

definition parse_ack :: "bytes \<Rightarrow> errno + unit" where
  "parse_ack buf =
     (if length buf < NLMSGHDR_LEN + 4 then Inl EBADMSG
      else if u16_le (take 2 (drop 4 buf)) \<noteq> NLMSG_ERROR then Inr ()
      else let err = u32_le (take 4 (drop NLMSGHDR_LEN buf)) in
        if err = 0 then Inr () else Inl (unat (- err)))"

text \<open>
  The calls of \<open>send_and_ack\<close>: opening the socket (with its bind and timeout), the send,
  and the receive. A kernel is a state with the outcome of each.
\<close>

record 'k kernel_ops =
  nl_open :: "'k \<Rightarrow> errno option \<times> 'k"
  nl_send :: "bytes \<Rightarrow> 'k \<Rightarrow> (errno + unit) \<times> 'k"
  nl_recv :: "'k \<Rightarrow> (errno + bytes) \<times> 'k"

definition send_and_ack :: "'k kernel_ops \<Rightarrow> bytes \<Rightarrow> 'k \<Rightarrow> (errno + unit) \<times> 'k" where
  "send_and_ack ops msg k = (case nl_open ops k of
       (Some e, k) \<Rightarrow> (Inl e, k)
     | (None, k) \<Rightarrow> (case nl_send ops msg k of
         (Inl e, k1) \<Rightarrow> (Inl e, k1)
       | (Inr _, k1) \<Rightarrow> (case nl_recv ops k1 of
           (Inl e, k2) \<Rightarrow> (Inl e, k2)
         | (Inr buf, k2) \<Rightarrow> (parse_ack (take 4096 buf), k2))))"

definition link_up :: "'k kernel_ops \<Rightarrow> u32 \<Rightarrow> 'k \<Rightarrow> (errno + unit) \<times> 'k" where
  "link_up ops ifindex = send_and_ack ops (build_link_set_flags ifindex IFF_UP)"

definition link_down :: "'k kernel_ops \<Rightarrow> u32 \<Rightarrow> 'k \<Rightarrow> (errno + unit) \<times> 'k" where
  "link_down ops ifindex = send_and_ack ops (build_link_set_flags ifindex 0)"

definition add_address :: "'k kernel_ops \<Rightarrow> u32 \<Rightarrow> ipv4 \<Rightarrow> u8 \<Rightarrow> 'k \<Rightarrow> (errno + unit) \<times> 'k" where
  "add_address ops ifindex ip prefix_len = send_and_ack ops (build_add_address ifindex ip prefix_len)"

definition add_default_route :: "'k kernel_ops \<Rightarrow> u32 \<Rightarrow> ipv4 \<Rightarrow> 'k \<Rightarrow> (errno + unit) \<times> 'k" where
  "add_default_route ops ifindex gw = send_and_ack ops (build_add_route ifindex gw)"

section \<open>Reading a message back\<close>

text \<open>
  What the kernel reads: the header's length field, its type, and the attributes of a body
  as pairs of a type and a payload (a reference decoder, after rtnetlink(7)).
\<close>

definition nl_len :: "bytes \<Rightarrow> nat" where "nl_len b = unat (u32_le (take 4 b))"
definition nl_type :: "bytes \<Rightarrow> u16" where "nl_type b = u16_le (take 2 (drop 4 b))"

text \<open>The whole header: length, type, flags, sequence number, port.\<close>

definition nl_header :: "bytes \<Rightarrow> nat \<times> u16 \<times> u16 \<times> u32 \<times> u32" where
  "nl_header b = (nl_len b, nl_type b, u16_le (take 2 (drop 6 b)), u32_le (take 4 (drop 8 b)), u32_le (take 4 (drop 12 b)))"

function nl_attrs :: "bytes \<Rightarrow> (u16 \<times> bytes) list option" where
  "nl_attrs b = (if b = [] then Some []
     else let n = unat (u16_le (take 2 b)) in
       if length b < 4 \<or> n < 4 \<or> length b < n then None
       else map_option (\<lambda>rest. (u16_le (take 2 (drop 2 b)), take (n - 4) (drop 4 b)) # rest)
         (nl_attrs (drop (align4 n) b)))"
  by pat_completeness auto
termination
proof (relation "measure length")
  fix b :: bytes and n
  assume "b \<noteq> []" "n = unat (u16_le (take 2 b))" "\<not> (length b < 4 \<or> n < 4 \<or> length b < n)"
  then have "0 < align4 n" "0 < length b" by (auto simp: align4_def)
  then show "(drop (align4 n) b, b) \<in> measure length" by simp
qed simp

declare nl_attrs.simps [simp del]

lemma align4_ge: "n \<le> align4 n" and align4_dvd: "4 dvd align4 n" and align4_lt: "align4 n < n + 4"
  by (simp_all add: align4_def)

lemma nl_attrs_Nil [simp]: "nl_attrs [] = Some []"
  by (simp add: nl_attrs.simps)

lemma take_app_len: "length a = n \<Longrightarrow> take n (a @ b) = a" "length a = n \<Longrightarrow> drop n (a @ b) = b"
  by simp_all

lemma nl_attrs_one:
  assumes "length p = 4"
  shows "nl_attrs (u16_to_le 8 @ u16_to_le ty @ p @ rest) = map_option ((#) (ty, p)) (nl_attrs rest)"
proof -
  let ?b = "u16_to_le 8 @ u16_to_le ty @ p @ rest"
  have "take 2 ?b = u16_to_le 8" "drop 2 ?b = u16_to_le ty @ p @ rest"
    by simp_all
  moreover have "drop 4 ?b = p @ rest" "drop 8 ?b = rest" using assms by simp_all
  moreover have "?b \<noteq> []" "8 \<le> length ?b" using assms by (auto simp flip: length_0_conv)
  ultimately show ?thesis
    using assms by (subst nl_attrs.simps) (simp add: Let_def align4_def)
qed

lemma push_rtattr_4:
  "4 dvd length b \<Longrightarrow> length p = 4 \<Longrightarrow>
     push_rtattr b ty p = b @ u16_to_le 8 @ u16_to_le ty @ p"
proof -
  assume "4 dvd length b" "length p = 4"
  then have "align4 (length b + 8) = length b + 8" unfolding align4_def by presburger
  then show ?thesis using \<open>length p = 4\<close> by (simp add: push_rtattr_def Let_def RTATTR_HDR_LEN_def)
qed

lemma length_push_nlmsghdr [simp]: "length (push_nlmsghdr b ty f) = length b + 16"
  by (simp add: push_nlmsghdr_def)

lemma length_finalize [simp]: "4 \<le> length b \<Longrightarrow> length (finalize b) = length b"
  by (simp add: finalize_def)

lemma drop_finalize: "4 \<le> n \<Longrightarrow> 4 \<le> length b \<Longrightarrow> drop n (finalize b) = drop n b"
  by (simp add: finalize_def)

lemma add_address_body:
  "build_add_address i ip pl = finalize (push_nlmsghdr [] RTM_NEWADDR
       (NLM_F_REQUEST OR NLM_F_ACK OR NLM_F_CREATE OR NLM_F_REPLACE)
     @ [AF_INET_U8, pl, 0, RT_SCOPE_UNIVERSE] @ u32_to_le i
     @ u16_to_le 8 @ u16_to_le IFA_LOCAL @ u32_to_be ip
     @ u16_to_le 8 @ u16_to_le IFA_ADDRESS @ u32_to_be ip)"
  by (simp add: build_add_address_def Let_def push_rtattr_4)

lemma add_route_body:
  "build_add_route i gw = finalize (push_nlmsghdr [] RTM_NEWROUTE
       (NLM_F_REQUEST OR NLM_F_ACK OR NLM_F_CREATE)
     @ [AF_INET_U8, 0, 0, 0, RT_TABLE_MAIN, RTPROT_STATIC, RT_SCOPE_UNIVERSE, RTN_UNICAST]
     @ u32_to_le 0
     @ u16_to_le 8 @ u16_to_le RTA_GATEWAY @ u32_to_be gw
     @ u16_to_le 8 @ u16_to_le RTA_OIF @ u32_to_le i)"
  by (simp add: build_add_route_def Let_def push_rtattr_4)

lemma add_address_attrs:
  "nl_attrs (drop 24 (build_add_address i ip pl)) =
     Some [(IFA_LOCAL, u32_to_be ip), (IFA_ADDRESS, u32_to_be ip)]"
  unfolding add_address_body
  by (subst drop_finalize) (simp_all add: nl_attrs_one [where rest = "[]", simplified] nl_attrs_one)

lemma add_route_attrs:
  "nl_attrs (drop 28 (build_add_route i gw)) =
     Some [(RTA_GATEWAY, u32_to_be gw), (RTA_OIF, u32_to_le i)]"
  unfolding add_route_body
  by (subst drop_finalize) (simp_all add: nl_attrs_one [where rest = "[]", simplified] nl_attrs_one)

lemma nl_len_finalize: "4 \<le> length b \<Longrightarrow> length b < 2 ^ 32 \<Longrightarrow> nl_len (finalize b) = length b"
  by (simp add: nl_len_def finalize_def unat_of_nat)

lemma nl_type_finalize:
  "nl_type (finalize (push_nlmsghdr [] ty f @ rest)) = ty"
  by (simp add: nl_type_def finalize_def push_nlmsghdr_def)

lemma parse_ack_msg:
  "length h = 4 \<Longrightarrow> length m = 8 \<Longrightarrow>
     parse_ack (h @ u16_to_le NLMSG_ERROR @ u16_to_le f @ m @ u32_to_le e @ rest) =
       (if e = 0 then Inr () else Inl (unat (- e)))"
  by (simp add: parse_ack_def NLMSGHDR_LEN_def)

lemma finalize_header:
  assumes "length body < 2 ^ 32 - 16"
  shows "nl_header (finalize (push_nlmsghdr [] ty f @ body)) = (16 + length body, ty, f, 1, 0)"
proof -
  have "finalize (push_nlmsghdr [] ty f @ body) =
      u32_to_le (word_of_nat (16 + length body)) @ u16_to_le ty @ u16_to_le f @ u32_to_le 1 @ u32_to_le 0 @ body"
    by (simp add: finalize_def push_nlmsghdr_def NL_SEQ_def)
  moreover have "unat (word_of_nat (16 + length body) :: u32) = 16 + length body"
    using assms by (subst unat_of_nat) simp
  ultimately show ?thesis by (simp add: nl_header_def nl_len_def nl_type_def del: of_nat_add)
qed

section \<open>Property\<close>

text \<open>
  C36: the messages as the kernel reads them, in the numbers of rtnetlink(7), for every interface,
  address, prefix length and flags. The header holds the length of the whole message, its type, the
  flags (a request to acknowledge; for an address, to create or replace it; for a route, to create
  it), the sequence number and no port. A link message sets the flags asked for under a change mask of only
  \<open>IFF_UP\<close>. An address message gives the prefix length and the interface, and its attributes
  read back as the address, as the local and as the interface's. A route message is a static default route of the main
  table, and its attributes read back as the gateway and the interface.
\<close>

theorem netlink_messages:
  "(let m = build_link_set_flags i flags in nl_header m = (length m, 16, 0x005, 1, 0) \<and>
     drop 16 m = [0, 0, 0, 0] @ u32_to_le i @ u32_to_le flags @ u32_to_le 1) \<and>
   (let m = build_add_address i ip pl in nl_header m = (length m, 20, 0x505, 1, 0) \<and>
     take 8 (drop 16 m) = [2, pl, 0, 0] @ u32_to_le i \<and>
     nl_attrs (drop 24 m) = Some [(2, u32_to_be ip), (1, u32_to_be ip)]) \<and>
   (let m = build_add_route i ip in nl_header m = (length m, 24, 0x405, 1, 0) \<and>
     take 12 (drop 16 m) = [2, 0, 0, 0, 254, 4, 0, 1, 0, 0, 0, 0] \<and>
     nl_attrs (drop 28 m) = Some [(5, u32_to_be ip), (4, u32_to_le i)])"
proof -
  have "NLM_F_REQUEST OR NLM_F_ACK = 0x005" "NLM_F_REQUEST OR NLM_F_ACK OR NLM_F_CREATE OR NLM_F_REPLACE = 0x505"
    "NLM_F_REQUEST OR NLM_F_ACK OR NLM_F_CREATE = 0x405" "u32_to_le 0 = [0, 0, 0, 0]" "u16_to_le 0 = [0, 0]"
    by code_simp+
  note numbers = this
  have link: "let m = build_link_set_flags i flags in nl_header m = (length m, 16, 0x005, 1, 0) \<and>
     drop 16 m = [0, 0, 0, 0] @ u32_to_le i @ u32_to_le flags @ u32_to_le 1"
    unfolding build_link_set_flags_def by (simp add: finalize_header drop_finalize numbers RTM_NEWLINK_def IFF_UP_def)
  have "let m = build_add_address i ip pl in nl_header m = (length m, 20, 0x505, 1, 0) \<and>
     take 8 (drop 16 m) = [2, pl, 0, 0] @ u32_to_le i"
    unfolding add_address_body
    by (simp add: finalize_header drop_finalize numbers RTM_NEWADDR_def AF_INET_U8_def RT_SCOPE_UNIVERSE_def)
  moreover have "let m = build_add_route i ip in nl_header m = (length m, 24, 0x405, 1, 0) \<and>
     take 12 (drop 16 m) = [2, 0, 0, 0, 254, 4, 0, 1, 0, 0, 0, 0]"
    unfolding add_route_body
    by (simp add: finalize_header drop_finalize numbers RTM_NEWROUTE_def AF_INET_U8_def RT_SCOPE_UNIVERSE_def
      RT_TABLE_MAIN_def RTPROT_STATIC_def RTN_UNICAST_def)
  moreover note add_address_attrs [of i ip pl, unfolded IFA_LOCAL_def IFA_ADDRESS_def]
    add_route_attrs [of i ip, unfolded RTA_GATEWAY_def RTA_OIF_def]
  ultimately show ?thesis using link by (simp add: Let_def)
qed

end
