(* ===== verification/Net.thy ===== *)
theory Net
  imports Dhcp Netlink
begin

text \<open>
  \<open>src/net.rs\<close>: choosing the provisioning interface over \<open>/sys/class/net\<close>, the static, the
  single-interface and the raced bring-up, and the resolver file. What DHCP answers on each
  interface is a parameter (the result of \<open>Dhcp.acquire\<close> there); the netlink socket is a
  state that logs the messages it was given and answers from a list.
\<close>

section \<open>Selection\<close>

datatype nic_selection = Pinned string | Race "string list"

definition normalize_bootif :: "string \<Rightarrow> string" where
  "normalize_bootif bootif =
     (let hex = unwrap_or (strip_prefix ''01-'' bootif) bootif in
      to_ascii_lowercase (replace_char (CHR ''-'') (CHR '':'') hex))"

definition candidate_interfaces :: "fsnode \<Rightarrow> string list" where
  "candidate_interfaces net_dir = (case read_dir net_dir [] of
       None \<Rightarrow> []
     | Some names \<Rightarrow> sort (filter (\<lambda>n. n \<noteq> ''lo'') (utf8_names names)))"

definition select_nics :: "fsnode \<Rightarrow> string option \<Rightarrow> net_error + nic_selection" where
  "select_nics net_dir bootif = (let candidates = candidate_interfaces net_dir in
     if candidates = [] then Inl NoInterface
     else (case bootif of
         Some b \<Rightarrow> (let want = normalize_bootif b in
           case find (\<lambda>iface. case read_trimmed net_dir [iface, ''address''] of
               None \<Rightarrow> False | Some mac \<Rightarrow> eq_ignore_ascii_case mac want) candidates of
             Some iface \<Rightarrow> Inr (Pinned iface)
           | None \<Rightarrow> Inl (BootifNoMatch want))
       | None \<Rightarrow> (case candidates of
             [only] \<Rightarrow> Inr (Pinned only)
           | _ \<Rightarrow> Inr (Race candidates))))"

definition nic_selectable :: "fsnode \<Rightarrow> string option \<Rightarrow> bool" where
  "nic_selectable net_dir bootif \<longleftrightarrow> is_ok (select_nics net_dir bootif)"

section \<open>Interface attributes\<close>

definition SYSFS_NET :: string where "SYSFS_NET = ''/sys/class/net''"

definition net_path :: "string \<Rightarrow> string \<Rightarrow> string" where
  "net_path iface attr = SYSFS_NET @ ''/'' @ iface @ ''/'' @ attr"

definition read_ifindex :: "fsnode \<Rightarrow> string \<Rightarrow> net_error + u32" where
  "read_ifindex net_dir iface =
     ok_or (Option.bind (read_trimmed net_dir [iface, ''ifindex'']) parse_u32)
       (SysRead (net_path iface ''ifindex''))"

definition hex_u8 :: "string \<Rightarrow> u8 option" where
  "hex_u8 w = map_option word_of_nat (parse_unsigned 8 16 w)"

definition parse_mac :: "string \<Rightarrow> bytes option" where
  "parse_mac s = (let parts = split_char (CHR '':'') s in
     if length parts = 6 \<and> (\<forall>w\<in>set parts. hex_u8 w \<noteq> None)
     then Some (map (\<lambda>w. unwrap_or (hex_u8 w) 0) parts) else None)"

definition read_mac :: "fsnode \<Rightarrow> string \<Rightarrow> net_error + bytes" where
  "read_mac net_dir iface =
     rbind (ok_or (read_trimmed net_dir [iface, ''address'']) (SysRead (net_path iface ''address'')))
       (\<lambda>raw. ok_or (parse_mac raw) (SysRead (net_path iface ''address'')))"

text \<open>
  The carrier wait. At the \<open>i\<close>-th test \<open>i\<close> sleeps of a tenth of a second are over, each at least as
  long as asked for: the observation is how much later than that it is, and the attribute. The
  result is the number of sleeps until three seconds have passed or the carrier reads \<open>1\<close>.
\<close>

definition CARRIER_POLL :: nat where "CARRIER_POLL = 100"

function wait_from :: "(nat \<Rightarrow> nat \<times> string option) \<Rightarrow> nat \<Rightarrow> nat" where
  "wait_from carrier i = (case carrier i of (late, attr) \<Rightarrow>
     if \<not> CARRIER_POLL * i + late < 3000 then 0
     else if attr = Some ''1'' then 0
     else Suc (wait_from carrier (i + 1)))"
  by pat_completeness auto
termination by (relation "measure (\<lambda>(_, i). 30 - i)") (auto simp: CARRIER_POLL_def)

declare wait_from.simps [simp del]

definition wait_for_link :: "(nat \<Rightarrow> nat \<times> string option) \<Rightarrow> nat" where
  "wait_for_link carrier = wait_from carrier 0"

section \<open>The netlink socket\<close>

text \<open>
  What becomes of a request: its socket cannot be opened, bound or given its timeout, the send fails,
  or it is sent and the receive answers. The state holds the messages the kernel took, the answers
  to come (acknowledgements once they run out), the carrier of each interface, and the sleeps of
  each carrier wait.
\<close>

datatype nl_answer = OpenRefused errno | SendRefused errno | Received "errno + bytes"

record nl_state =
  nl_log :: "bytes list"
  nl_answers :: "nl_answer list"
  nl_carrier :: "string \<Rightarrow> nat \<Rightarrow> nat \<times> string option"
  nl_waits :: "nat list"

definition ok_ack :: bytes where
  "ok_ack = u32_to_le 20 @ u16_to_le NLMSG_ERROR @ u16_to_le 0 @ u32_to_le NL_SEQ @ u32_to_le 0 @ u32_to_le 0"

definition nl_ops :: "nl_state kernel_ops" where
  "nl_ops = \<lparr>nl_open = (\<lambda>s. case nl_answers s of
         OpenRefused e # as \<Rightarrow> (Some e, s\<lparr>nl_answers := as\<rparr>)
       | _ \<Rightarrow> (None, s)),
     nl_send = (\<lambda>m s. case nl_answers s of
         SendRefused e # as \<Rightarrow> (Inl e, s\<lparr>nl_answers := as\<rparr>)
       | _ \<Rightarrow> (Inr (), s\<lparr>nl_log := nl_log s @ [m]\<rparr>)),
     nl_recv = (\<lambda>s. case nl_answers s of
         Received a # as \<Rightarrow> (a, s\<lparr>nl_answers := as\<rparr>)
       | _ \<Rightarrow> (Inr ok_ack, s))\<rparr>"

text \<open>Sleeping until the carrier is there.\<close>

definition link_waited :: "string \<Rightarrow> nl_state \<Rightarrow> nl_state" where
  "link_waited iface s = s\<lparr>nl_waits := nl_waits s @ [wait_for_link (nl_carrier s iface)]\<rparr>"

text \<open>\<open>.map_err(|source| NetError::Netlink { op, source })?\<close>.\<close>

definition nl_step :: "string \<Rightarrow> (errno + unit) \<times> nl_state \<Rightarrow> (net_error + unit) \<times> nl_state" where
  "nl_step op r = (map_err (NetlinkError op) (fst r), snd r)"

section \<open>Bringing a link up\<close>

record net_config =
  nc_iface :: string
  nc_ip :: ipv4
  nc_prefix_len :: u8
  nc_gateway :: "ipv4 option"
  nc_dns :: "ipv4 list"

definition net_config_of :: "string \<Rightarrow> lease \<Rightarrow> net_config" where
  "net_config_of iface l = \<lparr>nc_iface = iface, nc_ip = l_ip l, nc_prefix_len = l_prefix_len l,
     nc_gateway = l_gateway l, nc_dns = l_dns l\<rparr>"

type_synonym dhcp = "string \<Rightarrow> bytes \<Rightarrow> net_error + lease"

definition dhcp_link ::
  "dhcp \<Rightarrow> string \<Rightarrow> u32 \<Rightarrow> bytes \<Rightarrow> nl_state \<Rightarrow> (net_error + lease) \<times> nl_state" where
  "dhcp_link acq iface ifindex mac s =
     (case nl_step ''link up'' (link_up nl_ops ifindex s) of
        (Inl e, s1) \<Rightarrow> (Inl e, s1)
      | (Inr _, s1) \<Rightarrow> (acq iface mac, link_waited iface s1))"

text \<open>The address, then the default route when there is a gateway.\<close>

definition apply_addr ::
  "u32 \<Rightarrow> ipv4 \<Rightarrow> u8 \<Rightarrow> ipv4 option \<Rightarrow> nl_state \<Rightarrow> (net_error + unit) \<times> nl_state" where
  "apply_addr ifindex ip prefix_len gateway s =
     (case nl_step ''add address'' (add_address nl_ops ifindex ip prefix_len s) of
        (Inl e, s1) \<Rightarrow> (Inl e, s1)
      | (Inr _, s1) \<Rightarrow> (case gateway of
          None \<Rightarrow> (Inr (), s1)
        | Some gw \<Rightarrow> nl_step ''add default route'' (add_default_route nl_ops ifindex gw s1)))"

definition apply_lease :: "u32 \<Rightarrow> lease \<Rightarrow> nl_state \<Rightarrow> (net_error + unit) \<times> nl_state" where
  "apply_lease ifindex l = apply_addr ifindex (l_ip l) (l_prefix_len l) (l_gateway l)"

definition bring_up_one ::
  "fsnode \<Rightarrow> dhcp \<Rightarrow> string \<Rightarrow> nl_state \<Rightarrow> (net_error + net_config) \<times> nl_state" where
  "bring_up_one net_dir acq iface s =
     (case read_ifindex net_dir iface of Inl e \<Rightarrow> (Inl e, s) | Inr ifindex \<Rightarrow>
     (case read_mac net_dir iface of Inl e \<Rightarrow> (Inl e, s) | Inr mac \<Rightarrow>
     (case dhcp_link acq iface ifindex mac s of (Inl e, s1) \<Rightarrow> (Inl e, s1) | (Inr l, s1) \<Rightarrow>
     (case apply_lease ifindex l s1 of (Inl e, s2) \<Rightarrow> (Inl e, s2) | (Inr _, s2) \<Rightarrow>
       (Inr (net_config_of iface l), s2)))))"

definition bring_up_static ::
  "fsnode \<Rightarrow> string \<Rightarrow> static_ip \<Rightarrow> nl_state \<Rightarrow> (net_error + net_config) \<times> nl_state" where
  "bring_up_static net_dir iface st s =
     (case read_ifindex net_dir iface of Inl e \<Rightarrow> (Inl e, s) | Inr ifindex \<Rightarrow>
     (case nl_step ''link up'' (link_up nl_ops ifindex s) of (Inl e, s1) \<Rightarrow> (Inl e, s1) | (Inr _, s1) \<Rightarrow>
     (case apply_addr ifindex (st_ip st) (st_prefix_len st) (st_gateway st) (link_waited iface s1) of
        (Inl e, s2) \<Rightarrow> (Inl e, s2)
      | (Inr _, s2) \<Rightarrow>
         (Inr \<lparr>nc_iface = iface, nc_ip = st_ip st, nc_prefix_len = st_prefix_len st,
               nc_gateway = st_gateway st, nc_dns = st_dns st\<rparr>, s2))))"

section \<open>The race\<close>

definition choose_lease :: "lease option list \<Rightarrow> nat option" where
  "choose_lease leases =
     (case position (\<lambda>l. case l of None \<Rightarrow> False | Some x \<Rightarrow> l_gateway x \<noteq> None) leases of
        Some i \<Rightarrow> Some i
      | None \<Rightarrow> position (\<lambda>l. l \<noteq> None) leases)"

definition race_candidates :: "fsnode \<Rightarrow> string list \<Rightarrow> (string \<times> u32 \<times> bytes) list" where
  "race_candidates net_dir ifaces =
     List.map_filter (\<lambda>iface. Option.bind (result_ok (read_ifindex net_dir iface)) (\<lambda>ifindex.
       Option.bind (result_ok (read_mac net_dir iface)) (\<lambda>mac. Some (iface, ifindex, mac)))) ifaces"

text \<open>
  The exchanges run on separate links and sockets; their results are collected in candidate
  order, here by running them in that order.
\<close>

fun race_leases ::
  "dhcp \<Rightarrow> (string \<times> u32 \<times> bytes) list \<Rightarrow> nl_state \<Rightarrow> (string \<times> u32 \<times> lease option) list \<times> nl_state" where
  "race_leases acq [] s = ([], s)"
| "race_leases acq ((iface, ifindex, mac) # cs) s =
     (let (r, s1) = dhcp_link acq iface ifindex mac s;
          (rs, s2) = race_leases acq cs s1
      in ((iface, ifindex, result_ok r) # rs, s2))"

definition link_downs :: "u32 list \<Rightarrow> nl_state \<Rightarrow> nl_state" where
  "link_downs ifs s = fold (\<lambda>ifindex s. snd (link_down nl_ops ifindex s)) ifs s"

definition losers :: "nat \<Rightarrow> (string \<times> u32 \<times> lease option) list \<Rightarrow> u32 list" where
  "losers winner results = map (\<lambda>(i, _, ifindex, _). ifindex)
     (filter (\<lambda>(i, _). i \<noteq> winner) (enumerate 0 results))"

text \<open>What follows the join of the threads.\<close>

definition finish_race ::
  "(string \<times> u32 \<times> lease option) list \<Rightarrow> nl_state \<Rightarrow> (net_error + net_config) \<times> nl_state" where
  "finish_race results s =
     (let leases = map (\<lambda>(_, _, l). l) results in
      (case choose_lease leases of
         None \<Rightarrow> (Inl DhcpTimeout, s)
       | Some winner \<Rightarrow> (case results ! winner of
           (iface, ifindex, Some l) \<Rightarrow> (case apply_lease ifindex l s of
               (Inl e, s2) \<Rightarrow> (Inl e, s2)
             | (Inr _, s2) \<Rightarrow>
                 (Inr (net_config_of iface l), link_downs (losers winner results) s2))
         | (iface, ifindex, None) \<Rightarrow> (Inl DhcpTimeout, s))))"

definition bring_up_race ::
  "fsnode \<Rightarrow> dhcp \<Rightarrow> string list \<Rightarrow> nl_state \<Rightarrow> (net_error + net_config) \<times> nl_state" where
  "bring_up_race net_dir acq ifaces s =
     (let cands = race_candidates net_dir ifaces in
      if cands = [] then (Inl NoInterface, s)
      else let (results, s1) = race_leases acq cands s in finish_race results s1)"

definition bring_up_provisioning_network ::
  "fsnode \<Rightarrow> dhcp \<Rightarrow> string option \<Rightarrow> static_ip option \<Rightarrow> nl_state \<Rightarrow>
     (net_error + net_config) \<times> nl_state" where
  "bring_up_provisioning_network net_dir acq bootif ip s =
     (case select_nics net_dir bootif of
        Inl e \<Rightarrow> (Inl e, s)
      | Inr sel \<Rightarrow> (case ip of
          Some st \<Rightarrow> (case sel of
              Pinned iface \<Rightarrow> bring_up_static net_dir iface st s
            | Race _ \<Rightarrow> (Inl StaticAmbiguous, s))
        | None \<Rightarrow> (case sel of
              Pinned iface \<Rightarrow> bring_up_one net_dir acq iface s
            | Race ifaces \<Rightarrow> bring_up_race net_dir acq ifaces s)))"

section \<open>The resolver file\<close>

definition MAX_NAMESERVERS :: nat where "MAX_NAMESERVERS = 3"

fun choose_servers :: "ipv4 list \<Rightarrow> ipv4 list \<Rightarrow> ipv4 list" where
  "choose_servers chosen [] = chosen"
| "choose_servers chosen (ip # dns) =
     (if ip \<in> set chosen then choose_servers chosen dns
      else let chosen' = chosen @ [ip] in
        if length chosen' = MAX_NAMESERVERS then chosen' else choose_servers chosen' dns)"

definition render_resolv_conf :: "ipv4 list \<Rightarrow> string" where
  "render_resolv_conf dns =
     concat (map (\<lambda>ip. ''nameserver '' @ fmt_ipv4 ip @ [CHR 0x0A]) (choose_servers [] dns))"

datatype fs_write = CreateDirAll string | WriteFile string string

text \<open>The file operations of \<open>write_resolv_conf\<close>, in order: none when there is nothing to write.\<close>

definition write_resolv_conf :: "ipv4 list \<Rightarrow> fs_write list" where
  "write_resolv_conf dns = (let content = render_resolv_conf dns in
     if content = [] then []
     else [CreateDirAll ''/etc'', WriteFile ''/etc/resolv.conf'' content])"

section \<open>Lemmas: selection\<close>

lemma candidates_sorted: "sorted (candidate_interfaces d)"
  by (simp add: candidate_interfaces_def split: option.splits)

lemma candidates_no_lo: "''lo'' \<notin> set (candidate_interfaces d)"
  by (simp add: candidate_interfaces_def split: option.splits)

definition mac_matches :: "fsnode \<Rightarrow> string \<Rightarrow> string \<Rightarrow> bool" where
  "mac_matches d bootif iface \<longleftrightarrow>
     (\<exists>mac. read_trimmed d [iface, ''address''] = Some mac \<and>
        eq_ignore_ascii_case mac (normalize_bootif bootif))"

lemma select_nics_bootif:
  "select_nics d (Some b) = Inr sel \<longleftrightarrow>
     (\<exists>us iface vs. candidate_interfaces d = us @ iface # vs \<and> sel = Pinned iface \<and>
        mac_matches d b iface \<and> (\<forall>u\<in>set us. \<not> mac_matches d b u))"
proof -
  let ?P = "\<lambda>iface. case read_trimmed d [iface, ''address''] of None \<Rightarrow> False
      | Some mac \<Rightarrow> eq_ignore_ascii_case mac (normalize_bootif b)"
  have P: "?P = mac_matches d b"
    by (auto simp: mac_matches_def fun_eq_iff split: option.splits)
  have "select_nics d (Some b) = Inr sel \<longleftrightarrow>
      (\<exists>iface. find (mac_matches d b) (candidate_interfaces d) = Some iface \<and> sel = Pinned iface)"
    by (auto simp: select_nics_def Let_def P split: option.splits)
  then show ?thesis unfolding find_eq_Some_split by blast
qed

lemma select_nics_free:
  "select_nics d None = (case candidate_interfaces d of
       [] \<Rightarrow> Inl NoInterface | [only] \<Rightarrow> Inr (Pinned only) | cs \<Rightarrow> Inr (Race cs))"
  by (auto simp: select_nics_def split: list.splits)

lemma select_nics_bootif_err:
  "select_nics d (Some b) = Inl e \<Longrightarrow>
     (candidate_interfaces d = [] \<and> e = NoInterface) \<or>
     (e = BootifNoMatch (normalize_bootif b) \<and> (\<forall>c\<in>set (candidate_interfaces d). \<not> mac_matches d b c))"
  by (auto simp: select_nics_def Let_def mac_matches_def find_eq_None split: option.splits if_splits)

section \<open>Lemmas: the race\<close>

lemma choose_lease_gateway:
  assumes "choose_lease ls = Some i" "j < length ls" "ls ! j = Some l" "l_gateway l \<noteq> None"
  shows "\<exists>w. ls ! i = Some w \<and> l_gateway w \<noteq> None \<and> i \<le> j"
proof -
  let ?P = "\<lambda>l. case l of None \<Rightarrow> False | Some x \<Rightarrow> l_gateway x \<noteq> None"
  have "Some l \<in> set ls" using assms(2,3) by (metis nth_mem)
  with assms(4) have "\<exists>x\<in>set ls. ?P x" by force
  then obtain k where k: "position ?P ls = Some k"
    using position_None [of ?P ls] by (cases "position ?P ls") auto
  with assms(1) have "i = k" by (simp add: choose_lease_def)
  with k have "?P (ls ! i)" "\<forall>j<i. \<not> ?P (ls ! j)" by (simp_all add: position_Some)
  with assms(3,4) show ?thesis by (auto split: option.splits simp: not_less [symmetric])
qed

lemma choose_lease_some:
  assumes "choose_lease ls = Some i"
  shows "i < length ls \<and> ls ! i \<noteq> None"
proof -
  let ?P = "\<lambda>l. case l of None \<Rightarrow> False | Some x \<Rightarrow> l_gateway x \<noteq> None"
  show ?thesis
  proof (cases "position ?P ls")
    case None
    with assms have "position (\<lambda>l. l \<noteq> None) ls = Some i" by (simp add: choose_lease_def)
    then show ?thesis by (simp add: position_Some)
  next
    case (Some k)
    with assms have "i = k" by (simp add: choose_lease_def)
    with Some show ?thesis by (auto simp: position_Some split: option.splits)
  qed
qed

lemma choose_lease_none: "choose_lease ls = None \<longleftrightarrow> (\<forall>l\<in>set ls. l = None)"
proof -
  let ?P = "\<lambda>l. case l of None \<Rightarrow> False | Some x \<Rightarrow> l_gateway x \<noteq> None"
  show ?thesis
  proof (cases "position ?P ls")
    case None
    then have "choose_lease ls = position (\<lambda>l. l \<noteq> None) ls" by (simp add: choose_lease_def)
    then show ?thesis by (auto simp: position_None)
  next
    case (Some k)
    then have k: "k < length ls" and "?P (ls ! k)" by (simp_all add: position_Some)
    then have "ls ! k \<noteq> None" by (cases "ls ! k") simp_all
    with nth_mem [OF k] have "\<not> (\<forall>l\<in>set ls. l = None)" by metis
    with Some show ?thesis by (simp add: choose_lease_def)
  qed
qed

lemma choose_lease_first:
  assumes "choose_lease ls = Some i" "\<forall>l\<in>set ls. \<forall>x. l = Some x \<longrightarrow> l_gateway x = None" "j < i"
  shows "ls ! j = None"
proof -
  let ?P = "\<lambda>l. case l of None \<Rightarrow> False | Some x \<Rightarrow> l_gateway x \<noteq> None"
  have "position ?P ls = None" using assms(2) by (auto simp: position_None split: option.splits)
  with assms(1,3) show ?thesis by (auto simp: choose_lease_def position_Some)
qed

text \<open>The messages of each step.\<close>

definition up_msg :: "u32 \<Rightarrow> bytes" where "up_msg i = build_link_set_flags i IFF_UP"
definition down_msg :: "u32 \<Rightarrow> bytes" where "down_msg i = build_link_set_flags i 0"
definition addr_msgs :: "u32 \<Rightarrow> ipv4 \<Rightarrow> u8 \<Rightarrow> ipv4 option \<Rightarrow> bytes list" where
  "addr_msgs i ip pl gw = build_add_address i ip pl #
     (case gw of None \<Rightarrow> [] | Some g \<Rightarrow> [build_add_route i g])"

text \<open>
  One request: its answer, and the message in the log if the kernel took it. The \<open>j\<close>-th request
  from a state has the \<open>j\<close>-th answer.
\<close>

definition took :: "nl_answer \<Rightarrow> bool" where
  "took a = (case a of Received _ \<Rightarrow> True | _ \<Rightarrow> False)"

definition heard :: "nl_answer \<Rightarrow> errno + unit" where
  "heard a = (case a of OpenRefused e \<Rightarrow> Inl e | SendRefused e \<Rightarrow> Inl e
     | Received r \<Rightarrow> rbind r (\<lambda>buf. parse_ack (take 4096 buf)))"

definition answer_at :: "nl_answer list \<Rightarrow> nat \<Rightarrow> nl_answer" where
  "answer_at as j = (if j < length as then as ! j else Received (Inr ok_ack))"

text \<open>The messages of these that the kernel takes, with these answers to come.\<close>

fun taken :: "nl_answer list \<Rightarrow> bytes list \<Rightarrow> bytes list" where
  "taken as [] = []"
| "taken as (m # ms) = (if took (answer_at as 0) then [m] else []) @ taken (tl as) ms"

lemma answer_at_tl: "answer_at (tl as) j = answer_at as (Suc j)"
  by (cases as) (simp_all add: answer_at_def)

lemma answer_at_drop: "answer_at (drop n as) j = answer_at as (n + j)"
  by (simp add: answer_at_def) (metis add.commute less_diff_conv)

lemma took_heard: "heard a = Inr u \<Longrightarrow> took a"
  by (simp add: heard_def took_def split: nl_answer.splits)

lemma taken_append: "taken as (xs @ ys) = taken as xs @ taken (drop (length xs) as) ys"
  by (induction as xs rule: taken.induct) (simp_all add: drop_Suc)

lemma set_taken: "set (taken as ms) \<subseteq> set ms"
  by (induction as ms rule: taken.induct) auto

lemma send_nl:
  "send_and_ack nl_ops m s = (heard (answer_at (nl_answers s) 0),
     s\<lparr>nl_log := nl_log s @ taken (nl_answers s) [m], nl_answers := tl (nl_answers s)\<rparr>)"
  by (cases "nl_answers s")
    (simp_all add: send_and_ack_def nl_ops_def heard_def took_def answer_at_def rbind_def split: nl_answer.split sum.split)

lemma link_msg:
  "link_up nl_ops i s = send_and_ack nl_ops (up_msg i) s" "link_down nl_ops i s = send_and_ack nl_ops (down_msg i) s"
  "add_address nl_ops i ip pl s = send_and_ack nl_ops (build_add_address i ip pl) s"
  "add_default_route nl_ops i gw s = send_and_ack nl_ops (build_add_route i gw) s"
  by (simp_all add: link_up_def link_down_def up_msg_def down_msg_def add_address_def add_default_route_def)

lemma link_downs_effect:
  "link_downs ifs s = s\<lparr>nl_log := nl_log s @ taken (nl_answers s) (map down_msg ifs),
     nl_answers := drop (length ifs) (nl_answers s)\<rparr>"
  by (induction ifs arbitrary: s) (simp_all add: link_downs_def link_msg send_nl drop_Suc)

text \<open>What an exchange on a candidate's link gives, with the answer to its request.\<close>

definition outcome :: "dhcp \<Rightarrow> nl_answer \<Rightarrow> string \<times> u32 \<times> bytes \<Rightarrow> lease option" where
  "outcome acq a cand = (case cand of (iface, ifindex, mac) \<Rightarrow>
     if is_ok (heard a) then result_ok (acq iface mac) else None)"

definition link_wait :: "(string \<Rightarrow> nat \<Rightarrow> nat \<times> string option) \<Rightarrow> nl_answer \<Rightarrow> string \<times> u32 \<times> bytes \<Rightarrow> nat list" where
  "link_wait carrier a cand = (if is_ok (heard a) then [wait_for_link (carrier (fst cand))] else [])"

lemma dhcp_link_effect:
  "\<exists>r. result_ok r = outcome acq (answer_at (nl_answers s) 0) (iface, i, mac) \<and>
     dhcp_link acq iface i mac s = (r, s\<lparr>nl_log := nl_log s @ taken (nl_answers s) [up_msg i],
       nl_answers := tl (nl_answers s),
       nl_waits := nl_waits s @ link_wait (nl_carrier s) (answer_at (nl_answers s) 0) (iface, i, mac)\<rparr>)"
proof (cases "heard (answer_at (nl_answers s) 0)")
  case (Inl e)
  then show ?thesis
    by (simp add: dhcp_link_def link_msg send_nl nl_step_def outcome_def link_wait_def)
next
  case (Inr u)
  then show ?thesis
    by (simp add: dhcp_link_def link_msg send_nl nl_step_def outcome_def link_waited_def link_wait_def)
qed

definition link_leases :: "dhcp \<Rightarrow> nl_answer list \<Rightarrow> (string \<times> u32 \<times> bytes) list \<Rightarrow> lease option list" where
  "link_leases acq as cands = map (\<lambda>j. outcome acq (answer_at as j) (cands ! j)) [0..<length cands]"

definition link_waits ::
  "(string \<Rightarrow> nat \<Rightarrow> nat \<times> string option) \<Rightarrow> nl_answer list \<Rightarrow> (string \<times> u32 \<times> bytes) list \<Rightarrow> nat list" where
  "link_waits carrier as cands = concat (map (\<lambda>j. link_wait carrier (answer_at as j) (cands ! j)) [0..<length cands])"

lemma link_Cons:
  "link_leases acq as (c # cs) = outcome acq (answer_at as 0) c # link_leases acq (tl as) cs"
  "link_waits carrier as (c # cs) = link_wait carrier (answer_at as 0) c @ link_waits carrier (tl as) cs"
  unfolding link_leases_def link_waits_def by (simp_all add: map_upt_Suc answer_at_tl del: upt_Suc)

text \<open>The race over its candidates: their leases, messages and waits, in order.\<close>

abbreviation (input) up_msgs :: "(string \<times> u32 \<times> bytes) list \<Rightarrow> bytes list" where
  "up_msgs cands \<equiv> map (\<lambda>(_, i, _). up_msg i) cands"

lemma race_leases_effect:
  "race_leases acq cs s = (map (\<lambda>((iface, i, _), l). (iface, i, l)) (zip cs (link_leases acq (nl_answers s) cs)),
     s\<lparr>nl_log := nl_log s @ taken (nl_answers s) (up_msgs cs), nl_answers := drop (length cs) (nl_answers s),
       nl_waits := nl_waits s @ link_waits (nl_carrier s) (nl_answers s) cs\<rparr>)"
proof (induction cs arbitrary: s)
  case (Cons c cs)
  obtain iface i mac where c: "c = (iface, i, mac)" by (metis prod.exhaust)
  obtain r where "result_ok r = outcome acq (answer_at (nl_answers s) 0) (iface, i, mac)"
    "dhcp_link acq iface i mac s = (r, s\<lparr>nl_log := nl_log s @ taken (nl_answers s) [up_msg i],
       nl_answers := tl (nl_answers s),
       nl_waits := nl_waits s @ link_wait (nl_carrier s) (answer_at (nl_answers s) 0) (iface, i, mac)\<rparr>)"
    using dhcp_link_effect by blast
  then show ?case unfolding c by (simp add: Cons.IH link_Cons drop_Suc)
qed (simp add: link_leases_def link_waits_def)

lemma apply_addr_effect:
  assumes "apply_addr i ip pl gw s = (x, s')"
  shows "case x of
      Inr _ \<Rightarrow> s' = s\<lparr>nl_log := nl_log s @ addr_msgs i ip pl gw,
        nl_answers := drop (length (addr_msgs i ip pl gw)) (nl_answers s)\<rparr> \<and>
        taken (nl_answers s) (addr_msgs i ip pl gw) = addr_msgs i ip pl gw
    | Inl e \<Rightarrow> \<exists>op n. e = NetlinkError op n \<and> op \<in> {''add address'', ''add default route''}"
proof -
  have d: "drop (Suc (Suc 0)) as = tl (tl as)" for as :: "nl_answer list" by (simp add: drop_Suc)
  show ?thesis
  proof (cases "heard (answer_at (nl_answers s) 0)")
    case (Inl e)
    with assms show ?thesis by (auto simp: apply_addr_def link_msg send_nl nl_step_def)
  next
    case (Inr u)
    note one = Inr
    show ?thesis
    proof (cases gw)
      case None
      with assms one show ?thesis
        by (auto simp: apply_addr_def link_msg send_nl nl_step_def addr_msgs_def took_heard drop_Suc)
    next
      case (Some g)
      with assms one show ?thesis
        by (cases "heard (answer_at (tl (nl_answers s)) 0)")
          (auto simp: apply_addr_def link_msg send_nl nl_step_def addr_msgs_def took_heard d)
    qed
  qed
qed

text \<open>The carrier waits are bounded.\<close>

lemma wait_from_le: "i \<le> 30 \<Longrightarrow> wait_from carrier i \<le> 30 - i"
proof (induction carrier i rule: wait_from.induct)
  case (1 carrier i)
  obtain late attr where o: "carrier i = (late, attr)" by fastforce
  show ?case
  proof (cases "100 * i + late < 3000 \<and> attr \<noteq> Some ''1''")
    case True
    with 1 o have "wait_from carrier (i + 1) \<le> 30 - (i + 1)" by (simp add: CARRIER_POLL_def)
    moreover from True have "i < 30" by linarith
    ultimately have "Suc (wait_from carrier (i + 1)) \<le> 30 - i" by simp
    with True o show ?thesis by (subst wait_from.simps) (simp add: CARRIER_POLL_def)
  qed (subst wait_from.simps, auto simp: o CARRIER_POLL_def)
qed

lemma wait_for_link_le: "wait_for_link carrier \<le> 30"
  using wait_from_le [of 0] by (simp add: wait_for_link_def)

lemma msg_types [simp]:
  "nl_type (up_msg i) = RTM_NEWLINK" "nl_type (down_msg i) = RTM_NEWLINK"
  "nl_type (build_add_address i ip pl) = RTM_NEWADDR" "nl_type (build_add_route i gw) = RTM_NEWROUTE"
  unfolding up_msg_def down_msg_def build_link_set_flags_def add_address_body add_route_body
  by (rule nl_type_finalize)+

section \<open>Lemmas: the resolver file\<close>

text \<open>The first occurrences, in order.\<close>

fun dedup :: "'a list \<Rightarrow> 'a list" where
  "dedup [] = []"
| "dedup (x # xs) = x # filter (\<lambda>y. y \<noteq> x) (dedup xs)"

lemma distinct_dedup [simp]: "distinct (dedup xs)" and set_dedup [simp]: "set (dedup xs) = set xs"
  by (induction xs) auto

lemma choose_servers_take:
  "length c < 3 \<Longrightarrow>
     choose_servers c dns = take 3 (c @ filter (\<lambda>y. y \<notin> set c) (dedup dns))"
proof (induction c dns rule: choose_servers.induct)
  case (2 c ip dns)
  have f: "filter (\<lambda>y. y \<noteq> ip \<and> y \<notin> set c) xs = filter (\<lambda>y. y \<notin> set c \<and> y \<noteq> ip) xs" for xs
    by (rule filter_cong) auto
  show ?case
  proof (cases "ip \<in> set c")
    case True
    then have "filter (\<lambda>y. y \<noteq> ip \<and> y \<notin> set c) (dedup dns) = filter (\<lambda>y. y \<notin> set c) (dedup dns)"
      by (intro filter_cong) auto
    with True 2 show ?thesis by simp
  next
    case False
    show ?thesis
    proof (cases "length c = 2")
      case True
      with False show ?thesis by (simp add: MAX_NAMESERVERS_def)
    next
      case F: False
      with 2(3) have "length (c @ [ip]) < 3" by simp
      with 2(2) [OF False refl] F False show ?thesis
        by (simp add: MAX_NAMESERVERS_def f)
    qed
  qed
qed simp

lemma choose_servers_dedup: "choose_servers [] dns = take 3 (dedup dns)"
  by (simp add: choose_servers_take)

section \<open>Properties\<close>

text \<open>
  C40: interface selection. A \<open>BOOTIF\<close> pins the first interface, in name order, whose MAC is
  the given one, and fails when there is none; without it a single interface is pinned and
  several are raced, in name order; loopback is never chosen.
\<close>

theorem select_nics_spec:
  "(case select_nics d (Some b) of
      Inr sel \<Rightarrow> (\<exists>us iface vs. candidate_interfaces d = us @ iface # vs \<and> sel = Pinned iface \<and>
        mac_matches d b iface \<and> filter (mac_matches d b) us = [])
    | Inl e \<Rightarrow> (candidate_interfaces d = [] \<and> e = NoInterface) \<or>
        (e = BootifNoMatch (normalize_bootif b) \<and> filter (mac_matches d b) (candidate_interfaces d) = [])) \<and>
   select_nics d None = (case candidate_interfaces d of
       [] \<Rightarrow> Inl NoInterface | [only] \<Rightarrow> Inr (Pinned only) | cs \<Rightarrow> Inr (Race cs)) \<and>
   sorted (candidate_interfaces d) \<and> ''lo'' \<notin> set (candidate_interfaces d)"
proof -
  have "case select_nics d (Some b) of
      Inr sel \<Rightarrow> (\<exists>us iface vs. candidate_interfaces d = us @ iface # vs \<and> sel = Pinned iface \<and>
        mac_matches d b iface \<and> filter (mac_matches d b) us = [])
    | Inl e \<Rightarrow> (candidate_interfaces d = [] \<and> e = NoInterface) \<or>
        (e = BootifNoMatch (normalize_bootif b) \<and> filter (mac_matches d b) (candidate_interfaces d) = [])"
  proof (cases "select_nics d (Some b)")
    case (Inl e)
    with select_nics_bootif_err [OF Inl] show ?thesis by (auto simp: filter_empty_conv)
  next
    case (Inr sel)
    then have "\<exists>us iface vs. candidate_interfaces d = us @ iface # vs \<and> sel = Pinned iface \<and>
        mac_matches d b iface \<and> (\<forall>u\<in>set us. \<not> mac_matches d b u)"
      by (simp only: select_nics_bootif)
    with Inr show ?thesis by (simp only: sum.case filter_empty_conv)
  qed
  then show ?thesis by (simp add: select_nics_free candidates_sorted candidates_no_lo)
qed

lemma losers_split: "losers (length us) (us @ x # vs) = map (\<lambda>(_, i, _). i) (us @ vs)"
proof -
  have "filter (\<lambda>(i, _). i \<noteq> length us) (enumerate 0 us) = enumerate 0 us"
    by (rule filter_True) (auto simp: in_set_enumerate_eq)
  moreover have "filter (\<lambda>(i, _). i \<noteq> length us) (enumerate (Suc (length us)) vs) = enumerate (Suc (length us)) vs"
    by (rule filter_True) (auto simp: in_set_enumerate_eq)
  moreover have "map (\<lambda>(i, _, ifindex, _). ifindex) (enumerate n xs) = map (\<lambda>(_, i, _). i) xs"
    for n and xs :: "(string \<times> u32 \<times> lease option) list"
    by (induction xs arbitrary: n) auto
  ultimately show ?thesis by (simp add: losers_def enumerate_append_eq)
qed

text \<open>No address is assigned but the winner's.\<close>

lemma race_addresses:
  assumes "taken as (addr_msgs i ip pl gw) = addr_msgs i ip pl gw"
  shows "filter (\<lambda>m. nl_type m = RTM_NEWADDR) (taken as' (map up_msg us) @ taken as (addr_msgs i ip pl gw) @ taken as'' (map down_msg ds)) =
    [build_add_address i ip pl]"
proof -
  have "filter (\<lambda>m. nl_type m = RTM_NEWADDR) (taken as' (map up_msg us)) = []" for as' us
    using set_taken [of as' "map up_msg us"] by (auto simp: filter_empty_conv netlink_consts)
  moreover have "filter (\<lambda>m. nl_type m = RTM_NEWADDR) (taken as' (map down_msg us)) = []" for as' us
    using set_taken [of as' "map down_msg us"] by (auto simp: filter_empty_conv netlink_consts)
  moreover have "filter (\<lambda>m. nl_type m = RTM_NEWADDR) (addr_msgs i ip pl gw) = [build_add_address i ip pl]"
    by (cases gw) (simp_all add: addr_msgs_def netlink_consts)
  ultimately show ?thesis by (simp only: assms filter_append append_Nil append_Nil2)
qed

text \<open>The chosen lease: the first with a gateway, or the first of all when no lease has one.\<close>

definition no_gateway :: "lease option \<Rightarrow> bool" where
  "no_gateway x = (case x of None \<Rightarrow> True | Some l \<Rightarrow> l_gateway l = None)"

lemma choose_lease_wins:
  assumes "choose_lease ls = Some w"
  shows "w < length ls \<and> (\<exists>l. ls ! w = Some l \<and>
    (if l_gateway l \<noteq> None then list_all no_gateway (take w ls)
     else list_all no_gateway ls \<and> list_all (\<lambda>x. x = None) (take w ls)))"
proof -
  from choose_lease_some [OF assms] obtain l where w: "w < length ls" "ls ! w = Some l" by auto
  have tk: "list_all Q (take w ls) \<longleftrightarrow> (\<forall>j<w. Q (ls ! j))" for Q
    using w(1) nth_image [of w ls] by (auto simp: list_all_iff simp flip: nth_image)
  have none: "no_gateway (ls ! j)" if "l_gateway l = None \<or> j < w" "j < length ls" for j
  proof (rule ccontr)
    assume "\<not> no_gateway (ls ! j)"
    then obtain x where x: "ls ! j = Some x" "l_gateway x \<noteq> None" by (auto simp: no_gateway_def split: option.splits)
    from choose_lease_gateway [OF assms that(2) x] w(2) that(1) show False by auto
  qed
  show ?thesis
  proof (cases "l_gateway l = None")
    case True
    with none have all: "\<forall>x\<in>set ls. no_gateway x" by (metis in_set_conv_nth)
    then have "\<forall>x\<in>set ls. \<forall>y. x = Some y \<longrightarrow> l_gateway y = None" by (auto simp: no_gateway_def)
    then have "\<forall>j<w. ls ! j = None" using choose_lease_first [OF assms] by blast
    with True w all show ?thesis by (simp add: tk) (simp add: list_all_iff)
  next
    case False
    with w none show ?thesis by (simp add: tk)
  qed
qed

lemma bring_up_race_effect:
  assumes "bring_up_race d acq ifaces s = (r, s')" "race_candidates d ifaces = cands" "cands \<noteq> []"
    and ls: "link_leases acq (nl_answers s) cands = ls"
    and w: "choose_lease ls = Some w"
  shows "\<exists>us iface i mac vs l x s2. cands = us @ (iface, i, mac) # vs \<and> length us = w \<and> ls ! w = Some l \<and>
    acq iface mac = Inr l \<and>
    apply_lease i l (snd (race_leases acq cands s)) = (x, s2) \<and>
    (r, s') = (case x of Inl e \<Rightarrow> (Inl e, s2)
      | Inr _ \<Rightarrow> (Inr (net_config_of iface l), link_downs (map (\<lambda>(_, i, _). i) (us @ vs)) s2))"
proof -
  let ?rs = "map (\<lambda>((iface, i, _), l). (iface, i, l)) (zip cands ls)"
  have len: "length ls = length cands" unfolding ls [symmetric] by (simp add: link_leases_def)
  from choose_lease_wins [OF w] len obtain l where l: "w < length cands" "ls ! w = Some l" by auto
  obtain iface i mac where c: "cands ! w = (iface, i, mac)" by (metis prod.exhaust)
  have split: "cands = take w cands @ (iface, i, mac) # drop (Suc w) cands"
    using id_take_nth_drop [OF l(1)] by (simp add: c)
  have lsplit: "ls = take w ls @ Some l # drop (Suc w) ls"
    using id_take_nth_drop [of w ls] l len by simp
  let ?part = "\<lambda>cs ls. map (\<lambda>((iface, i, _), l). (iface, i, l)) (zip cs ls)"
  have rs: "?rs = ?part (take w cands) (take w ls) @ (iface, i, Some l) # ?part (drop (Suc w) cands) (drop (Suc w) ls)"
    by (subst split, subst lsplit) (simp add: len)
  have part: "map (\<lambda>(_, i, _). i) (?part cs ls) = map (\<lambda>(_, i, _). i) cs" if "length ls = length cs"
    for cs :: "(string \<times> u32 \<times> bytes) list" and ls :: "lease option list"
    using that by (intro nth_equalityI) (auto simp: case_prod_beta)
  have lose: "losers w ?rs = map (\<lambda>(_, i, _). i) (take w cands @ drop (Suc w) cands)"
    using losers_split [of "?part (take w cands) (take w ls)"] l(1) len part
    unfolding rs by (simp add: min_def part)
  have out: "outcome acq (answer_at (nl_answers s) w) (iface, i, mac) = Some l"
    using l c unfolding ls [symmetric] by (simp add: link_leases_def)
  then have a: "acq iface mac = Inr l"
    by (auto simp: outcome_def result_ok_def split: if_splits sum.splits)
  have nth: "?rs ! w = (iface, i, Some l)" using l len by (simp add: c)
  have rl: "map (\<lambda>(_, _, l). l) ?rs = ls" by (rule nth_equalityI) (simp_all add: len case_prod_beta)
  obtain x s2 where ap: "apply_lease i l (snd (race_leases acq cands s)) = (x, s2)" by fastforce
  have fst: "race_leases acq cands s = (?rs, snd (race_leases acq cands s))"
    using race_leases_effect [of acq cands s] ls by simp
  have "(r, s') = finish_race ?rs (snd (race_leases acq cands s))"
    using assms(1) assms(3) fst unfolding bring_up_race_def assms(2) by (auto simp: Let_def case_prod_beta) (metis fst_conv)+
  then have "(r, s') = (case x of Inl e \<Rightarrow> (Inl e, s2)
      | Inr _ \<Rightarrow> (Inr (net_config_of iface l), link_downs (losers w ?rs) s2))"
    unfolding finish_race_def Let_def rl w option.case nth prod.case ap by (simp split: sum.split)
  with split l a ap c show ?thesis unfolding lose
    by (intro exI [of _ "take w cands"] exI [of _ iface] exI [of _ i] exI [of _ mac] exI [of _ "drop (Suc w) cands"]
        exI [of _ l] exI [of _ x] exI [of _ s2]) simp
qed

text \<open>
  C31: the race. The lease of a candidate is what DHCP answered on it, once its link came up
  (\<open>link_leases\<close>). A success configures the winner with its lease: the first candidate, in name order,
  whose lease has a gateway, or, when no lease has one, the first with a lease. The netlink messages
  sent are those bringing every candidate up, those that assign the winner's address and route, and
  those taking every other candidate down, in this order and less those whose socket
  refused them; so the winner's address is the only one assigned. A failure means that there is no
  readable candidate, that no candidate has a lease, or that assigning the winner's address or route failed.
\<close>

theorem race_one_address:
  "case bring_up_race d acq ifaces s of (r, s') \<Rightarrow>
     let cands = race_candidates d ifaces; leases = link_leases acq (nl_answers s) cands in
     (case r of
        Inl e \<Rightarrow> if cands = [] then e = NoInterface
          else if list_all (\<lambda>l. l = None) leases then e = DhcpTimeout
          else \<exists>op n. e = NetlinkError op n \<and> op \<in> {''add address'', ''add default route''}
      | Inr cfg \<Rightarrow> \<exists>us iface i mac vs l sent_msgs.
          cands = us @ (iface, i, mac) # vs \<and> leases ! length us = Some l \<and>
          acq iface mac = Inr l \<and> cfg = net_config_of iface l \<and>
          (if l_gateway l \<noteq> None then list_all no_gateway (take (length us) leases)
           else list_all no_gateway leases \<and> list_all (\<lambda>x. x = None) (take (length us) leases)) \<and>
          nl_log s' = nl_log s @ sent_msgs \<and>
          sent_msgs = taken (nl_answers s) (map (\<lambda>(_, i, _). up_msg i) cands @
            addr_msgs i (l_ip l) (l_prefix_len l) (l_gateway l) @ map (\<lambda>(_, i, _). down_msg i) (us @ vs)) \<and>
          filter (\<lambda>m. nl_type m = RTM_NEWADDR) sent_msgs = [build_add_address i (l_ip l) (l_prefix_len l)])"
proof -
  let ?cands = "race_candidates d ifaces"
  let ?ls = "link_leases acq (nl_answers s) ?cands"
  obtain r s' where run: "bring_up_race d acq ifaces s = (r, s')" by fastforce
  consider (nobody) "?cands = []" | (unleased) "?cands \<noteq> []" "choose_lease ?ls = None"
    | (won) w where "?cands \<noteq> []" "choose_lease ?ls = Some w" by (cases "choose_lease ?ls") auto
  then show ?thesis
  proof cases
    case nobody
    then show ?thesis by (simp add: bring_up_race_def)
  next
    case unleased
    have rl: "map (\<lambda>(_, _, l). l) (fst (race_leases acq ?cands s)) = ?ls"
      unfolding race_leases_effect by (rule nth_equalityI) (simp_all add: link_leases_def case_prod_beta)
    have "r = Inl DhcpTimeout"
      using run unleased by (simp add: bring_up_race_def finish_race_def Let_def case_prod_beta rl)
    with unleased run show ?thesis by (simp add: choose_lease_none list_all_iff)
  next
    case won
    from bring_up_race_effect [OF run refl won(1) refl won(2)] obtain us iface i mac vs l x s2 where
      b: "?cands = us @ (iface, i, mac) # vs" "length us = w" "?ls ! w = Some l" "acq iface mac = Inr l"
        "apply_lease i l (snd (race_leases acq ?cands s)) = (x, s2)"
        "(r, s') = (case x of Inl e \<Rightarrow> (Inl e, s2)
          | Inr _ \<Rightarrow> (Inr (net_config_of iface l), link_downs (map (\<lambda>(_, i, _). i) (us @ vs)) s2))"
      by blast
    note ap = apply_addr_effect [OF b(5) [unfolded apply_lease_def]]
    have leased: "\<not> list_all (\<lambda>l. l = None) ?ls"
      using choose_lease_wins [OF won(2)] by (auto simp: list_all_length)
    show ?thesis
    proof (cases x)
      case (Inl e)
      with ap b(6) won(1) leased run show ?thesis by auto
    next
      case (Inr u)
      let ?add = "addr_msgs i (l_ip l) (l_prefix_len l) (l_gateway l)" and ?downs = "map (\<lambda>(_, i, _). i) (us @ vs)"
      let ?ups = "map (\<lambda>(_, i, _). i) ?cands"
      let ?as = "drop (length ?cands) (nl_answers s)"
      from ap Inr have s2: "s2 = (snd (race_leases acq ?cands s))\<lparr>nl_log := nl_log (snd (race_leases acq ?cands s)) @ ?add,
          nl_answers := drop (length ?add) ?as\<rparr>" and t: "taken ?as ?add = ?add" by (simp_all add: race_leases_effect)
      from b(6) Inr have s': "s' = link_downs ?downs s2" and r: "r = Inr (net_config_of iface l)" by simp_all
      let ?new = "taken (nl_answers s) (map up_msg ?ups @ ?add @ map down_msg ?downs)"
      have new: "?new = taken (nl_answers s) (map up_msg ?ups) @ taken ?as ?add @ taken (drop (length ?add) ?as) (map down_msg ?downs)"
        by (simp add: taken_append)
      have msgs: "map (\<lambda>(_, i, _). m i) xs = map m (map (\<lambda>(_, i, _). i) xs)"
        for m :: "u32 \<Rightarrow> bytes" and xs :: "(string \<times> u32 \<times> bytes) list" by auto
      have log: "nl_log s' = nl_log s @ ?new"
        unfolding new t by (simp add: s' s2 link_downs_effect race_leases_effect msgs [of up_msg])
      have addrs: "filter (\<lambda>m. nl_type m = RTM_NEWADDR) ?new = [build_add_address i (l_ip l) (l_prefix_len l)]"
        unfolding new by (rule race_addresses [OF t])
      have best: "if l_gateway l \<noteq> None then list_all no_gateway (take w ?ls)
          else list_all no_gateway ?ls \<and> list_all (\<lambda>x. x = None) (take w ?ls)"
        using choose_lease_wins [OF won(2)] b(3) by auto
      show ?thesis unfolding run Let_def prod.case r sum.case msgs [of up_msg] msgs [of down_msg]
        using b(1-4) log addrs best by blast
    qed
  qed
qed

text \<open>Two interfaces, of which the second leases with a gateway.\<close>

definition demo_net :: fsnode where
  "demo_net = Dir [(''eth1'', Dir [(''ifindex'', Attr ''3''), (''address'', Attr ''52:54:00:00:00:02'')]),
     (''lo'', Dir [(''ifindex'', Attr ''1'')]),
     (''eth0'', Dir [(''ifindex'', Attr ''2''), (''address'', Attr ''52:54:00:00:00:01'')])]"

definition demo_lease :: lease where
  "demo_lease = \<lparr>l_ip = ipv4_new 10 0 0 7, l_prefix_len = 24, l_gateway = Some (ipv4_new 10 0 0 1),
     l_dns = []\<rparr>"

definition demo_acq :: dhcp where
  "demo_acq iface mac = (if iface = ''eth1'' then Inr demo_lease else Inl DhcpTimeout)"

lemma demo_reads:
  "read_ifindex demo_net ''eth0'' = Inr 2" "read_ifindex demo_net ''eth1'' = Inr 3"
  "read_mac demo_net ''eth0'' = Inr [0x52, 0x54, 0, 0, 0, 1]"
  "read_mac demo_net ''eth1'' = Inr [0x52, 0x54, 0, 0, 0, 2]"
proof -
  have l: "read_trimmed demo_net [''eth0'', ''ifindex''] = Some ''2''"
    "read_trimmed demo_net [''eth1'', ''ifindex''] = Some ''3''"
    "read_trimmed demo_net [''eth0'', ''address''] = Some ''52:54:00:00:00:01''"
    "read_trimmed demo_net [''eth1'', ''address''] = Some ''52:54:00:00:00:02''"
    by (rule read_trimmed_plain; simp add: demo_net_def child_def graphic_def)+
  show "read_ifindex demo_net ''eth0'' = Inr 2" "read_ifindex demo_net ''eth1'' = Inr 3"
    by (simp_all add: read_ifindex_def l parse_u32_def parse_unsigned_def strip_plus_def digit_val_def)
  show "read_mac demo_net ''eth0'' = Inr [0x52, 0x54, 0, 0, 0, 1]"
    "read_mac demo_net ''eth1'' = Inr [0x52, 0x54, 0, 0, 0, 2]"
    by (simp_all add: read_mac_def l parse_mac_def split_char_def hex_u8_def parse_unsigned_def
        strip_plus_def digit_val_def)
qed

definition demo_carrier :: "string \<Rightarrow> nat \<Rightarrow> nat \<times> string option" where
  "demo_carrier iface i = (0, if iface = ''eth0'' \<and> i < 2 then Some ''0'' else Some ''1'')"

lemma demo_race:
  "bring_up_race demo_net demo_acq [''eth0'', ''eth1'']
      \<lparr>nl_log = [], nl_answers = [], nl_carrier = demo_carrier, nl_waits = []\<rparr> =
     (Inr (net_config_of ''eth1'' demo_lease),
      \<lparr>nl_log = [up_msg 2, up_msg 3, build_add_address 3 (ipv4_new 10 0 0 7) 24,
         build_add_route 3 (ipv4_new 10 0 0 1), down_msg 2], nl_answers = [], nl_carrier = demo_carrier,
         nl_waits = [2, 0]\<rparr>)"
proof -
  have ack: "parse_ack (take 4096 ok_ack) = Inr ()"
    by (simp add: ok_ack_def parse_ack_def NLMSGHDR_LEN_def)
  have a: "heard (answer_at [] j) = Inr ()" "took (answer_at [] j)" for j
    by (simp_all add: answer_at_def heard_def rbind_def ack took_def)
  have cands: "race_candidates demo_net [''eth0'', ''eth1''] =
      [(''eth0'', 2, [0x52, 0x54, 0, 0, 0, 1]), (''eth1'', 3, [0x52, 0x54, 0, 0, 0, 2])]"
    by (simp add: race_candidates_def map_filter_simps demo_reads)
  have w: "wait_for_link (demo_carrier ''eth0'') = 2" "wait_for_link (demo_carrier ''eth1'') = 0"
    by (simp_all add: wait_for_link_def wait_from.simps demo_carrier_def CARRIER_POLL_def)
  show ?thesis
    by (simp add: bring_up_race_def finish_race_def cands dhcp_link_def demo_acq_def choose_lease_def
        demo_lease_def apply_lease_def apply_addr_def nl_step_def link_msg send_nl a losers_def link_downs_def
        link_waited_def w)
qed

text \<open>
  Choosing the winner of the race. None exactly when nothing leased; a lease with a
  gateway beats one without; among equals the first in name order wins.
\<close>

lemma choose_lease_spec:
  "case choose_lease ls of
     None \<Rightarrow> filter (\<lambda>l. l \<noteq> None) ls = []
   | Some i \<Rightarrow> i < length ls \<and> ls ! i \<noteq> None \<and>
       filter (\<lambda>l. \<exists>x. l = Some x \<and> l_gateway x \<noteq> None) (take i ls) = [] \<and>
       (if \<exists>x. ls ! i = Some x \<and> l_gateway x \<noteq> None then True
        else filter (\<lambda>l. \<exists>x. l = Some x \<and> l_gateway x \<noteq> None) ls = [] \<and>
          filter (\<lambda>l. l \<noteq> None) (take i ls) = [])"
proof (cases "choose_lease ls")
  case None
  then have "filter (\<lambda>l. l \<noteq> None) ls = []"
    using choose_lease_none [of ls] by (simp add: filter_empty_conv)
  with None show ?thesis by simp
next
  case (Some i)
  let ?P = "\<lambda>l. case l of None \<Rightarrow> False | Some x \<Rightarrow> l_gateway x \<noteq> None"
  have P: "(\<lambda>l. \<exists>x. l = Some x \<and> l_gateway x \<noteq> None) = ?P"
    by (auto simp: fun_eq_iff split: option.splits)
  have i: "i < length ls" "ls ! i \<noteq> None" using choose_lease_some [OF Some] by auto
  have tk: "filter Q (take i ls) = [] \<longleftrightarrow> (\<forall>j<i. \<not> Q (ls ! j))" for Q
    using nth_image [of i ls] i(1) by (auto simp: filter_empty_conv simp flip: nth_image)
  show ?thesis
  proof (cases "position ?P ls")
    case None
    then have n: "\<forall>l\<in>set ls. \<not> ?P l" by (simp only: position_None)
    from None Some have "position (\<lambda>l. l \<noteq> None) ls = Some i" by (simp add: choose_lease_def)
    then have f: "\<forall>j<i. \<not> (ls ! j \<noteq> None)" unfolding position_Some by blast
    have all: "filter ?P ls = []" using n by (simp only: filter_empty_conv)
    have fl: "filter ?P (take i ls) = []" using n by (auto simp: filter_empty_conv dest: in_set_takeD)
    have g: "filter (\<lambda>l. l \<noteq> None) (take i ls) = []" unfolding tk by (rule f)
    show ?thesis unfolding Some option.case P
      by (intro conjI i fl) (simp only: all g simp_thms if_cancel)
  next
    case (Some k)
    with \<open>choose_lease ls = Some i\<close> have "k = i" by (simp add: choose_lease_def)
    with Some have "i < length ls \<and> ?P (ls ! i) \<and> (\<forall>j<i. \<not> ?P (ls ! j))" unfolding position_Some by simp
    then have w: "?P (ls ! i)" "\<forall>j<i. \<not> ?P (ls ! j)" by - (elim conjE; assumption)+
    then have "filter ?P (take i ls) = []" by (simp only: tk)
    moreover have "\<exists>x. ls ! i = Some x \<and> l_gateway x \<noteq> None"
      using w(1) by (auto split: option.splits)
    ultimately show ?thesis
      using i \<open>choose_lease ls = Some i\<close> unfolding P by (simp del: not_None_eq)
  qed
qed

text \<open>
  the resolver file lists the first three distinct servers of the lease in order, one
  line each, and nothing is written when there is none.
\<close>

lemma resolv_conf_spec:
  "write_resolv_conf dns = (if dns = [] then [] else
     [CreateDirAll ''/etc'', WriteFile ''/etc/resolv.conf''
        (concat (map (\<lambda>ip. ''nameserver '' @ fmt_ipv4 ip @ [CHR 0x0A]) (take 3 (dedup dns))))])"
  unfolding write_resolv_conf_def render_resolv_conf_def choose_servers_dedup
  by (cases dns) (simp_all add: Let_def)

end
