(* ===== verification/Modules.thy ===== *)
theory Modules
  imports Net
begin

text \<open>
  \<open>src/modules.rs\<close>: loading the curated kernel modules and waiting for \<open>/sys\<close> to settle.
  What \<open>finit_module\<close> answers for a path, the \<open>/lib/modules\<close> tree, and the observations of
  \<open>/sys\<close> with the time elapsed at each are arguments. Times are in milliseconds.
\<close>

definition LOAD_LIST_NAME :: string where "LOAD_LIST_NAME = ''beskar7.load''"
definition SETTLE_TIMEOUT :: nat where "SETTLE_TIMEOUT = 30000"
definition SETTLE_POLL :: nat where "SETTLE_POLL = 100"
definition SETTLE_STABLE_POLLS :: nat where "SETTLE_STABLE_POLLS = 2"

section \<open>The load list\<close>

definition is_file :: "fsnode \<Rightarrow> string list \<Rightarrow> bool" where
  "is_file n ps \<longleftrightarrow> (case Option.bind (lookup n ps) follow of
       Some (Attr _) \<Rightarrow> True | Some NoAccess \<Rightarrow> True | _ \<Rightarrow> False)"

definition find_load_list :: "fsnode \<Rightarrow> string list option" where
  "find_load_list modules_root = Option.bind (read_dir modules_root []) (\<lambda>versions.
     find (is_file modules_root) (map (\<lambda>v. [v, LOAD_LIST_NAME]) (sort versions)))"

definition parse_load_list :: "string \<Rightarrow> string list" where
  "parse_load_list content =
     filter (\<lambda>l. l \<noteq> [] \<and> \<not> starts_with ''#'' l) (map trim (lines content))"

text \<open>
  \<open>insmod\<close>: the open of the module file (an \<open>io::Error\<close> without an errno counts as \<open>EINVAL\<close>)
  and the answer of the system call, on the handle the open gave.
\<close>

definition insmod :: "(string \<Rightarrow> io_error + 'h) \<Rightarrow> ('h \<Rightarrow> errno + unit) \<Rightarrow> string \<Rightarrow> errno + unit" where
  "insmod open_file finit path = (case open_file path of
       Inl e \<Rightarrow> Inl (unwrap_or (raw_os_error e) EINVAL)
     | Inr h \<Rightarrow> finit h)"

text \<open>The three counters of \<open>load_drivers\<close>: loaded, skipped, failed.\<close>

definition count_load :: "errno + unit \<Rightarrow> u32 \<times> u32 \<times> u32 \<Rightarrow> u32 \<times> u32 \<times> u32" where
  "count_load r counts = (case counts of (loaded, skipped, failed) \<Rightarrow>
     (case r of
        Inr _ \<Rightarrow> (loaded + 1, skipped, failed)
      | Inl e \<Rightarrow> if e = EEXIST \<or> e = ENODEV \<or> e = ENXIO then (loaded, skipped + 1, failed)
          else (loaded, skipped, failed + 1)))"

section \<open>The settle wait\<close>

record device_counts =
  dc_block :: nat
  dc_nics :: nat
  dc_selectable :: bool

datatype settle_outcome = Settled | SettleTimedOut

record settle_state =
  st_prev :: device_counts
  st_stable :: nat

definition settle_new :: "device_counts \<Rightarrow> settle_state" where
  "settle_new initial = \<lparr>st_prev = initial, st_stable = 0\<rparr>"

definition observe :: "settle_state \<Rightarrow> device_counts \<Rightarrow> nat \<Rightarrow> settle_outcome option \<times> settle_state" where
  "observe s cur elapsed =
     (let s = (if cur = st_prev s then s\<lparr>st_stable := st_stable s + 1\<rparr>
               else s\<lparr>st_stable := 0, st_prev := cur\<rparr>)
      in (if SETTLE_STABLE_POLLS \<le> st_stable s \<and> dc_selectable cur then Some Settled
          else if SETTLE_TIMEOUT \<le> elapsed then Some SettleTimedOut
          else None, s))"

definition count_dir :: "fsnode \<Rightarrow> nat" where
  "count_dir d = (case read_dir d [] of None \<Rightarrow> 0 | Some es \<Rightarrow> length es)"

definition device_counts_in :: "fsnode \<Rightarrow> fsnode \<Rightarrow> string option \<Rightarrow> device_counts" where
  "device_counts_in block_dir net_dir bootif =
     \<lparr>dc_block = count_dir block_dir, dc_nics = length (candidate_interfaces net_dir),
      dc_selectable = nic_selectable net_dir bootif\<rparr>"

text \<open>
  The loop of \<open>settle\<close>: poll \<open>i\<close> observes \<open>obs i\<close>, the two \<open>/sys\<close> trees and the elapsed time
  after one more sleep. \<open>None\<close> is a loop that never returns.
\<close>

partial_function (option) settle_loop ::
  "(nat \<Rightarrow> device_counts \<times> nat) \<Rightarrow> nat \<Rightarrow> settle_state \<Rightarrow> (settle_outcome \<times> device_counts \<times> nat) option" where
  "settle_loop obs i s = (case obs i of (cur, elapsed) \<Rightarrow>
     (case observe s cur elapsed of
        (Some out, _) \<Rightarrow> Some (out, cur, i)
      | (None, s') \<Rightarrow> settle_loop obs (i + 1) s'))"

definition settle ::
  "string option \<Rightarrow> fsnode \<times> fsnode \<Rightarrow> (nat \<Rightarrow> (fsnode \<times> fsnode) \<times> nat) \<Rightarrow>
     (settle_outcome \<times> device_counts \<times> nat) option" where
  "settle bootif start polls =
     settle_loop (\<lambda>i. (device_counts_in (fst (fst (polls i))) (snd (fst (polls i))) bootif, snd (polls i))) 0
       (settle_new (device_counts_in (fst start) (snd start) bootif))"

text \<open>The dash of the message, in UTF-8.\<close>

definition em_dash :: string where "em_dash = [CHR 0xE2, CHR 0x80, CHR 0x94]"

definition timeout_hint :: "device_counts \<Rightarrow> bool \<Rightarrow> string" where
  "timeout_hint counts bootif =
     (if dc_nics counts = 0 then '' (no NIC driver bound '' @ em_dash @ '' is this NIC's driver shipped?)''
      else if bootif \<and> \<not> dc_selectable counts then '' (the BOOTIF NIC never registered)''
      else [])"

section \<open>Loading\<close>

text \<open>
  \<open>load_drivers\<close>: the counters and how the wait ended, or nothing when there is no readable
  load list.
\<close>

definition load_drivers ::
  "fsnode \<Rightarrow> (string \<Rightarrow> io_error + 'h) \<Rightarrow> ('h \<Rightarrow> errno + unit) \<Rightarrow> string option \<Rightarrow>
     fsnode \<times> fsnode \<Rightarrow> (nat \<Rightarrow> (fsnode \<times> fsnode) \<times> nat) \<Rightarrow>
     ((u32 \<times> u32 \<times> u32) \<times> (settle_outcome \<times> device_counts \<times> nat) option) option" where
  "load_drivers modules_root open_file finit bootif start polls =
     Option.bind (find_load_list modules_root) (\<lambda>list_path.
     Option.bind (read_to_string modules_root list_path) (\<lambda>content.
     Some (fold (\<lambda>m. count_load (insmod open_file finit m)) (parse_load_list content) (0, 0, 0),
       settle bootif start polls)))"

section \<open>Lemmas\<close>

text \<open>The observations in order: the initial one, then one for each poll.\<close>

definition history :: "device_counts \<Rightarrow> (nat \<Rightarrow> device_counts \<times> nat) \<Rightarrow> nat \<Rightarrow> device_counts" where
  "history initial obs j = (if j = 0 then initial else fst (obs (j - 1)))"

text \<open>At poll \<open>i\<close> the last three observations agree and the interface exists.\<close>

definition settled_at :: "device_counts \<Rightarrow> (nat \<Rightarrow> device_counts \<times> nat) \<Rightarrow> nat \<Rightarrow> bool" where
  "settled_at initial obs i \<longleftrightarrow> 1 \<le> i \<and> history initial obs (i + 1) = history initial obs i \<and>
     history initial obs i = history initial obs (i - 1) \<and> dc_selectable (history initial obs (i + 1))"

definition settle_inv :: "device_counts \<Rightarrow> (nat \<Rightarrow> device_counts \<times> nat) \<Rightarrow> nat \<Rightarrow> settle_state \<Rightarrow> bool" where
  "settle_inv initial obs i s \<longleftrightarrow> st_prev s = history initial obs i \<and>
     (1 \<le> st_stable s \<longleftrightarrow> 1 \<le> i \<and> history initial obs i = history initial obs (i - 1))"

lemma observe_step:
  assumes "settle_inv initial obs i s" "obs i = (cur, elapsed)" "observe s cur elapsed = (r, s')"
  shows "settle_inv initial obs (i + 1) s'"
    and "r = (if settled_at initial obs i then Some Settled
      else if SETTLE_TIMEOUT \<le> elapsed then Some SettleTimedOut else None)"
proof -
  have h: "history initial obs (i + 1) = cur" using assms(2) by (simp add: history_def)
  have s': "s' = (if cur = st_prev s then s\<lparr>st_stable := st_stable s + 1\<rparr>
      else s\<lparr>st_stable := 0, st_prev := cur\<rparr>)"
    using assms(3) by (auto simp: observe_def Let_def split: if_splits)
  then show "settle_inv initial obs (i + 1) s'"
    using assms(1) h by (auto simp: settle_inv_def)
  have "SETTLE_STABLE_POLLS \<le> st_stable s' \<longleftrightarrow> cur = st_prev s \<and> 1 \<le> st_stable s"
    unfolding s' by (auto simp: SETTLE_STABLE_POLLS_def)
  then have "SETTLE_STABLE_POLLS \<le> st_stable s' \<and> dc_selectable cur \<longleftrightarrow> settled_at initial obs i"
    using assms(1) h by (auto simp: settle_inv_def settled_at_def)
  then show "r = (if settled_at initial obs i then Some Settled
      else if SETTLE_TIMEOUT \<le> elapsed then Some SettleTimedOut else None)"
    using assms(3) unfolding observe_def Let_def s' [symmetric] by (auto split: if_splits)
qed

lemma settle_loop_returns:
  assumes "\<And>j. SETTLE_POLL * (j + 1) \<le> snd (obs j)" "settle_inv initial obs i s" "i < 300"
  shows "\<exists>out k. settle_loop obs i s = Some (out, history initial obs (k + 1), k) \<and> i \<le> k \<and> k < 300 \<and>
    (\<forall>j. i \<le> j \<and> j < k \<longrightarrow> \<not> settled_at initial obs j \<and> snd (obs j) < SETTLE_TIMEOUT) \<and>
    (if settled_at initial obs k then out = Settled
     else out = SettleTimedOut \<and> SETTLE_TIMEOUT \<le> snd (obs k))"
  using assms(2,3)
proof (induction "300 - i" arbitrary: i s)
  case (Suc n)
  obtain cur elapsed where o': "obs i = (cur, elapsed)" by fastforce
  obtain r s' where ob: "observe s cur elapsed = (r, s')" by fastforce
  note step = observe_step [OF Suc.prems(1) o' ob]
  have unroll: "settle_loop obs i s = (case r of Some out \<Rightarrow> Some (out, cur, i)
      | None \<Rightarrow> settle_loop obs (i + 1) s')"
    by (subst settle_loop.simps) (simp add: o' ob)
  have cur: "history initial obs (i + 1) = cur" using o' by (simp add: history_def)
  show ?case
  proof (cases r)
    case (Some out)
    with unroll step(2) cur o' Suc.prems(2) show ?thesis
      by (intro exI [of _ out] exI [of _ i]) (auto split: if_splits)
  next
    case None
    then have no: "\<not> settled_at initial obs i" "elapsed < SETTLE_TIMEOUT"
      using step(2) by (auto split: if_splits)
    then have "i + 1 < 300"
      using assms(1) [of i] o' by (simp add: SETTLE_POLL_def SETTLE_TIMEOUT_def)
    moreover have "n = 300 - (i + 1)" using Suc.hyps(2) by simp
    ultimately obtain out k where k: "settle_loop obs (i + 1) s' = Some (out, history initial obs (k + 1), k)"
        "i + 1 \<le> k" "k < 300"
        "\<forall>j. i + 1 \<le> j \<and> j < k \<longrightarrow> \<not> settled_at initial obs j \<and> snd (obs j) < SETTLE_TIMEOUT"
        "if settled_at initial obs k then out = Settled
         else out = SettleTimedOut \<and> SETTLE_TIMEOUT \<le> snd (obs k)"
      using Suc.hyps(1) [OF _ step(1)] by blast
    moreover have "\<not> settled_at initial obs j \<and> snd (obs j) < SETTLE_TIMEOUT" if "i \<le> j" "j < k" for j
      using k(4) that no o' by (cases "j = i") auto
    ultimately show ?thesis using unroll None
      by (intro exI [of _ out] exI [of _ k]) simp
  qed
qed simp

section \<open>Properties\<close>

text \<open>
  C37: the settle wait returns. When every poll takes at least its sleep of 100 ms, the loop
  ends within 300 polls: at the first poll where the last three observations agree and the
  interface the selection needs exists, as settled, or else at the first one 30 s after the
  start, as timed out.
\<close>

theorem settle_terminates:
  assumes "\<And>j. 100 * (j + 1) \<le> snd (polls j)"
  shows "\<exists>out cur k. settle bootif start polls = Some (out, cur, k) \<and> k < 300 \<and>
    (let initial = device_counts_in (fst start) (snd start) bootif;
         obs = (\<lambda>i. (device_counts_in (fst (fst (polls i))) (snd (fst (polls i))) bootif, snd (polls i)))
     in cur = fst (obs k) \<and>
       list_all (\<lambda>j. \<not> settled_at initial obs j \<and> snd (obs j) < 30000) [0..<k] \<and>
       (if settled_at initial obs k then out = Settled
        else out = SettleTimedOut \<and> 30000 \<le> snd (obs k)))"
proof -
  let ?i = "device_counts_in (fst start) (snd start) bootif"
  let ?obs = "\<lambda>i. (device_counts_in (fst (fst (polls i))) (snd (fst (polls i))) bootif, snd (polls i))"
  have p: "SETTLE_POLL * (j + 1) \<le> snd (?obs j)" for j using assms [of j] by (simp add: SETTLE_POLL_def)
  have inv: "settle_inv ?i ?obs 0 (settle_new ?i)" by (simp add: settle_inv_def settle_new_def history_def)
  from settle_loop_returns [OF p inv] obtain out k where
    "settle_loop ?obs 0 (settle_new ?i) = Some (out, history ?i ?obs (k + 1), k)" "k < 300"
    "\<forall>j. j < k \<longrightarrow> \<not> settled_at ?i ?obs j \<and> snd (?obs j) < SETTLE_TIMEOUT"
    "if settled_at ?i ?obs k then out = Settled else out = SettleTimedOut \<and> SETTLE_TIMEOUT \<le> snd (?obs k)"
    by auto
  then show ?thesis
    unfolding settle_def Let_def SETTLE_TIMEOUT_def
    by (intro exI [of _ out] exI [of _ "history ?i ?obs (k + 1)"] exI [of _ k])
      (simp add: list_all_iff history_def)
qed

text \<open>A host without network interfaces, polled every 150 ms.\<close>

lemma settle_terminates_witness:
  "\<exists>out cur k. settle None (Dir [], Dir []) (\<lambda>i. ((Dir [], Dir []), 150 * (i + 1))) = Some (out, cur, k) \<and>
     k < 300 \<and> out = SettleTimedOut"
proof -
  let ?polls = "\<lambda>i. ((Dir [], Dir []), 150 * (i + 1)) :: (fsnode \<times> fsnode) \<times> nat"
  have "100 * (j + 1) \<le> snd (?polls j)" for j by simp
  from settle_terminates [of ?polls None "(Dir [], Dir [])", OF this]
  obtain out cur k where r: "settle None (Dir [], Dir []) ?polls = Some (out, cur, k)" "k < 300"
    and o': "let initial = device_counts_in (Dir []) (Dir []) None;
         obs = (\<lambda>i. (device_counts_in (Dir []) (Dir []) None, 150 * (i + 1)))
       in (if settled_at initial obs k then out = Settled else out = SettleTimedOut)"
    unfolding Let_def by (auto split: if_splits)
  have "\<not> dc_selectable (device_counts_in (Dir []) (Dir []) None)"
    by (simp add: device_counts_in_def nic_selectable_def select_nics_def candidate_interfaces_def
        read_dir_def utf8_names_def Let_def)
  then have "\<not> settled_at initial (\<lambda>i. (device_counts_in (Dir []) (Dir []) None, 150 * (i + 1))) k" for initial
    by (simp add: settled_at_def history_def)
  with o' r show ?thesis by (auto simp: Let_def)
qed

end
