(* ===== verification/Target_Disk.thy ===== *)
theory Target_Disk
  imports Sysfs
begin

text \<open>
  \<open>src/target_disk.rs\<close>: choosing the whole disk the image is written to, over the
  \<open>/sys/block\<close> and \<open>/sys/class/block\<close> trees, the text of \<open>/proc/mounts\<close> and \<open>/proc/swaps\<close>,
  and a path canonicalizer (a parameter).
\<close>

section \<open>Data\<close>

definition MAX_SLAVE_DEPTH :: nat where "MAX_SLAVE_DEPTH = 16"
definition SECTOR_BYTES :: u64 where "SECTOR_BYTES = 512"

record target_disk =
  t_kname :: string
  t_size_bytes :: u64
  t_dev_number :: string

definition dev_path :: "target_disk \<Rightarrow> string" where
  "dev_path t = ''/dev/'' @ t_kname t"

datatype ineligible =
    NotPhysical | Removable | ReadOnly | SystemBacking | Empty | TooSmall u64 u64

datatype disk_error =
    PinNotFound string
  | PinNotBlockDevice string
  | PinNotWholeDisk string
  | PinIneligible string ineligible
  | NoEligibleDisk

record candidate =
  c_kname :: string
  c_size_bytes :: u64
  c_dev_number :: string
  c_removable :: bool
  c_read_only :: bool
  c_physical :: bool

definition candidate_target :: "candidate \<Rightarrow> target_disk" where
  "candidate_target c =
     \<lparr>t_kname = c_kname c, t_size_bytes = c_size_bytes c, t_dev_number = c_dev_number c\<rparr>"

section \<open>Candidates\<close>

definition read_candidate :: "fsnode \<Rightarrow> string \<Rightarrow> candidate" where
  "read_candidate d kname = \<lparr>c_kname = kname,
     c_size_bytes = unwrap_or (map_option (\<lambda>sectors. sectors * SECTOR_BYTES)
       (Option.bind (read_trimmed d [kname, ''size'']) parse_u64)) 0,
     c_dev_number = unwrap_or (read_trimmed d [kname, ''dev'']) [],
     c_removable = (read_trimmed d [kname, ''removable''] = Some ''1''),
     c_read_only = (read_trimmed d [kname, ''ro''] = Some ''1''),
     c_physical = path_exists d [kname, ''device'']\<rparr>"

definition enumerate_disks :: "fsnode \<Rightarrow> candidate list" where
  "enumerate_disks d = (case read_dir d [] of
       None \<Rightarrow> []
     | Some names \<Rightarrow> map (read_candidate d) (sort (utf8_names names)))"

definition classify :: "candidate \<Rightarrow> u64 \<Rightarrow> string set \<Rightarrow> ineligible + unit" where
  "classify c min_bytes ramdisk =
     (if \<not> c_physical c then Inl NotPhysical
      else if c_removable c then Inl Removable
      else if c_read_only c then Inl ReadOnly
      else if c_kname c \<in> ramdisk then Inl SystemBacking
      else if c_size_bytes c = 0 then Inl Empty
      else if c_size_bytes c < min_bytes then Inl (TooSmall (c_size_bytes c) min_bytes)
      else Inr ())"

text \<open>\<open>min_by_key\<close>: the first of the smallest.\<close>

fun min_by_size :: "candidate list \<Rightarrow> candidate option" where
  "min_by_size [] = None"
| "min_by_size (c # cs) = (case min_by_size cs of
       None \<Rightarrow> Some c
     | Some m \<Rightarrow> if c_size_bytes c \<le> c_size_bytes m then Some c else Some m)"

definition auto_select :: "candidate list \<Rightarrow> u64 \<Rightarrow> string set \<Rightarrow> disk_error + target_disk" where
  "auto_select cs min_bytes ramdisk =
     ok_or (map_option candidate_target (min_by_size (filter (\<lambda>c. is_ok (classify c min_bytes ramdisk)) cs)))
       NoEligibleDisk"

definition is_partition :: "fsnode \<Rightarrow> string \<Rightarrow> bool" where
  "is_partition class_dir kname \<longleftrightarrow> path_exists class_dir [kname, ''partition'']"

definition select_core ::
  "fsnode \<Rightarrow> fsnode \<Rightarrow> string option \<Rightarrow> u64 \<Rightarrow> string set \<Rightarrow> disk_error + target_disk" where
  "select_core block_dir class_dir pin min_bytes ramdisk =
     (let candidates = enumerate_disks block_dir in
      case pin of
        Some kname \<Rightarrow> (case find (\<lambda>c. c_kname c = kname) candidates of
            Some c \<Rightarrow> (case classify c min_bytes ramdisk of
                Inr _ \<Rightarrow> Inr (candidate_target c)
              | Inl reason \<Rightarrow> Inl (PinIneligible kname reason))
          | None \<Rightarrow> if is_partition class_dir kname then Inl (PinNotWholeDisk kname)
              else Inl (PinNotBlockDevice kname))
      | None \<Rightarrow> auto_select candidates min_bytes ramdisk)"

section \<open>Pins and sources\<close>

text \<open>A canonicalizer gives the canonical path, or \<open>None\<close> when it fails.\<close>

type_synonym canonicalizer = "string \<Rightarrow> string option"

definition kname_of_path :: "string \<Rightarrow> string option" where
  "kname_of_path p = Option.bind (path_file_name p) from_utf8"

definition resolve_pin_to_kname :: "canonicalizer \<Rightarrow> string \<Rightarrow> disk_error + string" where
  "resolve_pin_to_kname canon pin =
     rbind (if CHR ''/'' \<in> set pin
        then rbind (ok_or (canon pin) (PinNotFound pin))
          (\<lambda>canonical. ok_or (kname_of_path canonical) (PinNotFound pin))
        else Inr pin)
       (\<lambda>kname. if kname = [] then Inl (PinNotFound pin) else Inr kname)"

definition source_of_line :: "string \<Rightarrow> string option" where
  "source_of_line line = (case split_ascii_whitespace line of
       [] \<Rightarrow> None
     | src # _ \<Rightarrow> if starts_with ''/dev/'' src then Some src else None)"

definition mount_sources :: "string \<Rightarrow> string list" where
  "mount_sources mounts = List.map_filter source_of_line (lines mounts)"

definition swap_sources :: "string \<Rightarrow> string list" where
  "swap_sources swaps = List.map_filter source_of_line (drop 1 (lines swaps))"

definition live_dev_leaf :: "canonicalizer \<Rightarrow> string \<Rightarrow> string option" where
  "live_dev_leaf canon source =
     Option.bind (kname_of_path (unwrap_or (canon source) source))
       (\<lambda>leaf. if leaf = [] then None else Some leaf)"

section \<open>The disks under a mounted device\<close>

definition slave_names :: "fsnode \<Rightarrow> string \<Rightarrow> string list" where
  "slave_names d leaf = (case read_dir d [leaf, ''slaves''] of
       None \<Rightarrow> [] | Some names \<Rightarrow> utf8_names names)"

definition is_dir :: "fsnode \<Rightarrow> string list \<Rightarrow> bool" where
  "is_dir d ps \<longleftrightarrow> (case Option.bind (lookup d ps) follow of Some (Dir _) \<Rightarrow> True | _ \<Rightarrow> False)"

definition parent_whole_disk :: "fsnode \<Rightarrow> string \<Rightarrow> string option" where
  "parent_whole_disk d part = (case read_dir d [] of
       None \<Rightarrow> None
     | Some names \<Rightarrow> Option.bind (find (\<lambda>n. is_dir d [n, part]) names) from_utf8)"

definition strip_partition_suffix :: "string \<Rightarrow> string" where
  "strip_partition_suffix name = (let trimmed = trim_end_matches is_ascii_digit name in
     case strip_suffix ''p'' trimmed of
       Some base \<Rightarrow> if base \<noteq> [] \<and> is_ascii_digit (last base) then base else trimmed
     | None \<Rightarrow> trimmed)"

text \<open>The state threaded through the recursion: the visited names and the disks found.\<close>

primrec collect_physical ::
  "nat \<Rightarrow> fsnode \<Rightarrow> string \<Rightarrow> string set \<times> string set \<Rightarrow> string set \<times> string set" where
  "collect_physical 0 d leaf vo = vo"
| "collect_physical (Suc depth) d leaf vo =
     (if leaf \<in> fst vo then vo
      else let vo = (insert leaf (fst vo), snd vo) in
        if path_exists d [leaf]
        then (let slaves = slave_names d leaf in
          if slaves = [] then (fst vo, insert leaf (snd vo))
          else fold (collect_physical depth d) slaves vo)
        else (case parent_whole_disk d leaf of
            Some parent \<Rightarrow> (fst vo, insert parent (snd vo))
          | None \<Rightarrow> (fst vo, insert (strip_partition_suffix leaf) (snd vo))))"

definition backing_whole_disks :: "string list \<Rightarrow> fsnode \<Rightarrow> string set" where
  "backing_whole_disks leaves d =
     fold (\<lambda>leaf out. snd (collect_physical MAX_SLAVE_DEPTH d leaf ({}, out))) leaves {}"

definition ramdisk_backing_knames ::
  "canonicalizer \<Rightarrow> string option \<Rightarrow> string option \<Rightarrow> fsnode \<Rightarrow> string set" where
  "ramdisk_backing_knames canon mounts swaps d =
     (let sources = unwrap_or (map_option mount_sources mounts) []
            @ unwrap_or (map_option swap_sources swaps) []
      in backing_whole_disks (List.map_filter (live_dev_leaf canon) sources) d)"

definition select_disk ::
  "canonicalizer \<Rightarrow> string option \<Rightarrow> string option \<Rightarrow> fsnode \<Rightarrow> fsnode \<Rightarrow> string option \<Rightarrow> u64 \<Rightarrow>
     disk_error + target_disk" where
  "select_disk canon mounts swaps block_dir class_dir pin min_bytes =
     rbind (case pin of
         None \<Rightarrow> Inr None
       | Some p \<Rightarrow> rbind (resolve_pin_to_kname canon p) (\<lambda>k. Inr (Some k)))
       (\<lambda>resolved. select_core block_dir class_dir resolved min_bytes
          (ramdisk_backing_knames canon mounts swaps block_dir))"

section \<open>Lemmas: the choice\<close>

definition eligible :: "u64 \<Rightarrow> string set \<Rightarrow> candidate \<Rightarrow> bool" where
  "eligible min_bytes ramdisk c \<longleftrightarrow> c_physical c \<and> \<not> c_removable c \<and> \<not> c_read_only c \<and>
     c_kname c \<notin> ramdisk \<and> c_size_bytes c \<noteq> 0 \<and> min_bytes \<le> c_size_bytes c"

lemma classify_ok: "is_ok (classify c m r) \<longleftrightarrow> eligible m r c"
  by (auto simp: classify_def eligible_def)

lemma min_by_size_None: "min_by_size cs = None \<longleftrightarrow> cs = []"
  by (cases cs) (auto split: option.splits)

lemma min_by_size_Some:
  "min_by_size cs = Some m \<Longrightarrow> \<exists>us vs. cs = us @ m # vs \<and>
     (\<forall>u\<in>set us. c_size_bytes m < c_size_bytes u) \<and> (\<forall>v\<in>set vs. c_size_bytes m \<le> c_size_bytes v)"
proof (induction cs arbitrary: m)
  case (Cons c cs)
  show ?case
  proof (cases "min_by_size cs")
    case None
    with Cons.prems have "cs = []" "m = c" by (simp_all add: min_by_size_None)
    then show ?thesis by (intro exI [of _ "[]"]) auto
  next
    case (Some k)
    from Cons.IH [OF Some] obtain us vs where k: "cs = us @ k # vs"
      "\<forall>u\<in>set us. c_size_bytes k < c_size_bytes u" "\<forall>v\<in>set vs. c_size_bytes k \<le> c_size_bytes v"
      by blast
    show ?thesis
    proof (cases "c_size_bytes c \<le> c_size_bytes k")
      case True
      with Some Cons.prems have "m = c" by simp
      moreover have "\<forall>v\<in>set cs. c_size_bytes c \<le> c_size_bytes v" using k True by fastforce
      ultimately show ?thesis by (intro exI [of _ "[]"] exI [of _ cs]) auto
    next
      case False
      with Some Cons.prems have "m = k" by simp
      with k False show ?thesis by (intro exI [of _ "c # us"] exI [of _ vs]) auto
    qed
  qed
qed simp

lemma enumerate_names: "c \<in> set (enumerate_disks d) \<Longrightarrow> c = read_candidate d (c_kname c)"
  by (cases "read_dir d []") (auto simp: enumerate_disks_def read_candidate_def)

section \<open>Lemmas: the disks under a device\<close>

text \<open>
  The relation the recursion explores: \<open>backs d leaf x\<close> when disk \<open>x\<close> is reached from
  \<open>leaf\<close> through slaves.
\<close>

inductive backs :: "fsnode \<Rightarrow> string \<Rightarrow> string \<Rightarrow> bool" for d where
  whole: "path_exists d [leaf] \<Longrightarrow> slave_names d leaf = [] \<Longrightarrow> backs d leaf leaf"
| slave: "path_exists d [leaf] \<Longrightarrow> s \<in> set (slave_names d leaf) \<Longrightarrow> backs d s x \<Longrightarrow> backs d leaf x"
| part: "\<not> path_exists d [leaf] \<Longrightarrow> parent_whole_disk d leaf = Some x \<Longrightarrow> backs d leaf x"
| gone: "\<not> path_exists d [leaf] \<Longrightarrow> parent_whole_disk d leaf = None \<Longrightarrow>
    backs d leaf (strip_partition_suffix leaf)"

inductive_cases backs_existing: "backs d leaf x"

definition disks_of :: "fsnode \<Rightarrow> string \<Rightarrow> string set" where
  "disks_of d leaf = {x. backs d leaf x}"

lemma disks_of_whole: "path_exists d [l] \<Longrightarrow> slave_names d l = [] \<Longrightarrow> disks_of d l = {l}"
  by (auto simp: disks_of_def elim: backs_existing intro: backs.intros)

lemma disks_of_slaves: "path_exists d [l] \<Longrightarrow> slave_names d l \<noteq> [] \<Longrightarrow>
    disks_of d l = (\<Union>s\<in>set (slave_names d l). disks_of d s)"
  by (auto simp: disks_of_def elim: backs_existing intro: backs.intros)

lemma disks_of_missing: "\<not> path_exists d [l] \<Longrightarrow>
    disks_of d l = {case parent_whole_disk d l of Some p \<Rightarrow> p | None \<Rightarrow> strip_partition_suffix l}"
  by (auto simp: disks_of_def elim: backs_existing intro: backs.intros split: option.splits)

text \<open>A stack of devices without cycles, by a rank that every slave is below.\<close>

definition ranked :: "fsnode \<Rightarrow> (string \<Rightarrow> nat) \<Rightarrow> bool" where
  "ranked d rank \<longleftrightarrow> (\<forall>l s. path_exists d [l] \<longrightarrow> s \<in> set (slave_names d l) \<longrightarrow> rank s < rank l)"

text \<open>
  The contract of one recursive call: it only adds, and the leaf and every name it newly
  visited are settled.
\<close>

definition settled :: "fsnode \<Rightarrow> string set \<times> string set \<Rightarrow> string \<Rightarrow> string set \<times> string set \<Rightarrow> bool" where
  "settled d vo l vo' \<longleftrightarrow> fst vo \<subseteq> fst vo' \<and> snd vo \<subseteq> snd vo' \<and> disks_of d l \<subseteq> snd vo' \<and>
     (\<forall>u\<in>fst vo' - fst vo. disks_of d u \<subseteq> snd vo')"

definition ready :: "fsnode \<Rightarrow> (string \<Rightarrow> nat) \<Rightarrow> nat \<Rightarrow> string set \<times> string set \<Rightarrow> bool" where
  "ready d rank r vo \<longleftrightarrow> (\<forall>u\<in>fst vo. rank u \<le> r \<longrightarrow> disks_of d u \<subseteq> snd vo)"

lemma fold_settled:
  assumes "\<forall>s\<in>set ss. \<forall>vo. ready d rank (rank s) vo \<longrightarrow> settled d vo s (f s vo)"
    and "\<forall>s\<in>set ss. rank s < r" "\<forall>u\<in>fst vo. rank u < r \<longrightarrow> disks_of d u \<subseteq> snd vo"
  shows "fst vo \<subseteq> fst (fold f ss vo) \<and> snd vo \<subseteq> snd (fold f ss vo) \<and>
    (\<forall>s\<in>set ss. disks_of d s \<subseteq> snd (fold f ss vo)) \<and>
    (\<forall>u\<in>fst (fold f ss vo) - fst vo. disks_of d u \<subseteq> snd (fold f ss vo))"
  using assms
proof (induction ss arbitrary: vo)
  case (Cons s ss)
  have "ready d rank (rank s) vo"
    using Cons.prems(2,3) by (fastforce simp: ready_def)
  then have D: "settled d vo s (f s vo)" using Cons.prems(1) by (simp del: split_paired_All)
  have "\<forall>u\<in>fst (f s vo). rank u < r \<longrightarrow> disks_of d u \<subseteq> snd (f s vo)"
    using D Cons.prems(3) unfolding settled_def by blast
  with Cons.prems(1,2) Cons.IH [of "f s vo"]
  have "fst (f s vo) \<subseteq> fst (fold f ss (f s vo)) \<and> snd (f s vo) \<subseteq> snd (fold f ss (f s vo)) \<and>
    (\<forall>t\<in>set ss. disks_of d t \<subseteq> snd (fold f ss (f s vo))) \<and>
    (\<forall>u\<in>fst (fold f ss (f s vo)) - fst (f s vo). disks_of d u \<subseteq> snd (fold f ss (f s vo)))"
    by simp
  with D show ?case unfolding settled_def fold_simps list.set by blast
qed simp

lemma collect_settled:
  "ranked d rank \<Longrightarrow> rank l < n \<Longrightarrow> ready d rank (rank l) vo \<Longrightarrow>
     settled d vo l (collect_physical n d l vo)"
proof (induction n arbitrary: l vo)
  case (Suc n)
  show ?case
  proof (cases "l \<in> fst vo")
    case True
    with Suc.prems show ?thesis by (auto simp: settled_def ready_def)
  next
    case new: False
    show ?thesis
    proof (cases "path_exists d [l]")
      case False
      with new show ?thesis
        by (auto simp: settled_def disks_of_missing split: option.splits)
    next
      case ex: True
      show ?thesis
      proof (cases "slave_names d l = []")
        case True
        with new ex show ?thesis by (auto simp: settled_def disks_of_whole)
      next
        case False
        let ?vo = "(insert l (fst vo), snd vo)"
        let ?r = "fold (collect_physical n d) (slave_names d l) ?vo"
        have below: "\<forall>s\<in>set (slave_names d l). rank s < rank l"
          using Suc.prems(1) ex by (simp add: ranked_def)
        have "fst ?vo \<subseteq> fst ?r \<and> snd ?vo \<subseteq> snd ?r \<and>
          (\<forall>s\<in>set (slave_names d l). disks_of d s \<subseteq> snd ?r) \<and>
          (\<forall>u\<in>fst ?r - fst ?vo. disks_of d u \<subseteq> snd ?r)"
        proof (rule fold_settled [OF _ below])
          show "\<forall>s\<in>set (slave_names d l). \<forall>vo. ready d rank (rank s) vo \<longrightarrow>
              settled d vo s (collect_physical n d s vo)"
            using below Suc.prems(1,2) Suc.IH by fastforce
        next
          show "\<forall>u\<in>fst ?vo. rank u < rank l \<longrightarrow> disks_of d u \<subseteq> snd ?vo"
            using Suc.prems(3) by (auto simp: ready_def)
        qed
        moreover from this have "disks_of d l \<subseteq> snd ?r"
          using ex False by (simp add: disks_of_slaves) blast
        ultimately have "settled d vo l ?r" unfolding settled_def by auto
        with new ex False show ?thesis by simp
      qed
    qed
  qed
qed simp

lemma backing_whole_disks_complete:
  assumes "ranked d rank" "\<forall>l\<in>set leaves. rank l < MAX_SLAVE_DEPTH"
  shows "out \<subseteq> fold (\<lambda>leaf out. snd (collect_physical MAX_SLAVE_DEPTH d leaf ({}, out))) leaves out \<and>
    (\<forall>l\<in>set leaves. disks_of d l \<subseteq>
       fold (\<lambda>leaf out. snd (collect_physical MAX_SLAVE_DEPTH d leaf ({}, out))) leaves out)"
  using assms(2)
proof (induction leaves arbitrary: out)
  case (Cons l leaves)
  have "settled d ({}, out) l (collect_physical MAX_SLAVE_DEPTH d l ({}, out))"
    using Cons.prems by (intro collect_settled [OF assms(1)]) (auto simp: ready_def)
  then have "out \<subseteq> snd (collect_physical MAX_SLAVE_DEPTH d l ({}, out))"
    "disks_of d l \<subseteq> snd (collect_physical MAX_SLAVE_DEPTH d l ({}, out))"
    by (auto simp: settled_def)
  with Cons.IH [of "snd (collect_physical MAX_SLAVE_DEPTH d l ({}, out))"] Cons.prems
  show ?case by fastforce
qed simp

section \<open>Properties\<close>

text \<open>
  C11: automatic selection. The chosen disk is eligible (physical, fixed, writable, not
  backing the system, not empty and at least the floor), no eligible disk is smaller, those
  before it in name order are strictly larger, and there is an error exactly when no disk is
  eligible.
\<close>

theorem auto_select_spec:
  "case select_core block_dir class_dir None min_bytes ramdisk of
     Inl e \<Rightarrow> e = NoEligibleDisk \<and>
       filter (eligible min_bytes ramdisk) (enumerate_disks block_dir) = []
   | Inr t \<Rightarrow> (\<exists>us c vs. filter (eligible min_bytes ramdisk) (enumerate_disks block_dir) = us @ c # vs \<and>
       t = candidate_target c \<and> c = read_candidate block_dir (t_kname t) \<and>
       filter (\<lambda>u. c_size_bytes u \<le> c_size_bytes c) us = [] \<and>
       filter (\<lambda>v. c_size_bytes v < c_size_bytes c) vs = [])"
proof -
  let ?es = "filter (eligible min_bytes ramdisk) (enumerate_disks block_dir)"
  have sel: "select_core block_dir class_dir None min_bytes ramdisk =
      ok_or (map_option candidate_target (min_by_size ?es)) NoEligibleDisk"
    by (simp add: select_core_def auto_select_def classify_ok)
  show ?thesis
  proof (cases "min_by_size ?es")
    case None
    with sel show ?thesis by (simp add: min_by_size_None)
  next
    case (Some c)
    from min_by_size_Some [OF Some] obtain us vs where s: "?es = us @ c # vs"
      "\<forall>u\<in>set us. c_size_bytes c < c_size_bytes u" "\<forall>v\<in>set vs. c_size_bytes c \<le> c_size_bytes v"
      by blast
    have "c \<in> set ?es" using s(1) by simp
    then have "c = read_candidate block_dir (c_kname c)" by (simp add: enumerate_names)
    with Some sel s show ?thesis
      by (auto simp: filter_empty_conv candidate_target_def not_le not_less)
  qed
qed

text \<open>
  Why a candidate is refused: the first of the requirements, in the order of the code's type, that
  it fails.
\<close>

definition refused_for :: "u64 \<Rightarrow> string set \<Rightarrow> candidate \<Rightarrow> ineligible \<Rightarrow> bool" where
  "refused_for min_bytes system c why = (case why of
       NotPhysical \<Rightarrow> \<not> c_physical c
     | Removable \<Rightarrow> c_physical c \<and> c_removable c
     | ReadOnly \<Rightarrow> c_physical c \<and> \<not> c_removable c \<and> c_read_only c
     | SystemBacking \<Rightarrow> c_physical c \<and> \<not> c_removable c \<and> \<not> c_read_only c \<and> c_kname c \<in> system
     | Empty \<Rightarrow> c_physical c \<and> \<not> c_removable c \<and> \<not> c_read_only c \<and> c_kname c \<notin> system \<and> c_size_bytes c = 0
     | TooSmall have_bytes need_bytes \<Rightarrow> c_physical c \<and> \<not> c_removable c \<and> \<not> c_read_only c \<and> c_kname c \<notin> system \<and>
         c_size_bytes c \<noteq> 0 \<and> c_size_bytes c < min_bytes \<and> have_bytes = c_size_bytes c \<and> need_bytes = min_bytes)"

lemma classify_refused: "classify c min_bytes system = Inl why \<Longrightarrow> refused_for min_bytes system c why"
  by (auto simp: classify_def refused_for_def split: if_splits)

text \<open>The names \<open>/sys/block\<close> lists.\<close>

definition block_names :: "fsnode \<Rightarrow> string list" where
  "block_names d = (case read_dir d [] of None \<Rightarrow> [] | Some names \<Rightarrow> utf8_names names)"

lemma enumerate_names_set: "c_kname ` set (enumerate_disks d) = set (block_names d)"
proof -
  have "c_kname (read_candidate d k) = k" for k by (simp add: read_candidate_def)
  then show ?thesis by (cases "read_dir d []") (simp_all add: enumerate_disks_def block_names_def image_image)
qed

lemma enumerate_find:
  "find (\<lambda>c. c_kname c = kname) (enumerate_disks d) =
     (if kname \<in> set (block_names d)
      then Some (read_candidate d kname) else None)"
proof (cases "find (\<lambda>c. c_kname c = kname) (enumerate_disks d)")
  case None
  then have "\<forall>c\<in>set (enumerate_disks d). c_kname c \<noteq> kname" by (simp only: find_eq_None)
  then have "kname \<notin> set (block_names d)" unfolding enumerate_names_set [symmetric] by auto
  with None show ?thesis by simp
next
  case (Some c)
  then have c: "c \<in> set (enumerate_disks d)" "c_kname c = kname" by (auto dest: find_eq_SomeD)
  then have "kname \<in> set (block_names d)" unfolding enumerate_names_set [symmetric] by auto
  with c Some enumerate_names [OF c(1)] show ?thesis by simp
qed

text \<open>
  C18: a pinned disk is used or the selection fails with the reason, and no other disk is ever
  chosen. A pin with a slash names the last component of its canonical path, any other pin
  itself; one that names nothing is not found. A name that \<open>/sys/block\<close> does not list is a partition
  or no block device. A listed disk is taken, with its size and device number, when it is eligible,
  and otherwise refused for the first requirement it fails (\<open>refused_for\<close>).
\<close>

theorem pinned_select_spec:
  "case select_disk canon mounts swaps block_dir class_dir (Some pin) min_bytes of r \<Rightarrow>
     let system = ramdisk_backing_knames canon mounts swaps block_dir;
         named = (if CHR ''/'' \<in> set pin
           then Option.bind (canon pin) (\<lambda>path. Option.bind (path_file_name path) from_utf8) else Some pin)
     in (case named of
          None \<Rightarrow> r = Inl (PinNotFound pin)
        | Some kname \<Rightarrow>
            if kname = [] then r = Inl (PinNotFound pin)
            else if kname \<notin> set (block_names block_dir)
            then r = Inl (if path_exists class_dir [kname, ''partition''] then PinNotWholeDisk kname
              else PinNotBlockDevice kname)
            else case r of
              Inr t \<Rightarrow> t_kname t = kname \<and> t = candidate_target (read_candidate block_dir kname) \<and>
                eligible min_bytes system (read_candidate block_dir kname)
            | Inl e \<Rightarrow> \<exists>why. e = PinIneligible kname why \<and>
                refused_for min_bytes system (read_candidate block_dir kname) why)"
proof -
  let ?system = "ramdisk_backing_knames canon mounts swaps block_dir"
  let ?named = "if CHR ''/'' \<in> set pin
      then Option.bind (canon pin) (\<lambda>path. Option.bind (path_file_name path) from_utf8) else Some pin"
  let ?names = "set (block_names block_dir)"
  have resolve: "resolve_pin_to_kname canon pin = (case ?named of None \<Rightarrow> Inl (PinNotFound pin)
      | Some kname \<Rightarrow> if kname = [] then Inl (PinNotFound pin) else Inr kname)"
    by (simp add: resolve_pin_to_kname_def kname_of_path_def rbind_def ok_or_def split: option.split)
  show ?thesis
  proof (cases ?named)
    case None
    with resolve show ?thesis by (simp add: select_disk_def)
  next
    case (Some kname)
    let ?c = "read_candidate block_dir kname"
    show ?thesis
    proof (cases "kname = []")
      case True
      with resolve Some show ?thesis by (simp add: select_disk_def)
    next
      case False
      with resolve Some have sel: "select_disk canon mounts swaps block_dir class_dir (Some pin) min_bytes =
          select_core block_dir class_dir (Some kname) min_bytes ?system" by (simp add: select_disk_def)
      show ?thesis
      proof (cases "kname \<in> ?names")
        case out: False
        with sel have "select_disk canon mounts swaps block_dir class_dir (Some pin) min_bytes =
            Inl (if path_exists class_dir [kname, ''partition''] then PinNotWholeDisk kname else PinNotBlockDevice kname)"
          by (simp add: select_core_def enumerate_find is_partition_def)
        with out False Some show ?thesis by simp
      next
        case True
        with sel have r: "select_disk canon mounts swaps block_dir class_dir (Some pin) min_bytes =
            (case classify ?c min_bytes ?system of Inr _ \<Rightarrow> Inr (candidate_target ?c)
             | Inl why \<Rightarrow> Inl (PinIneligible kname why))"
          by (simp add: select_core_def enumerate_find)
        have "case classify ?c min_bytes ?system of
            Inr _ \<Rightarrow> eligible min_bytes ?system ?c | Inl why \<Rightarrow> refused_for min_bytes ?system ?c why"
          using classify_ok [of ?c min_bytes ?system] classify_refused [of ?c min_bytes ?system]
          by (auto split: sum.split)
        moreover have "t_kname (candidate_target ?c) = kname" by (simp add: candidate_target_def read_candidate_def)
        ultimately show ?thesis using True False Some unfolding r
          by (cases "classify ?c min_bytes ?system") simp_all
      qed
    qed
  qed
qed

lemma select_core_eligible:
  assumes "select_core block_dir class_dir r min_bytes ramdisk = Inr t"
  shows "\<exists>c. t = candidate_target c \<and> eligible min_bytes ramdisk c"
proof (cases r)
  case None
  with assms obtain c where
    "min_by_size (filter (eligible min_bytes ramdisk) (enumerate_disks block_dir)) = Some c"
    "t = candidate_target c"
    by (auto simp: select_core_def auto_select_def classify_ok ok_or_eq_Inr)
  moreover from this have "c \<in> set (filter (eligible min_bytes ramdisk) (enumerate_disks block_dir))"
    by (metis in_set_conv_decomp min_by_size_Some)
  ultimately show ?thesis by auto
next
  case (Some k)
  with assms obtain c where "classify c min_bytes ramdisk = Inr ()" "t = candidate_target c"
    by (auto simp: select_core_def split: option.splits sum.splits if_splits)
  then show ?thesis using classify_ok [of c min_bytes ramdisk] by auto
qed

lemma select_disk_ramdisk:
  assumes "select_disk canon mounts swaps block_dir class_dir pin min_bytes = Inr t"
  shows "t_kname t \<notin> ramdisk_backing_knames canon mounts swaps block_dir"
proof -
  obtain r where "select_core block_dir class_dir r min_bytes
      (ramdisk_backing_knames canon mounts swaps block_dir) = Inr t"
    using assms by (auto simp: select_disk_def rbind_eq_Inr)
  from select_core_eligible [OF this] show ?thesis
    by (auto simp: eligible_def candidate_target_def)
qed

text \<open>
  What a device rests on, whatever the code does: the devices its \<open>slaves\<close> name, the disk that has
  it as a partition (a directory of that name in the disk's own), and what these rest on.
\<close>

definition part_of :: "fsnode \<Rightarrow> string \<Rightarrow> string \<Rightarrow> bool" where
  "part_of d part disk \<longleftrightarrow> \<not> path_exists d [part] \<and>
     (\<exists>names. read_dir d [] = Some names \<and> disk \<in> set names \<and> is_dir d [disk, part])"

inductive rests_on :: "fsnode \<Rightarrow> string \<Rightarrow> string \<Rightarrow> bool" for d a where
  self: "rests_on d a a"
| slave: "rests_on d a b \<Longrightarrow> c \<in> set (slave_names d b) \<Longrightarrow> rests_on d a c"
| disk: "rests_on d a b \<Longrightarrow> part_of d b c \<Longrightarrow> rests_on d a c"

text \<open>
  Of the partitions below a device: each is of one disk, with a UTF-8 name, which is not itself
  stacked on others (the partition of an md array is what this leaves out).
\<close>

definition plain_partitions :: "fsnode \<Rightarrow> string \<Rightarrow> bool" where
  "plain_partitions d a \<longleftrightarrow> (\<forall>b c. rests_on d a b \<and> part_of d b c \<longrightarrow>
     utf8_valid c \<and> slave_names d c = [] \<and> (\<forall>c'. part_of d b c' \<longrightarrow> c' = c))"

lemma slaves_exist: "slave_names d b \<noteq> [] \<Longrightarrow> path_exists d [b]"
  by (auto simp: slave_names_def read_dir_def path_exists_def child_def split: option.splits fsnode.splits Option.bind_splits)

lemma device_exists: "path_exists d [b, p] \<Longrightarrow> path_exists d [b]"
  by (auto simp: path_exists_def child_def split: Option.bind_splits option.splits fsnode.splits)

lemma dir_exists: "is_dir d [c, b] \<Longrightarrow> path_exists d [c]"
  by (rule device_exists) (auto simp: is_dir_def path_exists_def split: option.splits)

lemma rests_on_backs:
  assumes plain: "plain_partitions d a"
  shows "rests_on d a b \<Longrightarrow> backs d b x \<Longrightarrow> backs d a x"
proof (induction rule: rests_on.induct)
  case (slave b c)
  then show ?case by (intro slave.IH backs.slave [of d b c x]) (auto intro: slaves_exist)
next
  case (disk b c)
  with plain have c: "utf8_valid c" "slave_names d c = []" "\<forall>c'. part_of d b c' \<longrightarrow> c' = c"
    unfolding plain_partitions_def by blast+
  from disk.hyps(2) obtain names where n: "\<not> path_exists d [b]" "read_dir d [] = Some names" "c \<in> set names" "is_dir d [c, b]"
    by (auto simp: part_of_def)
  have "path_exists d [c]" by (rule dir_exists [OF n(4)])
  with disk.prems c(2) have x: "x = c" by (auto elim: backs_existing)
  have "find (\<lambda>n. is_dir d [n, b]) names = Some c"
  proof (cases "find (\<lambda>n. is_dir d [n, b]) names")
    case None
    then show ?thesis using n(3,4) by (auto simp: find_None_iff)
  next
    case (Some e)
    then have "e \<in> set names" "is_dir d [e, b]" by (auto dest: find_eq_SomeD)
    with n c(3) Some show ?thesis by (auto simp: part_of_def)
  qed
  with n(2) c(1) have "parent_whole_disk d b = Some c" by (simp add: parent_whole_disk_def from_utf8_def)
  with n(1) x show ?case by (intro disk.IH backs.part) simp_all
qed

lemma select_core_physical:
  assumes "select_core block_dir class_dir r min_bytes ramdisk = Inr t"
  shows "path_exists block_dir [t_kname t]"
proof -
  have "\<exists>c\<in>set (enumerate_disks block_dir). t = candidate_target c \<and> c_physical c"
  proof (cases r)
    case None
    with assms obtain c where c: "min_by_size (filter (eligible min_bytes ramdisk) (enumerate_disks block_dir)) = Some c"
      "t = candidate_target c"
      by (auto simp: select_core_def auto_select_def classify_ok ok_or_eq_Inr)
    then have "c \<in> set (filter (eligible min_bytes ramdisk) (enumerate_disks block_dir))"
      by (metis in_set_conv_decomp min_by_size_Some)
    with c(2) show ?thesis by (auto simp: eligible_def)
  next
    case (Some k)
    with assms obtain c where c: "find (\<lambda>c. c_kname c = k) (enumerate_disks block_dir) = Some c"
      "is_ok (classify c min_bytes ramdisk)" "t = candidate_target c"
      by (auto simp: select_core_def split: option.splits sum.splits if_splits)
    then have "c \<in> set (enumerate_disks block_dir)" "eligible min_bytes ramdisk c"
      by (auto simp: classify_ok dest: find_eq_SomeD)
    with c(3) show ?thesis by (auto simp: eligible_def)
  qed
  then obtain c where c: "c \<in> set (enumerate_disks block_dir)" "t = candidate_target c" "c_physical c" by blast
  from enumerate_names [OF c(1)] c(3) have "path_exists block_dir [c_kname c, ''device'']"
    by (metis candidate.select_convs(6) read_candidate_def)
  with c(2) show ?thesis by (simp add: candidate_target_def device_exists)
qed

text \<open>
  C10: the inspector never selects a disk the running system lives on. Take a device tree whose
  slave links form no cycle and no stack deeper than the code's limit of 16, and a device of a
  mounted file system or of an active swap area below which no partition is of a disk stacked on
  others. Then no selected disk, pinned or not, is a disk at the bottom of what that device rests on,
  through \<open>slaves\<close>, as the owner of a partition, or both. The exception is real: below a mounted
  partition of an md array the code stops at the array, and the array's members can be
  selected (\<open>array_member_not_excluded\<close>), other than the module's documentation promises.
\<close>

theorem select_not_system_disk:
  assumes "select_disk canon (Some mounts) (Some swaps) block_dir class_dir pin min_bytes = Inr t"
    and "source \<in> set (mount_sources mounts @ swap_sources swaps)"
    and "live_dev_leaf canon source = Some leaf"
    and "ranked block_dir rank" "\<And>l. rank l < MAX_SLAVE_DEPTH"
    and "plain_partitions block_dir leaf"
  shows "\<not> (rests_on block_dir leaf (t_kname t) \<and> slave_names block_dir (t_kname t) = [])"
proof
  assume bottom: "rests_on block_dir leaf (t_kname t) \<and> slave_names block_dir (t_kname t) = []"
  obtain r where "select_core block_dir class_dir r min_bytes
      (ramdisk_backing_knames canon (Some mounts) (Some swaps) block_dir) = Inr t"
    using assms(1) by (auto simp: select_disk_def rbind_eq_Inr)
  then have "path_exists block_dir [t_kname t]" by (rule select_core_physical)
  with bottom have "backs block_dir (t_kname t) (t_kname t)" by (intro backs.whole) simp_all
  with bottom have b: "backs block_dir leaf (t_kname t)" using rests_on_backs [OF assms(6)] by blast
  define leaves where
    "leaves = List.map_filter (live_dev_leaf canon) (mount_sources mounts @ swap_sources swaps)"
  have "leaf \<in> set leaves" using assms(2,3) unfolding leaves_def by (force simp: List.map_filter_def)
  with backing_whole_disks_complete [OF assms(4), of leaves "{}"] assms(5) b
  have "t_kname t \<in> backing_whole_disks leaves block_dir"
    by (auto simp: backing_whole_disks_def disks_of_def)
  with select_disk_ramdisk [OF assms(1)] show False
    by (simp add: ramdisk_backing_knames_def leaves_def)
qed

text \<open>A host with a system disk \<open>sda\<close> and a free, larger disk \<open>sdb\<close>.\<close>

definition demo_disk :: "string \<Rightarrow> (string \<times> fsnode) list \<Rightarrow> fsnode" where
  "demo_disk sectors extra = Dir ([(''device'', Dir []), (''size'', Attr sectors)] @ extra)"

definition demo_host :: fsnode where
  "demo_host = Dir [(''sda'', demo_disk ''2000'' [(''sda1'', Dir [])]), (''sdb'', demo_disk ''4000'' [])]"

definition demo_mounts :: string where
  "demo_mounts = ''/dev/sda1 / ext4 rw 0 0'' @ [CHR 0x0A]"

lemma demo_sources: "mount_sources demo_mounts = [''/dev/sda1'']" "swap_sources ''Filename Type'' = []"
  by (simp_all add: mount_sources_def swap_sources_def demo_mounts_def lines_def split_char_def
      strip_cr_def strip_suffix_def strip_prefix_def starts_with_def source_of_line_def
      split_ascii_whitespace_def is_ascii_ws_def map_filter_simps)

lemma demo_leaf: "live_dev_leaf Some ''/dev/sda1'' = Some ''sda1''"
  by (simp add: live_dev_leaf_def kname_of_path_def path_file_name_def path_components_def
      split_char_def from_utf8_def utf8_valid_ascii ascii_def)

lemma demo_backing:
  "ramdisk_backing_knames Some (Some demo_mounts) (Some ''Filename Type'') demo_host = {''sda''}"
proof -
  have p: "\<not> path_exists demo_host [''sda1'']"
    by (simp add: path_exists_def demo_host_def child_def)
  have w: "parent_whole_disk demo_host ''sda1'' = Some ''sda''"
    by (simp add: parent_whole_disk_def read_dir_def demo_host_def is_dir_def child_def demo_disk_def
        from_utf8_def utf8_valid_ascii ascii_def)
  have d: "MAX_SLAVE_DEPTH = Suc 15" by (simp add: MAX_SLAVE_DEPTH_def)
  have "collect_physical (Suc 15) demo_host ''sda1'' ({}, {}) = ({''sda1''}, {''sda''})"
    unfolding collect_physical.simps(2) by (simp add: p w)
  then show ?thesis
    unfolding d [symmetric]
    by (simp add: ramdisk_backing_knames_def demo_sources map_filter_simps demo_leaf
        backing_whole_disks_def)
qed

lemma read_disk:
  assumes "lookup h [name, ''size''] = Some (Attr sectors)" "sectors \<noteq> []"
    "\<forall>c\<in>set sectors. graphic c" "parse_u64 sectors = Some n" "path_exists h [name, ''device'']"
    "lookup h [name, ''removable''] = None" "lookup h [name, ''ro''] = None"
    "lookup h [name, ''dev''] = None"
  shows "read_candidate h name = \<lparr>c_kname = name, c_size_bytes = n * 512, c_dev_number = [],
    c_removable = False, c_read_only = False, c_physical = True\<rparr>"
  using read_trimmed_plain [OF assms(1-3)] assms(4-8)
  by (simp add: read_candidate_def read_trimmed_missing SECTOR_BYTES_def)

lemma demo_select:
  "select_disk Some (Some demo_mounts) (Some ''Filename Type'') demo_host NoAccess None 0 =
     Inr \<lparr>t_kname = ''sdb'', t_size_bytes = 2048000, t_dev_number = []\<rparr>"
proof -
  have a: "read_candidate demo_host ''sda'' = \<lparr>c_kname = ''sda'', c_size_bytes = 2000 * 512,
      c_dev_number = [], c_removable = False, c_read_only = False, c_physical = True\<rparr>"
    by (rule read_disk [where sectors = "''2000''"])
      (simp_all add: demo_host_def demo_disk_def child_def graphic_def path_exists_def parse_u64_def
        parse_unsigned_def strip_plus_def digit_val_def)
  have b: "read_candidate demo_host ''sdb'' = \<lparr>c_kname = ''sdb'', c_size_bytes = 4000 * 512,
      c_dev_number = [], c_removable = False, c_read_only = False, c_physical = True\<rparr>"
    by (rule read_disk [where sectors = "''4000''"])
      (simp_all add: demo_host_def demo_disk_def child_def graphic_def path_exists_def parse_u64_def
        parse_unsigned_def strip_plus_def digit_val_def)
  have "utf8_names [''sda'', ''sdb''] = [''sda'', ''sdb'']"
    by (simp add: utf8_names_def utf8_valid_ascii ascii_def)
  moreover have "sort [''sda'', ''sdb''] = [''sda'', ''sdb'']"
    by (simp add: less_eq_char_def list_less_def lexord_def)
  moreover have "read_dir demo_host [] = Some [''sda'', ''sdb'']"
    by (simp add: read_dir_def demo_host_def)
  ultimately have "enumerate_disks demo_host = map (read_candidate demo_host) [''sda'', ''sdb'']"
    by (simp add: enumerate_disks_def)
  then show ?thesis
    by (simp add: select_disk_def demo_backing select_core_def auto_select_def a b classify_def
        candidate_target_def)
qed

lemma demo_slaves: "slave_names demo_host l = []"
  by (simp add: slave_names_def read_dir_def demo_host_def demo_disk_def child_def utf8_names_def
      split: option.splits)

lemma demo_part: "part_of demo_host ''sda1'' c \<longleftrightarrow> c = ''sda''" "\<not> part_of demo_host ''sda'' c"
  by (auto simp: part_of_def path_exists_def read_dir_def is_dir_def demo_host_def demo_disk_def child_def)

lemma demo_rests: "rests_on demo_host ''sda1'' b \<Longrightarrow> b = ''sda1'' \<or> b = ''sda''"
  by (induction rule: rests_on.induct) (auto simp: demo_slaves demo_part)

theorem select_not_system_disk_witness:
  "select_disk Some (Some demo_mounts) (Some ''Filename Type'') demo_host NoAccess None 0 =
     Inr \<lparr>t_kname = ''sdb'', t_size_bytes = 2048000, t_dev_number = []\<rparr> \<and>
   rests_on demo_host ''sda1'' ''sda'' \<and> slave_names demo_host ''sda'' = [] \<and>
   \<not> (rests_on demo_host ''sda1'' ''sdb'' \<and> slave_names demo_host ''sdb'' = [])"
proof -
  have "ranked demo_host (\<lambda>_. 0)" by (simp add: ranked_def demo_slaves)
  moreover have "''/dev/sda1'' \<in> set (mount_sources demo_mounts @ swap_sources ''Filename Type'')"
    by (simp add: demo_sources)
  moreover have "plain_partitions demo_host ''sda1''"
    by (auto simp: plain_partitions_def demo_slaves demo_part utf8_valid_ascii ascii_def dest: demo_rests)
  ultimately have "\<not> (rests_on demo_host ''sda1'' (t_kname \<lparr>t_kname = ''sdb'', t_size_bytes = 2048000, t_dev_number = []\<rparr>) \<and>
      slave_names demo_host (t_kname \<lparr>t_kname = ''sdb'', t_size_bytes = 2048000, t_dev_number = []\<rparr>) = [])"
    using select_not_system_disk [OF demo_select _ demo_leaf, of "\<lambda>_. 0"]
    by (simp add: MAX_SLAVE_DEPTH_def)
  moreover have "rests_on demo_host ''sda1'' ''sda''"
    by (rule rests_on.disk [OF rests_on.self]) (simp add: demo_part)
  ultimately show ?thesis by (simp add: demo_select demo_slaves)
qed

section \<open>A partition of an array\<close>

text \<open>
  The recursion does not go on from the owner of a partition. With a partition of an md
  array mounted, the array is excluded but its members are not: here the only member disk
  \<open>sda\<close> of the array that holds the mounted \<open>md0p1\<close> is selected.
\<close>

definition demo_array :: fsnode where
  "demo_array = Dir [(''md0'', Dir [(''slaves'', Dir [(''sda'', Link ''../sda'' None)]), (''md0p1'', Dir [])]),
     (''sda'', demo_disk ''2000'' [])]"

lemma array_member_not_excluded:
  "snd (collect_physical MAX_SLAVE_DEPTH demo_array ''md0p1'' ({}, {})) = {''md0''} \<and>
   slave_names demo_array ''md0'' = [''sda'']"
proof -
  have p: "\<not> path_exists demo_array [''md0p1'']"
    by (simp add: path_exists_def demo_array_def child_def)
  have w: "parent_whole_disk demo_array ''md0p1'' = Some ''md0''"
    by (simp add: parent_whole_disk_def read_dir_def demo_array_def is_dir_def child_def
        from_utf8_def utf8_valid_ascii ascii_def)
  have d: "MAX_SLAVE_DEPTH = Suc 15" by (simp add: MAX_SLAVE_DEPTH_def)
  have "collect_physical (Suc 15) demo_array ''md0p1'' ({}, {}) = ({''md0p1''}, {''md0''})"
    unfolding collect_physical.simps(2) by (simp add: p w)
  moreover have "slave_names demo_array ''md0'' = [''sda'']"
    by (simp add: slave_names_def read_dir_def demo_array_def child_def utf8_names_def
        utf8_valid_ascii ascii_def)
  ultimately show ?thesis by (simp add: d)
qed

end
