(* ===== verification/Device.thy ===== *)
theory Device
  imports Image Target_Disk
begin

text \<open>
  The whole-disk half of \<open>src/deploy.rs\<close>: the deploy errors, the identity check of an
  opened device node, and the digest-gated write of the target image. What the kernel
  answers (opening a node, its metadata, each \<open>write(2)\<close>, \<open>fsync\<close>) is the state of the
  opened file or an argument; \<open>nix\<close>'s \<open>major\<close>, \<open>minor\<close> and \<open>makedev\<close> are arguments.
\<close>

section \<open>Errors\<close>

datatype part = Oem | Esp

definition part_display :: "part \<Rightarrow> string" where
  "part_display p = (case p of Oem \<Rightarrow> ''COS_OEM'' | Esp \<Rightarrow> ''ESP'')"

datatype deploy_error =
    OpenTarget string io_error
  | NotABlockDevice string
  | Stat string io_error
  | NoDeviceNumber string
  | DeviceIdentityMismatch string string string
  | ImageFailed image_error
  | SyncFailed io_error
  | Reread string errno
  | Mountpoint part string io_error
  | BadDeviceNumber string
  | MakeNode part string errno
  | MountFailed part string errno
  | ConfigWrite io_error
  | ProviderIdWrite io_error
  | EspLoaderMissing string
  | EspLoaderCheck string io_error
  | EspWrite string io_error
  | UnmountFailed part string errno
  | RebootFailed errno

section \<open>An opened device node\<close>

text \<open>
  \<open>f_meta\<close> is what \<open>File::metadata\<close> answers: whether the node is a block device, and its
  \<open>st_rdev\<close>. \<open>f_written\<close> is what the node has accepted, \<open>f_answers\<close> what the kernel will
  answer to each \<open>write(2)\<close> (a count, which it caps at what it was handed, or an error;
  past the list it accepts whole buffers), and \<open>f_sync\<close> the answer to \<open>fsync\<close>.
\<close>

record dev_file =
  f_meta :: "io_error + bool \<times> u64"
  f_written :: bytes
  f_answers :: "(io_error + nat) list"
  f_sync :: "io_error + unit"

text \<open>
  \<open>Write::write_all\<close>: \<open>write\<close> until the buffer is empty; \<open>Interrupted\<close> is retried and an
  accepted count of zero is \<open>WriteZero\<close>.
\<close>

fun write_plan :: "(io_error + nat) list \<Rightarrow> bytes \<Rightarrow> bytes \<Rightarrow> (io_error + unit) \<times> bytes \<times> (io_error + nat) list" where
  "write_plan as [] acc = (Inr (), acc, as)"
| "write_plan [] buf acc = (Inr (), acc @ buf, [])"
| "write_plan (Inl e # as) buf acc =
     (if e = OsError EINTR then write_plan as buf acc else (Inl e, acc, as))"
| "write_plan (Inr n # as) buf acc =
     (if n = 0 then (Inl (IoOther ''failed to write whole buffer''), acc, as)
      else write_plan as (drop n buf) (acc @ take n buf))"

definition write_all :: "dev_file writer" where
  "write_all buf f = (case write_plan (f_answers f) buf (f_written f) of
     (r, w, as) \<Rightarrow> (r, f\<lparr>f_written := w, f_answers := as\<rparr>))"

text \<open>\<open>File::flush\<close> does nothing.\<close>

definition file_flush :: "dev_file flusher" where
  "file_flush f = (Inr (), f)"

section \<open>Identity of a node\<close>

definition dev_text :: "(u64 \<Rightarrow> u64) \<Rightarrow> (u64 \<Rightarrow> u64) \<Rightarrow> u64 \<Rightarrow> string" where
  "dev_text major minor rdev = dec (unat (major rdev)) @ '':'' @ dec (unat (minor rdev))"

definition rdev_matches :: "(u64 \<Rightarrow> u64) \<Rightarrow> (u64 \<Rightarrow> u64) \<Rightarrow> u64 \<Rightarrow> string \<Rightarrow> string + unit" where
  "rdev_matches major minor rdev expected =
     (let found = dev_text major minor rdev in
      if found = expected then Inr () else Inl found)"

definition verify_node_identity ::
  "(u64 \<Rightarrow> u64) \<Rightarrow> (u64 \<Rightarrow> u64) \<Rightarrow> dev_file \<Rightarrow> string \<Rightarrow> string \<Rightarrow> deploy_error + unit" where
  "verify_node_identity major minor f path expected_dev =
     (if expected_dev = [] then Inl (NoDeviceNumber path)
      else rbind (map_err (Stat path) (f_meta f)) (\<lambda>(is_block, rdev).
        if \<not> is_block then Inl (NotABlockDevice path)
        else (case rdev_matches major minor rdev expected_dev of
            Inr _ \<Rightarrow> Inr ()
          | Inl found \<Rightarrow> Inl (DeviceIdentityMismatch path expected_dev found))))"

definition parse_dev_number :: "(u64 \<Rightarrow> u64 \<Rightarrow> u64) \<Rightarrow> string \<Rightarrow> u64 option" where
  "parse_dev_number makedev s =
     Option.bind (split_once (CHR '':'') s) (\<lambda>(a, b).
     Option.bind (parse_u64 a) (\<lambda>maj.
     Option.bind (parse_u64 b) (\<lambda>min. Some (makedev maj min))))"

section \<open>Writing the image\<close>

definition effective_max_bytes :: "u64 \<Rightarrow> u64 \<Rightarrow> u64" where
  "effective_max_bytes build_max disk_capacity =
     (if disk_capacity = 0 then build_max else min build_max disk_capacity)"

text \<open>
  The opened file is returned with what was written to it; \<open>None\<close> when none was opened.
\<close>

definition write_image ::
  "(string \<Rightarrow> io_error + dev_file) \<Rightarrow> (u64 \<Rightarrow> u64) \<Rightarrow> (u64 \<Rightarrow> u64) \<Rightarrow>
     (request \<Rightarrow> string + u16 \<times> 'r) \<Rightarrow> (bytes \<Rightarrow> bytes) \<Rightarrow> 'r reader \<Rightarrow>
     target_disk \<Rightarrow> string \<Rightarrow> string \<Rightarrow> u64 \<Rightarrow> (deploy_error + u64) \<times> dev_file option" where
  "write_image open_excl major minor get sha rd target image_url target_digest build_max_bytes =
     (case digest_parse target_digest of
        Inl e \<Rightarrow> (Inl (ImageFailed e), None)
      | Inr digest \<Rightarrow>
          let cap = effective_max_bytes build_max_bytes (t_size_bytes target);
              path = dev_path target
          in (case open_excl path of
                Inl e \<Rightarrow> (Inl (OpenTarget path e), None)
              | Inr f \<Rightarrow>
                  (case verify_node_identity major minor f path (t_dev_number target) of
                     Inl e \<Rightarrow> (Inl e, Some f)
                   | Inr _ \<Rightarrow>
                       (case fetch_to get sha rd write_all file_flush image_url digest cap f of
                          (Inl e, f') \<Rightarrow> (Inl (ImageFailed e), Some f')
                        | (Inr written, f') \<Rightarrow>
                            (case f_sync f' of
                               Inl e \<Rightarrow> (Inl (SyncFailed e), Some f')
                             | Inr _ \<Rightarrow> (Inr written, Some f'))))))"

text \<open>\<open>reread_partition_table\<close>, over the open and the answer of \<open>BLKRRPART\<close>.\<close>

definition reread_partition_table ::
  "(string \<Rightarrow> io_error + dev_file) \<Rightarrow> (u64 \<Rightarrow> u64) \<Rightarrow> (u64 \<Rightarrow> u64) \<Rightarrow> (dev_file \<Rightarrow> errno + unit) \<Rightarrow>
     target_disk \<Rightarrow> deploy_error + unit" where
  "reread_partition_table open_read major minor blkrrpart target =
     (let path = dev_path target in
      rbind (map_err (OpenTarget path) (open_read path)) (\<lambda>f.
      rbind (verify_node_identity major minor f path (t_dev_number target)) (\<lambda>_.
      map_err (Reread path) (blkrrpart f))))"

text \<open>\<open>reboot_now\<close>: \<open>reboot(2)\<close> returns only its errno.\<close>

definition reboot_now :: "errno \<Rightarrow> deploy_error" where
  "reboot_now e = RebootFailed e"

section \<open>The disk as a byte sink\<close>

lemma write_plan_result:
  "write_plan as buf acc = (r, w, as') \<Longrightarrow>
     (\<exists>n. w = acc @ take n buf) \<and> (\<forall>u. r = Inr u \<longrightarrow> w = acc @ buf)"
proof (induction as buf acc rule: write_plan.induct)
  case (3 e as v vs acc)
  then show ?case by (auto split: if_splits intro: exI [of _ 0])
next
  case (4 n as v vs acc)
  show ?case
  proof (cases "n = 0")
    case True
    with 4 show ?thesis by (auto intro: exI [of _ 0])
  next
    case False
    with 4 obtain k where "w = (acc @ take n (v # vs)) @ take k (drop n (v # vs))"
        "\<forall>u. r = Inr u \<longrightarrow> w = (acc @ take n (v # vs)) @ drop n (v # vs)"
      by auto
    moreover have "take n (v # vs) @ take k (drop n (v # vs)) = take (n + k) (v # vs)"
      by (rule take_add [symmetric])
    ultimately show ?thesis by (metis append.assoc append_take_drop_id)
  qed
next
  case (2 v vs acc)
  then show ?case by (auto intro: exI [of _ "Suc (length vs)"])
qed auto

interpretation disk_sink: byte_sink write_all file_flush f_written
proof
  fix b w u w'
  assume "write_all b w = (Inr u, w')"
  then show "f_written w' = f_written w @ b"
    by (auto simp: write_all_def split: prod.splits dest: write_plan_result)
next
  fix b w e w'
  assume "write_all b w = (Inl e, w')"
  then show "\<exists>n. f_written w' = f_written w @ take n b"
    by (auto simp: write_all_def split: prod.splits dest: write_plan_result)
next
  fix w x w'
  assume "file_flush w = (x, w')"
  then show "f_written w' = f_written w" by (simp add: file_flush_def)
qed

lemma fetch_sound:
  assumes "fetch_to get sha rd write_all file_flush url d m f = (x, f')"
  shows "\<exists>new. f_written f' = f_written f @ new \<and> length new \<le> unat m \<and>
    (\<forall>c. x = Inr c \<longrightarrow> unat c = length new \<and> Sha256Digest (sha new) = d)"
proof -
  have "f' = f \<and> (\<forall>c. x \<noteq> Inr c) \<or>
      (\<exists>r. stream_verify sha rd write_all file_flush r d m f = (x, f'))"
    using assms by (auto simp: fetch_to_def split: sum.splits if_splits)
  then show ?thesis
  proof
    assume "f' = f \<and> (\<forall>c. x \<noteq> Inr c)"
    then show ?thesis by (intro exI [of _ "[]"]) auto
  next
    assume "\<exists>r. stream_verify sha rd write_all file_flush r d m f = (x, f')"
    then obtain r where "stream_verify sha rd write_all file_flush r d m f = (x, f')" ..
    then show ?thesis by (rule disk_sink.verify_sound)
  qed
qed

lemma digest_display_inj_parse: "digest_parse s = Inr d \<Longrightarrow> digest_display d = s"
proof (cases "digest_syntax s")
  case True
  assume p: "digest_parse s = Inr d"
  from True obtain hex where "s = ''sha256:'' @ hex" "length hex = 64" "list_all is_lower_hex hex"
    unfolding digest_syntax_def by blast
  with digest_parse_text [of hex] p show ?thesis by auto
qed (simp add: digest_parse_reject)

lemma rdev_matches_iff: "rdev_matches major minor r s = Inr u \<longleftrightarrow> dev_text major minor r = s"
  by (simp add: rdev_matches_def Let_def)

lemma verify_node_identity_Inr:
  "verify_node_identity major minor f path dev = Inr u \<longleftrightarrow>
     (\<exists>rdev. f_meta f = Inr (True, rdev) \<and> dev \<noteq> [] \<and> dev_text major minor rdev = dev)"
  by (auto simp: verify_node_identity_def result_iffs rdev_matches_def Let_def split: sum.splits if_splits)

section \<open>Properties\<close>

lemma effective_max_bound:
  "effective_max_bytes b c \<le> b" "c \<noteq> 0 \<Longrightarrow> effective_max_bytes b c \<le> c"
  by (simp_all add: effective_max_bytes_def)

text \<open>The write once the digest is read and the opened node is the disk: at most the bound, and success by digest.\<close>

lemma write_image_identified:
  assumes digest: "digest_parse dig = Inr d" and opened: "open_excl (dev_path t) = Inr f"
    and ident: "verify_node_identity major minor f (dev_path t) (t_dev_number t) = Inr u"
  shows "\<exists>r f' new rdev. write_image open_excl major minor get sha rd t url dig build_max = (r, Some f') \<and>
    f_written f' = f_written f @ new \<and> f_meta f = Inr (True, rdev) \<and> dev_text major minor rdev = t_dev_number t \<and>
    length new \<le> unat build_max \<and> (t_size_bytes t = 0 \<or> length new \<le> unat (t_size_bytes t)) \<and>
    (\<forall>c. r = Inr c \<longrightarrow> unat c = length new \<and> digest_display (Sha256Digest (sha new)) = dig)"
proof -
  define cap where "cap = effective_max_bytes build_max (t_size_bytes t)"
  have cap: "unat cap \<le> unat build_max" "t_size_bytes t \<noteq> 0 \<Longrightarrow> unat cap \<le> unat (t_size_bytes t)"
    using effective_max_bound by (auto simp: cap_def word_le_nat_alt [symmetric])
  obtain x f' where fetch: "fetch_to get sha rd write_all file_flush url d cap f = (x, f')" by fastforce
  from fetch_sound [OF this] obtain new where new: "f_written f' = f_written f @ new" "length new \<le> unat cap"
    "\<forall>c. x = Inr c \<longrightarrow> unat c = length new \<and> Sha256Digest (sha new) = d" by blast
  from new(2) cap have b: "length new \<le> unat build_max" "t_size_bytes t = 0 \<or> length new \<le> unat (t_size_bytes t)" by linarith+
  have "write_image open_excl major minor get sha rd t url dig build_max =
      ((case x of Inl e \<Rightarrow> Inl (ImageFailed e) | Inr c \<Rightarrow> (case f_sync f' of Inl e \<Rightarrow> Inl (SyncFailed e) | Inr _ \<Rightarrow> Inr c)), Some f')"
    using assms fetch by (simp add: write_image_def Let_def cap_def split: sum.splits)
  moreover from ident obtain rdev where "f_meta f = Inr (True, rdev)" "dev_text major minor rdev = t_dev_number t"
    by (auto simp: verify_node_identity_Inr)
  ultimately show ?thesis
    using new b digest_display_inj_parse [OF digest] by (intro exI conjI) (auto split: sum.splits)
qed

text \<open>
  C9: the write of the target image is gated by the identity of the device and by the
  digest. It succeeds only on a block device whose \<open>major:minor\<close> is the selected one, after
  appending a body whose SHA-256 prints as the requested digest and which fits both the
  build limit and a known disk size, with that body's length as the result. A failure after
  the device was opened leaves at most such a bounded prefix, and nothing at all when the
  identity does not match.
\<close>

theorem write_image_gated:
  "case write_image open_excl major minor get sha rd t url dig build_max of
     (Inr n, fo) \<Rightarrow> (\<exists>f f' rdev body. open_excl (dev_path t) = Inr f \<and> fo = Some f' \<and>
       f_meta f = Inr (True, rdev) \<and> dev_text major minor rdev = t_dev_number t \<and>
       f_written f' = f_written f @ body \<and> unat n = length body \<and>
       digest_display (Sha256Digest (sha body)) = dig \<and> length body \<le> unat build_max \<and>
       (t_size_bytes t = 0 \<or> length body \<le> unat (t_size_bytes t)))
   | (Inl e, Some f') \<Rightarrow> (\<exists>f part. open_excl (dev_path t) = Inr f \<and>
       f_written f' = f_written f @ part \<and> length part \<le> unat build_max \<and>
       (t_size_bytes t = 0 \<or> length part \<le> unat (t_size_bytes t)) \<and>
       (part = [] \<or> is_ok (verify_node_identity major minor f (dev_path t) (t_dev_number t))))
   | (Inl e, None) \<Rightarrow> e = ImageFailed InvalidDigestFormat \<or>
       (\<exists>e'. open_excl (dev_path t) = Inl e' \<and> e = OpenTarget (dev_path t) e')"
proof (cases "digest_parse dig")
  case (Inl e)
  moreover have "e = InvalidDigestFormat"
    using Inl digest_parse_text digest_parse_reject [of dig]
    by (cases "digest_syntax dig") (auto simp: digest_syntax_def, metis old.sum.distinct(1) append_Cons append_Nil)
  ultimately show ?thesis by (simp add: write_image_def)
next
  case digest: (Inr d)
  show ?thesis
  proof (cases "open_excl (dev_path t)")
    case (Inl e)
    with digest show ?thesis by (simp add: write_image_def)
  next
    case opened: (Inr f)
    show ?thesis
    proof (cases "verify_node_identity major minor f (dev_path t) (t_dev_number t)")
      case (Inl e)
      with digest opened show ?thesis by (simp add: write_image_def)
    next
      case ident: (Inr u)
      from write_image_identified [where open_excl = open_excl, OF digest opened ident, of get sha rd url build_max] obtain r f' new rdev where
        w: "write_image open_excl major minor get sha rd t url dig build_max = (r, Some f')"
          "f_written f' = f_written f @ new" "f_meta f = Inr (True, rdev)" "dev_text major minor rdev = t_dev_number t"
          "length new \<le> unat build_max" "t_size_bytes t = 0 \<or> length new \<le> unat (t_size_bytes t)"
          "\<forall>c. r = Inr c \<longrightarrow> unat c = length new \<and> digest_display (Sha256Digest (sha new)) = dig" by blast
      show ?thesis
      proof (cases r)
        case (Inl e)
        with w opened ident show ?thesis by auto
      next
        case (Inr c)
        with w(7) have "unat c = length new" "digest_display (Sha256Digest (sha new)) = dig" by simp_all
        with w opened Inr show ?thesis by auto
      qed
    qed
  qed
qed

end
