(* ===== verification/Fs.thy ===== *)
theory Fs
  imports Sysfs
begin

text \<open>
  The part of \<open>std::fs\<close> the deploy step uses, on the file system of one mounted partition.
  A path is the list of its names below the mount root. Names are compared the way the file
  system does: FAT ignores ASCII case, ext4 does not. Every call may fail: \<open>fs_fault\<close> gives
  the kernel's answer to the \<open>n\<close>-th call when it is of that kind, an errno and, for a write
  or a directory listing, how much was done before it.
\<close>

section \<open>State\<close>

text \<open>A regular file has its bytes and permission bits.\<close>

datatype fs_node = RegFile bytes u16 | SubDir

datatype fs_op = OpOpen | OpChmod | OpWrite | OpSync | OpMkdir | OpUnlink | OpRename | OpStat
  | OpReadDir | OpRead

record fs =
  fs_nocase :: bool
  fs_umask :: u16
  fs_entries :: "(string list \<times> fs_node) list"
  fs_calls :: nat
  fs_fault :: "fs_op \<Rightarrow> nat \<Rightarrow> (errno \<times> nat) option"

definition EISDIR :: errno where "EISDIR = 21"
definition ENOTDIR :: errno where "ENOTDIR = 20"

definition fold_name :: "bool \<Rightarrow> string \<Rightarrow> string" where
  "fold_name nocase s = (if nocase then to_ascii_lowercase s else s)"

definition same_path :: "bool \<Rightarrow> string list \<Rightarrow> string list \<Rightarrow> bool" where
  "same_path nocase p q \<longleftrightarrow> map (fold_name nocase) p = map (fold_name nocase) q"

fun entry_at :: "bool \<Rightarrow> string list \<Rightarrow> (string list \<times> fs_node) list \<Rightarrow> fs_node option" where
  "entry_at nocase p [] = None"
| "entry_at nocase p ((q, n) # es) = (if same_path nocase p q then Some n else entry_at nocase p es)"

definition node_at :: "fs \<Rightarrow> string list \<Rightarrow> fs_node option" where
  "node_at fs p = (if p = [] then Some SubDir else entry_at (fs_nocase fs) p (fs_entries fs))"

definition parent :: "string list \<Rightarrow> string list" where "parent p = butlast p"

text \<open>Replacing, adding and removing the entry of a path.\<close>

fun put_node :: "bool \<Rightarrow> string list \<Rightarrow> fs_node \<Rightarrow> (string list \<times> fs_node) list \<Rightarrow>
    (string list \<times> fs_node) list" where
  "put_node nocase p n [] = [(p, n)]"
| "put_node nocase p n ((q, m) # es) =
     (if same_path nocase p q then (q, n) # es else (q, m) # put_node nocase p n es)"

fun del_node :: "bool \<Rightarrow> string list \<Rightarrow> (string list \<times> fs_node) list \<Rightarrow> (string list \<times> fs_node) list" where
  "del_node nocase p [] = []"
| "del_node nocase p ((q, m) # es) =
     (if same_path nocase p q then del_node nocase p es else (q, m) # del_node nocase p es)"

definition set_node :: "string list \<Rightarrow> fs_node \<Rightarrow> fs \<Rightarrow> fs" where
  "set_node p n fs = fs\<lparr>fs_entries := put_node (fs_nocase fs) p n (fs_entries fs)\<rparr>"

definition unset_node :: "string list \<Rightarrow> fs \<Rightarrow> fs" where
  "unset_node p fs = fs\<lparr>fs_entries := del_node (fs_nocase fs) p (fs_entries fs)\<rparr>"

section \<open>Sequencing\<close>

text \<open>An operation over a state that answers a result; \<open>sbind\<close> is the question mark.\<close>

definition sbind :: "('s \<Rightarrow> ('e + 'a) \<times> 's) \<Rightarrow> ('a \<Rightarrow> 's \<Rightarrow> ('e + 'b) \<times> 's) \<Rightarrow> 's \<Rightarrow> ('e + 'b) \<times> 's" where
  "sbind m f s = (case m s of (Inl e, s') \<Rightarrow> (Inl e, s') | (Inr a, s') \<Rightarrow> f a s')"

definition sreturn :: "'a \<Rightarrow> 's \<Rightarrow> ('e + 'a) \<times> 's" where "sreturn a s = (Inr a, s)"

definition sfail :: "'e \<Rightarrow> 's \<Rightarrow> ('e + 'a) \<times> 's" where "sfail e s = (Inl e, s)"

definition smap_err :: "('e \<Rightarrow> 'f) \<Rightarrow> ('s \<Rightarrow> ('e + 'a) \<times> 's) \<Rightarrow> 's \<Rightarrow> ('f + 'a) \<times> 's" where
  "smap_err g m s = (case m s of (r, s') \<Rightarrow> (map_err g r, s'))"

text \<open>\<open>let _ = \<dots>\<close>: the result is dropped, the effect stays.\<close>

definition signore :: "('s \<Rightarrow> ('e + 'a) \<times> 's) \<Rightarrow> 's \<Rightarrow> 's" where
  "signore m s = snd (m s)"

fun sfor :: "'a list \<Rightarrow> ('a \<Rightarrow> 's \<Rightarrow> ('e + unit) \<times> 's) \<Rightarrow> 's \<Rightarrow> ('e + unit) \<times> 's" where
  "sfor [] f s = (Inr (), s)"
| "sfor (x # xs) f s = sbind (f x) (\<lambda>_. sfor xs f) s"

section \<open>Calls\<close>

definition answer :: "fs_op \<Rightarrow> fs \<Rightarrow> (errno \<times> nat) option \<times> fs" where
  "answer k fs = (fs_fault fs k (fs_calls fs), fs\<lparr>fs_calls := fs_calls fs + 1\<rparr>)"

type_synonym 'a fs_call = "fs \<Rightarrow> (io_error + 'a) \<times> fs"

text \<open>A call that fails with the kernel's answer or else acts on the tree.\<close>

definition fs_do :: "fs_op \<Rightarrow> 'a fs_call \<Rightarrow> 'a fs_call" where
  "fs_do k act fs = (case answer k fs of
       (Some (e, _), fs') \<Rightarrow> (Inl (OsError e), fs')
     | (None, fs') \<Rightarrow> act fs')"

text \<open>\<open>OpenOptions\<close> with \<open>write\<close>, \<open>create\<close>, \<open>truncate\<close> and a mode, less the umask.\<close>

definition open_truncate :: "string list \<Rightarrow> u16 \<Rightarrow> unit fs_call" where
  "open_truncate p m = fs_do OpOpen (\<lambda>fs.
     if node_at fs (parent p) \<noteq> Some SubDir then (Inl (OsError ENOENT), fs)
     else (case node_at fs p of
         Some SubDir \<Rightarrow> (Inl (OsError EISDIR), fs)
       | Some (RegFile _ m') \<Rightarrow> (Inr (), set_node p (RegFile [] m') fs)
       | None \<Rightarrow> (Inr (), set_node p (RegFile [] (and m (not (fs_umask fs)))) fs)))"

definition set_mode :: "string list \<Rightarrow> u16 \<Rightarrow> unit fs_call" where
  "set_mode p m = fs_do OpChmod (\<lambda>fs. case node_at fs p of
       Some (RegFile b _) \<Rightarrow> (Inr (), set_node p (RegFile b m) fs)
     | _ \<Rightarrow> (Inl (OsError ENOENT), fs))"

text \<open>\<open>write_all\<close> through the open handle: a failure leaves what was taken before it.\<close>

definition append_bytes :: "string list \<Rightarrow> bytes \<Rightarrow> fs \<Rightarrow> fs" where
  "append_bytes p data fs = (case node_at fs p of
       Some (RegFile b m) \<Rightarrow> set_node p (RegFile (b @ data) m) fs
     | _ \<Rightarrow> fs)"

definition fs_write_all :: "string list \<Rightarrow> bytes \<Rightarrow> unit fs_call" where
  "fs_write_all p data fs = (case answer OpWrite fs of
       (Some (e, n), fs') \<Rightarrow> (Inl (OsError e), append_bytes p (take n data) fs')
     | (None, fs') \<Rightarrow> (Inr (), append_bytes p data fs'))"

definition sync_all :: "unit fs_call" where "sync_all = fs_do OpSync (sreturn ())"

definition open_dir :: "string list \<Rightarrow> unit fs_call" where
  "open_dir p = fs_do OpOpen (\<lambda>fs. if node_at fs p = None then (Inl (OsError ENOENT), fs) else (Inr (), fs))"

text \<open>\<open>create_dir_all\<close> makes the missing directories from the top.\<close>

definition make_dir :: "string list \<Rightarrow> unit fs_call" where
  "make_dir p fs = (case node_at fs p of
       Some SubDir \<Rightarrow> (Inr (), fs)
     | Some _ \<Rightarrow> (Inl (OsError EEXIST), fs)
     | None \<Rightarrow> fs_do OpMkdir (\<lambda>fs. (Inr (), set_node p SubDir fs)) fs)"

definition create_dir_all :: "string list \<Rightarrow> unit fs_call" where
  "create_dir_all p = sfor (map (\<lambda>i. take i p) [1..<Suc (length p)]) make_dir"

definition remove_file :: "string list \<Rightarrow> unit fs_call" where
  "remove_file p = fs_do OpUnlink (\<lambda>fs. case node_at fs p of
       None \<Rightarrow> (Inl (OsError ENOENT), fs)
     | Some SubDir \<Rightarrow> (Inl (OsError EISDIR), fs)
     | Some _ \<Rightarrow> (Inr (), unset_node p fs))"

definition fs_rename :: "string list \<Rightarrow> string list \<Rightarrow> unit fs_call" where
  "fs_rename p q = fs_do OpRename (\<lambda>fs. case node_at fs p of
       Some (RegFile b m) \<Rightarrow>
         if node_at fs (parent q) \<noteq> Some SubDir then (Inl (OsError ENOENT), fs)
         else if node_at fs q = Some SubDir then (Inl (OsError EISDIR), fs)
         else (Inr (), set_node q (RegFile b m) (unset_node p fs))
     | _ \<Rightarrow> (Inl (OsError ENOENT), fs))"

definition metadata :: "string list \<Rightarrow> fs_node fs_call" where
  "metadata p = fs_do OpStat (\<lambda>fs. case node_at fs p of
       None \<Rightarrow> (Inl (OsError ENOENT), fs) | Some n \<Rightarrow> (Inr n, fs))"

definition read_file :: "string list \<Rightarrow> bytes fs_call" where
  "read_file p = fs_do OpRead (\<lambda>fs. case node_at fs p of
       Some (RegFile b _) \<Rightarrow> (Inr b, fs)
     | Some SubDir \<Rightarrow> (Inl (OsError EISDIR), fs)
     | None \<Rightarrow> (Inl (OsError ENOENT), fs))"

text \<open>
  \<open>read_dir\<close>: the stored names of the children in directory order; the listing itself may
  fail after some of them.
\<close>

definition children :: "fs \<Rightarrow> string list \<Rightarrow> string list" where
  "children fs p = map (\<lambda>(q, _). last q)
     (filter (\<lambda>(q, _). q \<noteq> [] \<and> same_path (fs_nocase fs) p (parent q)) (fs_entries fs))"

definition fs_read_dir :: "string list \<Rightarrow> (string list \<times> io_error option) fs_call" where
  "fs_read_dir p = fs_do OpOpen (\<lambda>fs. case node_at fs p of
       None \<Rightarrow> (Inl (OsError ENOENT), fs)
     | Some (RegFile _ _) \<Rightarrow> (Inl (OsError ENOTDIR), fs)
     | Some SubDir \<Rightarrow> (case answer OpReadDir fs of
           (Some (e, n), fs') \<Rightarrow> (Inr (take n (children fs p), Some (OsError e)), fs')
         | (None, fs') \<Rightarrow> (Inr (children fs p, None), fs')))"

text \<open>\<open>Path::is_file\<close> and \<open>Path::is_dir\<close>: false on any error.\<close>

definition path_is_file :: "string list \<Rightarrow> fs \<Rightarrow> bool \<times> fs" where
  "path_is_file p fs = (case metadata p fs of
       (Inr (RegFile _ _), fs') \<Rightarrow> (True, fs') | (_, fs') \<Rightarrow> (False, fs'))"

definition path_is_dir :: "string list \<Rightarrow> fs \<Rightarrow> bool \<times> fs" where
  "path_is_dir p fs = (case metadata p fs of
       (Inr SubDir, fs') \<Rightarrow> (True, fs') | (_, fs') \<Rightarrow> (False, fs'))"

section \<open>Lemmas\<close>

lemma same_path_refl [simp]: "same_path c p p" by (simp add: same_path_def)
lemma same_path_sym: "same_path c p q \<longleftrightarrow> same_path c q p" by (auto simp: same_path_def)
lemma same_path_trans: "same_path c p q \<Longrightarrow> same_path c q r \<Longrightarrow> same_path c p r"
  by (simp add: same_path_def)
lemma same_path_Nil [simp]: "same_path c [] q \<longleftrightarrow> q = []" "same_path c q [] \<longleftrightarrow> q = []"
  by (auto simp: same_path_def)

lemma same_path_subst: "same_path c p q \<Longrightarrow> same_path c r p \<longleftrightarrow> same_path c r q"
  by (simp add: same_path_def)

lemma entry_at_put_node [simp]:
  "entry_at c q (put_node c p n es) = (if same_path c q p then Some n else entry_at c q es)"
  by (induction c p n es rule: put_node.induct) (auto simp: same_path_def)

lemma entry_at_del_node [simp]:
  "entry_at c q (del_node c p es) = (if same_path c q p then None else entry_at c q es)"
  by (induction c p es rule: del_node.induct) (auto simp: same_path_def)

lemma entry_at_same_path: "same_path c p q \<Longrightarrow> entry_at c p es = entry_at c q es"
  by (induction c p es rule: entry_at.induct) (auto simp: same_path_def)

lemma node_at_root [simp]: "node_at fs [] = Some SubDir" by (simp add: node_at_def)

lemma node_at_set_node [simp]:
  "p \<noteq> [] \<Longrightarrow> node_at (set_node p n fs) q =
     (if same_path (fs_nocase fs) q p then Some n else node_at fs q)"
  by (auto simp: node_at_def set_node_def)

lemma node_at_unset_node [simp]:
  "p \<noteq> [] \<Longrightarrow> node_at (unset_node p fs) q =
     (if same_path (fs_nocase fs) q p then None else node_at fs q)"
  by (auto simp: node_at_def unset_node_def)

lemma node_at_same_path: "same_path (fs_nocase fs) p q \<Longrightarrow> node_at fs p = node_at fs q"
  by (auto simp: node_at_def dest: entry_at_same_path)

lemma fs_fields [simp]:
  "fs_nocase (set_node p n fs) = fs_nocase fs" "fs_fault (set_node p n fs) = fs_fault fs"
  "fs_umask (set_node p n fs) = fs_umask fs" "fs_calls (set_node p n fs) = fs_calls fs"
  "fs_nocase (unset_node p fs) = fs_nocase fs" "fs_fault (unset_node p fs) = fs_fault fs"
  "fs_umask (unset_node p fs) = fs_umask fs" "fs_calls (unset_node p fs) = fs_calls fs"
  by (simp_all add: set_node_def unset_node_def)

lemma set_node_calls [simp]:
  "set_node p n (fs\<lparr>fs_calls := k\<rparr>) = (set_node p n fs)\<lparr>fs_calls := k\<rparr>"
  "unset_node p (fs\<lparr>fs_calls := k\<rparr>) = (unset_node p fs)\<lparr>fs_calls := k\<rparr>"
  by (simp_all add: set_node_def unset_node_def)

lemma node_at_calls [simp]: "node_at (fs\<lparr>fs_calls := n\<rparr>) q = node_at fs q"
  by (simp add: node_at_def)

subsection \<open>Frames\<close>

text \<open>\<open>fs'\<close> differs from \<open>fs\<close> at most at the paths of \<open>X\<close>, and new names are spelled as in \<open>X\<close>.\<close>

definition fs_frame :: "string list set \<Rightarrow> fs \<Rightarrow> fs \<Rightarrow> bool" where
  "fs_frame X fs fs' \<longleftrightarrow> fs_nocase fs' = fs_nocase fs \<and> fs_fault fs' = fs_fault fs \<and>
     fs_umask fs' = fs_umask fs \<and> fst ` set (fs_entries fs') \<subseteq> fst ` set (fs_entries fs) \<union> X \<and>
     (\<forall>q. (\<forall>p\<in>X. \<not> same_path (fs_nocase fs) q p) \<longrightarrow> node_at fs' q = node_at fs q)"

lemma fs_frame_refl [simp]: "fs_frame X fs fs" by (simp add: fs_frame_def)

lemma fs_frame_trans [trans]: "fs_frame X a b \<Longrightarrow> fs_frame X b c \<Longrightarrow> fs_frame X a c"
  using Un_least [of "fst ` set (fs_entries b)" _ "fst ` set (fs_entries a) \<union> X"]
  unfolding fs_frame_def by (elim conjE, intro conjI) (simp_all add: subset_iff, metis)

lemma fs_frame_mono: "fs_frame X a b \<Longrightarrow> X \<subseteq> Y \<Longrightarrow> fs_frame Y a b"
  unfolding fs_frame_def by blast

lemma fs_frame_node: "fs_frame X a b \<Longrightarrow> \<forall>p\<in>X. \<not> same_path (fs_nocase a) q p \<Longrightarrow> node_at b q = node_at a q"
  by (simp add: fs_frame_def)

lemma fs_frame_fields: "fs_frame X a b \<Longrightarrow> fs_nocase b = fs_nocase a \<and> fs_fault b = fs_fault a \<and> fs_umask b = fs_umask a"
  by (simp add: fs_frame_def)

lemma fs_frame_calls [simp]: "fs_frame X a (b\<lparr>fs_calls := n\<rparr>) = fs_frame X a b"
  "fs_frame X (a\<lparr>fs_calls := n\<rparr>) b = fs_frame X a b"
  by (simp_all add: fs_frame_def)

lemma put_node_names: "fst ` set (put_node c p n es) \<subseteq> insert p (fst ` set es)"
  by (induction c p n es rule: put_node.induct) auto

lemma del_node_names: "fst ` set (del_node c p es) \<subseteq> fst ` set es"
  by (induction c p es rule: del_node.induct) auto

lemma fs_frame_set_node:
  assumes "p \<noteq> []" "p \<in> X"
  shows "fs_frame X fs (set_node p n fs)"
proof -
  have "fst ` set (fs_entries (set_node p n fs)) \<subseteq> insert p (fst ` set (fs_entries fs))"
    using put_node_names by (simp add: set_node_def)
  also have "\<dots> \<subseteq> fst ` set (fs_entries fs) \<union> X" using assms(2) by auto
  finally show ?thesis using assms by (simp add: fs_frame_def)
qed

lemma fs_frame_unset_node:
  assumes "p \<noteq> []" "p \<in> X"
  shows "fs_frame X fs (unset_node p fs)"
proof -
  have "fst ` set (fs_entries (unset_node p fs)) \<subseteq> fst ` set (fs_entries fs)"
    using del_node_names by (simp add: unset_node_def)
  also have "\<dots> \<subseteq> fst ` set (fs_entries fs) \<union> X" by auto
  finally show ?thesis using assms by (simp add: fs_frame_def)
qed

text \<open>Every call of \<open>m\<close> stays within \<open>X\<close>, whatever it answers.\<close>

definition touches :: "string list set \<Rightarrow> (fs \<Rightarrow> 'r \<times> fs) \<Rightarrow> bool" where
  "touches X m \<longleftrightarrow> (\<forall>fs. fs_frame X fs (snd (m fs)))"

named_theorems touches_intros \<open>which paths a call may change\<close>

lemma touchesD: "touches X m \<Longrightarrow> m fs = (r, fs') \<Longrightarrow> fs_frame X fs fs'"
  by (metis snd_conv touches_def)

lemma touches_mono: "touches X m \<Longrightarrow> X \<subseteq> Y \<Longrightarrow> touches Y m"
  by (auto simp: touches_def intro: fs_frame_mono)

lemma touches_sbind [touches_intros]: "touches X m \<Longrightarrow> (\<And>a. touches X (f a)) \<Longrightarrow> touches X (sbind m f)"
  by (auto simp: touches_def sbind_def split: sum.splits prod.splits)
    (metis fs_frame_trans snd_conv)+

lemma touches_sreturn [touches_intros]: "touches X (sreturn a)" "touches X (sfail e)"
  by (simp_all add: touches_def sreturn_def sfail_def)

lemma touches_smap_err [touches_intros]: "touches X m \<Longrightarrow> touches X (smap_err g m)"
  by (auto simp: touches_def smap_err_def split: prod.splits) (metis snd_conv)

lemma touches_sfor [touches_intros]: "(\<And>x. x \<in> set xs \<Longrightarrow> touches X (f x)) \<Longrightarrow> touches X (sfor xs f)"
proof (induction xs)
  case (Cons x xs)
  then have "touches X (sbind (f x) (\<lambda>_. sfor xs f))" by (intro touches_sbind) auto
  then show ?case by (simp add: touches_def)
qed (simp add: touches_def)

lemma touches_fs_do: "touches X act \<Longrightarrow> touches X (fs_do k act)"
  by (auto simp: touches_def fs_do_def answer_def split: option.splits)
    (metis fs_frame_calls(2))

lemma touches_calls [touches_intros]:
  "p \<noteq> [] \<Longrightarrow> p \<in> X \<Longrightarrow> touches X (open_truncate p m)"
  "p \<noteq> [] \<Longrightarrow> p \<in> X \<Longrightarrow> touches X (set_mode p m)"
  "p \<noteq> [] \<Longrightarrow> p \<in> X \<Longrightarrow> touches X (fs_write_all p b)"
  "p \<noteq> [] \<Longrightarrow> p \<in> X \<Longrightarrow> touches X (remove_file p)"
  "p \<noteq> [] \<Longrightarrow> q \<noteq> [] \<Longrightarrow> p \<in> X \<Longrightarrow> q \<in> X \<Longrightarrow> touches X (fs_rename p q)"
  "touches X (metadata p)" "touches X (read_file p)" "touches X (fs_read_dir p)"
  "touches X sync_all" "touches X (open_dir p)"
  "p \<noteq> [] \<Longrightarrow> p \<in> X \<Longrightarrow> touches X (make_dir p)"
proof -
  have set: "fs_frame X fs (set_node p n fs)" if "p \<noteq> []" "p \<in> X" for p n fs
    using that by (rule fs_frame_set_node)
  have unset: "fs_frame X fs (unset_node p fs)" if "p \<noteq> []" "p \<in> X" for p fs
    using that by (rule fs_frame_unset_node)
  show "touches X (open_truncate p m)" if "p \<noteq> []" "p \<in> X" for p m
    using set [OF that] unfolding open_truncate_def
    by (intro touches_fs_do) (simp add: touches_def split: option.splits fs_node.splits)
  show "touches X (set_mode p m)" if "p \<noteq> []" "p \<in> X" for p m
    using set [OF that] unfolding set_mode_def
    by (intro touches_fs_do) (simp add: touches_def split: option.splits fs_node.splits)
  show "touches X (fs_write_all p b)" if "p \<noteq> []" "p \<in> X" for p b
    using set [OF that]
    by (simp add: touches_def fs_write_all_def append_bytes_def answer_def split: option.splits fs_node.splits)
  show "touches X (remove_file p)" if "p \<noteq> []" "p \<in> X" for p
    using unset [OF that] unfolding remove_file_def
    by (intro touches_fs_do) (simp add: touches_def split: option.splits fs_node.splits)
  show "touches X (fs_rename p q)" if "p \<noteq> []" "q \<noteq> []" "p \<in> X" "q \<in> X" for p q
    using fs_frame_trans [OF unset [OF that(1,3)] set [OF that(2,4)]] unfolding fs_rename_def
    by (intro touches_fs_do) (simp add: touches_def split: option.splits fs_node.splits)
  show "touches X (make_dir p)" if "p \<noteq> []" "p \<in> X" for p
    using set [OF that]
    by (simp add: touches_def make_dir_def fs_do_def answer_def split: option.splits fs_node.splits)
qed (auto simp: touches_def metadata_def read_file_def fs_read_dir_def sync_all_def open_dir_def
    fs_do_def answer_def sreturn_def split: option.splits fs_node.splits prod.splits)
lemma fold_name_length [simp]: "length (fold_name c s) = length s"
  by (simp add: fold_name_def to_ascii_lowercase_def)

lemma same_path_length: "same_path c p q \<Longrightarrow> map length p = map length q"
proof -
  assume "same_path c p q"
  then have "map length (map (fold_name c) p) = map length (map (fold_name c) q)"
    by (simp only: same_path_def)
  then show ?thesis by (simp add: comp_def)
qed

lemma create_dir_all_touches [touches_intros]:
  "set (map (\<lambda>i. take i p) [1..<Suc (length p)]) \<subseteq> X \<Longrightarrow> touches X (create_dir_all p)"
  unfolding create_dir_all_def by (intro touches_sfor touches_calls) (auto simp del: upt_Suc)

subsection \<open>Results of the calls\<close>

lemma sbind_Inr: "sbind m f s = (Inr b, s') \<longleftrightarrow> (\<exists>a s1. m s = (Inr a, s1) \<and> f a s1 = (Inr b, s'))"
  by (auto simp: sbind_def split: sum.splits prod.splits)

lemma sbind_Inl: "sbind m f s = (Inl e, s') \<longleftrightarrow>
    m s = (Inl e, s') \<or> (\<exists>a s1. m s = (Inr a, s1) \<and> f a s1 = (Inl e, s'))"
  by (auto simp: sbind_def split: sum.splits prod.splits)

lemma sbind_run: "m s = (Inr a, s1) \<Longrightarrow> sbind m f s = f a s1" "m s = (Inl e, s1) \<Longrightarrow> sbind m f s = (Inl e, s1)"
  by (simp_all add: sbind_def)

lemma smap_err_Inr [simp]: "smap_err g m s = (Inr a, s') \<longleftrightarrow> m s = (Inr a, s')"
  by (auto simp: smap_err_def map_err_def split: sum.splits prod.splits)

lemma smap_err_Inl: "smap_err g m s = (Inl e, s') \<longleftrightarrow> (\<exists>e0. m s = (Inl e0, s') \<and> e = g e0)"
  by (auto simp: smap_err_def map_err_def split: sum.splits prod.splits)

lemma fs_do_Inr: "fs_do k act fs = (Inr a, fs') \<longleftrightarrow>
    fs_fault fs k (fs_calls fs) = None \<and> act (fs\<lparr>fs_calls := fs_calls fs + 1\<rparr>) = (Inr a, fs')"
  by (auto simp: fs_do_def answer_def split: option.splits)

lemma open_truncate_ok:
  assumes "open_truncate p m fs = (Inr u, fs')"
  shows "\<exists>m'. node_at fs' p = Some (RegFile [] m')"
proof -
  have "p \<noteq> []" using assms by (auto simp: open_truncate_def fs_do_Inr parent_def)
  with assms show ?thesis
    by (auto simp: open_truncate_def fs_do_Inr split: if_splits option.splits fs_node.splits)
qed

lemma set_mode_ok:
  assumes "set_mode p m fs = (Inr u, fs')"
  shows "\<exists>b m0. node_at fs p = Some (RegFile b m0) \<and> node_at fs' p = Some (RegFile b m)"
proof -
  have "p \<noteq> []" using assms by (auto simp: set_mode_def fs_do_Inr)
  with assms show ?thesis
    by (auto simp: set_mode_def fs_do_Inr split: option.splits fs_node.splits)
qed

lemma fs_write_all_ok:
  assumes "fs_write_all p data fs = (Inr u, fs')" "node_at fs p = Some (RegFile b m)"
  shows "node_at fs' p = Some (RegFile (b @ data) m)"
proof -
  have "p \<noteq> []" using assms(2) by auto
  with assms show ?thesis
    by (auto simp: fs_write_all_def answer_def append_bytes_def split: option.splits)
qed

text \<open>Calls that change nothing.\<close>

lemma pure_calls:
  "sync_all fs = (r1, fs') \<Longrightarrow> fs_frame {} fs fs'" "open_dir p fs = (r1, fs') \<Longrightarrow> fs_frame {} fs fs'"
  "metadata p fs = (r2, fs') \<Longrightarrow> fs_frame {} fs fs'" "read_file p fs = (r3, fs') \<Longrightarrow> fs_frame {} fs fs'"
  "fs_read_dir p fs = (r4, fs') \<Longrightarrow> fs_frame {} fs fs'"
  by (rule touchesD [OF touches_calls(6)] touchesD [OF touches_calls(7)] touchesD [OF touches_calls(8)]
      touchesD [OF touches_calls(9)] touchesD [OF touches_calls(10)], assumption)+

lemma fs_frame_empty: "fs_frame {} fs fs' \<Longrightarrow> node_at fs' = node_at fs"
  by (auto simp: fs_frame_def)

text \<open>After an unlink that the kernel does not refuse, no file is left at the path.\<close>

definition file_at :: "fs \<Rightarrow> string list \<Rightarrow> (bytes \<times> u16) option" where
  "file_at fs p = (case node_at fs p of Some (RegFile b m) \<Rightarrow> Some (b, m) | _ \<Rightarrow> None)"

lemma file_at_eq: "node_at fs p = node_at fs' p' \<Longrightarrow> file_at fs p = file_at fs' p'"
  by (simp add: file_at_def)

lemma remove_file_gone:
  assumes "remove_file p fs = (r, fs')" "fs_fault fs OpUnlink (fs_calls fs) = None"
  shows "file_at fs' p = None"
proof (cases "p = []")
  case False
  with assms show ?thesis
    by (auto simp: remove_file_def fs_do_def answer_def file_at_def split: option.splits fs_node.splits)
qed (simp add: file_at_def)

lemma remove_file_ok:
  assumes "remove_file p fs = (Inr u, fs')"
  shows "node_at fs' p = None"
proof -
  have "p \<noteq> []" using assms by (auto simp: remove_file_def fs_do_Inr)
  with assms show ?thesis
    by (auto simp: remove_file_def fs_do_Inr split: option.splits fs_node.splits)
qed

lemma remove_file_else:
  "remove_file p fs = (r, fs') \<Longrightarrow> p \<noteq> [] \<Longrightarrow> \<not> same_path (fs_nocase fs) q p \<Longrightarrow> node_at fs' q = node_at fs q"
  using touches_calls(4) [of p "{p}"] by (auto dest: touchesD simp: fs_frame_def)

text \<open>Opening, setting the mode and writing leaves the file with exactly the bytes.\<close>

lemma fresh_file_ok:
  assumes "open_truncate p m fs = (Inr u1, fs1)" "set_mode p m' fs1 = (Inr u2, fs2)"
    "fs_write_all p data fs2 = (Inr u3, fs3)"
  shows "file_at fs3 p = Some (data, m')"
proof -
  obtain m0 where "node_at fs1 p = Some (RegFile [] m0)" using open_truncate_ok [OF assms(1)] by blast
  with set_mode_ok [OF assms(2)] have "node_at fs2 p = Some (RegFile [] m')" by auto
  from fs_write_all_ok [OF assms(3) this] show ?thesis by (simp add: file_at_def)
qed

end
