(* ===== verification/Mount.thy ===== *)
theory Mount
  imports Device Fs
begin

text \<open>
  The mount half of \<open>src/deploy.rs\<close>: \<open>with_private_mount\<close> and \<open>mount_write_unmount\<close>, over
  the kernel state they change. The work done on the mounted partition is an argument, an
  operation on the file system of one partition. \<open>makedev\<close> (\<open>nix\<close>) is an argument.
\<close>

section \<open>The kernel\<close>

text \<open>\<open>mount(2)\<close> flags.\<close>

definition MS_RDONLY :: u64 where "MS_RDONLY = 1"
definition MS_NOSUID :: u64 where "MS_NOSUID = 2"
definition MS_NODEV :: u64 where "MS_NODEV = 4"
definition MS_NOEXEC :: u64 where "MS_NOEXEC = 8"

record mount_entry =
  me_mountpoint :: string
  me_dev :: u64
  me_fstype :: string
  me_flags :: u64
  me_data :: "string option"

datatype sys_op = SysUnlink | SysMknod | SysMkdir | SysMount | SysUmount | SysDetach | SysRmdir

text \<open>
  Block nodes under \<open>/run\<close> with their device numbers, directories there, the mount table
  (latest first), every mount made so far, the file system of each block device, and the
  kernel's refusals: \<open>k_fault\<close> of the \<open>n\<close>-th call when it is of that kind.
\<close>

record kernel =
  k_nodes :: "(string \<times> u64) list"
  k_dirs :: "string list"
  k_mounts :: "mount_entry list"
  k_history :: "mount_entry list"
  k_parts :: "u64 \<Rightarrow> fs"
  k_calls :: nat
  k_fault :: "sys_op \<Rightarrow> nat \<Rightarrow> errno option"

type_synonym 'a sys_call = "kernel \<Rightarrow> (errno + 'a) \<times> kernel"

definition sys_do :: "sys_op \<Rightarrow> 'a sys_call \<Rightarrow> 'a sys_call" where
  "sys_do op act k = (let k' = k\<lparr>k_calls := k_calls k + 1\<rparr> in
     (case k_fault k op (k_calls k) of Some e \<Rightarrow> (Inl e, k') | None \<Rightarrow> act k'))"

definition unlink_node :: "string \<Rightarrow> unit sys_call" where
  "unlink_node path = sys_do SysUnlink (\<lambda>k.
     if map_of (k_nodes k) path = None then (Inl ENOENT, k)
     else (Inr (), k\<lparr>k_nodes := filter (\<lambda>(p, _). p \<noteq> path) (k_nodes k)\<rparr>))"

definition mknod_block :: "string \<Rightarrow> u64 \<Rightarrow> unit sys_call" where
  "mknod_block path devnum = sys_do SysMknod (\<lambda>k.
     if map_of (k_nodes k) path \<noteq> None then (Inl EEXIST, k)
     else (Inr (), k\<lparr>k_nodes := (path, devnum) # k_nodes k\<rparr>))"

definition make_mountpoint :: "string \<Rightarrow> unit sys_call" where
  "make_mountpoint mnt k = (if mnt \<in> set (k_dirs k) then (Inr (), k)
     else sys_do SysMkdir (\<lambda>k. (Inr (), k\<lparr>k_dirs := mnt # k_dirs k\<rparr>)) k)"

definition mount :: "string \<Rightarrow> string \<Rightarrow> string \<Rightarrow> u64 \<Rightarrow> string option \<Rightarrow> unit sys_call" where
  "mount node mnt fstype flags data = sys_do SysMount (\<lambda>k.
     (case map_of (k_nodes k) node of
        None \<Rightarrow> (Inl ENOENT, k)
      | Some devnum \<Rightarrow>
          if mnt \<notin> set (k_dirs k) then (Inl ENOENT, k)
          else (let me = \<lparr>me_mountpoint = mnt, me_dev = devnum, me_fstype = fstype,
                  me_flags = flags, me_data = data\<rparr>
            in (Inr (), k\<lparr>k_mounts := me # k_mounts k, k_history := me # k_history k\<rparr>))))"

definition mounted_on :: "kernel \<Rightarrow> string \<Rightarrow> mount_entry option" where
  "mounted_on k mnt = find (\<lambda>me. me_mountpoint me = mnt) (k_mounts k)"

definition umount2 :: "sys_op \<Rightarrow> string \<Rightarrow> unit sys_call" where
  "umount2 op mnt = sys_do op (\<lambda>k. (case mounted_on k mnt of
       None \<Rightarrow> (Inl EINVAL, k)
     | Some me \<Rightarrow> (Inr (), k\<lparr>k_mounts := remove1 me (k_mounts k)\<rparr>)))"

definition remove_dir :: "string \<Rightarrow> unit sys_call" where
  "remove_dir mnt = sys_do SysRmdir (\<lambda>k.
     if mnt \<notin> set (k_dirs k) then (Inl ENOENT, k)
     else if mounted_on k mnt \<noteq> None then (Inl EBUSY, k)
     else (Inr (), k\<lparr>k_dirs := removeAll mnt (k_dirs k)\<rparr>))"

text \<open>Work below a mountpoint acts on the device mounted there last.\<close>

definition on_mount :: "string \<Rightarrow> (fs \<Rightarrow> 'r \<times> fs) \<Rightarrow> 'r \<Rightarrow> kernel \<Rightarrow> 'r \<times> kernel" where
  "on_mount mnt work absent k = (case mounted_on k mnt of
       None \<Rightarrow> (absent, k)
     | Some me \<Rightarrow> (case work (k_parts k (me_dev me)) of
           (r, fs') \<Rightarrow> (r, k\<lparr>k_parts := (k_parts k)(me_dev me := fs')\<rparr>)))"

section \<open>The private mount\<close>

record private_mount =
  pm_part :: part
  pm_node :: string
  pm_mountpoint :: string
  pm_fstype :: string
  pm_data :: "string option"
  pm_read_only :: bool

definition OEM_MOUNTPOINT :: string where "OEM_MOUNTPOINT = ''/run/beskar7-oem''"
definition OEM_DEV_NODE :: string where "OEM_DEV_NODE = ''/run/beskar7-oem.dev''"

definition OEM_MOUNT :: private_mount where
  "OEM_MOUNT = \<lparr>pm_part = Oem, pm_node = OEM_DEV_NODE, pm_mountpoint = OEM_MOUNTPOINT,
     pm_fstype = ''ext4'', pm_data = None, pm_read_only = False\<rparr>"

definition ESP_MOUNT :: private_mount where
  "ESP_MOUNT = \<lparr>pm_part = Esp, pm_node = ''/run/beskar7-esp.dev'', pm_mountpoint = ''/run/beskar7-esp'',
     pm_fstype = ''vfat'', pm_data = Some ''codepage=437,iocharset=ascii'', pm_read_only = False\<rparr>"

definition mount_flags :: "private_mount \<Rightarrow> u64" where
  "mount_flags spec = (let flags = or (or MS_NODEV MS_NOSUID) MS_NOEXEC in
     if pm_read_only spec then or flags MS_RDONLY else flags)"

text \<open>The eager unmount, or the lazy one and the eager one's error.\<close>

definition unmount :: "private_mount \<Rightarrow> kernel \<Rightarrow> (deploy_error + unit) \<times> kernel" where
  "unmount spec k = (case umount2 SysUmount (pm_mountpoint spec) k of
       (Inr _, k) \<Rightarrow> (Inr (), k)
     | (Inl eager, k) \<Rightarrow>
         (Inl (UnmountFailed (pm_part spec) (pm_mountpoint spec) eager),
          signore (umount2 SysDetach (pm_mountpoint spec)) k))"

text \<open>
  The work runs only after a successful mount, so the answer for an empty mountpoint is
  never used.
\<close>

definition mount_write_unmount ::
  "private_mount \<Rightarrow> string \<Rightarrow> string \<Rightarrow> (fs \<Rightarrow> (deploy_error + 'a) \<times> fs) \<Rightarrow>
     kernel \<Rightarrow> (deploy_error + 'a) \<times> kernel" where
  "mount_write_unmount spec node dev work k =
     (let mnt = pm_mountpoint spec in
      case make_mountpoint mnt k of
        (Inl e, k) \<Rightarrow> (Inl (Mountpoint (pm_part spec) mnt (OsError e)), k)
      | (Inr _, k) \<Rightarrow>
          (case mount node mnt (pm_fstype spec) (mount_flags spec) (pm_data spec) k of
             (Inl e, k) \<Rightarrow> (Inl (MountFailed (pm_part spec) dev e), signore (remove_dir mnt) k)
           | (Inr _, k) \<Rightarrow>
               (case on_mount mnt work (Inl (MountFailed (pm_part spec) dev ENOENT)) k of
                  (written, k) \<Rightarrow>
                    (case unmount spec k of
                       (unmounted, k) \<Rightarrow>
                         (rbind written (\<lambda>a. rbind unmounted (\<lambda>_. Inr a)),
                          signore (remove_dir mnt) k)))))"

definition with_private_mount ::
  "(u64 \<Rightarrow> u64 \<Rightarrow> u64) \<Rightarrow> private_mount \<Rightarrow> string \<Rightarrow> string \<Rightarrow> (fs \<Rightarrow> (deploy_error + 'a) \<times> fs) \<Rightarrow>
     kernel \<Rightarrow> (deploy_error + 'a) \<times> kernel" where
  "with_private_mount makedev spec dev dev_number work k =
     (case parse_dev_number makedev dev_number of
        None \<Rightarrow> (Inl (BadDeviceNumber dev), k)
      | Some devnum \<Rightarrow>
          (case mknod_block (pm_node spec) devnum (signore (unlink_node (pm_node spec)) k) of
             (Inl e, k) \<Rightarrow> (Inl (MakeNode (pm_part spec) dev e), k)
           | (Inr _, k) \<Rightarrow>
               (case mount_write_unmount spec (pm_node spec) dev work k of
                  (result, k) \<Rightarrow> (result, signore (unlink_node (pm_node spec)) k))))"

section \<open>Lemmas\<close>

text \<open>The fields a call on the nodes and directories leaves alone.\<close>

definition same_mounts :: "kernel \<Rightarrow> kernel \<Rightarrow> bool" where
  "same_mounts k k' \<longleftrightarrow> k_mounts k' = k_mounts k \<and> k_history k' = k_history k \<and>
     k_parts k' = k_parts k \<and> k_fault k' = k_fault k"

lemma same_mounts_trans [trans]: "same_mounts a b \<Longrightarrow> same_mounts b c \<Longrightarrow> same_mounts a c"
  by (simp add: same_mounts_def)

lemma same_mounts_calls:
  "same_mounts k (snd (unlink_node p k))" "same_mounts k (snd (mknod_block p d k))"
  "same_mounts k (snd (make_mountpoint m k))" "same_mounts k (snd (remove_dir m k))"
  by (simp_all add: same_mounts_def unlink_node_def mknod_block_def make_mountpoint_def remove_dir_def
      sys_do_def Let_def split: option.splits)

lemma unlink_node_gone:
  "unlink_node p k = (r, k') \<Longrightarrow> map_of (k_nodes k') p = None \<or> k_fault k SysUnlink (k_calls k) \<noteq> None"
  by (auto simp: unlink_node_def sys_do_def Let_def map_of_eq_None_iff split: option.splits if_splits)

lemma mknod_block_ok:
  "mknod_block p d k = (Inr u, k') \<Longrightarrow> map_of (k_nodes k') p = Some d"
  by (auto simp: mknod_block_def sys_do_def Let_def split: option.splits if_splits)

lemma mknod_block_fails:
  "mknod_block p d k = (Inl e, k') \<Longrightarrow> k_nodes k' = k_nodes k"
  by (auto simp: mknod_block_def sys_do_def Let_def split: option.splits if_splits)

lemma make_mountpoint_nodes: "k_nodes (snd (make_mountpoint m k)) = k_nodes k"
  by (simp add: make_mountpoint_def sys_do_def Let_def split: option.splits)

lemma mount_ok:
  assumes "mount node mnt fstype flags data k = (Inr u, k')"
  shows "\<exists>d. map_of (k_nodes k) node = Some d \<and>
    (let me = \<lparr>me_mountpoint = mnt, me_dev = d, me_fstype = fstype, me_flags = flags, me_data = data\<rparr>
     in k_mounts k' = me # k_mounts k \<and> k_history k' = me # k_history k) \<and>
    k_parts k' = k_parts k \<and> k_fault k' = k_fault k \<and> k_nodes k' = k_nodes k"
  using assms by (auto simp: mount_def sys_do_def Let_def split: option.splits if_splits)

lemma mount_fails: "mount node mnt fstype flags data k = (Inl e, k') \<Longrightarrow> same_mounts k k'"
  by (auto simp: mount_def sys_do_def same_mounts_def Let_def split: option.splits if_splits)

text \<open>After \<open>unmount\<close>, the top mount is gone unless the kernel refused both calls.\<close>

lemma unmount_top:
  assumes "unmount spec k = (r, k')" "k_mounts k = me # ms" "me_mountpoint me = pm_mountpoint spec"
  shows "k_history k' = k_history k \<and> k_parts k' = k_parts k \<and> k_fault k' = k_fault k \<and>
    (if is_ok r then k_mounts k' = ms
     else (\<exists>e. r = Inl (UnmountFailed (pm_part spec) (pm_mountpoint spec) e)) \<and>
       (k_mounts k' = ms \<or> (\<exists>n e e'. k_fault k SysUmount n = Some e \<and> k_fault k SysDetach (n + 1) = Some e')))"
  using assms
  by (auto simp: unmount_def umount2_def sys_do_def signore_def mounted_on_def Let_def
      split: option.splits prod.splits sum.splits)

lemma mount_flags_safe:
  "and (mount_flags spec) (or (or MS_NODEV MS_NOSUID) MS_NOEXEC) = or (or MS_NODEV MS_NOSUID) MS_NOEXEC"
  by (simp add: mount_flags_def MS_RDONLY_def MS_NODEV_def MS_NOSUID_def MS_NOEXEC_def Let_def)

text \<open>What one mount of the device \<open>d\<close> per \<open>spec\<close> may do.\<close>

definition mount_of :: "private_mount \<Rightarrow> u64 \<Rightarrow> mount_entry" where
  "mount_of spec d = \<lparr>me_mountpoint = pm_mountpoint spec, me_dev = d, me_fstype = pm_fstype spec,
     me_flags = mount_flags spec, me_data = pm_data spec\<rparr>"

definition unmount_refused :: "kernel \<Rightarrow> bool" where
  "unmount_refused k \<longleftrightarrow>
     (\<exists>n e e'. k_fault k SysUmount n = Some e \<and> k_fault k SysDetach (n + 1) = Some e')"

definition mount_effect ::
  "private_mount \<Rightarrow> u64 \<Rightarrow> (fs \<Rightarrow> (deploy_error + 'a) \<times> fs) \<Rightarrow> kernel \<Rightarrow> deploy_error + 'a \<Rightarrow> kernel \<Rightarrow> bool" where
  "mount_effect spec d work k r k' \<longleftrightarrow> k_fault k' = k_fault k \<and>
     (if k_history k' = k_history k then \<not> is_ok r \<and> k_mounts k' = k_mounts k \<and> k_parts k' = k_parts k
      else k_history k' = mount_of spec d # k_history k \<and>
        k_parts k' = (k_parts k)(d := snd (work (k_parts k d))) \<and>
        (k_mounts k' = k_mounts k \<or> unmount_refused k) \<and>
        (case r of
           Inr a \<Rightarrow> fst (work (k_parts k d)) = Inr a \<and> k_mounts k' = k_mounts k
         | Inl e \<Rightarrow> fst (work (k_parts k d)) = Inl e \<or> is_ok (fst (work (k_parts k d))) \<and>
             (\<exists>errno. e = UnmountFailed (pm_part spec) (pm_mountpoint spec) errno)))"

lemma mount_effect_cong:
  "same_mounts a b \<Longrightarrow> mount_effect spec d work b r k' \<Longrightarrow> mount_effect spec d work a r k'"
  "same_mounts k' k'' \<Longrightarrow> mount_effect spec d work a r k' \<Longrightarrow> mount_effect spec d work a r k''"
  by (cases r; auto simp: same_mounts_def mount_effect_def unmount_refused_def)+

lemma mount_effect_none: "same_mounts k k' \<Longrightarrow> mount_effect spec d work k (Inl e) k'"
  by (simp add: same_mounts_def mount_effect_def)

lemma mount_write_unmount_effect:
  assumes "mount_write_unmount spec node dev work k = (r, k')" "map_of (k_nodes k) node = Some d"
  shows "mount_effect spec d work k r k'"
proof -
  let ?mnt = "pm_mountpoint spec"
  obtain r1 k1 where mk: "make_mountpoint ?mnt k = (r1, k1)" by fastforce
  then have s1: "same_mounts k k1" "k_nodes k1 = k_nodes k"
    using same_mounts_calls(3) [of k ?mnt] make_mountpoint_nodes [of ?mnt k] by simp_all
  show ?thesis
  proof (cases r1)
    case (Inl e)
    with mk assms(1) s1 show ?thesis by (auto simp: mount_write_unmount_def Let_def intro: mount_effect_none)
  next
    case r1: (Inr u1)
    obtain r2 k2 where mt: "mount node ?mnt (pm_fstype spec) (mount_flags spec) (pm_data spec) k1 = (r2, k2)"
      by fastforce
    show ?thesis
    proof (cases r2)
      case (Inl e)
      with mt have "same_mounts k1 k2" by (auto dest: mount_fails)
      with s1 have "same_mounts k (signore (remove_dir ?mnt) k2)"
        using same_mounts_calls(4) [of k2 ?mnt] same_mounts_trans by (metis signore_def)
      with Inl mk r1 mt assms(1) show ?thesis
        by (auto simp: mount_write_unmount_def Let_def intro: mount_effect_none)
    next
      case r2: (Inr u2)
      then have m: "k_mounts k2 = mount_of spec d # k_mounts k1" "k_history k2 = mount_of spec d # k_history k1"
          "k_parts k2 = k_parts k1" "k_fault k2 = k_fault k1"
        using mt mount_ok [of node ?mnt] assms(2) s1(2) by (fastforce simp: Let_def mount_of_def)+
      then have "mounted_on k2 ?mnt = Some (mount_of spec d)"
        by (simp add: mounted_on_def mount_of_def)
      moreover obtain w fs' where w: "work (k_parts k1 d) = (w, fs')" by fastforce
      ultimately have on: "on_mount ?mnt work (Inl (MountFailed (pm_part spec) dev ENOENT)) k2 =
          (w, k2\<lparr>k_parts := (k_parts k1)(d := fs')\<rparr>)" (is "_ = (w, ?k3)")
        using m(3) by (simp add: on_mount_def mount_of_def)
      obtain r4 k4 where un: "unmount spec ?k3 = (r4, k4)" by fastforce
      note top = unmount_top [OF un, of "mount_of spec d" "k_mounts k1"]
      have r': "r = rbind w (\<lambda>a. rbind r4 (\<lambda>_. Inr a))" "k' = signore (remove_dir ?mnt) k4"
        using assms(1) mk r1 mt r2 on un by (simp_all add: mount_write_unmount_def Let_def)
      have "mount_effect spec d work k1 r k4"
        using top m w unfolding mount_effect_def unmount_refused_def r'
        by (cases w; cases r4) (auto simp: mount_of_def)
      with s1(1) show ?thesis unfolding r' signore_def
        by (meson mount_effect_cong same_mounts_calls(4))
    qed
  qed
qed

lemma with_private_mount_effect:
  assumes "with_private_mount makedev spec dev dev_number work k = (r, k')"
    "parse_dev_number makedev dev_number = Some d"
  shows "mount_effect spec d work k r k' \<and>
    (map_of (k_nodes k') (pm_node spec) = None \<or> (\<exists>n e. k_fault k SysUnlink n = Some e))"
proof -
  let ?n = "pm_node spec"
  define k0 where "k0 = signore (unlink_node ?n) k"
  obtain r1 k1 where mk: "mknod_block ?n d k0 = (r1, k1)" by fastforce
  have s0: "same_mounts k k0" "same_mounts k0 k1"
    using same_mounts_calls(1) [of k ?n] same_mounts_calls(2) [of k0 ?n d] mk by (simp_all add: k0_def signore_def)
  have gone: "map_of (k_nodes k0) ?n = None \<or> (\<exists>n e. k_fault k SysUnlink n = Some e)"
    using unlink_node_gone [of ?n k "fst (unlink_node ?n k)" k0] by (auto simp: k0_def signore_def)
  show ?thesis
  proof (cases r1)
    case (Inl e)
    with mk s0 gone assms show ?thesis
      by (auto simp: with_private_mount_def k0_def [symmetric]
          intro: mount_effect_none same_mounts_trans dest: mknod_block_fails)
  next
    case (Inr u)
    obtain r2 k2 where mw: "mount_write_unmount spec ?n dev work k1 = (r2, k2)" by fastforce
    then have eff: "mount_effect spec d work k1 r2 k2"
      using mk Inr by (auto intro: mount_write_unmount_effect dest: mknod_block_ok)
    define k3 where "k3 = signore (unlink_node ?n) k2"
    have eq: "r = r2" "k' = k3"
      using assms mk Inr mw by (simp_all add: with_private_mount_def k0_def [symmetric] k3_def)
    have "mount_effect spec d work k r2 k3"
      using eff s0 same_mounts_calls(1) [of k2 ?n] unfolding k3_def signore_def
      by (meson mount_effect_cong same_mounts_trans)
    moreover have "map_of (k_nodes k3) ?n = None \<or> (\<exists>n e. k_fault k2 SysUnlink n = Some e)"
      using unlink_node_gone [of ?n k2 "fst (unlink_node ?n k2)" k3] by (auto simp: k3_def signore_def)
    moreover have "k_fault k2 = k_fault k"
      using eff s0 by (simp add: mount_effect_def same_mounts_def)
    ultimately show ?thesis using eq by simp
  qed
qed

lemma with_private_mount_bad:
  "parse_dev_number makedev dev_number = None \<Longrightarrow>
     with_private_mount makedev spec dev dev_number work k = (Inl (BadDeviceNumber dev), k)"
  by (simp add: with_private_mount_def)

section \<open>Properties\<close>

text \<open>
  C13: the private mount. Without a parsable device number nothing happens. Otherwise at most
  one mount is made, of exactly the device with the given number, with the device, setuid and
  exec bits masked off, and only that device's file system changes, by one run of the work.
  A success is a success of the work, with the mount table as before; the mount also goes
  away on every failure unless the kernel refuses the eager unmount and then the lazy one;
  and the device node is gone at the end unless the kernel refuses to unlink it.
\<close>

theorem private_mount_lifecycle:
  "case with_private_mount makedev spec dev dev_number work k of (r, k') \<Rightarrow>
     (case parse_dev_number makedev dev_number of
        None \<Rightarrow> r = Inl (BadDeviceNumber dev) \<and> k' = k
      | Some d \<Rightarrow> mount_effect spec d work k r k' \<and>
          and (me_flags (mount_of spec d)) (or (or MS_NODEV MS_NOSUID) MS_NOEXEC) =
            or (or MS_NODEV MS_NOSUID) MS_NOEXEC \<and>
          (map_of (k_nodes k') (pm_node spec) = None \<or>
           (\<exists>n e. k_fault k SysUnlink n = Some e)))"
  using with_private_mount_effect [of makedev spec dev dev_number work k] mount_flags_safe [of spec]
  by (simp add: with_private_mount_bad mount_of_def split: prod.splits option.splits)

end
