(* ===== verification/Oem.thy ===== *)
theory Oem
  imports Device
begin

text \<open>
  \<open>src/oem.rs\<close>: finding the \<open>COS_OEM\<close> partition among the target disk's own partitions, by
  the label in the ext superblock. The \<open>/sys/block\<close> tree and what reading a partition
  returns are arguments.
\<close>

definition OEM_LABEL :: string where "OEM_LABEL = ''COS_OEM''"
definition EXT_SB_OFFSET :: nat where "EXT_SB_OFFSET = 1024"
definition EXT_MAGIC_OFFSET :: nat where "EXT_MAGIC_OFFSET = EXT_SB_OFFSET + 0x38"
definition EXT_MAGIC :: u16 where "EXT_MAGIC = 0xEF53"
definition EXT_LABEL_OFFSET :: nat where "EXT_LABEL_OFFSET = EXT_SB_OFFSET + 0x78"
definition EXT_LABEL_LEN :: nat where "EXT_LABEL_LEN = 16"
definition SUPERBLOCK_READ_BYTES :: nat where "SUPERBLOCK_READ_BYTES = 2048"

lemmas ext_layout_defs = EXT_SB_OFFSET_def EXT_MAGIC_OFFSET_def EXT_LABEL_OFFSET_def EXT_LABEL_LEN_def

record oem_partition =
  oem_kname :: string
  oem_dev_number :: string

definition oem_dev_path :: "oem_partition \<Rightarrow> string" where
  "oem_dev_path p = ''/dev/'' @ oem_kname p"

datatype oem_error = NoPartitions string | OemNotFound string

section \<open>The partitions of a disk\<close>

definition target_partitions :: "fsnode \<Rightarrow> string \<Rightarrow> string list" where
  "target_partitions d disk = (case read_dir d [disk] of
       None \<Rightarrow> []
     | Some entries \<Rightarrow>
         sort (filter (\<lambda>name. path_exists d [disk, name, ''partition'']) (utf8_names entries)))"

section \<open>The ext label\<close>

definition ext_label :: "bytes \<Rightarrow> string option" where
  "ext_label buf =
     (if length buf < EXT_LABEL_OFFSET + EXT_LABEL_LEN then None
      else if u16_le [buf ! EXT_MAGIC_OFFSET, buf ! (EXT_MAGIC_OFFSET + 1)] \<noteq> EXT_MAGIC then None
      else (let raw = take EXT_LABEL_LEN (drop EXT_LABEL_OFFSET buf);
                end_pos = unwrap_or (position (\<lambda>b. b = 0) raw) (length raw)
        in Option.bind (from_utf8 (of_bytes (take end_pos raw)))
             (\<lambda>label. if label \<noteq> [] then Some label else None)))"

text \<open>
  \<open>read_up_to\<close> over the answers of the reader: each gives a count of bytes, capped at the
  room left, of the stream \<open>src\<close>, or an error. Past the list the reader is at its end.
\<close>

fun read_up_to :: "(io_error + bytes) list \<Rightarrow> nat \<Rightarrow> bytes \<Rightarrow> io_error + bytes" where
  "read_up_to [] len buf = Inr buf"
| "read_up_to (a # as) len buf =
     (if length buf < len
      then (case a of
          Inr chunk \<Rightarrow> if chunk = [] then Inr buf
            else read_up_to as len (buf @ take (len - length buf) chunk)
        | Inl e \<Rightarrow> if e = OsError EINTR then read_up_to as len buf else Inl e)
      else Inr buf)"

definition read_ext_label_of_device ::
  "(string \<Rightarrow> io_error + (io_error + bytes) list) \<Rightarrow> string \<Rightarrow> string option" where
  "read_ext_label_of_device open_read part_kname =
     Option.bind (result_ok (open_read (''/dev/'' @ part_kname))) (\<lambda>reader.
     Option.bind (result_ok (read_up_to reader SUPERBLOCK_READ_BYTES [])) ext_label)"

section \<open>The locator\<close>

definition find_oem_in ::
  "fsnode \<Rightarrow> string \<Rightarrow> (string \<Rightarrow> string option) \<Rightarrow> oem_error + oem_partition" where
  "find_oem_in d disk label_of = (let parts = target_partitions d disk in
     if parts = [] then Inl (NoPartitions disk)
     else (case find (\<lambda>part. label_of part = Some OEM_LABEL) parts of
         Some part \<Rightarrow> Inr \<lparr>oem_kname = part,
           oem_dev_number = unwrap_or (read_trimmed d [disk, part, ''dev'']) []\<rparr>
       | None \<Rightarrow> Inl (OemNotFound disk)))"

definition find_oem_partition ::
  "fsnode \<Rightarrow> (string \<Rightarrow> io_error + (io_error + bytes) list) \<Rightarrow> target_disk \<Rightarrow> oem_error + oem_partition" where
  "find_oem_partition d open_read target =
     find_oem_in d (t_kname target) (read_ext_label_of_device open_read)"

section \<open>Lemmas\<close>

lemma target_partitions_child:
  "p \<in> set (target_partitions d disk) \<Longrightarrow> path_exists d [disk, p, ''partition'']"
  by (auto simp: target_partitions_def utf8_names_def split: option.splits)

lemma sorted_target_partitions [simp]: "sorted (target_partitions d disk)"
  by (simp add: target_partitions_def split: option.splits)

text \<open>A superblock prefix with a given magic and label, and what \<open>ext_label\<close> reads from it.\<close>

definition superblock :: "bytes \<Rightarrow> u16 \<Rightarrow> bytes \<Rightarrow> bytes \<Rightarrow> bytes \<Rightarrow> bytes" where
  "superblock pre magic mid label rest = pre @ u16_to_le magic @ mid @ label @ rest"

lemma u16_to_le_pair: "u16_to_le w = [u16_to_le w ! 0, u16_to_le w ! 1]"
  by (simp add: u16_to_le_def numeral_2_eq_2)

lemma nth_app_right: "length xs = n \<Longrightarrow> (xs @ ys) ! n = ys ! 0"
  "length xs = n \<Longrightarrow> (xs @ ys) ! (n + 1) = ys ! 1"
  by (simp_all add: nth_append)

lemma position_app_first: "P x \<Longrightarrow> \<forall>y\<in>set ys. \<not> P y \<Longrightarrow> position P (ys @ x # zs) = Some (length ys)"
  by (induction ys) auto

lemma superblock_label:
  assumes "length pre = 1080" "length mid = 62" "length (label @ pad) = 16"
    and "\<forall>b\<in>set label. b \<noteq> 0" "\<forall>b\<in>set pad. b = 0"
  shows "ext_label (superblock pre magic mid (label @ pad) rest) =
    (if magic \<noteq> EXT_MAGIC then None
     else Option.bind (from_utf8 (of_bytes label)) (\<lambda>l. if l \<noteq> [] then Some l else None))"
proof -
  let ?b = "superblock pre magic mid (label @ pad) rest"
  have raw: "take EXT_LABEL_LEN (drop EXT_LABEL_OFFSET ?b) = label @ pad"
    using assms(1-3) by (simp add: superblock_def ext_layout_defs)
  have magic: "u16_le [?b ! EXT_MAGIC_OFFSET, ?b ! (EXT_MAGIC_OFFSET + 1)] = magic"
  proof -
    have m: "?b ! EXT_MAGIC_OFFSET = u16_to_le magic ! 0" "?b ! (EXT_MAGIC_OFFSET + 1) = u16_to_le magic ! 1"
      using assms(1) by (simp_all add: superblock_def ext_layout_defs nth_append)
    show ?thesis unfolding m u16_to_le_pair [symmetric] by simp
  qed
  have pos: "take (unwrap_or (position (\<lambda>b. b = 0) (label @ pad)) (length (label @ pad))) (label @ pad) = label"
  proof (cases pad)
    case Nil
    then have "position (\<lambda>b. b = 0) (label @ pad) = None" using assms(4) by (simp add: position_None)
    with Nil show ?thesis by simp
  next
    case (Cons x zs)
    then have "position (\<lambda>b. b = 0) (label @ pad) = Some (length label)"
      using assms(4,5) by (simp add: position_app_first)
    then show ?thesis by simp
  qed
  have len: "\<not> length ?b < EXT_LABEL_OFFSET + EXT_LABEL_LEN"
    using assms(1-3) by (simp add: superblock_def ext_layout_defs)
  show ?thesis
    unfolding ext_label_def raw magic Let_def pos using len by simp
qed

section \<open>Properties\<close>

lemma find_first_sorted:
  assumes "find P xs = Some x" "sorted (xs :: 'a :: linorder list)"
  shows "x \<in> set xs \<and> P x \<and> filter (\<lambda>y. P y \<and> y < x) xs = []"
proof -
  from assms(1) obtain us vs where u: "xs = us @ x # vs" "P x" "\<forall>u\<in>set us. \<not> P u"
    by (auto simp: find_eq_Some_split)
  with assms(2) have "\<forall>v\<in>set vs. \<not> v < x" by (auto simp: sorted_append)
  with u show ?thesis by (auto simp: filter_empty_conv)
qed

text \<open>
  C21: the located \<open>COS_OEM\<close> partition is a partition directory of the target disk itself,
  with that label in its superblock and the device number its own \<open>dev\<close> attribute gives; it
  is the first such in name order. Without one the search fails, and never looks elsewhere.
\<close>

theorem find_oem_confined:
  "case find_oem_partition d open_read t of
     Inr p \<Rightarrow> path_exists d [t_kname t, oem_kname p, ''partition''] \<and>
       read_ext_label_of_device open_read (oem_kname p) = Some ''COS_OEM'' \<and>
       oem_dev_number p = unwrap_or (read_trimmed d [t_kname t, oem_kname p, ''dev'']) [] \<and>
       filter (\<lambda>q. q < oem_kname p \<and> read_ext_label_of_device open_read q = Some ''COS_OEM'')
         (target_partitions d (t_kname t)) = []
   | Inl e \<Rightarrow> e = (if target_partitions d (t_kname t) = [] then NoPartitions (t_kname t)
         else OemNotFound (t_kname t)) \<and>
       filter (\<lambda>q. read_ext_label_of_device open_read q = Some ''COS_OEM'')
         (target_partitions d (t_kname t)) = []"
proof -
  let ?P = "\<lambda>q. read_ext_label_of_device open_read q = Some ''COS_OEM''"
  let ?ps = "target_partitions d (t_kname t)"
  show ?thesis
  proof (cases "find ?P ?ps")
    case None
    then have "filter ?P ?ps = []" by (simp add: find_eq_None filter_empty_conv)
    with None show ?thesis by (simp add: find_oem_partition_def find_oem_in_def OEM_LABEL_def)
  next
    case (Some p)
    then have "p \<in> set ?ps" "?P p" "filter (\<lambda>y. ?P y \<and> y < p) ?ps = []"
      using find_first_sorted [OF Some] by simp_all
    then have "?ps \<noteq> []" "path_exists d [t_kname t, p, ''partition'']"
        "filter (\<lambda>y. y < p \<and> ?P y) ?ps = []"
      by (auto dest: target_partitions_child simp: conj_commute)
    with Some \<open>?P p\<close> show ?thesis
      by (simp add: find_oem_partition_def find_oem_in_def OEM_LABEL_def Let_def)
  qed
qed

text \<open>
  \<open>ext_label\<close> reads the ext superblock: the magic number at bytes 1080--1081 gates it and
  the label is the 16-byte field at byte 1144 up to its first NUL, when that is not empty and
  valid UTF-8, whatever the rest of the superblock holds.
\<close>

lemma ext_label_superblock:
  assumes "length pre = 1080" "length mid = 62" "length (label @ pad) = 16"
    and "\<forall>b\<in>set label. b \<noteq> 0" "\<forall>b\<in>set pad. b = 0"
  shows "ext_label (superblock pre magic mid (label @ pad) rest) =
      (if magic \<noteq> EXT_MAGIC then None
       else Option.bind (from_utf8 (of_bytes label)) (\<lambda>l. if l \<noteq> [] then Some l else None)) \<and>
    (length short < 1160 \<longrightarrow> ext_label short = None)"
  using superblock_label [OF assms] by (simp add: ext_label_def ext_layout_defs)

lemma from_utf8_ascii: "ascii s \<Longrightarrow> from_utf8 s = Some s"
  by (simp add: from_utf8_def utf8_valid_ascii)

lemma ext_label_superblock_witness:
  "ext_label (superblock (replicate 1080 0) EXT_MAGIC (replicate 62 7)
     (as_bytes ''COS_OEM'' @ replicate 9 0) [1, 2, 3]) = Some ''COS_OEM''"
proof -
  have nz: "\<forall>b\<in>set (as_bytes ''COS_OEM''). b \<noteq> 0"
    by (simp add: as_bytes_def char_byte_def)
  have "ascii ''COS_OEM''" by (simp add: ascii_def)
  then have u: "from_utf8 ''COS_OEM'' = Some ''COS_OEM''" by (rule from_utf8_ascii)
  have "ext_label (superblock (replicate 1080 0) EXT_MAGIC (replicate 62 7)
      (as_bytes ''COS_OEM'' @ replicate 9 0) [1, 2, 3]) =
    (if EXT_MAGIC \<noteq> EXT_MAGIC then None
     else Option.bind (from_utf8 (of_bytes (as_bytes ''COS_OEM''))) (\<lambda>l. if l \<noteq> [] then Some l else None))"
    by (rule conjunct1 [OF ext_label_superblock]) (use nz in auto)
  then show ?thesis by (simp only: of_bytes_as_bytes u refl not_True_eq_False if_False) simp
qed

end
