(* ===== verification/Inject.thy ===== *)
theory Inject
  imports Mount Oem
begin

text \<open>
  The \<open>COS_OEM\<close> half of \<open>src/deploy.rs\<close>: the per-host config and the provider id, written in
  one mount session and removed again when either fails.
\<close>

definition OEM_CONFIG_FILENAME :: string where "OEM_CONFIG_FILENAME = ''99_beskar7.yaml''"
definition OEM_PROVIDER_ID_SUBDIR :: string where "OEM_PROVIDER_ID_SUBDIR = ''beskar7''"
definition OEM_PROVIDER_ID_FILENAME :: string where "OEM_PROVIDER_ID_FILENAME = ''provider-id''"

text \<open>The mode \<open>0o600\<close>.\<close>

definition PRIVATE_MODE :: u16 where "PRIVATE_MODE = 0x180"

definition write_and_sync_config :: "string list \<Rightarrow> bytes \<Rightarrow> fs \<Rightarrow> (deploy_error + unit) \<times> fs" where
  "write_and_sync_config mount_dir contents =
     (let path = mount_dir @ [OEM_CONFIG_FILENAME] in
      smap_err ConfigWrite
        (sbind (open_truncate path PRIVATE_MODE) (\<lambda>_.
         sbind (set_mode path PRIVATE_MODE) (\<lambda>_.
         sbind (fs_write_all path contents) (\<lambda>_.
         sbind sync_all (\<lambda>_.
         sbind (open_dir mount_dir) (\<lambda>_. sync_all)))))))"

definition write_and_sync_provider_id :: "string list \<Rightarrow> string \<Rightarrow> fs \<Rightarrow> (deploy_error + unit) \<times> fs" where
  "write_and_sync_provider_id mount_dir provider_id =
     (let dir = mount_dir @ [OEM_PROVIDER_ID_SUBDIR]; path = dir @ [OEM_PROVIDER_ID_FILENAME] in
      smap_err ProviderIdWrite
        (sbind (create_dir_all dir) (\<lambda>_.
         sbind (open_truncate path PRIVATE_MODE) (\<lambda>_.
         sbind (set_mode path PRIVATE_MODE) (\<lambda>_.
         sbind (fs_write_all path (as_bytes provider_id)) (\<lambda>_.
         sbind sync_all (\<lambda>_.
         sbind (open_dir dir) (\<lambda>_.
         sbind sync_all (\<lambda>_.
         sbind (open_dir mount_dir) (\<lambda>_. sync_all))))))))))"

text \<open>The closure of \<open>inject_oem_config\<close>.\<close>

definition inject_files :: "bytes \<Rightarrow> string \<Rightarrow> string list \<Rightarrow> fs \<Rightarrow> (deploy_error + unit) \<times> fs" where
  "inject_files user_data provider_id mnt fs =
     (case sbind (write_and_sync_config mnt user_data)
             (\<lambda>_. write_and_sync_provider_id mnt provider_id) fs of
        (Inr u, fs) \<Rightarrow> (Inr u, fs)
      | (Inl e, fs) \<Rightarrow>
          (Inl e, signore (remove_file (mnt @ [OEM_PROVIDER_ID_SUBDIR, OEM_PROVIDER_ID_FILENAME]))
            (signore (remove_file (mnt @ [OEM_CONFIG_FILENAME])) fs)))"

definition inject_oem_config ::
  "(u64 \<Rightarrow> u64 \<Rightarrow> u64) \<Rightarrow> oem_partition \<Rightarrow> bytes \<Rightarrow> string \<Rightarrow> kernel \<Rightarrow> (deploy_error + unit) \<times> kernel" where
  "inject_oem_config makedev oem user_data provider_id =
     with_private_mount makedev OEM_MOUNT (oem_dev_path oem) (oem_dev_number oem)
       (inject_files user_data provider_id [])"

section \<open>Lemmas\<close>

abbreviation (input) config_path :: "string list" where "config_path \<equiv> [OEM_CONFIG_FILENAME]"
abbreviation (input) oem_subdir :: "string list" where "oem_subdir \<equiv> [OEM_PROVIDER_ID_SUBDIR]"
abbreviation (input) provider_path :: "string list" where
  "provider_path \<equiv> [OEM_PROVIDER_ID_SUBDIR, OEM_PROVIDER_ID_FILENAME]"

lemma oem_paths_differ [simp]:
  "\<not> same_path c config_path oem_subdir" "\<not> same_path c config_path provider_path"
  "\<not> same_path c provider_path config_path" "\<not> same_path c provider_path oem_subdir"
  by (auto dest!: same_path_length
      simp: OEM_CONFIG_FILENAME_def OEM_PROVIDER_ID_SUBDIR_def OEM_PROVIDER_ID_FILENAME_def)

lemma write_config_touches: "touches {config_path} (write_and_sync_config [] ud)"
  unfolding write_and_sync_config_def Let_def by (auto intro!: touches_intros)

lemma write_provider_touches: "touches {oem_subdir, provider_path} (write_and_sync_provider_id [] pid)"
  unfolding write_and_sync_provider_id_def Let_def
  by (intro touches_intros) auto

lemma write_config_ok:
  assumes "write_and_sync_config [] ud fs = (Inr u, fs')"
  shows "file_at fs' config_path = Some (ud, PRIVATE_MODE)"
proof -
  from assms obtain u1 u2 u3 u4 u5 fs1 fs2 fs3 fs4 fs5 where
    "open_truncate config_path PRIVATE_MODE fs = (Inr u1, fs1)"
    "set_mode config_path PRIVATE_MODE fs1 = (Inr u2, fs2)"
    "fs_write_all config_path ud fs2 = (Inr u3, fs3)"
    "sync_all fs3 = (Inr u4, fs4)" "open_dir [] fs4 = (Inr u5, fs5)" "sync_all fs5 = (Inr u, fs')"
    by (auto simp: write_and_sync_config_def sbind_Inr Let_def)
  then have "file_at fs3 config_path = Some (ud, PRIVATE_MODE)" "node_at fs' = node_at fs3"
    by (auto dest!: pure_calls fs_frame_empty intro: fresh_file_ok)
  then show ?thesis by (simp add: file_at_def)
qed

lemma write_provider_ok:
  assumes "write_and_sync_provider_id [] pid fs = (Inr u, fs')"
  shows "file_at fs' provider_path = Some (as_bytes pid, PRIVATE_MODE)"
proof -
  from assms obtain u1 u2 u3 u4 u5 u6 u7 fs0 fs1 fs2 fs3 fs4 fs5 fs6 fs7 where
    "open_truncate provider_path PRIVATE_MODE fs0 = (Inr u1, fs1)"
    "set_mode provider_path PRIVATE_MODE fs1 = (Inr u2, fs2)"
    "fs_write_all provider_path (as_bytes pid) fs2 = (Inr u3, fs3)"
    "sync_all fs3 = (Inr u4, fs4)" "open_dir oem_subdir fs4 = (Inr u5, fs5)"
    "sync_all fs5 = (Inr u6, fs6)" "open_dir [] fs6 = (Inr u7, fs7)" "sync_all fs7 = (Inr u, fs')"
    by (auto simp: write_and_sync_provider_id_def sbind_Inr Let_def)
  then have "file_at fs3 provider_path = Some (as_bytes pid, PRIVATE_MODE)" "node_at fs' = node_at fs3"
    by (auto dest!: pure_calls fs_frame_empty intro: fresh_file_ok)
  then show ?thesis by (simp add: file_at_def)
qed

abbreviation (input) oem_paths :: "string list set" where
  "oem_paths \<equiv> {config_path, oem_subdir, provider_path}"

lemma inject_files_effect:
  assumes "inject_files ud pid [] fs = (r, fs')"
  shows "fs_frame oem_paths fs fs' \<and>
    (case r of
       Inr _ \<Rightarrow> file_at fs' config_path = Some (ud, PRIVATE_MODE) \<and>
         file_at fs' provider_path = Some (as_bytes pid, PRIVATE_MODE)
     | Inl _ \<Rightarrow> file_at fs' config_path = None \<and> file_at fs' provider_path = None \<or>
         (\<exists>n x. fs_fault fs OpUnlink n = Some x))"
proof -
  let ?both = "sbind (write_and_sync_config [] ud) (\<lambda>_. write_and_sync_provider_id [] pid)"
  obtain r1 fs1 where both: "?both fs = (r1, fs1)" by fastforce
  have "touches oem_paths ?both"
    by (intro touches_sbind touches_mono [OF write_config_touches] touches_mono [OF write_provider_touches]) auto
  with both have f1: "fs_frame oem_paths fs fs1" by (blast dest: touchesD)
  show ?thesis
  proof (cases r1)
    case (Inr u)
    with both obtain v fs0 where s: "write_and_sync_config [] ud fs = (Inr v, fs0)"
        "write_and_sync_provider_id [] pid fs0 = (Inr u, fs1)" by (auto simp: sbind_Inr)
    have "node_at fs1 config_path = node_at fs0 config_path"
      using touchesD [OF write_provider_touches s(2)] by (rule fs_frame_node) simp
    with write_config_ok [OF s(1)] have "file_at fs1 config_path = Some (ud, PRIVATE_MODE)"
      by (simp add: file_at_def)
    with write_provider_ok [OF s(2)] f1 assms both Inr show ?thesis by (auto simp: inject_files_def)
  next
    case (Inl e)
    define fs2 where "fs2 = signore (remove_file config_path) fs1"
    have r: "r = Inl e" "fs' = signore (remove_file provider_path) fs2"
      using assms both Inl by (simp_all add: inject_files_def fs2_def)
    obtain r2 where c2: "remove_file config_path fs1 = (r2, fs2)" by (auto simp: fs2_def signore_def prod_eq_iff)
    obtain r3 where c3: "remove_file provider_path fs2 = (r3, fs')" by (auto simp: r signore_def prod_eq_iff)
    have f2: "fs_frame oem_paths fs1 fs2" by (rule touchesD [OF touches_calls(4) c2]) auto
    have f3: "fs_frame oem_paths fs2 fs'" by (rule touchesD [OF touches_calls(4) c3]) auto
    note fields = fs_frame_fields [OF f1] fs_frame_fields [OF f2]
    have "file_at fs' config_path = file_at fs2 config_path"
      using remove_file_else [OF c3, of config_path] by (simp add: file_at_def)
    then have "file_at fs' config_path = None \<and> file_at fs' provider_path = None \<or>
        (\<exists>n x. fs_fault fs OpUnlink n = Some x)"
      using remove_file_gone [OF c2] remove_file_gone [OF c3] fields
      by (metis option.exhaust)
    with f1 f2 f3 r(1) show ?thesis by (auto intro: fs_frame_trans)
  qed
qed

section \<open>Properties\<close>

text \<open>
  C12: the injection. Only the partition with the enumerated device number changes, and on it
  only the two artifacts and the directory of the second. A success leaves exactly the user
  data and the provider id in them, readable by root alone. A failure leaves the partition
  as it was, or neither file on it unless the kernel refuses an unlink, or is that of the
  unmount after both were written.
\<close>

theorem inject_oem_config_effect:
  "case inject_oem_config makedev oem user_data provider_id k of (r, k') \<Rightarrow>
     (case parse_dev_number makedev (oem_dev_number oem) of
        None \<Rightarrow> r = Inl (BadDeviceNumber (oem_dev_path oem)) \<and> k' = k
      | Some d \<Rightarrow> k_parts k' = (k_parts k)(d := k_parts k' d) \<and>
          fs_frame oem_paths (k_parts k d) (k_parts k' d) \<and>
          (let written = (file_at (k_parts k' d) config_path = Some (user_data, 0x180) \<and>
             file_at (k_parts k' d) provider_path = Some (as_bytes provider_id, 0x180))
           in case r of
             Inr _ \<Rightarrow> written
           | Inl e \<Rightarrow> k_parts k' d = k_parts k d \<or>
               (\<exists>n. e = UnmountFailed Oem OEM_MOUNTPOINT n) \<and> written \<or>
               file_at (k_parts k' d) config_path = None \<and> file_at (k_parts k' d) provider_path = None \<or>
               (\<exists>n x. fs_fault (k_parts k d) OpUnlink n = Some x)))"
proof (cases "parse_dev_number makedev (oem_dev_number oem)")
  case None
  then show ?thesis by (simp add: inject_oem_config_def with_private_mount_bad)
next
  case (Some d)
  let ?work = "inject_files user_data provider_id []"
  obtain r k' where run: "inject_oem_config makedev oem user_data provider_id k = (r, k')" by fastforce
  with Some have eff: "mount_effect OEM_MOUNT d ?work k r k'"
    using with_private_mount_effect by (fastforce simp: inject_oem_config_def)
  obtain w fs' where w: "?work (k_parts k d) = (w, fs')" by fastforce
  note inj = inject_files_effect [OF w]
  show ?thesis
  proof (cases "k_history k' = k_history k")
    case True
    with eff have "\<not> is_ok r" "k_parts k' = k_parts k" by (simp_all add: mount_effect_def)
    with run Some show ?thesis by (cases r) simp_all
  next
    case False
    with eff w have p: "k_parts k' = (k_parts k)(d := fs')"
      and r: "case r of Inr a \<Rightarrow> w = Inr a | Inl e \<Rightarrow> w = Inl e \<or> is_ok w \<and> (\<exists>n. e = UnmountFailed Oem OEM_MOUNTPOINT n)"
      by (cases r; auto simp: mount_effect_def OEM_MOUNT_def)+
    show ?thesis
    proof (cases w)
      case (Inl e)
      with inj r p run Some show ?thesis by (cases r) (auto simp: PRIVATE_MODE_def)
    next
      case (Inr u)
      with inj r p run Some show ?thesis by (cases r) (auto simp: PRIVATE_MODE_def)
    qed
  qed
qed

end
