(* ===== verification/Gpt.thy ===== *)
theory Gpt
  imports Oem
begin

text \<open>
  \<open>src/esp.rs\<close>: finding the EFI System Partition of the target disk in its GPT. A disk is
  the bytes it holds; opening a node, the identity metadata and the \<open>/sys/block\<close> tree are
  arguments. A 16-byte GUID is the list of its bytes on disk.
\<close>

section \<open>Data\<close>

definition ESP_TYPE_GUID :: bytes where
  "ESP_TYPE_GUID = [0x28, 0x73, 0x2A, 0xC1, 0x1F, 0xF8, 0xD2, 0x11,
     0xBA, 0x4B, 0x00, 0xA0, 0xC9, 0x3E, 0xC9, 0x3B]"
definition GPT_SIGNATURE :: bytes where "GPT_SIGNATURE = as_bytes ''EFI PART''"
definition GPT_HEADER_LEN :: nat where "GPT_HEADER_LEN = 92"
definition MAX_GPT_ENTRIES :: u32 where "MAX_GPT_ENTRIES = 1024"
definition in_entry_size_range :: "u32 \<Rightarrow> bool" where
  "in_entry_size_range n \<longleftrightarrow> 128 \<le> n \<and> n \<le> 1024"
definition DEFAULT_BLOCK_SIZE :: u64 where "DEFAULT_BLOCK_SIZE = 512"

record gpt_esp =
  g_number :: u32
  g_unique_guid :: bytes
  g_first_lba :: u64
  g_last_lba :: u64

text \<open>\<open>u64::saturating_sub\<close> and \<open>saturating_add\<close>.\<close>

definition size_lba :: "gpt_esp \<Rightarrow> u64" where
  "size_lba g = saturating_add
     (if g_last_lba g < g_first_lba g then 0 else g_last_lba g - g_first_lba g) 1"

record esp_partition =
  esp_kname :: string
  esp_dev_number :: string
  esp_gpt :: gpt_esp

definition esp_dev_path :: "esp_partition \<Rightarrow> string" where
  "esp_dev_path e = ''/dev/'' @ esp_kname e"

datatype esp_error =
    EspDevice deploy_error
  | ReadGpt string io_error
  | NoGpt string
  | BadGpt string
  | EspNotFound string

definition is_absent :: "esp_error \<Rightarrow> bool" where
  "is_absent e \<longleftrightarrow> (case e of NoGpt _ \<Rightarrow> True | EspNotFound _ \<Rightarrow> True | _ \<Rightarrow> False)"

record gpt_layout =
  entries_lba :: u64
  gpt_count :: u32
  entry_size :: u32

record gpt_entry =
  type_guid :: bytes
  gpt_part :: gpt_esp

section \<open>Reading the GPT\<close>

text \<open>
  \<open>u32_at\<close> and \<open>u64_at\<close> of the code, on offsets the callers keep in bounds.
\<close>

definition u32_at :: "bytes \<Rightarrow> nat \<Rightarrow> u32" where "u32_at b i = u32_le (take 4 (drop i b))"
definition u64_at :: "bytes \<Rightarrow> nat \<Rightarrow> u64" where "u64_at b i = u64_le (take 8 (drop i b))"

definition parse_gpt_header :: "bytes \<Rightarrow> string \<Rightarrow> esp_error + gpt_layout" where
  "parse_gpt_header header disk =
     (if length header < GPT_HEADER_LEN \<or> take 8 header \<noteq> GPT_SIGNATURE then Inl (NoGpt disk)
      else (let l = \<lparr>entries_lba = u64_at header 72, gpt_count = u32_at header 80,
                     entry_size = u32_at header 84\<rparr> in
        if entries_lba l < 2 \<or> gpt_count l = 0 \<or> gpt_count l > MAX_GPT_ENTRIES
           \<or> \<not> in_entry_size_range (entry_size l) \<or> entry_size l mod 8 \<noteq> 0
        then Inl (BadGpt disk) else Inr l))"

definition esp_entries :: "gpt_entry list \<Rightarrow> gpt_esp list" where
  "esp_entries es = map gpt_part (filter (\<lambda>e. type_guid e = ESP_TYPE_GUID) es)"

definition gpt_entry_of :: "bytes \<Rightarrow> u32 \<Rightarrow> gpt_entry" where
  "gpt_entry_of entry number = \<lparr>type_guid = take 16 entry,
     gpt_part = \<lparr>g_number = number, g_unique_guid = take 16 (drop 16 entry),
       g_first_lba = u64_at entry 32, g_last_lba = u64_at entry 40\<rparr>\<rparr>"

definition gpt_entries :: "bytes \<Rightarrow> nat \<Rightarrow> gpt_entry list" where
  "gpt_entries table sz = (let cs = chunks_exact sz table in
     map (\<lambda>(entry, number). gpt_entry_of entry (word_of_nat number))
       (filter (\<lambda>(entry, number). take 16 entry \<noteq> replicate 16 0)
         (zip cs [1..<Suc (length cs)])))"

text \<open>
  A seekable reader over \<open>dev\<close>: \<open>seek\<close> and \<open>read_exact\<close> answer an injected error, or the
  bytes at the offset, \<open>UnexpectedEof\<close> when there are too few.
\<close>

record seek_reader =
  r_data :: bytes
  r_fail :: "nat \<Rightarrow> io_error option"

definition read_exact_at :: "seek_reader \<Rightarrow> nat \<Rightarrow> nat \<Rightarrow> io_error + bytes" where
  "read_exact_at dev off n = (case r_fail dev off of
       Some e \<Rightarrow> Inl e
     | None \<Rightarrow> if off + n \<le> length (r_data dev) then Inr (take n (drop off (r_data dev)))
         else Inl (IoOther ''failed to fill whole buffer''))"

definition checked_mul :: "u64 \<Rightarrow> u64 \<Rightarrow> u64 option" where
  "checked_mul a b = (if unat a * unat b < 2 ^ 64 then Some (a * b) else None)"

definition read_gpt_entries :: "seek_reader \<Rightarrow> u64 \<Rightarrow> string \<Rightarrow> esp_error + gpt_entry list" where
  "read_gpt_entries dev block_size disk =
     rbind (map_err (ReadGpt disk) (read_exact_at dev (unat block_size) GPT_HEADER_LEN)) (\<lambda>header.
     rbind (parse_gpt_header header disk) (\<lambda>layout.
     rbind (ok_or (checked_mul (entries_lba layout) block_size) (BadGpt disk)) (\<lambda>offset.
     rbind (map_err (ReadGpt disk)
         (read_exact_at dev (unat offset) (unat (gpt_count layout) * unat (entry_size layout)))) (\<lambda>table.
     Inr (gpt_entries table (unat (entry_size layout)))))))"

definition read_esp_entries :: "seek_reader \<Rightarrow> u64 \<Rightarrow> string \<Rightarrow> esp_error + gpt_esp list" where
  "read_esp_entries dev block_size disk =
     rbind (read_gpt_entries dev block_size disk) (\<lambda>es. Inr (esp_entries es))"

definition is_power_of_two :: "u64 \<Rightarrow> bool" where
  "is_power_of_two n \<longleftrightarrow> n \<noteq> 0 \<and> n AND (n - 1) = 0"

definition logical_block_size :: "fsnode \<Rightarrow> string \<Rightarrow> u64" where
  "logical_block_size d kname = unwrap_or
     (Option.bind (Option.bind (read_trimmed d [kname, ''queue'', ''logical_block_size'']) parse_u64)
       (\<lambda>n. if n \<ge> DEFAULT_BLOCK_SIZE \<and> is_power_of_two n then Some n else None))
     DEFAULT_BLOCK_SIZE"

section \<open>The partition\<close>

definition numbered_partitions :: "fsnode \<Rightarrow> string \<Rightarrow> (u32 \<times> string) list" where
  "numbered_partitions d disk = List.map_filter
     (\<lambda>part. Option.bind (read_trimmed d [disk, part, ''partition''])
        (\<lambda>s. map_option (\<lambda>n. (n, part)) (parse_u32 s)))
     (target_partitions d disk)"

fun locate_esp ::
  "fsnode \<Rightarrow> string \<Rightarrow> (u32 \<times> string) list \<Rightarrow> gpt_esp list \<Rightarrow> esp_error + esp_partition" where
  "locate_esp d disk parts [] = Inl (EspNotFound disk)"
| "locate_esp d disk parts (gpt # gs) =
     (case find (\<lambda>(pn, _). pn = g_number gpt) parts of
        Some (_, part) \<Rightarrow> Inr \<lparr>esp_kname = part,
          esp_dev_number = unwrap_or (read_trimmed d [disk, part, ''dev'']) [], esp_gpt = gpt\<rparr>
      | None \<Rightarrow> locate_esp d disk parts gs)"

definition find_esp_in :: "fsnode \<Rightarrow> string \<Rightarrow> gpt_esp list \<Rightarrow> esp_error + esp_partition" where
  "find_esp_in d disk entries = locate_esp d disk (numbered_partitions d disk) entries"

text \<open>The opened node of the target is its identity metadata and its contents.\<close>

definition find_esp_partition ::
  "(string \<Rightarrow> io_error + dev_file \<times> seek_reader) \<Rightarrow> (u64 \<Rightarrow> u64) \<Rightarrow> (u64 \<Rightarrow> u64) \<Rightarrow> fsnode \<Rightarrow>
     target_disk \<Rightarrow> esp_error + esp_partition" where
  "find_esp_partition open_read major minor block_dir target =
     (let path = dev_path target in
      rbind (map_err (\<lambda>e. EspDevice (OpenTarget path e)) (open_read path)) (\<lambda>(f, dev).
      rbind (map_err EspDevice (verify_node_identity major minor f path (t_dev_number target))) (\<lambda>_.
      rbind (read_esp_entries dev (logical_block_size block_dir (t_kname target)) (t_kname target)) (\<lambda>es.
      find_esp_in block_dir (t_kname target) es))))"

section \<open>Disks with the same GUID\<close>

definition SKIPPED :: "string list" where
  "SKIPPED = [''loop'', ''ram'', ''zram'', ''dm-'', ''md'', ''sr'']"

definition other_disks_with_guid_in ::
  "fsnode \<Rightarrow> string \<Rightarrow> bytes \<Rightarrow> (string \<Rightarrow> u64 \<Rightarrow> gpt_entry list option) \<Rightarrow> string list" where
  "other_disks_with_guid_in d target guid read_gpt = (case read_dir d [] of
       None \<Rightarrow> []
     | Some names \<Rightarrow> sort (filter (\<lambda>k. case read_gpt k (logical_block_size d k) of
           None \<Rightarrow> False
         | Some es \<Rightarrow> \<exists>e\<in>set es. g_unique_guid (gpt_part e) = guid)
         (filter (\<lambda>k. k \<noteq> target \<and> \<not> (\<exists>p\<in>set SKIPPED. starts_with p k)) (utf8_names names))))"

definition other_disks_with_guid ::
  "(string \<Rightarrow> io_error + seek_reader) \<Rightarrow> fsnode \<Rightarrow> target_disk \<Rightarrow> bytes \<Rightarrow> string list" where
  "other_disks_with_guid open_read d target guid =
     other_disks_with_guid_in d (t_kname target) guid (\<lambda>kname bs.
       Option.bind (result_ok (open_read (''/dev/'' @ kname))) (\<lambda>dev.
       result_ok (read_gpt_entries dev bs kname)))"

definition hex_bytes :: "bytes \<Rightarrow> string" where "hex_bytes b = concat (map fmt_02x b)"

definition guid_string :: "bytes \<Rightarrow> string" where
  "guid_string g = join ''-'' [hex_bytes (rev (take 4 g)), hex_bytes (rev (take 2 (drop 4 g))),
     hex_bytes (rev (take 2 (drop 6 g))), hex_bytes (take 2 (drop 8 g)), hex_bytes (take 6 (drop 10 g))]"

section \<open>The layout a partitioning tool writes\<close>

type_synonym gpt_slot = "bytes \<times> bytes \<times> u64 \<times> u64 \<times> bytes"

definition encode_slot :: "gpt_slot \<Rightarrow> bytes" where
  "encode_slot s = (case s of (t, u, f, l, rest) \<Rightarrow> t @ u @ u64_to_le f @ u64_to_le l @ rest)"

definition slot_ok :: "nat \<Rightarrow> gpt_slot \<Rightarrow> bool" where
  "slot_ok sz s = (case s of (t, u, f, l, rest) \<Rightarrow> length t = 16 \<and> length u = 16 \<and> 48 + length rest = sz)"

definition slot_used :: "gpt_slot \<Rightarrow> bool" where
  "slot_used s \<longleftrightarrow> fst s \<noteq> replicate 16 0"

definition slot_entry :: "gpt_slot \<Rightarrow> nat \<Rightarrow> gpt_entry" where
  "slot_entry s n = (case s of (t, u, f, l, rest) \<Rightarrow> \<lparr>type_guid = t,
     gpt_part = \<lparr>g_number = word_of_nat n, g_unique_guid = u, g_first_lba = f, g_last_lba = l\<rparr>\<rparr>)"

definition gpt_header :: "bytes \<Rightarrow> u64 \<Rightarrow> u32 \<Rightarrow> u32 \<Rightarrow> bytes \<Rightarrow> bytes" where
  "gpt_header mid lba n sz crc =
     GPT_SIGNATURE @ mid @ u64_to_le lba @ u32_to_le n @ u32_to_le sz @ crc"

lemma encode_slot_length: "slot_ok sz s \<Longrightarrow> length (encode_slot s) = sz"
  by (auto simp: encode_slot_def slot_ok_def)

lemma gpt_entry_of_slot: "slot_ok sz s \<Longrightarrow> gpt_entry_of (encode_slot s) (word_of_nat n) = slot_entry s n"
  by (auto simp: encode_slot_def slot_ok_def slot_entry_def gpt_entry_of_def u64_at_def split: prod.splits)

lemma take_encode_slot: "slot_ok sz s \<Longrightarrow> take 16 (encode_slot s) = fst s"
  by (auto simp: encode_slot_def slot_ok_def split: prod.splits)

lemma gpt_entries_table:
  assumes "\<forall>s\<in>set slots. slot_ok sz s" "0 < sz"
  shows "gpt_entries (concat (map encode_slot slots)) sz =
    map (\<lambda>(s, n). slot_entry s n) (filter (slot_used \<circ> fst) (zip slots [1..<Suc (length slots)]))"
proof -
  have cs: "chunks_exact sz (concat (map encode_slot slots)) = map encode_slot slots"
    using assms by (intro chunks_exact_concat) (auto simp: encode_slot_length)
  have "map (\<lambda>(e, n). gpt_entry_of e (word_of_nat n))
        (filter (\<lambda>(e, n). take 16 e \<noteq> replicate 16 0) (zip (map encode_slot slots) ns)) =
      map (\<lambda>(s, n). slot_entry s n) (filter (slot_used \<circ> fst) (zip slots ns))" for ns
    using assms(1)
  proof (induction slots arbitrary: ns)
    case (Cons s slots)
    then show ?case
      by (cases ns) (auto simp: gpt_entry_of_slot take_encode_slot slot_used_def)
  qed simp
  then show ?thesis by (simp add: gpt_entries_def cs)
qed

lemma GPT_SIGNATURE_length [simp]: "length GPT_SIGNATURE = 8"
  by (simp add: GPT_SIGNATURE_def)

lemma parse_gpt_header_encode:
  assumes "length mid = 64" "length crc = 4" "2 \<le> lba" "n \<noteq> 0" "n \<le> MAX_GPT_ENTRIES"
    "in_entry_size_range sz" "sz mod 8 = 0"
  shows "length (gpt_header mid lba n sz crc) = GPT_HEADER_LEN \<and>
    parse_gpt_header (gpt_header mid lba n sz crc) disk =
      Inr \<lparr>entries_lba = lba, gpt_count = n, entry_size = sz\<rparr>"
  using assms
  by (simp add: parse_gpt_header_def gpt_header_def GPT_HEADER_LEN_def u64_at_def u32_at_def Let_def
      linorder_not_less)

lemma read_exact_mid:
  assumes "r_data dev = a @ b @ c" "r_fail dev = (\<lambda>_. None)" "length a = off" "length b = n"
  shows "read_exact_at dev off n = Inr b"
  using assms by (simp add: read_exact_at_def)

section \<open>Properties\<close>

text \<open>
  C20: the GPT reader inverts the on-disk layout. From a disk whose second block holds a valid
  header pointing at a table of \<open>n\<close> slots, it reads exactly the used slots, in order, each
  with its one-based slot number, its GUIDs and its bounds; whatever fills the gaps, the rest
  of each slot and the rest of the disk.
\<close>

theorem read_gpt_encode:
  assumes "r_data dev = first_block @ gpt_header mid lba (word_of_nat (length slots)) sz crc @ gap @
      concat (map encode_slot slots) @ post"
    and "r_fail dev = (\<lambda>_. None)"
    and "length first_block = unat bs" "length mid = 64" "length crc = 4" "2 \<le> lba"
    and "unat bs + 92 + length gap = unat lba * unat bs" "unat lba * unat bs < 2 ^ 64"
    and "slots \<noteq> []" "length slots \<le> 1024" "in_entry_size_range sz" "sz mod 8 = 0"
    and "\<forall>s\<in>set slots. slot_ok (unat sz) s"
  shows "read_gpt_entries dev bs disk =
    Inr (map (\<lambda>(s, n). slot_entry s n) (filter (slot_used \<circ> fst) (zip slots [1..<Suc (length slots)])))"
proof -
  let ?n = "word_of_nat (length slots) :: u32"
  let ?h = "gpt_header mid lba ?n sz crc"
  let ?t = "concat (map encode_slot slots)"
  have n: "unat ?n = length slots" using assms(10) by (simp add: unat_of_nat)
  then have n1: "?n \<noteq> 0" "?n \<le> MAX_GPT_ENTRIES"
    using assms(9,10) by (auto simp: unat_eq_0 [symmetric] MAX_GPT_ENTRIES_def word_le_nat_alt)
  note h = parse_gpt_header_encode [OF assms(4,5,6) n1 assms(11,12)]
  have sz: "0 < unat sz" using assms(11) by (auto simp: in_entry_size_range_def word_le_nat_alt)
  have tl: "length ?t = length slots * unat sz"
    using assms(13) by (induction slots) (auto simp: encode_slot_length)
  have r1: "read_exact_at dev (unat bs) GPT_HEADER_LEN = Inr ?h"
    by (rule read_exact_mid [OF assms(1,2,3)]) (use h in simp)
  have hl: "length ?h = 92" using h by (simp add: GPT_HEADER_LEN_def)
  have off: "checked_mul lba bs = Some (lba * bs)" "unat (lba * bs) = unat lba * unat bs"
    using assms(8) by (simp_all add: checked_mul_def unat_word_ariths)
  have r2: "read_exact_at dev (unat (lba * bs)) (length slots * unat sz) = Inr ?t"
    using read_exact_mid [of dev "first_block @ ?h @ gap" ?t post] assms(1,2,3,7) hl tl off(2) by simp
  show ?thesis
    using r1 h r2 n off(1) gpt_entries_table [OF assms(13) sz]
    by (simp add: read_gpt_entries_def)
qed

definition demo_slots :: "gpt_slot list" where
  "demo_slots = [(ESP_TYPE_GUID, replicate 16 1, 2048, 3071, replicate 80 0),
     (replicate 16 0, replicate 16 0, 0, 0, replicate 80 0),
     (replicate 16 5, replicate 16 2, 4096, 8191, replicate 80 9)]"

lemma read_gpt_encode_witness:
  "read_gpt_entries \<lparr>r_data = replicate 512 0 @ gpt_header (replicate 64 3) 2 3 128 (replicate 4 0) @
      replicate 420 0 @ concat (map encode_slot demo_slots) @ [1, 2], r_fail = (\<lambda>_. None)\<rparr> 512 ''sda'' =
    Inr [\<lparr>type_guid = ESP_TYPE_GUID, gpt_part = \<lparr>g_number = 1, g_unique_guid = replicate 16 1,
           g_first_lba = 2048, g_last_lba = 3071\<rparr>\<rparr>,
         \<lparr>type_guid = replicate 16 5, gpt_part = \<lparr>g_number = 3, g_unique_guid = replicate 16 2,
           g_first_lba = 4096, g_last_lba = 8191\<rparr>\<rparr>]"
proof -
  have "read_gpt_entries \<lparr>r_data = replicate 512 0 @ gpt_header (replicate 64 3) 2 3 128 (replicate 4 0) @
      replicate 420 0 @ concat (map encode_slot demo_slots) @ [1, 2], r_fail = (\<lambda>_. None)\<rparr> 512 ''sda'' =
    Inr (map (\<lambda>(s, n). slot_entry s n)
      (filter (slot_used \<circ> fst) (zip demo_slots [1..<Suc (length demo_slots)])))"
    by (rule read_gpt_encode [where first_block = "replicate 512 0" and mid = "replicate 64 3"
          and lba = 2 and sz = 128 and crc = "replicate 4 0" and gap = "replicate 420 0"
          and post = "[1, 2]" and slots = demo_slots and bs = 512])
      (simp_all add: demo_slots_def slot_ok_def ESP_TYPE_GUID_def in_entry_size_range_def)
  moreover have ns: "[1..<Suc (length demo_slots)] = [1, 2, 3]"
    by (simp add: demo_slots_def upt_rec)
  have nz: "ESP_TYPE_GUID \<noteq> replicate 16 0" "replicate 16 (5 :: u8) \<noteq> replicate 16 0"
  proof -
    have "ESP_TYPE_GUID ! 0 \<noteq> replicate 16 0 ! 0" by (simp add: ESP_TYPE_GUID_def)
    then show "ESP_TYPE_GUID \<noteq> replicate 16 0" by metis
    have "replicate 16 (5 :: u8) ! 0 \<noteq> replicate 16 0 ! 0" by simp
    then show "replicate 16 (5 :: u8) \<noteq> replicate 16 0" by metis
  qed
  have "map (\<lambda>(s, n). slot_entry s n)
      (filter (slot_used \<circ> fst) (zip demo_slots [1..<Suc (length demo_slots)])) =
    [\<lparr>type_guid = ESP_TYPE_GUID, gpt_part = \<lparr>g_number = 1, g_unique_guid = replicate 16 1,
           g_first_lba = 2048, g_last_lba = 3071\<rparr>\<rparr>,
         \<lparr>type_guid = replicate 16 5, gpt_part = \<lparr>g_number = 3, g_unique_guid = replicate 16 2,
           g_first_lba = 4096, g_last_lba = 8191\<rparr>\<rparr>]"
    unfolding ns using nz by (simp add: demo_slots_def slot_used_def slot_entry_def)
  ultimately show ?thesis by simp
qed

lemma locate_esp_Inr:
  assumes "locate_esp d disk parts gs = Inr e"
  shows "(g_number (esp_gpt e), esp_kname e) \<in> set parts \<and>
    esp_dev_number e = unwrap_or (read_trimmed d [disk, esp_kname e, ''dev'']) [] \<and>
    (\<exists>us vs. gs = us @ esp_gpt e # vs \<and>
       filter (\<lambda>g. g_number g \<in> set (map fst parts)) us = [])"
  using assms
proof (induction gs)
  case (Cons g gs)
  show ?case
  proof (cases "find (\<lambda>(pn, _). pn = g_number g) parts")
    case None
    then have "g_number g \<notin> set (map fst parts)" by (auto simp: find_eq_None)
    moreover from None Cons obtain us vs where "gs = us @ esp_gpt e # vs"
        "filter (\<lambda>g. g_number g \<in> set (map fst parts)) us = []" by auto
    ultimately have "g # gs = (g # us) @ esp_gpt e # vs \<and>
        filter (\<lambda>g. g_number g \<in> set (map fst parts)) (g # us) = []" by simp
    then show ?thesis using None Cons by fastforce
  next
    case (Some p)
    then have "p \<in> set parts" "fst p = g_number g" by (auto dest: find_eq_SomeD)
    with Some Cons.prems show ?thesis by (cases p) (auto intro: exI [of _ "[]"])
  qed
qed simp

lemma numbered_partitions_mem:
  "(n, part) \<in> set (numbered_partitions d disk) \<longleftrightarrow> part \<in> set (target_partitions d disk) \<and>
     Option.bind (read_trimmed d [disk, part, ''partition'']) parse_u32 = Some n"
  by (auto simp: numbered_partitions_def set_map_filter bind_eq_Some_conv)

lemma locate_esp_Inl:
  "locate_esp d disk parts gs = Inl e \<Longrightarrow>
     e = EspNotFound disk \<and> (\<forall>g\<in>set gs. g_number g \<notin> set (map fst parts))"
  by (induction gs) (auto simp: find_eq_None split: option.splits)

lemma read_gpt_entries_Inl:
  assumes "read_gpt_entries dev bs disk = Inl e"
  shows "(\<exists>e'. e = ReadGpt disk e') \<or> e = BadGpt disk \<or>
    e = NoGpt disk \<and> (\<exists>header. read_exact_at dev (unat bs) 92 = Inr header \<and>
      take 8 header \<noteq> as_bytes ''EFI PART'')"
proof -
  have len: "length header = 92" if "read_exact_at dev off 92 = Inr header" for off header
    using that by (auto simp: read_exact_at_def split: option.splits if_splits)
  show ?thesis
    using assms len
    by (auto simp: read_gpt_entries_def parse_gpt_header_def result_iffs Let_def GPT_HEADER_LEN_def
        GPT_SIGNATURE_def split: if_splits)
qed

text \<open>
  C19: the located ESP is a partition of the target disk whose \<open>partition\<close> attribute is the
  number of a GPT slot of the EFI system type, read through a node whose device number is the
  selected disk's, and no earlier slot of that type is exposed by the kernel. An absent ESP
  means that the disk has no GPT or that no such slot maps to a partition.
\<close>

theorem find_esp_spec:
  "case find_esp_partition open_read major minor d t of
     Inr e \<Rightarrow> (\<exists>f dev rdev es us vs. open_read (dev_path t) = Inr (f, dev) \<and>
       f_meta f = Inr (True, rdev) \<and> dev_text major minor rdev = t_dev_number t \<and>
       read_gpt_entries dev (logical_block_size d (t_kname t)) (t_kname t) = Inr es \<and>
       map gpt_part (filter (\<lambda>s. type_guid s = ESP_TYPE_GUID) es) = us @ esp_gpt e # vs \<and>
       filter (\<lambda>g. g_number g \<in> set (map fst (numbered_partitions d (t_kname t)))) us = [] \<and>
       esp_kname e \<in> set (target_partitions d (t_kname t)) \<and>
       Option.bind (read_trimmed d [t_kname t, esp_kname e, ''partition'']) parse_u32 =
         Some (g_number (esp_gpt e)) \<and>
       esp_dev_number e = unwrap_or (read_trimmed d [t_kname t, esp_kname e, ''dev'']) [])
   | Inl (NoGpt k) \<Rightarrow> k = t_kname t \<and> (\<exists>f dev header. open_read (dev_path t) = Inr (f, dev) \<and>
       read_exact_at dev (unat (logical_block_size d (t_kname t))) 92 = Inr header \<and>
       take 8 header \<noteq> as_bytes ''EFI PART'')
   | Inl (EspNotFound k) \<Rightarrow> k = t_kname t \<and> (\<exists>f dev es. open_read (dev_path t) = Inr (f, dev) \<and>
       read_gpt_entries dev (logical_block_size d (t_kname t)) (t_kname t) = Inr es \<and>
       filter (\<lambda>s. type_guid s = ESP_TYPE_GUID \<and> g_number (gpt_part s) \<in>
         set (map fst (numbered_partitions d (t_kname t)))) es = [])
   | Inl err \<Rightarrow> \<not> is_absent err"
proof -
  let ?ps = "numbered_partitions d (t_kname t)"
  show ?thesis
  proof (cases "find_esp_partition open_read major minor d t")
    case (Inr e)
    then obtain f dev es where o: "open_read (dev_path t) = Inr (f, dev)"
      and i: "verify_node_identity major minor f (dev_path t) (t_dev_number t) = Inr ()"
      and r: "read_gpt_entries dev (logical_block_size d (t_kname t)) (t_kname t) = Inr es"
      and l: "locate_esp d (t_kname t) ?ps (esp_entries es) = Inr e"
      by (auto simp: find_esp_partition_def find_esp_in_def read_esp_entries_def result_iffs Let_def)
    from i obtain rdev where "f_meta f = Inr (True, rdev)" "dev_text major minor rdev = t_dev_number t"
      by (auto simp: verify_node_identity_Inr)
    moreover from locate_esp_Inr [OF l] obtain us vs where "esp_entries es = us @ esp_gpt e # vs"
        "filter (\<lambda>g. g_number g \<in> set (map fst ?ps)) us = []"
        "(g_number (esp_gpt e), esp_kname e) \<in> set ?ps"
        "esp_dev_number e = unwrap_or (read_trimmed d [t_kname t, esp_kname e, ''dev'']) []" by blast
    ultimately show ?thesis using o r Inr
      by (auto simp: numbered_partitions_mem esp_entries_def)
  next
    case (Inl err)
    then consider e where "open_read (dev_path t) = Inl e" "err = EspDevice (OpenTarget (dev_path t) e)"
      | f dev e where "open_read (dev_path t) = Inr (f, dev)" "err = EspDevice e"
      | f dev where "open_read (dev_path t) = Inr (f, dev)"
          "read_gpt_entries dev (logical_block_size d (t_kname t)) (t_kname t) = Inl err"
      | f dev es where "open_read (dev_path t) = Inr (f, dev)"
          "read_gpt_entries dev (logical_block_size d (t_kname t)) (t_kname t) = Inr es"
          "locate_esp d (t_kname t) ?ps (esp_entries es) = Inl err"
      by (auto simp: find_esp_partition_def find_esp_in_def read_esp_entries_def result_iffs Let_def)
    then show ?thesis
    proof cases
      case 3
      from read_gpt_entries_Inl [OF 3(2)] 3(1) Inl show ?thesis
        by (auto simp: is_absent_def)
    next
      case 4
      from locate_esp_Inl [OF 4(3)] 4(1,2) Inl show ?thesis
        by (auto simp: esp_entries_def filter_empty_conv)
    qed (use Inl in \<open>simp_all add: is_absent_def\<close>)
  qed
qed

end
