(* ===== verification/Efiboot.thy ===== *)
theory Efiboot
  imports Gpt
begin

text \<open>
  \<open>src/efiboot.rs\<close>: the UEFI boot entry of the written disk. Load options and device paths
  are parsed from and encoded to bytes; the variable store is a record of operations over a
  state, of which \<open>efivarfs\<close> is the live one.
\<close>

section \<open>Data\<close>

text \<open>The loader path depends on the architecture the inspector is built for.\<close>

datatype arch = X86_64 | Aarch64

definition BACKSLASH :: char where "BACKSLASH = CHR 0x5C"

definition uefi_path :: "string list \<Rightarrow> string" where
  "uefi_path ps = concat (map (\<lambda>p. BACKSLASH # p) ps)"

definition REMOVABLE_LOADERS :: "(arch \<times> string) list" where
  "REMOVABLE_LOADERS = [(X86_64, uefi_path [''EFI'', ''BOOT'', ''BOOTX64.EFI'']),
     (Aarch64, uefi_path [''EFI'', ''BOOT'', ''BOOTAA64.EFI''])]"

definition ESP_LOADER_PATH :: "arch \<Rightarrow> string" where
  "ESP_LOADER_PATH a = (case a of X86_64 \<Rightarrow> snd (REMOVABLE_LOADERS ! 0)
     | Aarch64 \<Rightarrow> snd (REMOVABLE_LOADERS ! 1))"

definition EFI_GLOBAL_GUID :: string where
  "EFI_GLOBAL_GUID = ''8be4df61-93ca-11d2-aa0d-00e098032b8c''"
definition EFI_VARIABLE_ATTRS :: u32 where "EFI_VARIABLE_ATTRS = 7"
definition LOAD_OPTION_ACTIVE :: u32 where "LOAD_OPTION_ACTIVE = 1"
definition LOAD_OPTION_CATEGORY :: u32 where "LOAD_OPTION_CATEGORY = 0x1F00"
definition DESCRIPTION :: string where "DESCRIPTION = ''beskar7''"

definition DP_MESSAGING :: u8 where "DP_MESSAGING = 0x03"
definition DP_MEDIA :: u8 where "DP_MEDIA = 0x04"
definition DP_END :: u8 where "DP_END = 0x7F"
definition DP_MEDIA_HD :: u8 where "DP_MEDIA_HD = 0x01"
definition DP_MEDIA_FILE :: u8 where "DP_MEDIA_FILE = 0x04"
definition DP_END_ENTIRE :: u8 where "DP_END_ENTIRE = 0xFF"
definition DP_NETWORK_SUBTYPES :: "u8 list" where "DP_NETWORK_SUBTYPES = [11, 12, 13, 24]"
definition HD_GPT :: u8 where "HD_GPT = 0x02"
definition HD_NODE_LEN :: u16 where "HD_NODE_LEN = 42"

lemmas dp_defs = DP_MESSAGING_def DP_MEDIA_def DP_END_def DP_MEDIA_HD_def DP_MEDIA_FILE_def
  DP_END_ENTIRE_def HD_GPT_def HD_NODE_LEN_def

datatype efi_boot_error =
    EfiMount errno
  | ListVars io_error
  | ReadVar string io_error
  | WriteVar string io_error
  | BadBootOrder
  | NoFreeEntry

datatype outcome = Created | Reused | Replaced

definition outcome_display :: "outcome \<Rightarrow> string" where
  "outcome_display out = (case out of Created \<Rightarrow> ''created'' | Reused \<Rightarrow> ''reused''
     | Replaced \<Rightarrow> ''replaced'')"

record boot_entry =
  b_number :: u16
  b_outcome :: outcome
  b_previous_order :: "u16 list"
  b_boot_order :: "u16 list"

record load_option =
  attributes :: u32
  description :: string
  device_path :: bytes

record hd_node =
  h_number :: u32
  h_start :: u64
  h_size :: u64
  h_guid :: bytes

definition hd_is :: "hd_node \<Rightarrow> gpt_esp \<Rightarrow> bool" where
  "hd_is h gpt \<longleftrightarrow> h_guid h = g_unique_guid gpt \<and> h_number h = g_number gpt \<and>
     h_start h = g_first_lba gpt \<and> h_size h = size_lba gpt"

section \<open>Device paths\<close>

text \<open>The nodes up to the End-Entire node, stopping at a malformed one.\<close>

function device_path_nodes :: "bytes \<Rightarrow> (u8 \<times> u8 \<times> bytes) list" where
  "device_path_nodes rest =
     (if length rest < 4 then []
      else let ty = rest ! 0; sub_ty = rest ! 1; len = unat (u16_le [rest ! 2, rest ! 3]) in
        if len < 4 \<or> len > length rest \<or> (ty = DP_END \<and> sub_ty = DP_END_ENTIRE) then []
        else (ty, sub_ty, take (len - 4) (drop 4 rest)) # device_path_nodes (drop len rest))"
  by pat_completeness auto
termination
  by (relation "measure length") auto

declare device_path_nodes.simps [simp del]

definition is_network :: "bytes \<Rightarrow> bool" where
  "is_network dp \<longleftrightarrow> (\<exists>(ty, sub_ty, data) \<in> set (device_path_nodes dp).
     ty = DP_MESSAGING \<and> sub_ty \<in> set DP_NETWORK_SUBTYPES)"

definition is_active :: "load_option \<Rightarrow> bool" where
  "is_active o' \<longleftrightarrow> attributes o' AND LOAD_OPTION_ACTIVE \<noteq> 0"

definition is_auto_bootable :: "load_option \<Rightarrow> bool" where
  "is_auto_bootable o' \<longleftrightarrow> is_active o' \<and> attributes o' AND LOAD_OPTION_CATEGORY = 0"

definition hd_of_node :: "u8 \<times> u8 \<times> bytes \<Rightarrow> hd_node option" where
  "hd_of_node node = (case node of (ty, sub_ty, data) \<Rightarrow>
     if ty = DP_MEDIA \<and> sub_ty = DP_MEDIA_HD \<and> 38 \<le> length data \<and> data ! 37 = HD_GPT
     then Some \<lparr>h_number = u32_at data 0, h_start = u64_at data 4, h_size = u64_at data 12,
       h_guid = take 16 (drop 20 data)\<rparr>
     else None)"

fun find_map :: "('a \<Rightarrow> 'b option) \<Rightarrow> 'a list \<Rightarrow> 'b option" where
  "find_map f [] = None"
| "find_map f (x # xs) = (case f x of Some y \<Rightarrow> Some y | None \<Rightarrow> find_map f xs)"

definition option_hd :: "load_option \<Rightarrow> hd_node option" where
  "option_hd o' = find_map hd_of_node (device_path_nodes (device_path o'))"

text \<open>\<open>ucs2_until_nul\<close> and \<open>ucs2_nul\<close>; a code unit is a \<open>u16\<close>.\<close>

definition ucs2_units :: "bytes \<Rightarrow> u16 list" where
  "ucs2_units data = takeWhile (\<lambda>u. u \<noteq> 0) (map u16_le (chunks_exact 2 data))"

definition ucs2_until_nul :: "bytes \<Rightarrow> string" where
  "ucs2_until_nul data = from_utf16_lossy (map unat (ucs2_units data))"

definition ucs2_nul :: "string \<Rightarrow> bytes" where
  "ucs2_nul s = concat (map u16_to_le (map word_of_nat (encode_utf16 s) @ [0]))"

definition is_sep :: "char \<Rightarrow> bool" where
  "is_sep c \<longleftrightarrow> c = BACKSLASH \<or> c = CHR ''/''"

definition loader_path :: "load_option \<Rightarrow> string option" where
  "loader_path o' = (let nodes = device_path_nodes (device_path o') in
     Option.bind (position (\<lambda>(ty, sub_ty, _). ty = DP_MEDIA \<and> sub_ty = DP_MEDIA_HD) nodes) (\<lambda>i.
     let parts = map (\<lambda>(_, _, data). ucs2_until_nul data)
           (takeWhile (\<lambda>(ty, sub_ty, _). ty = DP_MEDIA \<and> sub_ty = DP_MEDIA_FILE) (drop (i + 1) nodes))
     in if parts = [] then None
        else Some (uefi_path (filter (\<lambda>p. p \<noteq> []) (concat (map (split_pred is_sep) parts))))))"

definition hd_file_device_path :: "gpt_esp \<Rightarrow> string \<Rightarrow> bytes" where
  "hd_file_device_path gpt loader = (let path = ucs2_nul loader in
     [DP_MEDIA, DP_MEDIA_HD] @ u16_to_le HD_NODE_LEN @ u32_to_le (g_number gpt) @
     u64_to_le (g_first_lba gpt) @ u64_to_le (size_lba gpt) @ g_unique_guid gpt @ [HD_GPT, HD_GPT] @
     [DP_MEDIA, DP_MEDIA_FILE] @ u16_to_le (4 + word_of_nat (length path)) @ path @
     [DP_END, DP_END_ENTIRE, 0x04, 0x00])"

section \<open>Load options\<close>

definition encode_load_option :: "u32 \<Rightarrow> string \<Rightarrow> bytes \<Rightarrow> bytes" where
  "encode_load_option attrs desc dp =
     u32_to_le attrs @ u16_to_le (word_of_nat (length dp)) @ ucs2_nul desc @ dp"

text \<open>The description loop: the units before the NUL and the offset after it.\<close>

function description_units :: "bytes \<Rightarrow> nat \<Rightarrow> (u16 list \<times> nat) option" where
  "description_units raw pos =
     (case slice raw pos (pos + 2) of
        None \<Rightarrow> None
      | Some b \<Rightarrow> if u16_le b = 0 then Some ([], pos + 2)
          else map_option (\<lambda>(us, e). (u16_le b # us, e)) (description_units raw (pos + 2)))"
  by pat_completeness auto
termination
  by (relation "measure (\<lambda>(raw, pos). length raw - pos)") (auto simp: slice_def split: if_splits)

declare description_units.simps [simp del]

definition parse_load_option :: "bytes \<Rightarrow> load_option option" where
  "parse_load_option raw =
     Option.bind (slice raw 0 4) (\<lambda>a.
     Option.bind (slice raw 4 6) (\<lambda>l.
     Option.bind (description_units raw 6) (\<lambda>(units, pos).
     Option.bind (slice raw pos (pos + unat (u16_le l))) (\<lambda>dp.
     Some \<lparr>attributes = u32_le a, description = from_utf16_lossy (map unat units),
       device_path = dp\<rparr>))))"

section \<open>Boot order and names\<close>

definition parse_boot_order :: "bytes \<Rightarrow> u16 list option" where
  "parse_boot_order raw = (if length raw mod 2 \<noteq> 0 then None else Some (map u16_le (chunks_exact 2 raw)))"

definition encode_boot_order :: "u16 list \<Rightarrow> bytes" where
  "encode_boot_order order = concat (map u16_to_le order)"

definition boot_var_name :: "u16 \<Rightarrow> string" where
  "boot_var_name n = ''Boot'' @ fmt_04X n"

definition is_ascii_hexdigit :: "char \<Rightarrow> bool" where
  "is_ascii_hexdigit c \<longleftrightarrow> digit_val 16 c \<noteq> None"

definition parse_boot_var_name :: "string \<Rightarrow> u16 option" where
  "parse_boot_var_name name = Option.bind (strip_prefix ''Boot'' name) (\<lambda>hex.
     if length hex \<noteq> 4 \<or> \<not> list_all is_ascii_hexdigit hex then None
     else map_option word_of_nat (parse_unsigned 16 16 hex))"

text \<open>\<open>Iterator::min\<close>.\<close>

definition min_opt :: "u16 list \<Rightarrow> u16 option" where
  "min_opt ns = (case ns of [] \<Rightarrow> None | n # ns \<Rightarrow> Some (fold min ns n))"

definition pick_existing :: "(u16 \<times> load_option) list \<Rightarrow> gpt_esp \<Rightarrow> string \<Rightarrow> u16 option" where
  "pick_existing entries gpt loader = min_opt (map fst (filter (\<lambda>(_, o').
     is_active o' \<and> (case option_hd o' of None \<Rightarrow> False | Some h \<Rightarrow> hd_is h gpt) \<and>
     (case loader_path o' of None \<Rightarrow> True | Some p \<Rightarrow> eq_ignore_ascii_case p loader)) entries))"

definition previous_entry :: "(u16 \<times> load_option) list \<Rightarrow> u16 option" where
  "previous_entry entries = min_opt (map fst (filter (\<lambda>(_, o'). description o' = DESCRIPTION) entries))"

definition free_boot_number :: "u16 list \<Rightarrow> u16 option" where
  "free_boot_number used = find (\<lambda>n. n \<notin> set used) (map word_of_nat [0..<65536])"

text \<open>\<open>Iterator::rposition\<close>: the index of the last element that satisfies the predicate.\<close>

definition rposition :: "('a \<Rightarrow> bool) \<Rightarrow> 'a list \<Rightarrow> nat option" where
  "rposition P xs = map_option (\<lambda>i. length xs - 1 - i) (position P (rev xs))"

definition place_after_network ::
  "u16 list \<Rightarrow> u16 \<Rightarrow> (u16 \<Rightarrow> bool) \<Rightarrow> (u16 \<Rightarrow> bool) \<Rightarrow> u16 list" where
  "place_after_network order n bootable is_net =
     (let out = filter (\<lambda>e. e \<noteq> n) order;
          first_other = unwrap_or (position (\<lambda>e. bootable e \<and> \<not> is_net e) out) (length out);
          pos = (case rposition (\<lambda>e. bootable e \<and> is_net e) (take first_other out) of
              None \<Rightarrow> first_other | Some i \<Rightarrow> i + 1)
      in take pos out @ n # drop pos out)"

section \<open>The variable store\<close>

record 's var_store =
  v_list :: "'s \<Rightarrow> io_error + string list"
  v_read :: "'s \<Rightarrow> string \<Rightarrow> io_error + bytes option"
  v_write :: "'s \<Rightarrow> string \<Rightarrow> bytes \<Rightarrow> (io_error + unit) \<times> 's"

fun read_entries ::
  "(string \<Rightarrow> io_error + bytes option) \<Rightarrow> string list \<Rightarrow>
     efi_boot_error + (u16 \<times> load_option) list \<times> u16 list" where
  "read_entries rd [] = Inr ([], [])"
| "read_entries rd (name # names) =
     (case parse_boot_var_name name of
        None \<Rightarrow> read_entries rd names
      | Some n \<Rightarrow>
          rbind (map_err (ReadVar name) (rd name)) (\<lambda>value.
          rbind (read_entries rd names) (\<lambda>(entries, used).
          Inr ((case Option.bind value parse_load_option of
                  Some opt \<Rightarrow> (n, opt) # entries | None \<Rightarrow> entries), n # used))))"

definition read_boot_entries ::
  "'s var_store \<Rightarrow> 's \<Rightarrow> efi_boot_error + (u16 \<times> load_option) list \<times> u16 list" where
  "read_boot_entries st s =
     rbind (map_err ListVars (v_list st s)) (\<lambda>names.
     rbind (read_entries (v_read st s) names) (\<lambda>(entries, used).
     Inr (sort_key fst entries, sort used)))"

definition previous_order_of :: "'s var_store \<Rightarrow> 's \<Rightarrow> efi_boot_error + u16 list" where
  "previous_order_of st s =
     rbind (map_err (ReadVar ''BootOrder'') (v_read st s ''BootOrder'')) (\<lambda>value.
     case value of Some raw \<Rightarrow> ok_or (parse_boot_order raw) BadBootOrder | None \<Rightarrow> Inr [])"

text \<open>The number to use and how it was obtained, before anything is written.\<close>

definition choose_entry ::
  "(u16 \<times> load_option) list \<Rightarrow> u16 list \<Rightarrow> gpt_esp \<Rightarrow> string \<Rightarrow> efi_boot_error + u16 \<times> outcome" where
  "choose_entry entries used gpt loader = (case pick_existing entries gpt loader of
       Some n \<Rightarrow> Inr (n, Reused)
     | None \<Rightarrow> (case previous_entry entries of
           Some n \<Rightarrow> Inr (n, Replaced)
         | None \<Rightarrow> rbind (ok_or (free_boot_number used) NoFreeEntry) (\<lambda>n. Inr (n, Created))))"

definition entry_option :: "(u16 \<times> load_option) list \<Rightarrow> u16 \<Rightarrow> load_option option" where
  "entry_option entries n = map_option snd (find (\<lambda>(m, _). m = n) entries)"

definition entry_bootable :: "(u16 \<times> load_option) list \<Rightarrow> u16 \<Rightarrow> bool" where
  "entry_bootable entries n = (case entry_option entries n of None \<Rightarrow> False | Some o' \<Rightarrow> is_auto_bootable o')"

definition entry_network :: "(u16 \<times> load_option) list \<Rightarrow> u16 \<Rightarrow> bool" where
  "entry_network entries n = (case entry_option entries n of None \<Rightarrow> False
     | Some o' \<Rightarrow> is_network (device_path o'))"

definition write_entry ::
  "'s var_store \<Rightarrow> arch \<Rightarrow> gpt_esp \<Rightarrow> u16 \<Rightarrow> outcome \<Rightarrow> 's \<Rightarrow> (efi_boot_error + unit) \<times> 's" where
  "write_entry st a gpt n out s = (case out of
       Reused \<Rightarrow> (Inr (), s)
     | _ \<Rightarrow> (let name = boot_var_name n;
                 dp = hd_file_device_path gpt (ESP_LOADER_PATH a);
                 (r, s') = v_write st s name (encode_load_option LOAD_OPTION_ACTIVE DESCRIPTION dp)
         in (map_err (WriteVar name) r, s')))"

definition write_order :: "'s var_store \<Rightarrow> u16 list \<Rightarrow> u16 list \<Rightarrow> 's \<Rightarrow> (efi_boot_error + unit) \<times> 's" where
  "write_order st previous order s =
     (if order = previous then (Inr (), s)
      else let (r, s') = v_write st s ''BootOrder'' (encode_boot_order order)
        in (map_err (WriteVar ''BootOrder'') r, s'))"

definition ensure_in ::
  "'s var_store \<Rightarrow> arch \<Rightarrow> gpt_esp \<Rightarrow> 's \<Rightarrow> (efi_boot_error + boot_entry) \<times> 's" where
  "ensure_in st a gpt s =
     (case rbind (read_boot_entries st s) (\<lambda>(entries, used).
           rbind (previous_order_of st s) (\<lambda>previous.
           rbind (choose_entry entries used gpt (ESP_LOADER_PATH a)) (\<lambda>(n, out).
           Inr (entries, previous, n, out)))) of
        Inl e \<Rightarrow> (Inl e, s)
      | Inr (entries, previous, n, out) \<Rightarrow>
          (case write_entry st a gpt n out s of
             (Inl e, s1) \<Rightarrow> (Inl e, s1)
           | (Inr _, s1) \<Rightarrow>
               let order = place_after_network previous n (entry_bootable entries) (entry_network entries) in
               (case write_order st previous order s1 of
                  (Inl e, s2) \<Rightarrow> (Inl e, s2)
                | (Inr _, s2) \<Rightarrow> (Inr \<lparr>b_number = n, b_outcome = out,
                    b_previous_order = previous, b_boot_order = order\<rparr>, s2))))"

section \<open>efivarfs\<close>

text \<open>
  The mounted directory: its files in directory order with their raw contents, the immutable
  ones, and what the kernel answers. \<open>ev_eio\<close> holds the files whose reads fail; a variable
  that was just set reads back. \<open>ev_open\<close> and \<open>ev_set\<close> are the answers to opening a file for
  writing and to the one \<open>write(2)\<close>, which gives the count it took.
\<close>

record efivar_fs =
  ev_listable :: bool
  ev_files :: "(string \<times> bytes) list"
  ev_immutable :: "string set"
  ev_keep_flag :: "string set"
  ev_eio :: "string set"
  ev_open :: "string \<Rightarrow> io_error option"
  ev_set :: "string \<Rightarrow> bytes \<Rightarrow> io_error + nat"

definition efivar_suffix :: string where "efivar_suffix = CHR ''-'' # EFI_GLOBAL_GUID"

definition efivar_path :: "string \<Rightarrow> string" where
  "efivar_path name = name @ efivar_suffix"

definition efivar_list :: "efivar_fs \<Rightarrow> io_error + string list" where
  "efivar_list fs = (if ev_listable fs
     then Inr (List.map_filter (strip_suffix efivar_suffix) (utf8_names (map fst (ev_files fs))))
     else Inl (OsError EIO))"

definition efivar_read :: "efivar_fs \<Rightarrow> string \<Rightarrow> io_error + bytes option" where
  "efivar_read fs name = (let path = efivar_path name in
     if path \<in> ev_eio fs then Inl (OsError EIO)
     else (case map_of (ev_files fs) path of
         Some raw \<Rightarrow> Inr (Some (drop 4 raw))
       | None \<Rightarrow> Inr None))"

definition put_file :: "string \<Rightarrow> bytes \<Rightarrow> (string \<times> bytes) list \<Rightarrow> (string \<times> bytes) list" where
  "put_file path raw files = (if path \<in> set (map fst files)
     then map (\<lambda>(p, r). if p = path then (p, raw) else (p, r)) files else files @ [(path, raw)])"

text \<open>\<open>clear_immutable\<close> is best effort: the flag stays where the ioctls fail.\<close>

definition clear_immutable :: "string \<Rightarrow> efivar_fs \<Rightarrow> efivar_fs" where
  "clear_immutable path fs =
     fs\<lparr>ev_immutable := if path \<in> ev_keep_flag fs then ev_immutable fs else ev_immutable fs - {path}\<rparr>"

definition EPERM :: errno where "EPERM = 1"

definition open_for_write :: "string \<Rightarrow> efivar_fs \<Rightarrow> (io_error + unit) \<times> efivar_fs" where
  "open_for_write path fs =
     (if path \<in> ev_immutable fs then (Inl (OsError EPERM), fs)
      else (case ev_open fs path of
          Some e \<Rightarrow> (Inl e, fs)
        | None \<Rightarrow> (Inr (), if path \<in> set (map fst (ev_files fs)) then fs
            else fs\<lparr>ev_files := ev_files fs @ [(path, [])]\<rparr>)))"

definition efivar_write :: "efivar_fs \<Rightarrow> string \<Rightarrow> bytes \<Rightarrow> (io_error + unit) \<times> efivar_fs" where
  "efivar_write fs name value = (let path = efivar_path name;
       fs = (if path \<in> set (map fst (ev_files fs)) then clear_immutable path fs else fs)
     in (case open_for_write path fs of
           (Inl e, fs) \<Rightarrow> (Inl e, fs)
         | (Inr _, fs) \<Rightarrow> (let buf = u32_to_le EFI_VARIABLE_ATTRS @ value in
             (case ev_set fs path buf of
                Inl e \<Rightarrow> (Inl e, fs)
              | Inr n \<Rightarrow> (let fs = fs\<lparr>ev_files := put_file path (take n buf) (ev_files fs),
                            ev_eio := ev_eio fs - {path}\<rparr> in
                  if n \<noteq> length buf then (Inl (IoOther ''short efivarfs write''), fs)
                  else (Inr (), fs))))))"

definition efivarfs :: "efivar_fs var_store" where
  "efivarfs = \<lparr>v_list = efivar_list, v_read = efivar_read, v_write = efivar_write\<rparr>"

text \<open>Mounting, with the answer of \<open>mount(2)\<close>, and the whole operation.\<close>

definition mount_efivarfs :: "errno + unit \<Rightarrow> efi_boot_error + unit" where
  "mount_efivarfs answer = (case answer of
       Inr _ \<Rightarrow> Inr ()
     | Inl e \<Rightarrow> if e = EBUSY then Inr () else Inl (EfiMount e))"

definition ensure_disk_boot_entry ::
  "errno + unit \<Rightarrow> arch \<Rightarrow> esp_partition \<Rightarrow> efivar_fs \<Rightarrow> (efi_boot_error + boot_entry) \<times> efivar_fs" where
  "ensure_disk_boot_entry mount_answer a esp fs = (case mount_efivarfs mount_answer of
       Inl e \<Rightarrow> (Inl e, fs)
     | Inr _ \<Rightarrow> ensure_in efivarfs a (esp_gpt esp) fs)"

section \<open>The contract of a variable store\<close>

locale var_store_laws =
  fixes st :: "'s var_store"
  assumes write_read: "v_write st s name value = (Inr u, s') \<Longrightarrow> v_read st s' name = Inr (Some value)"
    and write_other: "v_write st s name value = (r, s') \<Longrightarrow> other \<noteq> name \<Longrightarrow>
      v_read st s' other = v_read st s other"
    and write_list: "ascii name \<Longrightarrow> v_list st s = Inr names \<Longrightarrow> v_write st s name value = (Inr u, s') \<Longrightarrow>
      \<exists>names'. v_list st s' = Inr names' \<and> name \<in> set names' \<and>
        filter (\<lambda>x. x \<noteq> name) names' = filter (\<lambda>x. x \<noteq> name) names"

lemma efivar_path_inj [simp]: "efivar_path a = efivar_path b \<longleftrightarrow> a = b"
  by (simp add: efivar_path_def)

lemma map_of_map_put:
  "map_of (map (\<lambda>(p, r). if p = path then (p, raw) else (p, r)) fs) k =
     (if k = path then map_option (\<lambda>_. raw) (map_of fs k) else map_of fs k)"
  by (induction fs) auto

lemma map_of_put_file [simp]:
  "map_of (put_file path raw files) k = (if k = path then Some raw else map_of files k)"
proof (cases "path \<in> set (map fst files)")
  case True
  then have "map_of files path \<noteq> None" by (simp add: map_of_eq_None_iff)
  then show ?thesis using True by (auto simp: put_file_def map_of_map_put)
next
  case False
  then have "map_of files path = None" by (simp add: map_of_eq_None_iff)
  with False show ?thesis by (auto simp: put_file_def map_add_def split: option.splits)
qed

lemma map_fst_put_file:
  "map fst (put_file path raw files) =
     (if path \<in> set (map fst files) then map fst files else map fst files @ [path])"
proof -
  have "map fst (map (\<lambda>(p, r). if p = path then (p, raw) else (p, r)) files) = map fst files"
    by (induction files) auto
  then show ?thesis by (simp add: put_file_def)
qed

lemma ascii_efivar_path: "ascii name \<Longrightarrow> ascii (efivar_path name)"
proof -
  have "ascii efivar_suffix" by (simp add: efivar_suffix_def EFI_GLOBAL_GUID_def ascii_def)
  then show "ascii name \<Longrightarrow> ascii (efivar_path name)" by (auto simp: efivar_path_def ascii_def)
qed

lemma efivar_names_filter:
  "filter (\<lambda>x. x \<noteq> name) (List.map_filter (strip_suffix efivar_suffix) ps) =
     List.map_filter (strip_suffix efivar_suffix) (filter (\<lambda>p. p \<noteq> efivar_path name) ps)"
proof (induction ps)
  case (Cons p ps)
  show ?case
  proof (cases "strip_suffix efivar_suffix p")
    case None
    then have "p \<noteq> efivar_path name" by (auto simp: efivar_path_def)
    with None Cons show ?thesis by (simp add: map_filter_simps)
  next
    case (Some n)
    then have "p = efivar_path n" by (simp add: efivar_path_def strip_suffix_Some)
    with Some Cons show ?thesis by (simp add: map_filter_simps)
  qed
qed (simp add: map_filter_simps)

lemma open_for_write_Inr:
  "open_for_write path fs = (Inr u, fs') \<Longrightarrow> ev_listable fs' = ev_listable fs \<and> ev_eio fs' = ev_eio fs \<and>
     ev_set fs' = ev_set fs \<and> path \<in> set (map fst (ev_files fs')) \<and>
     (\<forall>k. k \<noteq> path \<longrightarrow> map_of (ev_files fs') k = map_of (ev_files fs) k) \<and>
     filter (\<lambda>p. p \<noteq> path) (map fst (ev_files fs')) = filter (\<lambda>p. p \<noteq> path) (map fst (ev_files fs))"
  by (auto simp: open_for_write_def map_add_def split: option.splits if_splits)

lemma efivar_write_cases:
  assumes "efivar_write fs name value = (r, fs')"
  obtains (refused) e where "r = Inl e" "ev_eio fs' = ev_eio fs"
      "\<And>k. k \<noteq> efivar_path name \<Longrightarrow> map_of (ev_files fs') k = map_of (ev_files fs) k"
    | (set_var) raw where "ev_eio fs' = ev_eio fs - {efivar_path name}"
      "ev_listable fs' = ev_listable fs" "efivar_path name \<in> set (map fst (ev_files fs'))"
      "\<And>k. k \<noteq> efivar_path name \<Longrightarrow> map_of (ev_files fs') k = map_of (ev_files fs) k"
      "map_of (ev_files fs') (efivar_path name) = Some raw"
      "r = Inr () \<longrightarrow> raw = u32_to_le EFI_VARIABLE_ATTRS @ value"
      "filter (\<lambda>p. p \<noteq> efivar_path name) (map fst (ev_files fs')) =
       filter (\<lambda>p. p \<noteq> efivar_path name) (map fst (ev_files fs))"
proof -
  let ?path = "efivar_path name"
  let ?buf = "u32_to_le EFI_VARIABLE_ATTRS @ value"
  define fs0 where "fs0 = (if ?path \<in> set (map fst (ev_files fs)) then clear_immutable ?path fs else fs)"
  have fs0: "ev_files fs0 = ev_files fs" "ev_eio fs0 = ev_eio fs" "ev_listable fs0 = ev_listable fs"
    by (simp_all add: fs0_def clear_immutable_def)
  obtain o1 fs1 where op: "open_for_write ?path fs0 = (o1, fs1)" by fastforce
  note w = assms [unfolded efivar_write_def Let_def, folded fs0_def, unfolded op]
  show ?thesis
  proof (cases o1)
    case (Inl e)
    with op have "fs1 = fs0" by (auto simp: open_for_write_def split: option.splits if_splits)
    with w Inl fs0 show ?thesis by (intro refused [of e]) auto
  next
    case (Inr u)
    note o2 = open_for_write_Inr [OF op [unfolded Inr]]
    show ?thesis
    proof (cases "ev_set fs1 ?path ?buf")
      case (Inl e)
      with w Inr o2 fs0 show ?thesis by (intro refused [of e]) auto
    next
      case (Inr n)
      then have "fs' = fs1\<lparr>ev_files := put_file ?path (take n ?buf) (ev_files fs1),
            ev_eio := ev_eio fs1 - {?path}\<rparr>" "r = Inr () \<longrightarrow> n = length ?buf"
        using w \<open>o1 = Inr u\<close> by (auto split: if_splits)
      then show ?thesis using o2 fs0
        by (intro set_var [of "take n ?buf"]) (auto simp: map_fst_put_file simp del: take_append)
    qed
  qed
qed

interpretation efivar: var_store_laws efivarfs
proof
  fix s name val u s'
  assume "v_write efivarfs s name val = (Inr u, s')"
  then have w: "efivar_write s name val = (Inr (), s')" by (simp add: efivarfs_def)
  then show "v_read efivarfs s' name = Inr (Some val)"
    by (cases rule: efivar_write_cases) (auto simp: efivarfs_def efivar_read_def)
next
  fix s name val r s' other
  assume "v_write efivarfs s name val = (r, s')" "other \<noteq> (name :: string)"
  then have w: "efivar_write s name val = (r, s')" and "efivar_path other \<noteq> efivar_path name"
    by (simp_all add: efivarfs_def)
  then show "v_read efivarfs s' other = v_read efivarfs s other"
    by (cases rule: efivar_write_cases) (auto simp: efivarfs_def efivar_read_def Let_def)
next
  fix name s names val u s'
  assume a: "ascii name" "v_list efivarfs s = Inr names" "v_write efivarfs s name val = (Inr u, s')"
  then have w: "efivar_write s name val = (Inr (), s')" by (simp add: efivarfs_def)
  from a(2) have l: "ev_listable s"
      "names = List.map_filter (strip_suffix efivar_suffix) (utf8_names (map fst (ev_files s)))"
    by (auto simp: efivarfs_def efivar_list_def split: if_splits)
  from w show "\<exists>names'. v_list efivarfs s' = Inr names' \<and> name \<in> set names' \<and>
      filter (\<lambda>x. x \<noteq> name) names' = filter (\<lambda>x. x \<noteq> name) names"
  proof (cases rule: efivar_write_cases)
    case set_var
    let ?ns = "\<lambda>s. List.map_filter (strip_suffix efivar_suffix) (utf8_names (map fst (ev_files s)))"
    have u8: "utf8_valid (efivar_path name)"
      by (intro utf8_valid_ascii ascii_efivar_path a(1))
    have "v_list efivarfs s' = Inr (?ns s')"
      using l(1) set_var by (simp add: efivarfs_def efivar_list_def)
    moreover have "name \<in> set (?ns s')"
      using set_var(3) u8 by (force simp: set_map_filter utf8_names_def efivar_path_def)
    moreover have "filter (\<lambda>x. x \<noteq> name) (?ns s') = filter (\<lambda>x. x \<noteq> name) (?ns s)"
      using set_var(7) unfolding efivar_names_filter utf8_names_def filter_filter
      by (metis (no_types, lifting) filter_cong filter_filter conj_commute)
    ultimately show ?thesis using l(2) by blast
  qed auto
qed

section \<open>Lemmas: names and numbers\<close>

lemma boot_digits: "\<forall>c\<in>set (fmt_04X n). is_ascii_hexdigit c \<and> (of_char c :: nat) < 128"
proof
  fix c assume "c \<in> set (fmt_04X n)"
  then obtain d where "d < 16" "c = hex_upper d" by (auto simp: fmt_04X_def dest: set_hex_fixed)
  then have "digit_val 16 c = Some d" "(of_char c :: nat) < 128"
    by (simp_all only: digit_val_hex_upper) (simp add: hex_upper_def)
  then show "is_ascii_hexdigit c \<and> (of_char c :: nat) < 128"
    by (simp add: is_ascii_hexdigit_def)
qed

lemma parse_boot_name [simp]: "parse_boot_var_name (boot_var_name n) = Some n"
proof -
  have ne: "fmt_04X n \<noteq> []" by (simp add: fmt_04X_def flip: length_0_conv)
  have "strip_plus (fmt_04X n) = fmt_04X n"
  proof -
    have "hd (fmt_04X n) \<noteq> CHR ''+''"
      using boot_digits [of n] ne by (cases "fmt_04X n") (auto simp: is_ascii_hexdigit_def digit_val_def)
    then show ?thesis by (simp add: strip_plus_def)
  qed
  moreover have "digits_nat 16 0 (fmt_04X n) = Some (unat n)"
    using hex_fixed_digits [of hex_upper 4 "unat n"] unat_u16_lt [of n]
    by (simp add: fmt_04X_def digit_val_hex_upper)
  moreover have "length (fmt_04X n) = 4" by (simp add: fmt_04X_def)
  moreover have "list_all is_ascii_hexdigit (fmt_04X n)" using boot_digits by (simp add: list_all_iff)
  ultimately show ?thesis
    using ne by (simp add: parse_boot_var_name_def boot_var_name_def strip_prefix_def parse_unsigned_def Let_def)
qed

lemma ascii_boot_name: "ascii (boot_var_name n)"
  using boot_digits [of n] by (auto simp: ascii_def boot_var_name_def)

lemma parse_BootOrder [simp]: "parse_boot_var_name ''BootOrder'' = None"
  by (simp add: parse_boot_var_name_def strip_prefix_def)

lemma boot_name_not_order [simp]: "boot_var_name n \<noteq> ''BootOrder''"
  using parse_boot_name [of n] by (metis option.distinct(1) parse_BootOrder)

lemma boot_order_roundtrip: "parse_boot_order (encode_boot_order ns) = Some ns"
proof -
  have c: "chunks_exact 2 (concat (map u16_to_le ns)) = map u16_to_le ns"
    by (intro chunks_exact_concat) auto
  have "length (concat (map u16_to_le ns)) mod 2 = 0"
    by (induction ns) auto
  then show ?thesis by (simp add: parse_boot_order_def encode_boot_order_def c comp_def)
qed

lemma upt_split: "i < j \<Longrightarrow> [0..<j] = [0..<i] @ i # [Suc i..<j]"
  using upt_add_eq_append [of 0 i "j - i"] by (simp add: upt_conv_Cons)

lemma free_boot_number_Some:
  "free_boot_number used = Some n \<longleftrightarrow> n \<notin> set used \<and> (\<forall>m < n. m \<in> set used)"
proof
  assume "free_boot_number used = Some n"
  then obtain us vs where l: "map word_of_nat [0..<65536] = us @ n # vs" "n \<notin> set used"
      "\<forall>u\<in>set us. u \<in> set used"
    by (auto simp: free_boot_number_def find_eq_Some_split)
  let ?ns = "map word_of_nat [0..<65536] :: u16 list"
  have i: "length us < 65536" using arg_cong [OF l(1), of length] by simp
  have "n = ?ns ! length us" using l(1) by (metis nth_append_length)
  then have n: "unat n = length us" using i by (simp add: unat_of_nat)
  have "m \<in> set used" if "m < n" for m
  proof -
    have "unat m < length us" using that n by (simp add: word_less_nat_alt)
    then have "us ! unat m = ?ns ! unat m" using l(1) by (metis nth_append)
    also have "\<dots> = m" by simp
    finally show ?thesis using l(3) \<open>unat m < length us\<close> by (metis nth_mem)
  qed
  with l(2) show "n \<notin> set used \<and> (\<forall>m < n. m \<in> set used)" by blast
next
  assume a: "n \<notin> set used \<and> (\<forall>m < n. m \<in> set used)"
  have up: "[0..<65536] = [0..<unat n] @ unat n # [Suc (unat n)..<65536]"
    by (rule upt_split) (rule unat_u16_lt)
  have "word_of_nat m \<in> set used" if "m < unat n" for m
  proof -
    have "unat (word_of_nat m :: u16) = m" using that unat_u16_lt [of n] by (intro unat_u16_of_nat) linarith
    with that a show ?thesis by (simp add: word_less_nat_alt)
  qed
  with a show "free_boot_number used = Some n"
    unfolding free_boot_number_def find_eq_Some_split up
    by (intro exI [of _ "map word_of_nat [0..<unat n]"]
        exI [of _ "map word_of_nat [Suc (unat n)..<65536]"]) simp
qed

lemma min_opt_Some: "min_opt ns = Some n \<longleftrightarrow> n \<in> set ns \<and> (\<forall>m\<in>set ns. n \<le> m)"
proof (cases ns)
  case (Cons k ks)
  have "fold min ks k = Min (set (k # ks))" by (rule Min.set_eq_fold [symmetric])
  then have "min_opt ns = Some (Min (set ns))" by (simp add: min_opt_def Cons)
  moreover have "set ns \<noteq> {}" using Cons by simp
  then have "Min (set ns) = n \<longleftrightarrow> n \<in> set ns \<and> (\<forall>m\<in>set ns. n \<le> m)"
    by (intro Min_eq_iff) auto
  ultimately show ?thesis by auto
qed (simp add: min_opt_def)

lemma min_opt_None: "min_opt ns = None \<longleftrightarrow> ns = []"
  by (simp add: min_opt_def split: list.splits)

section \<open>Lemmas: UCS-2 and load options\<close>

text \<open>Text without NUL: the strings a description or a loader path may hold.\<close>

definition plain_text :: "nat list \<Rightarrow> bool" where
  "plain_text cs \<longleftrightarrow> (\<forall>n\<in>set cs. scalar n \<and> 0 < n)"

lemma units_nonzero:
  assumes "plain_text cs"
  shows "\<forall>u\<in>set (encode_utf16 (from_chars cs)). 0 < u \<and> u < 65536"
proof
  fix u assume "u \<in> set (encode_utf16 (from_chars cs))"
  moreover have "chars (from_chars cs) = cs"
    using assms by (intro chars_from_chars) (auto simp: plain_text_def)
  ultimately obtain n where n: "n \<in> set cs" "u \<in> set (utf16_units n)"
    by (auto simp: encode_utf16_def)
  with assms have "scalar n" "0 < n" by (auto simp: plain_text_def)
  have "u < 65536" using n(2) utf16_units_bound [OF \<open>scalar n\<close>] by blast
  moreover have "u \<noteq> 0" using n(2) utf16_units_zero [OF \<open>0 < n\<close>] by metis
  ultimately show "0 < u \<and> u < 65536" by simp
qed

definition text_units :: "nat list \<Rightarrow> u16 list" where
  "text_units cs = map word_of_nat (encode_utf16 (from_chars cs))"

lemma text_units_ok:
  assumes "plain_text cs"
  shows "0 \<notin> set (text_units cs)" and "from_utf16_lossy (map unat (text_units cs)) = from_chars cs"
proof -
  have u: "unat (word_of_nat u :: u16) = u \<and> 0 < u" if "u \<in> set (encode_utf16 (from_chars cs))" for u
    using units_nonzero [OF assms] that by (simp add: unat_u16_of_nat)
  then show "0 \<notin> set (text_units cs)"
    unfolding text_units_def by (metis (no_types, lifting) imageE list.set_map less_irrefl unat_0)
  have "map unat (text_units cs) = encode_utf16 (from_chars cs)"
    unfolding text_units_def map_map using u by (intro map_idI) auto
  then show "from_utf16_lossy (map unat (text_units cs)) = from_chars cs"
    using assms by (simp add: utf16_round_trip plain_text_def)
qed

lemma ucs2_nul_units: "ucs2_nul (from_chars cs) = concat (map u16_to_le (text_units cs @ [0]))"
  by (simp add: ucs2_nul_def text_units_def)

lemma length_u16s: "length (concat (map u16_to_le us)) = 2 * length us"
  by (induction us) auto

lemma length_ucs2_nul: "length (ucs2_nul (from_chars cs)) = 2 * length (text_units cs) + 2"
  unfolding ucs2_nul_units length_u16s by simp

lemma ucs2_until_nul_roundtrip:
  assumes "plain_text cs"
  shows "ucs2_until_nul (ucs2_nul (from_chars cs)) = from_chars cs"
proof -
  have "chunks_exact 2 (ucs2_nul (from_chars cs)) = map u16_to_le (text_units cs @ [0])"
    unfolding ucs2_nul_units by (intro chunks_exact_concat) auto
  then have "ucs2_units (ucs2_nul (from_chars cs)) = takeWhile (\<lambda>u. u \<noteq> 0) (text_units cs @ [0])"
    by (simp add: ucs2_units_def comp_def)
  also have "\<dots> = text_units cs"
    using text_units_ok(1) [OF assms] by (subst takeWhile_append2) (auto simp: in_set_conv_nth)
  finally show ?thesis using text_units_ok(2) [OF assms] by (simp add: ucs2_until_nul_def)
qed

lemma description_units_nul:
  "0 \<notin> set us \<Longrightarrow> length pre = pos \<Longrightarrow>
     description_units (pre @ concat (map u16_to_le us) @ u16_to_le 0 @ post) pos =
       Some (us, pos + 2 * length us + 2)"
proof (induction us arbitrary: pre pos)
  case Nil
  then show ?case
    by (subst description_units.simps) (simp add: slice_append_mid)
next
  case (Cons u us)
  from Cons.IH [of "pre @ u16_to_le u" "pos + 2"] Cons.prems
  have "description_units (pre @ u16_to_le u @ concat (map u16_to_le us) @ u16_to_le 0 @ post) (pos + 2) =
      Some (us, pos + 2 + 2 * length us + 2)" by simp
  moreover have "slice (pre @ u16_to_le u @ concat (map u16_to_le us) @ u16_to_le 0 @ post) pos (pos + 2) =
      Some (u16_to_le u)"
    using Cons.prems by (intro slice_append_mid) auto
  ultimately show ?case using Cons.prems
    by (subst description_units.simps) simp
qed

lemma parse_encode_load_option:
  assumes "plain_text cs" "length dp < 65536"
  shows "parse_load_option (encode_load_option attrs (from_chars cs) dp @ rest) =
    Some \<lparr>attributes = attrs, description = from_chars cs, device_path = dp\<rparr>"
proof -
  let ?h = "u32_to_le attrs" and ?l = "u16_to_le (word_of_nat (length dp))"
  let ?us = "concat (map u16_to_le (text_units cs))"
  have raw: "encode_load_option attrs (from_chars cs) dp @ rest =
      ?h @ ?l @ ?us @ u16_to_le 0 @ dp @ rest"
    by (simp add: encode_load_option_def ucs2_nul_units)
  have us: "length ?us = 2 * length (text_units cs)" by (rule length_u16s)
  have n: "unat (word_of_nat (length dp) :: u16) = length dp" using assms(2) by (rule unat_u16_of_nat)
  have a: "slice (?h @ ?l @ ?us @ u16_to_le 0 @ dp @ rest) 0 4 = Some ?h"
    by (simp add: slice_def)
  have l: "slice (?h @ ?l @ ?us @ u16_to_le 0 @ dp @ rest) 4 6 = Some ?l"
    by (intro slice_append_mid) simp_all
  have d: "description_units (?h @ ?l @ ?us @ u16_to_le 0 @ dp @ rest) 6 =
      Some (text_units cs, 6 + 2 * length (text_units cs) + 2)"
    using description_units_nul [OF text_units_ok(1) [OF assms(1)], of "?h @ ?l" 6 "dp @ rest"] by simp
  have dp: "slice (?h @ ?l @ ?us @ u16_to_le 0 @ dp @ rest) (6 + 2 * length (text_units cs) + 2)
      (6 + 2 * length (text_units cs) + 2 + length dp) = Some dp"
    using slice_append_mid [of "?h @ ?l @ ?us @ u16_to_le 0" "6 + 2 * length (text_units cs) + 2" dp
        "6 + 2 * length (text_units cs) + 2 + length dp" rest] us by simp
  show ?thesis
    unfolding raw parse_load_option_def a l d
    using dp n text_units_ok(2) [OF assms(1)] by simp
qed

lemma slice_mono: "slice a i j = Some b \<Longrightarrow> slice (a @ c) i j = Some b"
  by (auto simp: slice_def split: if_splits)

lemma description_units_mono:
  "description_units a pos = Some r \<Longrightarrow> description_units (a @ c) pos = Some r"
proof (induction a pos arbitrary: r rule: description_units.induct)
  case (1 a pos)
  then obtain b where b: "slice a pos (pos + 2) = Some b"
    by (subst (asm) (2) description_units.simps) (auto split: option.splits)
  with 1 show ?case
    by (subst description_units.simps, subst (asm) (2) description_units.simps)
      (auto simp: slice_mono split: if_splits)
qed

text \<open>A strict prefix of a load option does not parse.\<close>

lemma parse_load_option_truncated:
  assumes "plain_text cs" "length dp < 65536"
    and "encode_load_option attrs (from_chars cs) dp = a @ b" "b \<noteq> []"
  shows "parse_load_option a = None"
proof (rule ccontr)
  assume "parse_load_option a \<noteq> None"
  then obtain l units pos d where p: "slice a 4 6 = Some l" "description_units a 6 = Some (units, pos)"
      "slice a pos (pos + unat (u16_le l)) = Some d"
    by (auto simp: parse_load_option_def bind_eq_Some_conv)
  let ?h = "u32_to_le attrs" and ?l = "u16_to_le (word_of_nat (length dp))"
  let ?us = "concat (map u16_to_le (text_units cs))"
  have raw: "a @ b = ?h @ ?l @ ?us @ u16_to_le 0 @ dp"
    using assms(3) by (simp add: encode_load_option_def ucs2_nul_units)
  have "slice (a @ b) 4 6 = Some ?l" unfolding raw by (intro slice_append_mid) simp_all
  with p(1) have l: "l = ?l" using slice_mono [of a 4 6 l b] by simp
  have "description_units (a @ b) 6 = Some (text_units cs, 6 + 2 * length (text_units cs) + 2)"
    unfolding raw
    using description_units_nul [OF text_units_ok(1) [OF assms(1)], of "?h @ ?l" 6 dp] by simp
  with p(2) have pos: "pos = 8 + 2 * length (text_units cs)"
    using description_units_mono [of a 6 "(units, pos)" b] by simp
  have "unat (u16_le l) = length dp" unfolding l using assms(2) by (simp add: unat_u16_of_nat)
  with p(3) have "pos + length dp \<le> length a" by (auto simp: slice_def split: if_splits)
  moreover have "length a + length b = 8 + 2 * length (text_units cs) + length dp"
    using arg_cong [OF raw, of length] by (simp add: length_u16s)
  moreover have "0 < length b" using assms(4) by simp
  ultimately show False using pos by linarith
qed

section \<open>Lemmas: the device path of the disk\<close>

lemma device_path_nodes_step:
  assumes "length data + 4 < 65536" "\<not> (ty = DP_END \<and> sub_ty = DP_END_ENTIRE)"
  shows "device_path_nodes ([ty, sub_ty] @ u16_to_le (word_of_nat (length data + 4)) @ data @ rest) =
    (ty, sub_ty, data) # device_path_nodes rest"
proof -
  define len where "len = u16_to_le (word_of_nat (length data + 4))"
  obtain x y where xy: "len = [x, y]" by (metis len_def u16_to_le_pair)
  have n: "unat (u16_le [x, y]) = length data + 4"
    using assms(1) unfolding xy [symmetric] len_def by (simp add: unat_u16_of_nat del: of_nat_add)
  have "drop (length data + 4) (ty # sub_ty # x # y # data @ rest) = rest"
    by (simp add: add.commute [of _ 4] numeral_eq_Suc)
  then show ?thesis
    unfolding len_def [symmetric] xy
    using assms(2) n by (subst device_path_nodes.simps) (simp add: Let_def)
qed

lemma device_path_nodes_end:
  "device_path_nodes ([DP_END, DP_END_ENTIRE] @ rest) = []"
  by (subst device_path_nodes.simps) (simp add: Let_def)

definition hd_node_data :: "gpt_esp \<Rightarrow> bytes" where
  "hd_node_data gpt = u32_to_le (g_number gpt) @ u64_to_le (g_first_lba gpt) @
     u64_to_le (size_lba gpt) @ g_unique_guid gpt @ [HD_GPT, HD_GPT]"

lemma hd_file_nodes:
  assumes "length (g_unique_guid gpt) = 16" "length (ucs2_nul loader) + 4 < 65536"
  shows "device_path_nodes (hd_file_device_path gpt loader) =
    [(DP_MEDIA, DP_MEDIA_HD, hd_node_data gpt), (DP_MEDIA, DP_MEDIA_FILE, ucs2_nul loader)]"
proof -
  have l: "length (hd_node_data gpt) + 4 = 42" using assms(1) by (simp add: hd_node_data_def)
  have p: "hd_file_device_path gpt loader =
      [DP_MEDIA, DP_MEDIA_HD] @ u16_to_le (word_of_nat (length (hd_node_data gpt) + 4)) @
      hd_node_data gpt @ [DP_MEDIA, DP_MEDIA_FILE] @
      u16_to_le (word_of_nat (length (ucs2_nul loader) + 4)) @ ucs2_nul loader @
      [DP_END, DP_END_ENTIRE] @ [4, 0]"
    unfolding l
    by (simp add: hd_file_device_path_def hd_node_data_def HD_NODE_LEN_def Let_def add.commute)
  have nd: "\<not> (DP_MEDIA = DP_END \<and> x = DP_END_ENTIRE)" for x by (simp add: dp_defs)
  have l': "length (hd_node_data gpt) + 4 < 65536" using l by simp
  show ?thesis
    unfolding p
    by (simp only: device_path_nodes_step [OF l' nd] device_path_nodes_step [OF assms(2) nd]
        device_path_nodes_end)
qed

text \<open>Components joined with backslashes split back into themselves.\<close>

lemma split_uefi_path:
  assumes "\<forall>p\<in>set ps. p \<noteq> [] \<and> (\<forall>c\<in>set p. \<not> is_sep c)"
  shows "filter (\<lambda>p. p \<noteq> []) (split_pred is_sep (uefi_path ps)) = ps"
proof -
  have bs: "is_sep BACKSLASH" by (simp add: is_sep_def)
  have "split_pred is_sep (a @ uefi_path ps) = a # ps"
    if "\<forall>c\<in>set a. \<not> is_sep c" "\<forall>p\<in>set ps. p \<noteq> [] \<and> (\<forall>c\<in>set p. \<not> is_sep c)" for a ps
    using that
  proof (induction ps arbitrary: a)
    case Nil
    then show ?case by (simp add: uefi_path_def split_pred_none)
  next
    case (Cons p ps)
    have "split_pred is_sep (a @ BACKSLASH # (p @ uefi_path ps)) = a # split_pred is_sep (p @ uefi_path ps)"
      using Cons.prems(1) bs by (simp add: split_pred_app)
    moreover have "split_pred is_sep (p @ uefi_path ps) = p # ps"
      using Cons.prems(2) by (intro Cons.IH) auto
    ultimately show ?case by (simp add: uefi_path_def)
  qed
  from this [of "[]" ps] assms have "split_pred is_sep (uefi_path ps) = [] # ps" by simp
  moreover have "filter (\<lambda>p. p \<noteq> []) ps = ps" using assms by (simp add: filter_id_conv)
  ultimately show ?thesis by simp
qed

lemma disk_option_hd:
  assumes "length (g_unique_guid gpt) = 16" "length (ucs2_nul loader) + 4 < 65536"
    and "device_path o' = hd_file_device_path gpt loader"
  shows "\<exists>h. option_hd o' = Some h \<and> hd_is h gpt"
proof -
  have "hd_of_node (DP_MEDIA, DP_MEDIA_HD, hd_node_data gpt) =
      Some \<lparr>h_number = g_number gpt, h_start = g_first_lba gpt, h_size = size_lba gpt,
        h_guid = g_unique_guid gpt\<rparr>"
    using assms(1)
    by (simp add: hd_of_node_def hd_node_data_def u32_at_def u64_at_def nth_append)
  then show ?thesis
    unfolding option_hd_def assms(3) hd_file_nodes [OF assms(1,2)]
    by (simp add: hd_is_def)
qed

lemma disk_option_loader:
  assumes "length (g_unique_guid gpt) = 16" "length (ucs2_nul loader) + 4 < 65536"
    and "device_path o' = hd_file_device_path gpt loader"
    and "loader = from_chars cs" "plain_text cs" "loader = uefi_path ps"
    and "\<forall>p\<in>set ps. p \<noteq> [] \<and> (\<forall>c\<in>set p. \<not> is_sep c)"
  shows "loader_path o' = Some loader"
proof -
  have u: "ucs2_until_nul (ucs2_nul loader) = loader"
    unfolding assms(4) by (rule ucs2_until_nul_roundtrip [OF assms(5)])
  have "filter (\<lambda>p. p \<noteq> []) (split_pred is_sep loader) = ps"
    unfolding assms(6) by (rule split_uefi_path [OF assms(7)])
  then show ?thesis
    unfolding loader_path_def assms(3) hd_file_nodes [OF assms(1,2)]
    using u assms(6) by (simp add: Let_def)
qed

lemma disk_not_network:
  assumes "length (g_unique_guid gpt) = 16" "length (ucs2_nul loader) + 4 < 65536"
  shows "\<not> is_network (hd_file_device_path gpt loader)"
  unfolding is_network_def hd_file_nodes [OF assms] by (simp add: dp_defs)

text \<open>The loader path and the description of the code.\<close>

definition loader_parts :: "arch \<Rightarrow> string list" where
  "loader_parts a = (case a of X86_64 \<Rightarrow> [''EFI'', ''BOOT'', ''BOOTX64.EFI'']
     | Aarch64 \<Rightarrow> [''EFI'', ''BOOT'', ''BOOTAA64.EFI''])"

lemma ESP_LOADER_PATH_parts: "ESP_LOADER_PATH a = uefi_path (loader_parts a)"
  by (cases a) (simp_all add: ESP_LOADER_PATH_def REMOVABLE_LOADERS_def loader_parts_def)

lemma loader_parts_ok: "\<forall>p\<in>set (loader_parts a). p \<noteq> [] \<and> (\<forall>c\<in>set p. \<not> is_sep c)"
  by (cases a) (simp_all add: loader_parts_def is_sep_def BACKSLASH_def)

definition plain_ascii :: "string \<Rightarrow> bool" where
  "plain_ascii s \<longleftrightarrow> (\<forall>c\<in>set s. 0 < (of_char c :: nat) \<and> (of_char c :: nat) < 128)"

lemma utf16_units_small: "\<forall>n\<in>set ns. n < 0x10000 \<Longrightarrow> concat (map utf16_units ns) = ns"
  by (induction ns) (auto simp: utf16_units_def)

lemma plain_ascii_text:
  assumes "plain_ascii s"
  shows "from_chars (codes s) = s" "plain_text (codes s)" "length (ucs2_nul s) = 2 * length s + 2"
proof -
  have a: "ascii s" using assms by (simp add: ascii_def plain_ascii_def)
  then show f: "from_chars (codes s) = s" by (rule from_chars_ascii)
  show "plain_text (codes s)"
    using assms by (auto simp: plain_text_def plain_ascii_def codes_def scalar_def)
  have "\<forall>n\<in>set (codes s). n < 0x10000" using assms by (auto simp: plain_ascii_def codes_def)
  then have "concat (map utf16_units (codes s)) = codes s" by (rule utf16_units_small)
  then have "encode_utf16 s = codes s" using chars_ascii [OF a] by (simp add: encode_utf16_def)
  then have "length (text_units (codes s)) = length s" using f by (simp add: text_units_def codes_def)
  then show "length (ucs2_nul s) = 2 * length s + 2" using length_ucs2_nul [of "codes s"] f by simp
qed

lemma loader_plain: "plain_ascii (ESP_LOADER_PATH a)"
  by (cases a) (simp_all add: ESP_LOADER_PATH_def REMOVABLE_LOADERS_def uefi_path_def BACKSLASH_def plain_ascii_def)

lemma loader_short: "length (ESP_LOADER_PATH a) \<le> 22"
  by (cases a) (simp_all add: ESP_LOADER_PATH_def REMOVABLE_LOADERS_def uefi_path_def)

lemma description_plain: "plain_ascii DESCRIPTION"
  by (simp add: DESCRIPTION_def plain_ascii_def)

section \<open>Lemmas: the boot order\<close>

lemma rposition_None: "rposition P xs = None \<longleftrightarrow> (\<forall>x\<in>set xs. \<not> P x)"
  by (simp add: rposition_def position_None)

lemma rposition_Some:
  assumes "rposition P xs = Some i"
  shows "i < length xs" "P (xs ! i)" "\<forall>x\<in>set (drop (i + 1) xs). \<not> P x"
proof -
  from assms obtain k where k: "position P (rev xs) = Some k" "i = length xs - 1 - k"
    by (auto simp: rposition_def)
  then have r: "k < length xs" "P (rev xs ! k)" "\<forall>j<k. \<not> P (rev xs ! j)"
    by (auto simp: position_Some)
  then show i: "i < length xs" and "P (xs ! i)" using k(2) by (auto simp: rev_nth)
  show "\<forall>x\<in>set (drop (i + 1) xs). \<not> P x"
  proof
    fix x assume "x \<in> set (drop (i + 1) xs)"
    then obtain j where j: "j < length xs - (i + 1)" "x = xs ! (i + 1 + j)"
      by (auto simp: in_set_conv_nth)
    define m where "m = length xs - 1 - (i + 1 + j)"
    have "m < k" using j(1) k(2) r(1) unfolding m_def by linarith
    moreover have "rev xs ! m = x" using j by (simp add: rev_nth m_def Suc_diff_Suc)
    ultimately show "\<not> P x" using r(3) by blast
  qed
qed

lemma place_split:
  "\<exists>us vs. place_after_network order n bootable is_net = us @ n # vs \<and>
     filter (\<lambda>e. e \<noteq> n) order = us @ vs \<and> filter (\<lambda>e. bootable e \<and> \<not> is_net e) us = [] \<and>
     (case filter bootable vs of [] \<Rightarrow> True | e # _ \<Rightarrow> \<not> is_net e) \<and>
     (if filter bootable us = [] then vs = [] \<or> bootable (hd vs) else bootable (last us))"
proof -
  define out where "out = filter (\<lambda>e. e \<noteq> n) order"
  define f where "f = unwrap_or (position (\<lambda>e. bootable e \<and> \<not> is_net e) out) (length out)"
  define p where "p = (case rposition (\<lambda>e. bootable e \<and> is_net e) (take f out) of None \<Rightarrow> f | Some i \<Rightarrow> i + 1)"
  have pl: "place_after_network order n bootable is_net = take p out @ n # drop p out"
    unfolding place_after_network_def Let_def out_def [symmetric] f_def [symmetric] p_def [symmetric]
    by (rule refl)
  have "f \<le> length out \<and> (\<forall>e\<in>set (take f out). \<not> (bootable e \<and> \<not> is_net e)) \<and>
    (f < length out \<longrightarrow> bootable (out ! f) \<and> \<not> is_net (out ! f))"
  proof (cases "position (\<lambda>e. bootable e \<and> \<not> is_net e) out")
    case None
    then have "f = length out" by (simp add: f_def)
    with None show ?thesis by (auto simp: position_None)
  next
    case (Some i)
    then have "i < length out" "bootable (out ! i) \<and> \<not> is_net (out ! i)"
        "\<forall>j<i. \<not> (bootable (out ! j) \<and> \<not> is_net (out ! j))"
      unfolding position_Some by blast+
    moreover have "f = i" using Some by (simp add: f_def)
    ultimately show ?thesis by (auto simp: in_set_conv_nth)
  qed
  then have f: "f \<le> length out" "\<forall>e\<in>set (take f out). \<not> (bootable e \<and> \<not> is_net e)"
    "f < length out \<longrightarrow> bootable (out ! f) \<and> \<not> is_net (out ! f)" by blast+
  have p: "p \<le> f" "\<forall>e\<in>set (drop p (take f out)). \<not> bootable e"
  proof -
    have "p \<le> f \<and> (\<forall>e\<in>set (drop p (take f out)). \<not> bootable e)"
    proof (cases "rposition (\<lambda>e. bootable e \<and> is_net e) (take f out)")
      case None
      then show ?thesis by (simp add: p_def)
    next
      case (Some i)
      from rposition_Some [OF this] have "i < length (take f out)"
          "\<forall>x\<in>set (drop (i + 1) (take f out)). \<not> (bootable x \<and> is_net x)" by blast+
      moreover have "e \<in> set (take f out)" if "e \<in> set (drop (i + 1) (take f out))" for e
        using that by (rule in_set_dropD)
      ultimately show ?thesis using f(1,2) Some by (auto simp: p_def)
    qed
    then show "p \<le> f" "\<forall>e\<in>set (drop p (take f out)). \<not> bootable e" by blast+
  qed
  have "drop p out = drop p (take f out) @ drop f out"
    using p(1) f(1) by (metis append_take_drop_id drop_append drop_drop length_take min.absorb2
        add_0 diff_is_0_eq drop0)
  then have "filter bootable (drop p out) = filter bootable (drop f out)"
    using p(2) by (simp add: filter_empty_conv)
  moreover have "case filter bootable (drop f out) of [] \<Rightarrow> True | e # _ \<Rightarrow> \<not> is_net e"
  proof (cases "f < length out")
    case True
    then have "drop f out = out ! f # drop (Suc f) out" by (simp add: Cons_nth_drop_Suc)
    with True f(3) show ?thesis by simp
  qed simp
  moreover have "filter (\<lambda>e. bootable e \<and> \<not> is_net e) (take p out) = []"
    using f(2) p(1) set_take_subset_set_take [of p f out] by (auto simp: filter_empty_conv)
  moreover have "if filter bootable (take p out) = [] then drop p out = [] \<or> bootable (hd (drop p out))
      else bootable (last (take p out))"
  proof (cases "rposition (\<lambda>e. bootable e \<and> is_net e) (take f out)")
    case None
    then have "p = f" by (simp add: p_def)
    moreover from None f(2) have "filter bootable (take f out) = []"
      by (auto simp: rposition_None filter_empty_conv)
    ultimately show ?thesis using f(3) by (cases "f < length out") (simp_all add: hd_drop_conv_nth)
  next
    case (Some i)
    from rposition_Some [OF this] have i: "i < f" "i < length out" "bootable (out ! i)" by auto
    have "take p out = take i out @ [out ! i]" using Some i(2) by (simp add: p_def take_Suc_conv_app_nth)
    with i(3) show ?thesis by simp
  qed
  ultimately show ?thesis
    unfolding pl by (intro exI [of _ "take p out"] exI [of _ "drop p out"]) (simp add: out_def)
qed

lemma place_others: "filter (\<lambda>e. e \<noteq> n) (place_after_network order n b w) = filter (\<lambda>e. e \<noteq> n) order"
proof -
  obtain us vs where p: "place_after_network order n b w = us @ n # vs"
      "filter (\<lambda>e. e \<noteq> n) order = us @ vs" using place_split by blast
  have "filter (\<lambda>e. e \<noteq> n) (us @ vs) = us @ vs" unfolding p(2) [symmetric] by simp
  with p show ?thesis by simp
qed

lemma place_cong:
  assumes "filter (\<lambda>e. e \<noteq> n) order = filter (\<lambda>e. e \<noteq> n) order'"
    and "\<And>e. e \<noteq> n \<Longrightarrow> b e = b' e" "\<And>e. e \<noteq> n \<Longrightarrow> w e = w' e"
  shows "place_after_network order n b w = place_after_network order' n b' w'"
proof -
  let ?out = "filter (\<lambda>e. e \<noteq> n) order'"
  have pos: "position P xs = position Q xs" if "\<And>x. x \<in> set xs \<Longrightarrow> P x = Q x" for P Q and xs :: "u16 list"
    using that by (induction xs) auto
  have "position (\<lambda>e. b e \<and> \<not> w e) ?out = position (\<lambda>e. b' e \<and> \<not> w' e) ?out"
    using assms(2,3) by (intro pos) auto
  moreover have "rposition (\<lambda>e. b e \<and> w e) (take k ?out) = rposition (\<lambda>e. b' e \<and> w' e) (take k ?out)" for k
    unfolding rposition_def using assms(2,3)
    by (intro arg_cong [where f = "map_option _"] pos) (auto dest!: in_set_takeD)
  ultimately show ?thesis
    unfolding place_after_network_def assms(1) Let_def by (simp cong: option.case_cong)
qed

lemma place_idem:
  assumes "\<And>e. e \<noteq> n \<Longrightarrow> b e = b' e" "\<And>e. e \<noteq> n \<Longrightarrow> w e = w' e"
  shows "place_after_network (place_after_network order n b w) n b' w' = place_after_network order n b w"
  by (rule place_cong) (simp_all add: place_others assms)

section \<open>Lemmas: reading the entries\<close>

definition entry_of :: "(string \<Rightarrow> io_error + bytes option) \<Rightarrow> string \<Rightarrow> (u16 \<times> load_option) option" where
  "entry_of rd name = Option.bind (parse_boot_var_name name) (\<lambda>n.
     map_option (Pair n) (Option.bind (Option.bind (result_ok (rd name)) id) parse_load_option))"

definition readable :: "(string \<Rightarrow> io_error + bytes option) \<Rightarrow> string \<Rightarrow> bool" where
  "readable rd name \<longleftrightarrow> parse_boot_var_name name = None \<or> is_ok (rd name)"

lemma read_entries_iff:
  "read_entries rd names = Inr (es, used) \<longleftrightarrow> list_all (readable rd) names \<and>
     es = List.map_filter (entry_of rd) names \<and> used = List.map_filter parse_boot_var_name names"
proof (induction names arbitrary: es used)
  case (Cons name names)
  show ?case
  proof (cases "parse_boot_var_name name")
    case None
    with Cons show ?thesis by (simp add: readable_def entry_of_def map_filter_simps)
  next
    case (Some n)
    show ?thesis
    proof (cases "rd name")
      case (Inl e)
      with Some show ?thesis by (simp add: readable_def)
    next
      case (Inr v)
      then show ?thesis using Some Cons.IH
        by (cases "Option.bind v parse_load_option")
          (auto simp: readable_def entry_of_def map_filter_simps rbind_eq_Inr)
    qed
  qed
qed (auto simp: map_filter_simps)

lemma find_filter: "find P xs = (case filter P xs of [] \<Rightarrow> None | x # _ \<Rightarrow> Some x)"
  by (induction xs) auto

lemma entry_option_filter:
  "entry_option es k = map_option snd (case filter (\<lambda>e. fst e = k) es of [] \<Rightarrow> None | x # _ \<Rightarrow> Some x)"
  by (simp add: entry_option_def find_filter case_prod_unfold)

lemma entry_option_sort [simp]: "entry_option (sort_key fst es) k = entry_option es k"
  unfolding entry_option_filter sort_key_stable ..

lemma entry_of_fst: "entry_of rd name = Some e \<Longrightarrow> parse_boot_var_name name = Some (fst e)"
  by (auto simp: entry_of_def bind_eq_Some_conv)

text \<open>Changing one variable changes the entries of its number only.\<close>

lemma entries_same:
  assumes "\<And>x. x \<noteq> name \<Longrightarrow> rd' x = rd x" "name \<notin> set ns"
  shows "List.map_filter (entry_of rd') ns = List.map_filter (entry_of rd) ns"
proof -
  have "entry_of rd' x = entry_of rd x" if "x \<noteq> name" for x
    using that assms(1) by (simp add: entry_of_def)
  with assms(2) show ?thesis
    by (induction ns) (auto simp: map_filter_simps split: option.splits)
qed

lemma entries_other:
  assumes "filter (\<lambda>x. x \<noteq> name) names' = filter (\<lambda>x. x \<noteq> name) names"
    and "\<And>x. x \<noteq> name \<Longrightarrow> rd' x = rd x"
    and "parse_boot_var_name name \<noteq> Some k"
  shows "filter (\<lambda>e. fst e = k) (List.map_filter (entry_of rd') names') =
    filter (\<lambda>e. fst e = k) (List.map_filter (entry_of rd) names)"
proof -
  have drop_name: "filter (\<lambda>e. fst e = k) (List.map_filter (entry_of r) ns) =
      filter (\<lambda>e. fst e = k) (List.map_filter (entry_of r) (filter (\<lambda>x. x \<noteq> name) ns))" for r ns
    using assms(3) by (induction ns) (auto simp: map_filter_simps dest: entry_of_fst split: option.splits)
  show ?thesis
    unfolding drop_name [of rd' names'] drop_name [of rd names] assms(1)
    by (subst entries_same [OF assms(2)]) auto
qed

lemma entries_no_boot:
  assumes "filter (\<lambda>x. x \<noteq> name) names' = filter (\<lambda>x. x \<noteq> name) names"
    and "\<And>x. x \<noteq> name \<Longrightarrow> rd' x = rd x" and "parse_boot_var_name name = None"
  shows "List.map_filter (entry_of rd') names' = List.map_filter (entry_of rd) names"
proof -
  have drop_name: "List.map_filter (entry_of r) ns = List.map_filter (entry_of r) (filter (\<lambda>x. x \<noteq> name) ns)" for r ns
  proof -
    have "entry_of r name = None" using assms(3) by (simp add: entry_of_def)
    then show ?thesis by (induction ns) (auto simp: map_filter_simps split: option.splits)
  qed
  show ?thesis
    unfolding drop_name [of rd' names'] drop_name [of rd names] assms(1)
    by (subst entries_same [OF assms(2)]) auto
qed

context var_store_laws
begin

lemma entries_after_write:
  assumes w: "v_write st s name val = (Inr u, s')" and "ascii name"
    and r: "read_boot_entries st s = Inr (es, used)"
  shows "\<exists>es' used'. read_boot_entries st s' = Inr (es', used') \<and>
    (parse_boot_var_name name = None \<longrightarrow> es' = es) \<and>
    (\<forall>n opt. parse_boot_var_name name = Some n \<and> parse_load_option val = Some opt \<longrightarrow>
       (\<forall>k. k \<noteq> n \<longrightarrow> entry_option es' k = entry_option es k) \<and>
       (n, opt) \<in> set es' \<and> set es' \<subseteq> insert (n, opt) (set es))"
proof -
  from r obtain names es0 us0 where l: "v_list st s = Inr names"
    and re: "read_entries (v_read st s) names = Inr (es0, us0)" and es: "es = sort_key fst es0"
    by (auto simp: read_boot_entries_def result_iffs)
  from write_list [OF assms(2) l w] obtain names' where l': "v_list st s' = Inr names'"
    and n': "name \<in> set names'" "filter (\<lambda>x. x \<noteq> name) names' = filter (\<lambda>x. x \<noteq> name) names" by blast
  have same: "v_read st s' x = v_read st s x" if "x \<noteq> name" for x
    using write_other [OF w that] .
  have here: "v_read st s' name = Inr (Some val)" by (rule write_read [OF w])
  have sub: "x \<in> set names" if "x \<in> set names'" "x \<noteq> name" for x
  proof -
    have "x \<in> set (filter (\<lambda>x. x \<noteq> name) names')" using that by simp
    then show ?thesis unfolding n'(2) by simp
  qed
  have "list_all (readable (v_read st s')) names'"
    unfolding list_all_iff
  proof
    fix x assume "x \<in> set names'"
    then show "readable (v_read st s') x"
      using re sub same here by (cases "x = name") (auto simp: read_entries_iff readable_def list_all_iff)
  qed
  then have re': "read_entries (v_read st s') names' =
      Inr (List.map_filter (entry_of (v_read st s')) names', List.map_filter parse_boot_var_name names')"
    by (simp add: read_entries_iff)
  let ?es = "List.map_filter (entry_of (v_read st s')) names'"
  have es0: "es0 = List.map_filter (entry_of (v_read st s)) names" using re by (simp add: read_entries_iff)
  have "parse_boot_var_name name = None \<Longrightarrow> ?es = es0"
    unfolding es0 by (rule entries_no_boot [OF n'(2) same])
  moreover have "entry_option ?es k = entry_option es0 k" if "parse_boot_var_name name = Some n" "k \<noteq> n" for n k
    unfolding entry_option_filter es0
    by (subst entries_other [OF n'(2) same]) (use that in auto)
  moreover have "(n, opt) \<in> set ?es \<and> set ?es \<subseteq> insert (n, opt) (set es0)"
    if "parse_boot_var_name name = Some n" "parse_load_option val = Some opt" for n opt
  proof -
    have e: "entry_of (v_read st s') name = Some (n, opt)" using that here by (simp add: entry_of_def)
    have "e \<in> insert (n, opt) (set es0)" if "x \<in> set names'" "entry_of (v_read st s') x = Some e" for x e
      using that e sub same unfolding es0
      by (cases "x = name") (auto simp: set_map_filter entry_of_def)
    then have "set ?es \<subseteq> insert (n, opt) (set es0)" unfolding set_map_filter subset_iff by blast
    moreover have "(n, opt) \<in> set ?es" using e n'(1) by (auto simp: set_map_filter)
    ultimately show ?thesis by blast
  qed
  ultimately show ?thesis
    using l' re' unfolding es by (simp add: read_boot_entries_def)
qed

end

section \<open>Lemmas: the whole operation\<close>

definition matches :: "gpt_esp \<Rightarrow> string \<Rightarrow> load_option \<Rightarrow> bool" where
  "matches gpt loader o' \<longleftrightarrow> is_active o' \<and>
     (case option_hd o' of None \<Rightarrow> False | Some h \<Rightarrow> hd_is h gpt) \<and>
     (case loader_path o' of None \<Rightarrow> True | Some p \<Rightarrow> eq_ignore_ascii_case p loader)"

lemma pick_existing_matches:
  "pick_existing es gpt loader = min_opt (map fst (filter (\<lambda>(_, o'). matches gpt loader o') es))"
  by (simp add: pick_existing_def matches_def)

lemma pick_existing_Some:
  "pick_existing es gpt loader = Some n \<longleftrightarrow> (\<exists>o'. (n, o') \<in> set es \<and> matches gpt loader o') \<and>
     (\<forall>(m, o') \<in> set es. matches gpt loader o' \<longrightarrow> n \<le> m)"
  unfolding pick_existing_matches min_opt_Some by force

lemma pick_existing_None:
  "pick_existing es gpt loader = None \<longleftrightarrow> (\<forall>(m, o') \<in> set es. \<not> matches gpt loader o')"
  unfolding pick_existing_matches min_opt_None by (auto simp: filter_empty_conv)

text \<open>The option the code writes, and what reads back from it.\<close>

definition disk_option :: "arch \<Rightarrow> gpt_esp \<Rightarrow> load_option" where
  "disk_option a gpt = \<lparr>attributes = LOAD_OPTION_ACTIVE, description = DESCRIPTION,
     device_path = hd_file_device_path gpt (ESP_LOADER_PATH a)\<rparr>"

definition disk_value :: "arch \<Rightarrow> gpt_esp \<Rightarrow> bytes" where
  "disk_value a gpt = encode_load_option LOAD_OPTION_ACTIVE DESCRIPTION
     (hd_file_device_path gpt (ESP_LOADER_PATH a))"

lemma loader_ucs2: "length (ucs2_nul (ESP_LOADER_PATH a)) \<le> 46"
  using plain_ascii_text(3) [OF loader_plain [of a]] loader_short [of a] by linarith

lemma disk_value_parses:
  assumes "length (g_unique_guid gpt) = 16"
  shows "parse_load_option (disk_value a gpt) = Some (disk_option a gpt)"
proof -
  have "length (hd_file_device_path gpt (ESP_LOADER_PATH a)) = 50 + length (ucs2_nul (ESP_LOADER_PATH a))"
    using assms by (simp add: hd_file_device_path_def Let_def)
  then have "length (hd_file_device_path gpt (ESP_LOADER_PATH a)) < 65536"
    using loader_ucs2 [of a] by linarith
  from parse_encode_load_option [OF plain_ascii_text(2) [OF description_plain] this,
      of LOAD_OPTION_ACTIVE "[]"]
  show ?thesis
    unfolding plain_ascii_text(1) [OF description_plain] by (simp add: disk_value_def disk_option_def)
qed

lemma disk_option_matches:
  assumes "length (g_unique_guid gpt) = 16"
  shows "matches gpt (ESP_LOADER_PATH a) (disk_option a gpt)"
proof -
  have u: "length (ucs2_nul (ESP_LOADER_PATH a)) + 4 < 65536" using loader_ucs2 [of a] by linarith
  have d: "device_path (disk_option a gpt) = hd_file_device_path gpt (ESP_LOADER_PATH a)"
    by (simp add: disk_option_def)
  have "loader_path (disk_option a gpt) = Some (ESP_LOADER_PATH a)"
    by (rule disk_option_loader [OF assms u d plain_ascii_text(1) [OF loader_plain, symmetric]
          plain_ascii_text(2) [OF loader_plain] ESP_LOADER_PATH_parts loader_parts_ok])
  moreover have "is_active (disk_option a gpt)"
    by (simp add: is_active_def disk_option_def LOAD_OPTION_ACTIVE_def)
  ultimately show ?thesis using disk_option_hd [OF assms u d] by (auto simp: matches_def)
qed

lemma ensure_in_Inr:
  assumes "ensure_in st a gpt s = (Inr b, s2)"
  obtains es used s1 where "read_boot_entries st s = Inr (es, used)"
    "previous_order_of st s = Inr (b_previous_order b)"
    "choose_entry es used gpt (ESP_LOADER_PATH a) = Inr (b_number b, b_outcome b)"
    "write_entry st a gpt (b_number b) (b_outcome b) s = (Inr (), s1)"
    "b_boot_order b = place_after_network (b_previous_order b) (b_number b)
       (entry_bootable es) (entry_network es)"
    "write_order st (b_previous_order b) (b_boot_order b) s1 = (Inr (), s2)"
proof -
  obtain es used where r: "read_boot_entries st s = Inr (es, used)"
    using assms by (cases "read_boot_entries st s") (auto simp: ensure_in_def)
  obtain prev where p: "previous_order_of st s = Inr prev"
    using assms r by (cases "previous_order_of st s") (auto simp: ensure_in_def)
  obtain n out where c: "choose_entry es used gpt (ESP_LOADER_PATH a) = Inr (n, out)"
    using assms r p by (cases "choose_entry es used gpt (ESP_LOADER_PATH a)") (auto simp: ensure_in_def)
  obtain x s1 where w: "write_entry st a gpt n out s = (x, s1)" by fastforce
  then have x: "x = Inr ()" using assms r p c by (cases x) (auto simp: ensure_in_def)
  let ?o = "place_after_network prev n (entry_bootable es) (entry_network es)"
  obtain y s2' where wo: "write_order st prev ?o s1 = (y, s2')" by fastforce
  then have "y = Inr ()" "s2' = s2"
    "b = \<lparr>b_number = n, b_outcome = out, b_previous_order = prev, b_boot_order = ?o\<rparr>"
    using assms r p c w x by (cases y; auto simp: ensure_in_def Let_def)+
  with that r p c w x wo show thesis by simp
qed

lemma choose_entry_cases:
  assumes "choose_entry es used gpt loader = Inr (n, out)"
  shows "out = Reused \<and> pick_existing es gpt loader = Some n \<or>
    out = Replaced \<and> pick_existing es gpt loader = None \<and> previous_entry es = Some n \<or>
    out = Created \<and> pick_existing es gpt loader = None \<and> previous_entry es = None \<and>
      free_boot_number used = Some n"
  using assms by (auto simp: choose_entry_def ok_or_def split: option.splits)

context var_store_laws
begin

text \<open>After the entry was written or found, its number is the one to reuse.\<close>

lemma entries_after_entry:
  assumes "length (g_unique_guid gpt) = 16"
    and r: "read_boot_entries st s = Inr (es, used)"
    and c: "choose_entry es used gpt (ESP_LOADER_PATH a) = Inr (n, out)"
    and w: "write_entry st a gpt n out s = (Inr (), s1)"
  shows "\<exists>es1 used1. read_boot_entries st s1 = Inr (es1, used1) \<and>
    pick_existing es1 gpt (ESP_LOADER_PATH a) = Some n \<and>
    (\<forall>k. k \<noteq> n \<longrightarrow> entry_option es1 k = entry_option es k) \<and>
    (\<forall>x. x \<noteq> boot_var_name n \<longrightarrow> v_read st s1 x = v_read st s x)"
proof (cases "out = Reused")
  case True
  with c w r show ?thesis using choose_entry_cases [OF c] by (auto simp: write_entry_def)
next
  case False
  then have none: "pick_existing es gpt (ESP_LOADER_PATH a) = None"
    using choose_entry_cases [OF c] by auto
  from w False have vw: "v_write st s (boot_var_name n) (disk_value a gpt) = (Inr (), s1)"
    by (auto simp: write_entry_def disk_value_def Let_def map_err_def split: outcome.splits prod.splits sum.splits)
  from entries_after_write [OF vw ascii_boot_name r] obtain es1 used1 where
    r1: "read_boot_entries st s1 = Inr (es1, used1)" and
    e1: "\<forall>k. k \<noteq> n \<longrightarrow> entry_option es1 k = entry_option es k"
      "(n, disk_option a gpt) \<in> set es1" "set es1 \<subseteq> insert (n, disk_option a gpt) (set es)"
    using disk_value_parses [OF assms(1), of a] by auto
  have m: "matches gpt (ESP_LOADER_PATH a) (disk_option a gpt)" by (rule disk_option_matches [OF assms(1)])
  have "pick_existing es1 gpt (ESP_LOADER_PATH a) = Some n"
    unfolding pick_existing_Some
    using e1(2,3) m none unfolding pick_existing_None by blast
  then show ?thesis using r1 e1(1) write_other [OF vw] by blast
qed

lemma ensure_idempotent:
  assumes g: "length (g_unique_guid gpt) = 16" and e: "ensure_in st a gpt s = (Inr b, s2)"
  shows "ensure_in st a gpt s2 = (Inr \<lparr>b_number = b_number b, b_outcome = Reused,
    b_previous_order = b_boot_order b, b_boot_order = b_boot_order b\<rparr>, s2)"
proof -
  from e obtain es used s1 where r: "read_boot_entries st s = Inr (es, used)"
    and p: "previous_order_of st s = Inr (b_previous_order b)"
    and c: "choose_entry es used gpt (ESP_LOADER_PATH a) = Inr (b_number b, b_outcome b)"
    and w: "write_entry st a gpt (b_number b) (b_outcome b) s = (Inr (), s1)"
    and o': "b_boot_order b = place_after_network (b_previous_order b) (b_number b)
       (entry_bootable es) (entry_network es)"
    and wo: "write_order st (b_previous_order b) (b_boot_order b) s1 = (Inr (), s2)"
    by (rule ensure_in_Inr)
  from entries_after_entry [OF g r c w] obtain es1 used1 where
    r1: "read_boot_entries st s1 = Inr (es1, used1)"
    and pick: "pick_existing es1 gpt (ESP_LOADER_PATH a) = Some (b_number b)"
    and opt: "\<forall>k. k \<noteq> b_number b \<longrightarrow> entry_option es1 k = entry_option es k"
    and rd: "\<forall>x. x \<noteq> boot_var_name (b_number b) \<longrightarrow> v_read st s1 x = v_read st s x" by blast
  have "v_read st s1 ''BootOrder'' = v_read st s ''BootOrder''"
    using rd boot_name_not_order [of "b_number b"] by metis
  with p have p1: "previous_order_of st s1 = Inr (b_previous_order b)" by (simp add: previous_order_of_def)
  have s2: "\<exists>used2. read_boot_entries st s2 = Inr (es1, used2)" "previous_order_of st s2 = Inr (b_boot_order b)"
  proof -
    have "(\<exists>used2. read_boot_entries st s2 = Inr (es1, used2)) \<and> previous_order_of st s2 = Inr (b_boot_order b)"
    proof (cases "b_boot_order b = b_previous_order b")
      case True
      with wo r1 p1 show ?thesis by (simp add: write_order_def)
    next
      case False
      with wo have vw: "v_write st s1 ''BootOrder'' (encode_boot_order (b_boot_order b)) = (Inr (), s2)"
        by (auto simp: write_order_def map_err_def split: prod.splits sum.splits)
      have "ascii ''BootOrder''" by (simp add: ascii_def)
      from entries_after_write [OF vw this r1] write_read [OF vw] show ?thesis
        by (auto simp: previous_order_of_def boot_order_roundtrip)
    qed
    then show "\<exists>used2. read_boot_entries st s2 = Inr (es1, used2)"
      "previous_order_of st s2 = Inr (b_boot_order b)" by blast+
  qed
  have "place_after_network (b_boot_order b) (b_number b) (entry_bootable es1) (entry_network es1) = b_boot_order b"
    unfolding o' using opt by (intro place_idem) (auto simp: entry_bootable_def entry_network_def)
  then show ?thesis using s2 pick
    by (auto simp: ensure_in_def choose_entry_def write_entry_def write_order_def Let_def)
qed

lemma ensure_other_vars:
  assumes "ensure_in st a gpt s = (r, s2)"
  shows "v_read st s2 x = v_read st s x \<or> x = ''BootOrder'' \<or> x \<in> range boot_var_name"
proof (rule ccontr)
  assume n: "\<not> ?thesis"
  have we: "v_read st s1 x = v_read st s x" if "write_entry st a gpt k out s = (y, s1)" for k out s1 y
    using that n write_other [of s "boot_var_name k" "disk_value a gpt" _ s1 x]
    by (auto simp: write_entry_def disk_value_def Let_def split: outcome.splits prod.splits)
  have wo: "v_read st s2 x = v_read st s1 x" if "write_order st prev ord s1 = (y, s2)" for prev ord y s1
    using that n write_other [of s1 "''BootOrder''" "encode_boot_order ord" _ s2 x]
    by (auto simp: write_order_def Let_def split: prod.splits if_splits)
  show False
    using assms n we wo
    by (auto simp: ensure_in_def Let_def split: sum.splits prod.splits)
qed

end

lemma ensure_in_not_mount:
  assumes "ensure_in st a gpt s = (Inl e, s')"
  shows "e \<noteq> EfiMount k"
proof -
  have "read_entries rd names \<noteq> Inl (EfiMount k)" for rd names
    by (induction names) (auto split: option.splits simp: result_iffs rbind_def map_err_def split: sum.splits)
  then have "read_boot_entries st s \<noteq> Inl (EfiMount k)"
    by (auto simp: read_boot_entries_def result_iffs)
  moreover have "previous_order_of st s \<noteq> Inl (EfiMount k)"
    by (auto simp: previous_order_of_def result_iffs split: option.splits)
  moreover have "choose_entry es used gpt l \<noteq> Inl (EfiMount k)" for es used l
    by (auto simp: choose_entry_def result_iffs split: option.splits)
  moreover have "fst (write_entry st a gpt n out s) \<noteq> Inl (EfiMount k)" for n out
    by (auto simp: write_entry_def Let_def map_err_def split: outcome.splits prod.splits sum.splits)
  moreover have "fst (write_order st prev ord s1) \<noteq> Inl (EfiMount k)" for prev ord s1
    by (auto simp: write_order_def Let_def map_err_def split: prod.splits sum.splits)
  ultimately show ?thesis using assms
    by (auto simp: ensure_in_def Let_def rbind_def split: sum.splits prod.splits; metis fst_conv)
qed

context var_store_laws
begin

lemma ensure_result:
  assumes g: "length (g_unique_guid gpt) = 16" and e: "ensure_in st a gpt s = (Inr b, s2)"
  shows "(\<exists>es used o'. read_boot_entries st s2 = Inr (es, used) \<and> (b_number b, o') \<in> set es \<and>
      matches gpt (ESP_LOADER_PATH a) o') \<and>
    previous_order_of st s = Inr (b_previous_order b) \<and> previous_order_of st s2 = Inr (b_boot_order b) \<and>
    filter (\<lambda>m. m \<noteq> b_number b) (b_boot_order b) = filter (\<lambda>m. m \<noteq> b_number b) (b_previous_order b) \<and>
    (b_outcome b = Reused \<longrightarrow> v_read st s2 (boot_var_name (b_number b)) = v_read st s (boot_var_name (b_number b)))"
proof -
  note again = ensure_idempotent [OF g e]
  from again obtain es used where r2: "read_boot_entries st s2 = Inr (es, used)"
    and p2: "previous_order_of st s2 = Inr (b_boot_order b)"
    and c2: "choose_entry es used gpt (ESP_LOADER_PATH a) = Inr (b_number b, Reused)"
    by (rule ensure_in_Inr) auto
  from choose_entry_cases [OF c2] have "pick_existing es gpt (ESP_LOADER_PATH a) = Some (b_number b)" by simp
  then obtain o' where o': "(b_number b, o') \<in> set es" "matches gpt (ESP_LOADER_PATH a) o'"
    by (auto simp: pick_existing_Some)
  from e obtain es0 used0 s1 where p: "previous_order_of st s = Inr (b_previous_order b)"
    and w: "write_entry st a gpt (b_number b) (b_outcome b) s = (Inr (), s1)"
    and ord: "b_boot_order b = place_after_network (b_previous_order b) (b_number b)
       (entry_bootable es0) (entry_network es0)"
    and wo: "write_order st (b_previous_order b) (b_boot_order b) s1 = (Inr (), s2)"
    by (rule ensure_in_Inr)
  have "v_read st s2 (boot_var_name (b_number b)) = v_read st s (boot_var_name (b_number b))"
    if "b_outcome b = Reused"
  proof -
    have "s1 = s" using w that by (simp add: write_entry_def)
    with wo write_other [of s "''BootOrder''" "encode_boot_order (b_boot_order b)" _ s2]
    show ?thesis by (auto simp: write_order_def Let_def split: if_splits prod.splits)
  qed
  with r2 p2 o' p show ?thesis unfolding ord by (auto simp: place_others)
qed

end

section \<open>Properties\<close>

text \<open>
  C23: a load option parses back from its encoding, with its attributes, its description (any
  text without NUL) and its device path, whatever optional data follows; and no strict prefix
  of the encoding parses.
\<close>

theorem load_option_roundtrip:
  assumes "plain_text cs" "length dp < 65536"
  shows "parse_load_option (encode_load_option attrs (from_chars cs) dp @ rest) =
      Some \<lparr>attributes = attrs, description = from_chars cs, device_path = dp\<rparr> \<and>
    (k < length (encode_load_option attrs (from_chars cs) dp) \<longrightarrow>
      parse_load_option (take k (encode_load_option attrs (from_chars cs) dp)) = None)"
proof (intro conjI impI)
  show "parse_load_option (encode_load_option attrs (from_chars cs) dp @ rest) =
      Some \<lparr>attributes = attrs, description = from_chars cs, device_path = dp\<rparr>"
    by (rule parse_encode_load_option [OF assms])
  assume "k < length (encode_load_option attrs (from_chars cs) dp)"
  then have "drop k (encode_load_option attrs (from_chars cs) dp) \<noteq> []" by simp
  then show "parse_load_option (take k (encode_load_option attrs (from_chars cs) dp)) = None"
    by (rule parse_load_option_truncated [OF assms append_take_drop_id [symmetric]])
qed

lemma load_option_roundtrip_witness:
  "parse_load_option (encode_load_option 1 ''beskar7'' [0x7F, 0xFF, 4, 0] @ [9]) =
      Some \<lparr>attributes = 1, description = ''beskar7'', device_path = [0x7F, 0xFF, 4, 0]\<rparr> \<and>
    parse_load_option (take 25 (encode_load_option 1 ''beskar7'' [0x7F, 0xFF, 4, 0])) = None"
proof -
  have d: "plain_ascii ''beskar7''" by (simp add: plain_ascii_def)
  note t = plain_ascii_text [OF d]
  have "25 < length (encode_load_option 1 ''beskar7'' [0x7F, 0xFF, 4, 0])"
    using t(3) by (simp add: encode_load_option_def)
  then show ?thesis
    using load_option_roundtrip [OF t(2), of "[0x7F, 0xFF, 4, 0]" 1 "[9]" 25] unfolding t(1) by simp
qed

text \<open>
  C22: the entry the inspector writes starts the disk's loader. The value parses back to an
  active, automatically bootable, non-network load option described \<open>beskar7\<close>, whose \<open>HD()\<close>
  node names exactly the partition of the GPT entry and whose \<open>File()\<close> path is the
  removable-media loader of the architecture.
\<close>

theorem disk_entry_starts_loader:
  assumes "length (g_unique_guid gpt) = 16"
  shows "\<exists>o' h. parse_load_option (encode_load_option LOAD_OPTION_ACTIVE DESCRIPTION
        (hd_file_device_path gpt (ESP_LOADER_PATH a))) = Some o' \<and>
    description o' = ''beskar7'' \<and> is_auto_bootable o' \<and> \<not> is_network (device_path o') \<and>
    option_hd o' = Some h \<and> h_guid h = g_unique_guid gpt \<and> h_number h = g_number gpt \<and>
    h_start h = g_first_lba gpt \<and> h_size h = size_lba gpt \<and>
    loader_path o' = Some (ESP_LOADER_PATH a)"
proof -
  have u: "length (ucs2_nul (ESP_LOADER_PATH a)) + 4 < 65536" using loader_ucs2 [of a] by linarith
  have d: "device_path (disk_option a gpt) = hd_file_device_path gpt (ESP_LOADER_PATH a)"
    by (simp add: disk_option_def)
  have "loader_path (disk_option a gpt) = Some (ESP_LOADER_PATH a)"
    by (rule disk_option_loader [OF assms u d plain_ascii_text(1) [OF loader_plain, symmetric]
          plain_ascii_text(2) [OF loader_plain] ESP_LOADER_PATH_parts loader_parts_ok])
  moreover obtain h where "option_hd (disk_option a gpt) = Some h" "hd_is h gpt"
    using disk_option_hd [OF assms u d] by blast
  moreover have "is_auto_bootable (disk_option a gpt)"
    by (simp add: is_auto_bootable_def is_active_def disk_option_def LOAD_OPTION_ACTIVE_def
        LOAD_OPTION_CATEGORY_def)
  moreover have "\<not> is_network (device_path (disk_option a gpt))"
    unfolding d by (rule disk_not_network [OF assms u])
  ultimately show ?thesis
    using disk_value_parses [OF assms, of a]
    by (auto simp: disk_value_def hd_is_def disk_option_def DESCRIPTION_def)
qed

definition demo_gpt :: gpt_esp where
  "demo_gpt = \<lparr>g_number = 1, g_unique_guid = replicate 16 7, g_first_lba = 2048, g_last_lba = 3071\<rparr>"

lemma disk_entry_starts_loader_witness:
  "\<exists>o'. parse_load_option (encode_load_option LOAD_OPTION_ACTIVE DESCRIPTION
        (hd_file_device_path demo_gpt (ESP_LOADER_PATH X86_64))) = Some o' \<and>
    loader_path o' = Some (BACKSLASH # ''EFI'' @ BACKSLASH # ''BOOT'' @ BACKSLASH # ''BOOTX64.EFI'')"
proof -
  have "length (g_unique_guid demo_gpt) = 16" by (simp add: demo_gpt_def)
  from disk_entry_starts_loader [OF this, of X86_64] show ?thesis
    by (auto simp: ESP_LOADER_PATH_parts loader_parts_def uefi_path_def)
qed

text \<open>
  The place of the disk in the boot order. The other entries keep their order, the disk
  occurs once, every automatically bootable entry before it is a network entry, and the first
  automatically bootable entry after it, if any, is not. It stands right after the last of
  those before it, or, when there is none, right before the first of those after it.
\<close>

lemma place_after_network_spec:
  "\<exists>us vs. place_after_network order n bootable is_net = us @ n # vs \<and>
     filter (\<lambda>e. e \<noteq> n) order = us @ vs \<and> filter (\<lambda>e. bootable e \<and> \<not> is_net e) us = [] \<and>
     (case filter bootable vs of [] \<Rightarrow> True | e # _ \<Rightarrow> \<not> is_net e) \<and>
     (if filter bootable us = [] then vs = [] \<or> bootable (hd vs) else bootable (last us))"
  by (rule place_split)

text \<open>
  C16: registering the boot entry is idempotent. On \<open>efivarfs\<close>, running it again after a
  success reuses the same entry, finds the order it left, writes nothing, and answers the
  same number and order.
\<close>

theorem boot_entry_idempotent:
  assumes "length (g_unique_guid gpt) = 16" and "ensure_in efivarfs a gpt fs = (Inr b, fs')"
  shows "ensure_in efivarfs a gpt fs' = (Inr \<lparr>b_number = b_number b, b_outcome = Reused,
    b_previous_order = b_boot_order b, b_boot_order = b_boot_order b\<rparr>, fs')"
  by (rule efivar.ensure_idempotent [OF assms])

text \<open>An empty store that accepts every write.\<close>

definition demo_vars :: efivar_fs where
  "demo_vars = \<lparr>ev_listable = True, ev_files = [], ev_immutable = {}, ev_keep_flag = {}, ev_eio = {},
     ev_open = (\<lambda>_. None), ev_set = (\<lambda>_ buf. Inr (length buf))\<rparr>"

definition demo_after :: efivar_fs where
  "demo_after = demo_vars\<lparr>ev_files :=
     [(efivar_path ''Boot0000'', u32_to_le 7 @ disk_value X86_64 demo_gpt),
      (efivar_path ''BootOrder'', u32_to_le 7 @ encode_boot_order [0])]\<rparr>"

lemma efivar_write_new:
  assumes "efivar_path name \<notin> set (map fst (ev_files fs))" "efivar_path name \<notin> ev_immutable fs"
    and "ev_open fs = (\<lambda>_. None)" "ev_set fs = (\<lambda>_ buf. Inr (length buf))"
  shows "efivar_write fs name val = (Inr (), fs\<lparr>ev_files := ev_files fs @
    [(efivar_path name, u32_to_le EFI_VARIABLE_ATTRS @ val)], ev_eio := ev_eio fs - {efivar_path name}\<rparr>)"
proof -
  have "map (\<lambda>(p, r). if p = efivar_path name then (p, raw) else (p, r)) (ev_files fs) = ev_files fs" for raw
    using assms(1) by (intro map_idI) force
  with assms show ?thesis
    by (simp add: efivar_write_def open_for_write_def put_file_def Let_def)
qed

lemma demo_ensure:
  "ensure_in efivarfs X86_64 demo_gpt demo_vars =
     (Inr \<lparr>b_number = 0, b_outcome = Created, b_previous_order = [], b_boot_order = [0]\<rparr>, demo_after)"
proof -
  have r: "read_boot_entries efivarfs demo_vars = Inr ([], [])"
    by (simp add: read_boot_entries_def efivarfs_def efivar_list_def demo_vars_def utf8_names_def
        map_filter_simps)
  have p: "previous_order_of efivarfs demo_vars = Inr []"
    by (simp add: previous_order_of_def efivarfs_def efivar_read_def demo_vars_def)
  have "free_boot_number [] = Some 0" by (simp add: free_boot_number_Some)
  then have c: "choose_entry [] [] demo_gpt (ESP_LOADER_PATH X86_64) = Inr (0, Created)"
    by (simp add: choose_entry_def pick_existing_def previous_entry_def min_opt_def)
  have o': "place_after_network [] 0 (entry_bootable []) (entry_network []) = [0]"
    by (simp add: place_after_network_def rposition_def)
  have n: "boot_var_name 0 = ''Boot0000''"
  proof -
    have four: "4 = Suc (Suc (Suc (Suc 0)))" by simp
    have "of_char (CHR ''0'') = (48 :: nat)" by simp
    then have "char_of (48 :: nat) = CHR ''0''" by (metis char_of_char)
    then have zero: "hex_upper 0 = CHR ''0''" by (simp add: hex_upper_def)
    show ?thesis
      unfolding boot_var_name_def fmt_04X_def four by (simp add: zero)
  qed
  let ?f0 = "(efivar_path ''Boot0000'', u32_to_le 7 @ disk_value X86_64 demo_gpt)"
  let ?fs1 = "demo_vars\<lparr>ev_files := [?f0]\<rparr>"
  have "efivar_write demo_vars ''Boot0000'' (disk_value X86_64 demo_gpt) = (Inr (), ?fs1)"
    by (subst efivar_write_new) (simp_all add: demo_vars_def EFI_VARIABLE_ATTRS_def)
  then have w: "write_entry efivarfs X86_64 demo_gpt 0 Created demo_vars = (Inr (), ?fs1)"
    by (simp add: write_entry_def efivarfs_def n flip: disk_value_def)
  have "efivar_write ?fs1 ''BootOrder'' (encode_boot_order [0]) = (Inr (), demo_after)"
    by (subst efivar_write_new) (simp_all add: demo_vars_def demo_after_def EFI_VARIABLE_ATTRS_def)
  then have wo: "write_order efivarfs [] [0] ?fs1 = (Inr (), demo_after)"
    by (simp add: write_order_def efivarfs_def)
  show ?thesis using r p c o' w wo by (simp add: ensure_in_def)
qed

lemma boot_entry_idempotent_witness:
  "ensure_in efivarfs X86_64 demo_gpt demo_after =
     (Inr \<lparr>b_number = 0, b_outcome = Reused, b_previous_order = [0], b_boot_order = [0]\<rparr>, demo_after)"
proof -
  have "length (g_unique_guid demo_gpt) = 16" by (simp add: demo_gpt_def)
  from boot_entry_idempotent [OF this demo_ensure] show ?thesis by simp
qed

text \<open>Where a registration took its number from, in the entries and numbers there were.\<close>

lemma ensure_origin:
  assumes "ensure_in st a gpt s = (Inr b, s2)"
  shows "\<exists>es used us vs. read_boot_entries st s = Inr (es, used) \<and>
    (case b_outcome b of
       Created \<Rightarrow> b_number b \<notin> set used
     | Replaced \<Rightarrow> b_number b \<in> set (map fst (filter (\<lambda>(_, o'). description o' = DESCRIPTION) es))
     | Reused \<Rightarrow> b_number b \<in> set (map fst es)) \<and>
    b_boot_order b = us @ b_number b # vs \<and>
    filter (\<lambda>m. m \<noteq> b_number b) (b_previous_order b) = us @ vs \<and>
    filter (\<lambda>m. entry_bootable es m \<and> \<not> entry_network es m) us = [] \<and>
    (case filter (entry_bootable es) vs of [] \<Rightarrow> True | m # _ \<Rightarrow> \<not> entry_network es m) \<and>
    (if filter (entry_bootable es) us = [] then vs = [] \<or> entry_bootable es (hd vs)
     else entry_bootable es (last us))"
proof -
  obtain es used where r: "read_boot_entries st s = Inr (es, used)"
    and c: "choose_entry es used gpt (ESP_LOADER_PATH a) = Inr (b_number b, b_outcome b)"
    and ord: "b_boot_order b = place_after_network (b_previous_order b) (b_number b) (entry_bootable es) (entry_network es)"
    using assms by (rule ensure_in_Inr)
  have prev: "n \<in> set (map fst (filter (\<lambda>(_, o'). description o' = DESCRIPTION) es))"
    if "previous_entry es = Some n" for n
    using that unfolding previous_entry_def min_opt_Some by blast
  have used: "n \<notin> set used" if "free_boot_number used = Some n" for n
    using that by (simp add: free_boot_number_Some)
  have "case b_outcome b of
       Created \<Rightarrow> b_number b \<notin> set used
     | Replaced \<Rightarrow> b_number b \<in> set (map fst (filter (\<lambda>(_, o'). description o' = DESCRIPTION) es))
     | Reused \<Rightarrow> b_number b \<in> set (map fst es)"
  proof (cases "b_outcome b")
    case Created
    with choose_entry_cases [OF c] used show ?thesis by simp
  next
    case Reused
    with choose_entry_cases [OF c] obtain o' where "(b_number b, o') \<in> set es" by (auto simp: pick_existing_Some)
    with Reused show ?thesis by force
  next
    case Replaced
    with choose_entry_cases [OF c] have "previous_entry es = Some (b_number b)" by simp
    from prev [OF this] Replaced show ?thesis by (simp only: outcome.case)
  qed
  note num = this
  obtain us vs where "b_boot_order b = us @ b_number b # vs"
    "filter (\<lambda>m. m \<noteq> b_number b) (b_previous_order b) = us @ vs"
    "filter (\<lambda>m. entry_bootable es m \<and> \<not> entry_network es m) us = []"
    "case filter (entry_bootable es) vs of [] \<Rightarrow> True | m # _ \<Rightarrow> \<not> entry_network es m"
    "if filter (entry_bootable es) us = [] then vs = [] \<or> entry_bootable es (hd vs) else entry_bootable es (last us)"
    using place_split [of "b_previous_order b" "b_number b" "entry_bootable es" "entry_network es"] ord by auto
  with num show ?thesis
    by (intro exI [of _ es] exI [of _ used] exI [of _ us] exI [of _ vs] conjI) (assumption | rule r)+
qed

text \<open>
  C15: the effect of registering the boot entry on \<open>efivarfs\<close>. On success the answered number is
  that of an active entry that starts the loader on exactly the ESP: a reused one, which was not
  rewritten, one of ours that was replaced, or one whose number no variable had. The boot order read back is
  the answered one: it holds that number once, and without it it is the previous order without it.
  No entry before the number boots on its own unless it is a network entry, the first
  after it that boots on its own is no network entry, and next to it is the last network entry that
  boots on its own or, when there is none, the first entry that does. Whatever the outcome, only
  \<open>BootOrder\<close> and \<open>Boot####\<close> variables differ afterwards, and a failed mount changes nothing.
\<close>

theorem boot_entry_effect:
  assumes "length (g_unique_guid (esp_gpt esp)) = 16"
  shows "case ensure_disk_boot_entry mount_answer a esp fs of (r, fs') \<Rightarrow>
    (v_read efivarfs fs' x = v_read efivarfs fs x \<or> x = ''BootOrder'' \<or> x \<in> range boot_var_name) \<and>
    (case r of
       Inl (EfiMount e) \<Rightarrow> fs' = fs \<and> e \<noteq> EBUSY
     | Inl _ \<Rightarrow> True
     | Inr b \<Rightarrow> (\<exists>es used o'. read_boot_entries efivarfs fs' = Inr (es, used) \<and>
         (b_number b, o') \<in> set es \<and> matches (esp_gpt esp) (ESP_LOADER_PATH a) o') \<and>
       previous_order_of efivarfs fs = Inr (b_previous_order b) \<and>
       previous_order_of efivarfs fs' = Inr (b_boot_order b) \<and>
       (if b_outcome b = Reused then v_read efivarfs fs' (boot_var_name (b_number b)) =
          v_read efivarfs fs (boot_var_name (b_number b)) else True) \<and>
       (\<exists>es used us vs. read_boot_entries efivarfs fs = Inr (es, used) \<and>
         (case b_outcome b of
            Created \<Rightarrow> b_number b \<notin> set used
          | Replaced \<Rightarrow> b_number b \<in> set (map fst (filter (\<lambda>(_, o'). description o' = DESCRIPTION) es))
          | Reused \<Rightarrow> b_number b \<in> set (map fst es)) \<and>
         b_boot_order b = us @ b_number b # vs \<and>
         filter (\<lambda>m. m \<noteq> b_number b) (b_previous_order b) = us @ vs \<and>
         filter (\<lambda>m. entry_bootable es m \<and> \<not> entry_network es m) us = [] \<and>
         (case filter (entry_bootable es) vs of [] \<Rightarrow> True | m # _ \<Rightarrow> \<not> entry_network es m) \<and>
         (if filter (entry_bootable es) us = [] then vs = [] \<or> entry_bootable es (hd vs)
          else entry_bootable es (last us))))"
proof (cases "mount_efivarfs mount_answer")
  case (Inl e)
  then show ?thesis
    by (auto simp: ensure_disk_boot_entry_def mount_efivarfs_def split: sum.splits if_splits)
next
  case (Inr u)
  obtain r fs' where e: "ensure_in efivarfs a (esp_gpt esp) fs = (r, fs')" by fastforce
  then have d: "ensure_disk_boot_entry mount_answer a esp fs = (r, fs')"
    using Inr by (simp add: ensure_disk_boot_entry_def)
  note others = efivar.ensure_other_vars [OF e]
  show ?thesis
  proof (cases r)
    case (Inl err)
    moreover have "err \<noteq> EfiMount k" for k using ensure_in_not_mount [OF e [unfolded Inl]] .
    ultimately show ?thesis using d others by (auto split: efi_boot_error.splits)
  next
    case (Inr b)
    note res = efivar.ensure_result [OF assms e [unfolded Inr]] and from_entries = ensure_origin [OF e [unfolded Inr]]
    show ?thesis unfolding d Inr prod.case sum.case
      by (intro conjI others from_entries) (use res in auto)
  qed
qed

lemma boot_entry_effect_witness:
  "\<exists>es used o'. read_boot_entries efivarfs demo_after = Inr (es, used) \<and> (0, o') \<in> set es \<and>
     matches demo_gpt (ESP_LOADER_PATH X86_64) o' \<and> previous_order_of efivarfs demo_after = Inr [0]"
proof -
  let ?esp = "\<lparr>esp_kname = ''sda1'', esp_dev_number = ''8:1'', esp_gpt = demo_gpt\<rparr>"
  have "length (g_unique_guid (esp_gpt ?esp)) = 16" by (simp add: demo_gpt_def)
  from boot_entry_effect [OF this, where mount_answer = "Inr ()" and a = X86_64 and fs = demo_vars and x = "[]"] show ?thesis
    by (auto simp: ensure_disk_boot_entry_def mount_efivarfs_def demo_ensure)
qed

end
