(* ===== verification/Esp_Files.thy ===== *)
theory Esp_Files
  imports Mount Efiboot
begin

text \<open>
  The ESP half of \<open>src/deploy.rs\<close>: the loader check, the per-deploy marker and the
  \<open>startup.nsh\<close> fallback. The answer of \<open>/dev/urandom\<close> and the text of an I/O error are
  arguments.
\<close>

section \<open>Data\<close>

definition MARKER_DIR :: string where "MARKER_DIR = ''beskar7''"
definition STARTUP_NSH_FILENAME :: string where "STARTUP_NSH_FILENAME = ''startup.nsh''"
definition STARTUP_NSH_DIRS :: "string list list" where
  "STARTUP_NSH_DIRS = [[''EFI'', ''tools''], [''EFI'', ''BOOT''], []]"
definition STARTUP_NSH_SIGNATURE :: string where
  "STARTUP_NSH_SIGNATURE = ''# Written by beskar7-inspector''"
definition STARTUP_NSH_MAPPINGS :: nat where "STARTUP_NSH_MAPPINGS = 32"

datatype startup_nsh = Written bool | LeftInPlace string | NotWritten string

record esp_prepared =
  ep_marker :: string
  ep_startup_nsh :: startup_nsh

datatype step_error = StepError string io_error

definition at_step :: "string \<Rightarrow> io_error \<Rightarrow> step_error" where
  "at_step step source = StepError step source"

section \<open>Reading the ESP\<close>

text \<open>A UEFI path below the mount point, as \<open>Path::join\<close> takes it.\<close>

definition rel_path :: "string \<Rightarrow> string list" where
  "rel_path uefi = path_components (replace_char BACKSLASH (CHR ''/'')
     (trim_start_matches (\<lambda>c. c = BACKSLASH) uefi))"

definition check_loader :: "string list \<Rightarrow> string \<Rightarrow> fs \<Rightarrow> (deploy_error + unit) \<times> fs" where
  "check_loader mount_dir loader fs = (case metadata (mount_dir @ rel_path loader) fs of
       (Inr (RegFile _ _), fs) \<Rightarrow> (Inr (), fs)
     | (Inr SubDir, fs) \<Rightarrow> (Inl (EspLoaderMissing loader), fs)
     | (Inl e, fs) \<Rightarrow>
         if is_not_found e then (Inl (EspLoaderMissing loader), fs)
         else (Inl (EspLoaderCheck loader e), fs))"

definition dir_child :: "string list \<Rightarrow> string \<Rightarrow> (string \<times> string list) option fs_call" where
  "dir_child dir name fs = (case fs_read_dir dir fs of
       (Inl e, fs) \<Rightarrow> if is_not_found e then (Inr None, fs) else (Inl e, fs)
     | (Inr (names, err), fs) \<Rightarrow>
         (case find (\<lambda>stored. utf8_valid stored \<and> eq_ignore_ascii_case stored name) names of
            Some stored \<Rightarrow> (Inr (Some (stored, dir @ [stored])), fs)
          | None \<Rightarrow> (case err of Some e \<Rightarrow> (Inl e, fs) | None \<Rightarrow> (Inr None, fs))))"

text \<open>The loop of \<open>resolve_file\<close>: the directory reached and the UEFI path so far.\<close>

fun resolve_from :: "string list \<Rightarrow> string list \<Rightarrow> string \<Rightarrow> (string list \<times> string) option fs_call" where
  "resolve_from [] path uefi fs = (Inr (Some (path, uefi)), fs)"
| "resolve_from (part # parts) path uefi fs = (case dir_child path part fs of
       (Inl e, fs) \<Rightarrow> (Inl e, fs)
     | (Inr None, fs) \<Rightarrow> (Inr None, fs)
     | (Inr (Some (stored, next)), fs) \<Rightarrow>
         resolve_from parts next (uefi @ [BACKSLASH] @ stored) fs)"

definition resolve_file :: "string list \<Rightarrow> string list \<Rightarrow> string option fs_call" where
  "resolve_file root parts fs = (case resolve_from parts root [] fs of
       (Inl e, fs) \<Rightarrow> (Inl e, fs)
     | (Inr None, fs) \<Rightarrow> (Inr None, fs)
     | (Inr (Some (path, uefi)), fs) \<Rightarrow> (case path_is_file path fs of
           (is_file, fs) \<Rightarrow> (Inr (if is_file then Some uefi else None), fs)))"

definition carries_signature :: "bytes \<Rightarrow> bool" where
  "carries_signature contents \<longleftrightarrow>
     str_contains STARTUP_NSH_SIGNATURE (from_utf8_lossy (of_bytes contents))"

definition is_ours :: "string list \<Rightarrow> bool fs_call" where
  "is_ours path = sbind (read_file path) (\<lambda>contents. sreturn (carries_signature contents))"

text \<open>
  Step 1 of \<open>write_esp_files\<close>: the scripts of ours, each with whether it is at the root, and
  the first script of the image.
\<close>

fun scan_scripts ::
  "string list \<Rightarrow> string list list \<Rightarrow> (bool \<times> string list) list \<Rightarrow> string option \<Rightarrow> fs \<Rightarrow>
     (step_error + (bool \<times> string list) list \<times> string option) \<times> fs" where
  "scan_scripts mount_dir [] ours img fs = (Inr (ours, img), fs)"
| "scan_scripts mount_dir (dir # dirs) ours img fs =
     (case smap_err (at_step ''reading the ESP'')
             (resolve_file mount_dir (dir @ [STARTUP_NSH_FILENAME])) fs of
        (Inl e, fs) \<Rightarrow> (Inl e, fs)
      | (Inr None, fs) \<Rightarrow> scan_scripts mount_dir dirs ours img fs
      | (Inr (Some uefi), fs) \<Rightarrow>
          (let path = mount_dir @ rel_path uefi in
           case smap_err (at_step ''reading the ESP'') (is_ours path) fs of
             (Inl e, fs) \<Rightarrow> (Inl e, fs)
           | (Inr True, fs) \<Rightarrow> scan_scripts mount_dir dirs (ours @ [(dir = [], path)]) img fs
           | (Inr False, fs) \<Rightarrow> scan_scripts mount_dir dirs ours
               (case img of None \<Rightarrow> Some uefi | Some i \<Rightarrow> Some i) fs))"

section \<open>Writing the ESP\<close>

text \<open>\<open>Path::extension\<close> of a file name: what follows its last dot, which is not its first character.\<close>

definition extension :: "string \<Rightarrow> string option" where
  "extension name = (let after = takeWhile (\<lambda>c. c \<noteq> CHR ''.'') (rev name) in
     if length after + 1 < length name then Some (rev after) else None)"

definition is_marker_name :: "string \<Rightarrow> bool" where
  "is_marker_name name \<longleftrightarrow>
     (case extension name of Some ext \<Rightarrow> eq_ignore_ascii_case ext ''id'' | None \<Rightarrow> False)"

definition remove_markers :: "string list \<Rightarrow> string list option \<Rightarrow> fs \<Rightarrow> (step_error + unit) \<times> fs" where
  "remove_markers marker_dir keep fs = (case fs_read_dir marker_dir fs of
       (Inl e, fs) \<Rightarrow> if is_not_found e then (Inr (), fs) else (Inl (at_step ''reading the ESP'' e), fs)
     | (Inr (names, err), fs) \<Rightarrow>
         sbind (sfor names (\<lambda>name.
             if is_marker_name name \<and> Some (marker_dir @ [name]) \<noteq> keep
             then smap_err (at_step ''removing an old marker'') (remove_file (marker_dir @ [name]))
             else sreturn ()))
           (\<lambda>_. case err of Some e \<Rightarrow> sfail (at_step ''reading the ESP'' e) | None \<Rightarrow> sreturn ()) fs)"

definition sync_dirs :: "string list list \<Rightarrow> fs \<Rightarrow> (step_error + unit) \<times> fs" where
  "sync_dirs dirs = sfor dirs (\<lambda>dir fs. case path_is_dir dir fs of
       (False, fs) \<Rightarrow> (Inr (), fs)
     | (True, fs) \<Rightarrow> smap_err (at_step ''flushing the ESP directories'')
         (sbind (open_dir dir) (\<lambda>_. sync_all)) fs)"

text \<open>The mode \<open>0o666\<close> of a new file.\<close>

definition write_synced :: "string list \<Rightarrow> bytes \<Rightarrow> unit fs_call" where
  "write_synced path contents =
     sbind (open_truncate path 0x1B6) (\<lambda>_. sbind (fs_write_all path contents) (\<lambda>_. sync_all))"

definition render_startup_nsh :: "arch \<Rightarrow> string \<Rightarrow> string" where
  "render_startup_nsh a marker =
     (let last_map = dec (STARTUP_NSH_MAPPINGS - 1); loader = ESP_LOADER_PATH a;
          script_lines =
            [''@echo -off'',
             STARTUP_NSH_SIGNATURE @ '': boot the disk provisioned with marker '' @ marker @ ''.'',
             ''set -v b7found 0'',
             ''for %i run (0 '' @ last_map @ '')'',
             ''  if exist FS%i:'' @ uefi_path [''EFI'', MARKER_DIR, marker @ ''.id''] @ '' then'',
             ''    set -v b7found 1'',
             ''    echo beskar7: starting FS%i:'' @ loader,
             ''    FS%i:'' @ loader,
             ''    echo beskar7: '' @ loader @ '' on FS%i: returned'',
             ''  endif'',
             ''endfor'',
             ''if %b7found% == 0 then'',
             ''  echo beskar7: no disk with marker '' @ marker @ '' found, stopping at the Shell prompt'',
             ''endif'']
      in join [CHR 0x0D, CHR 0x0A] script_lines @ [CHR 0x0D, CHR 0x0A])"

definition MARKER_BODY :: bytes where
  "MARKER_BODY = as_bytes (''beskar7 deploy marker'' @ [CHR 0x0D, CHR 0x0A])"

text \<open>The closure \<open>undo\<close>: every removal is attempted and no error stops it.\<close>

definition remove_quietly :: "string list list \<Rightarrow> fs \<Rightarrow> fs" where
  "remove_quietly paths fs = fold (\<lambda>p. signore (remove_file p)) paths fs"

text \<open>The paths of one run.\<close>

record esp_paths =
  p_efi :: "string list"
  p_marker_dir :: "string list"
  p_script :: "string list"
  p_new_marker :: "string list"
  p_tmp_marker :: "string list"
  p_tmp_script :: "string list"

definition esp_paths_of :: "string list \<Rightarrow> string list \<Rightarrow> string \<Rightarrow> esp_paths" where
  "esp_paths_of mount_dir efi_dir marker =
     (let marker_dir = efi_dir @ [MARKER_DIR] in
      \<lparr>p_efi = efi_dir, p_marker_dir = marker_dir, p_script = mount_dir @ [STARTUP_NSH_FILENAME],
       p_new_marker = marker_dir @ [marker @ ''.id''], p_tmp_marker = marker_dir @ [marker @ ''.id.tmp''],
       p_tmp_script = mount_dir @ [STARTUP_NSH_FILENAME @ ''.tmp'']\<rparr>)"

text \<open>With a script of the image: drop ours, and their markers.\<close>

definition leave_image_script ::
  "string list \<Rightarrow> esp_paths \<Rightarrow> (bool \<times> string list) list \<Rightarrow> string \<Rightarrow> fs \<Rightarrow> (step_error + startup_nsh) \<times> fs" where
  "leave_image_script mount_dir ps ours img =
     sbind (sfor ours (\<lambda>(_, path).
       smap_err (at_step ''removing an earlier startup.nsh of ours'') (remove_file path))) (\<lambda>_.
     sbind (remove_markers (p_marker_dir ps) None) (\<lambda>_.
     sbind (sync_dirs [mount_dir, p_efi ps, p_marker_dir ps]) (\<lambda>_.
     sreturn (LeftInPlace img))))"

text \<open>Steps 2 and 3: both files under temporary names, then into place.\<close>

definition place_pair :: "arch \<Rightarrow> string \<Rightarrow> esp_paths \<Rightarrow> fs \<Rightarrow> (step_error + unit) \<times> fs" where
  "place_pair a marker ps fs =
     (case smap_err (at_step (''creating '' @ uefi_path [''EFI'', ''beskar7'']))
             (create_dir_all (p_marker_dir ps)) fs of
        (Inl e, fs) \<Rightarrow> (Inl e, fs)
      | (Inr _, fs) \<Rightarrow>
     (case sbind (smap_err (at_step ''writing the marker'') (write_synced (p_tmp_marker ps) MARKER_BODY))
             (\<lambda>_. smap_err (at_step ''writing startup.nsh'')
               (write_synced (p_tmp_script ps) (as_bytes (render_startup_nsh a marker)))) fs of
        (Inl e, fs) \<Rightarrow> (Inl e, remove_quietly [p_tmp_marker ps, p_tmp_script ps] fs)
      | (Inr _, fs) \<Rightarrow>
     (case fs_rename (p_tmp_marker ps) (p_new_marker ps) fs of
        (Inl e, fs) \<Rightarrow> (Inl (at_step ''putting the marker and startup.nsh in place'' e),
          remove_quietly [p_tmp_marker ps, p_tmp_script ps] fs)
      | (Inr _, fs) \<Rightarrow>
     (case fs_rename (p_tmp_script ps) (p_script ps) fs of
        (Inl e, fs) \<Rightarrow> (Inl (at_step ''putting the marker and startup.nsh in place'' e),
          remove_quietly [p_tmp_marker ps, p_tmp_script ps, p_new_marker ps] fs)
      | (Inr _, fs) \<Rightarrow> (Inr (), fs)))))"

text \<open>Step 4: older markers, and scripts of ours outside the root.\<close>

definition remove_stale ::
  "string list \<Rightarrow> esp_paths \<Rightarrow> (bool \<times> string list) list \<Rightarrow> fs \<Rightarrow> (step_error + startup_nsh) \<times> fs" where
  "remove_stale mount_dir ps ours =
     sbind (remove_markers (p_marker_dir ps) (Some (p_new_marker ps))) (\<lambda>_.
     sbind (sfor ours (\<lambda>(at_root, path). if at_root then sreturn ()
       else smap_err (at_step ''removing an earlier startup.nsh of ours'') (remove_file path))) (\<lambda>_.
     sbind (sync_dirs [mount_dir, p_efi ps, p_marker_dir ps]) (\<lambda>_.
     sreturn (Written (ours \<noteq> [])))))"

definition write_esp_files ::
  "arch \<Rightarrow> string list \<Rightarrow> string \<Rightarrow> fs \<Rightarrow> (step_error + startup_nsh) \<times> fs" where
  "write_esp_files a mount_dir marker =
     sbind (smap_err (at_step ''reading the ESP'') (dir_child mount_dir ''EFI'')) (\<lambda>efi.
     let efi_dir = (case efi of Some (_, path) \<Rightarrow> path | None \<Rightarrow> mount_dir @ [''EFI'']);
         ps = esp_paths_of mount_dir efi_dir marker
     in sbind (scan_scripts mount_dir STARTUP_NSH_DIRS [] None) (\<lambda>(ours, img).
       case img of
         Some img \<Rightarrow> leave_image_script mount_dir ps ours img
       | None \<Rightarrow> sbind (place_pair a marker ps) (\<lambda>_. remove_stale mount_dir ps ours)))"

definition is_full_or_read_only :: "io_error \<Rightarrow> bool" where
  "is_full_or_read_only e \<longleftrightarrow> raw_os_error e = Some ENOSPC \<or> raw_os_error e = Some EROFS"

definition fallback_outcome :: "(io_error \<Rightarrow> string) \<Rightarrow> step_error + startup_nsh \<Rightarrow> deploy_error + startup_nsh" where
  "fallback_outcome show_io result = (case result of
       Inr outcome \<Rightarrow> Inr outcome
     | Inl (StepError step source) \<Rightarrow>
         if is_full_or_read_only source then Inr (NotWritten (step @ '': '' @ show_io source))
         else Inl (EspWrite step source))"

definition write_esp_fallback ::
  "arch \<Rightarrow> (io_error \<Rightarrow> string) \<Rightarrow> string list \<Rightarrow> string \<Rightarrow> fs \<Rightarrow> (deploy_error + startup_nsh) \<times> fs" where
  "write_esp_fallback a show_io mount_dir marker fs = (case write_esp_files a mount_dir marker fs of
       (r, fs) \<Rightarrow> (fallback_outcome show_io r, fs))"

text \<open>The eight bytes \<open>/dev/urandom\<close> gives, as hex.\<close>

definition new_marker :: "io_error + bytes \<Rightarrow> io_error + string" where
  "new_marker urandom = rbind urandom (\<lambda>b. Inr (concat (map fmt_02x b)))"

definition prepare_esp ::
  "arch \<Rightarrow> (io_error \<Rightarrow> string) \<Rightarrow> (u64 \<Rightarrow> u64 \<Rightarrow> u64) \<Rightarrow> io_error + bytes \<Rightarrow> esp_partition \<Rightarrow>
     kernel \<Rightarrow> (deploy_error + esp_prepared) \<times> kernel" where
  "prepare_esp a show_io makedev urandom esp k = (case new_marker urandom of
       Inl e \<Rightarrow> (Inl (EspWrite ''reading /dev/urandom for the marker'' e), k)
     | Inr marker \<Rightarrow>
         (case with_private_mount makedev ESP_MOUNT (esp_dev_path esp) (esp_dev_number esp)
             (sbind (check_loader [] (ESP_LOADER_PATH a)) (\<lambda>_. write_esp_fallback a show_io [] marker)) k of
            (r, k) \<Rightarrow> (rbind r (\<lambda>s. Inr \<lparr>ep_marker = marker, ep_startup_nsh = s\<rparr>), k)))"

section \<open>Lemmas: names\<close>

lemma same_path_True: "same_path True p q \<longleftrightarrow> list_all2 eq_ignore_ascii_case p q"
  by (auto simp: same_path_def fold_name_def eq_ignore_ascii_case_def list_all2_conv_all_nth list_eq_iff_nth_eq)

lemma same_path_True_Cons [simp]:
  "same_path True (a # p) (b # q) \<longleftrightarrow> eq_ignore_ascii_case a b \<and> same_path True p q"
  "\<not> same_path True (a # p) []" "\<not> same_path True [] (b # q)"
  by (simp_all add: same_path_True)




text \<open>A name the file system stores for one of the known names is a plain path component.\<close>

definition plain_name :: "string \<Rightarrow> bool" where
  "plain_name s \<longleftrightarrow> s \<noteq> [] \<and> BACKSLASH \<notin> set s \<and> CHR ''/'' \<notin> set s \<and> s \<noteq> ''.''"


lemma split_slashes:
  "\<forall>p\<in>set ps. CHR ''/'' \<notin> set p \<Longrightarrow> split_char (CHR ''/'') (concat (map (\<lambda>p. CHR ''/'' # p) ps)) = [] # ps"
  unfolding split_char_def
proof (induction ps)
  case (Cons p ps)
  have "split_pred (\<lambda>c. c = CHR ''/'') (p @ concat (map (\<lambda>p. CHR ''/'' # p) ps)) = p # ps"
  proof (cases ps)
    case Nil
    with Cons.prems show ?thesis using split_pred_none [of p "\<lambda>c. c = CHR ''/''"] by auto
  next
    case (Cons q qs)
    with Cons.IH Cons.prems show ?thesis
      using split_pred_app [of p "\<lambda>c. c = CHR ''/''" "CHR ''/''" "q @ concat (map (\<lambda>p. CHR ''/'' # p) qs)"]
      by auto
  qed
  then show ?case by simp
qed simp

lemma rel_path_uefi:
  assumes "\<forall>p\<in>set ps. plain_name p"
  shows "rel_path (uefi_path ps) = ps"
proof (cases ps)
  case Nil
  then show ?thesis by (simp add: rel_path_def uefi_path_def trim_start_matches_def replace_char_def
      path_components_def split_char_def)
next
  case (Cons p qs)
  have rp: "replace_char BACKSLASH (CHR ''/'') r = r" if "plain_name r" for r
    using that by (auto simp: replace_char_def plain_name_def intro: map_idI)
  have p: "p \<noteq> []" "hd p \<noteq> BACKSLASH" using assms Cons by (auto simp: plain_name_def dest: hd_in_set)
  then have t: "trim_start_matches (\<lambda>c. c = BACKSLASH) (uefi_path ps) = p @ uefi_path qs"
    by (cases p) (auto simp: Cons trim_start_matches_def uefi_path_def)
  have "replace_char BACKSLASH (CHR ''/'') (uefi_path qs) = concat (map (\<lambda>p. CHR ''/'' # p) qs)"
    using assms Cons rp by (auto simp: uefi_path_def replace_char_def map_concat comp_def intro!: arg_cong [of _ _ concat])
  then have "replace_char BACKSLASH (CHR ''/'') (CHR ''/'' # p @ uefi_path qs) =
      concat (map (\<lambda>p. CHR ''/'' # p) ps)"
    using rp [of p] assms Cons by (simp add: replace_char_def BACKSLASH_def)
  then have "split_char (CHR ''/'') (CHR ''/'' # replace_char BACKSLASH (CHR ''/'') (p @ uefi_path qs)) = [] # ps"
    using split_slashes [of ps] assms by (simp add: replace_char_def BACKSLASH_def plain_name_def)
  then have "split_char (CHR ''/'') (replace_char BACKSLASH (CHR ''/'') (p @ uefi_path qs)) = ps"
    by (simp add: split_char_def)
  then show ?thesis using assms t by (simp add: rel_path_def path_components_def plain_name_def)
qed

section \<open>Lemmas: reading\<close>

definition content :: "fs \<Rightarrow> string list \<Rightarrow> bytes option" where
  "content fs p = map_option fst (file_at fs p)"

lemma content_node: "content fs p = (case node_at fs p of Some (RegFile b _) \<Rightarrow> Some b | _ \<Rightarrow> None)"
  by (simp add: content_def file_at_def split: option.splits fs_node.splits)






lemma entry_at_find:
  "entry_at c p es = map_option snd (find (\<lambda>(q, _). same_path c p q) es)"
  by (induction c p es rule: entry_at.induct) auto








lemma metadata_frame: "fs_frame {} fs (snd (metadata p fs))"
  using touches_calls(6) [of "{}" p] by (simp add: touches_def)







text \<open>What the search for scripts finds; at the root nothing is missed.\<close>

definition script_path :: "string list" where "script_path = [STARTUP_NSH_FILENAME]"









section \<open>Lemmas: writing\<close>















lemma esp_paths_simps [simp]:
  "p_efi (esp_paths_of [] [efi] m) = [efi]" "p_marker_dir (esp_paths_of [] [efi] m) = [efi, MARKER_DIR]"
  "p_script (esp_paths_of [] [efi] m) = script_path"
  "p_new_marker (esp_paths_of [] [efi] m) = [efi, MARKER_DIR, m @ ''.id'']"
  "p_tmp_marker (esp_paths_of [] [efi] m) = [efi, MARKER_DIR, m @ ''.id.tmp'']"
  "p_tmp_script (esp_paths_of [] [efi] m) = [STARTUP_NSH_FILENAME @ ''.tmp'']"
  by (simp_all add: esp_paths_of_def Let_def script_path_def)








section \<open>Lemmas: the whole fallback\<close>


















lemma check_loader_ok:
  assumes "check_loader [] (ESP_LOADER_PATH a) fs = (Inr u, fs')"
  shows "content fs (rel_path (ESP_LOADER_PATH a)) \<noteq> None" "fs_frame {} fs fs'"
proof -
  obtain r where m: "metadata (rel_path (ESP_LOADER_PATH a)) fs = (r, fs')"
    using assms by (auto simp: check_loader_def split: prod.splits sum.splits fs_node.splits if_splits)
  with assms obtain b mo where "r = Inr (RegFile b mo)"
    by (auto simp: check_loader_def split: sum.splits fs_node.splits if_splits)
  with m show "content fs (rel_path (ESP_LOADER_PATH a)) \<noteq> None"
    by (auto simp: metadata_def fs_do_Inr content_node split: option.splits)
  show "fs_frame {} fs fs'" using metadata_frame [of fs "rel_path (ESP_LOADER_PATH a)"] m by simp
qed

lemma rel_path_loader: "rel_path (ESP_LOADER_PATH a) = loader_parts a"
  unfolding ESP_LOADER_PATH_parts
  by (rule rel_path_uefi) (cases a; simp add: loader_parts_def plain_name_def BACKSLASH_def)

text \<open>A file whose metadata cannot be read counts as none, so an image's script may be replaced.\<close>

lemma path_is_file_refused:
  "fs_fault fs OpStat (fs_calls fs) = Some x \<Longrightarrow> fst (path_is_file p fs) = False"
  by (cases x) (simp add: path_is_file_def metadata_def fs_do_def answer_def)

section \<open>Properties\<close>




text \<open>
  C24: preparing the ESP. It succeeds only on the partition with the enumerated device number,
  with the loader of this architecture a regular file on it, and it skips the fallback only
  because the file system is full or read-only; anything else is an error.
\<close>

theorem prepare_esp_spec:
  "case prepare_esp a show_io makedev urandom esp k of
     (Inr prepared, k') \<Rightarrow> (\<exists>d b fs1 r.
       parse_dev_number makedev (esp_dev_number esp) = Some d \<and>
       urandom = Inr b \<and> ep_marker prepared = concat (map fmt_02x b) \<and>
       content (k_parts k d) (loader_parts a) \<noteq> None \<and>
       node_at fs1 = node_at (k_parts k d) \<and>
       write_esp_files a [] (ep_marker prepared) fs1 = (r, k_parts k' d) \<and>
       k_parts k' = (k_parts k)(d := k_parts k' d) \<and> k_mounts k' = k_mounts k \<and>
       (case r of
          Inr x \<Rightarrow> ep_startup_nsh prepared = x
        | Inl (StepError step e) \<Rightarrow> (e = OsError ENOSPC \<or> e = OsError EROFS) \<and>
            ep_startup_nsh prepared = NotWritten (step @ '': '' @ show_io e)))
   | (Inl _, k') \<Rightarrow> k_mounts k' = k_mounts k \<or> unmount_refused k"
proof (cases urandom)
  case (Inl e)
  then show ?thesis by (simp add: prepare_esp_def new_marker_def)
next
  case (Inr b)
  let ?marker = "concat (map fmt_02x b)"
  let ?work = "sbind (check_loader [] (ESP_LOADER_PATH a)) (\<lambda>_. write_esp_fallback a show_io [] ?marker)"
  obtain r0 k' where run: "with_private_mount makedev ESP_MOUNT (esp_dev_path esp) (esp_dev_number esp) ?work k = (r0, k')"
    by fastforce
  have p: "prepare_esp a show_io makedev urandom esp k = (rbind r0 (\<lambda>s. Inr \<lparr>ep_marker = ?marker, ep_startup_nsh = s\<rparr>), k')"
    using run Inr by (simp add: prepare_esp_def new_marker_def)
  show ?thesis
  proof (cases "parse_dev_number makedev (esp_dev_number esp)")
    case None
    with run p show ?thesis by (auto simp: with_private_mount_bad)
  next
    case (Some d)
    then have eff: "mount_effect ESP_MOUNT d ?work k r0 k'" using with_private_mount_effect [OF run] by blast
    show ?thesis
    proof (cases r0)
      case (Inl e)
      with eff p show ?thesis by (auto simp: mount_effect_def split: if_splits)
    next
      case r0: (Inr s)
      obtain w fs' where w: "?work (k_parts k d) = (w, fs')" by fastforce
      with eff r0 have ok: "w = Inr s" "k_parts k' = (k_parts k)(d := fs')" "k_mounts k' = k_mounts k"
        by (auto simp: mount_effect_def split: if_splits)
      from w ok(1) obtain v fs1 where c: "check_loader [] (ESP_LOADER_PATH a) (k_parts k d) = (Inr v, fs1)"
        and f: "write_esp_fallback a show_io [] ?marker fs1 = (Inr s, fs')" by (auto simp: sbind_Inr)
      obtain r where r: "write_esp_files a [] ?marker fs1 = (r, fs')" "fallback_outcome show_io r = Inr s"
        using f by (auto simp: write_esp_fallback_def split: prod.splits)
      have "case r of Inr x \<Rightarrow> s = x
        | Inl (StepError step e) \<Rightarrow> (e = OsError ENOSPC \<or> e = OsError EROFS) \<and> s = NotWritten (step @ '': '' @ show_io e)"
        using r(2) by (auto simp: fallback_outcome_def is_full_or_read_only_def raw_os_error_def
            split: sum.splits step_error.splits if_splits io_error.splits)
      moreover have "node_at fs1 = node_at (k_parts k d)" "content (k_parts k d) (loader_parts a) \<noteq> None"
        using check_loader_ok [OF c] fs_frame_empty by (simp_all add: rel_path_loader)
      ultimately show ?thesis using Some Inr ok r(1) unfolding p r0
        by simp (intro exI [of _ fs1] exI [of _ r], simp split: sum.splits step_error.splits)
    qed
  qed
qed
end
