(* ===== verification/Run_Policy.thy ===== *)
theory Run_Policy
  imports Client Modules Inject Esp_Files
begin

text \<open>
  The policies of \<open>src/run.rs\<close>, each over the operations it is given: the errors of a run and
  the reason reported for each, the pseudo-filesystem mounts, the bootstrap poll, the UEFI
  boot entry step, and the console lines of the ESP.
\<close>

section \<open>Errors and reasons\<close>

datatype run_error =
    RunMount string errno
  | CmdlineErr cmdline_error
  | NetErr net_error
  | DiskErr disk_error
  | ClientErr client_error
  | BootstrapTimeout
  | BootstrapAborted client_error
  | EspErr esp_error
  | OemErr oem_error
  | DeployErr deploy_error

definition disk_error_reason :: "disk_error \<Rightarrow> string" where
  "disk_error_reason e = (case e of
       NoEligibleDisk \<Rightarrow> ''no eligible target disk''
     | PinNotFound _ \<Rightarrow> ''pinned target disk not found''
     | PinNotBlockDevice _ \<Rightarrow> ''pinned target disk is not a block device''
     | PinNotWholeDisk _ \<Rightarrow> ''pinned target disk is a partition''
     | PinIneligible _ _ \<Rightarrow> ''pinned target disk is ineligible'')"

definition image_error_reason :: "image_error \<Rightarrow> string" where
  "image_error_reason e = (case e of
       DigestMismatch _ _ \<Rightarrow> ''image digest mismatch''
     | InvalidDigestFormat \<Rightarrow> ''invalid image digest''
     | UnsupportedScheme \<Rightarrow> ''unsupported image URL scheme''
     | TooLarge _ \<Rightarrow> ''image too large''
     | ImageHttp _ \<Rightarrow> ''image fetch failed''
     | ImageTransport _ \<Rightarrow> ''image fetch failed''
     | ImageRead _ \<Rightarrow> ''image fetch failed''
     | ImageWrite _ \<Rightarrow> ''whole-disk write failed'')"

definition part_reason :: "part \<Rightarrow> string" where
  "part_reason p = (case p of Esp \<Rightarrow> ''ESP loader check failed'' | Oem \<Rightarrow> ''COS_OEM inject failed'')"

definition deploy_error_reason :: "deploy_error \<Rightarrow> string" where
  "deploy_error_reason e = (case e of
       ImageFailed i \<Rightarrow> image_error_reason i
     | SyncFailed _ \<Rightarrow> ''whole-disk write failed''
     | OpenTarget _ _ \<Rightarrow> ''target disk error''
     | NotABlockDevice _ \<Rightarrow> ''target disk error''
     | Stat _ _ \<Rightarrow> ''target disk error''
     | NoDeviceNumber _ \<Rightarrow> ''target disk error''
     | DeviceIdentityMismatch _ _ _ \<Rightarrow> ''target disk error''
     | BadDeviceNumber _ \<Rightarrow> ''target disk error''
     | Reread _ _ \<Rightarrow> ''partition re-read failed''
     | Mountpoint p _ _ \<Rightarrow> part_reason p
     | MakeNode p _ _ \<Rightarrow> part_reason p
     | MountFailed p _ _ \<Rightarrow> part_reason p
     | UnmountFailed p _ _ \<Rightarrow> part_reason p
     | EspLoaderMissing _ \<Rightarrow> ''ESP loader check failed''
     | EspLoaderCheck _ _ \<Rightarrow> ''ESP loader check failed''
     | EspWrite _ _ \<Rightarrow> ''ESP write failed''
     | ConfigWrite _ \<Rightarrow> ''COS_OEM inject failed''
     | ProviderIdWrite _ \<Rightarrow> ''COS_OEM inject failed''
     | RebootFailed _ \<Rightarrow> ''deploy failed'')"

definition provision_failure_reason :: "run_error \<Rightarrow> string" where
  "provision_failure_reason e = (case e of
       DiskErr d \<Rightarrow> disk_error_reason d
     | DeployErr d \<Rightarrow> deploy_error_reason d
     | EspErr (EspDevice d) \<Rightarrow> deploy_error_reason d
     | EspErr _ \<Rightarrow> ''ESP GPT read failed''
     | OemErr _ \<Rightarrow> ''COS_OEM partition not found''
     | _ \<Rightarrow> ''deploy failed'')"

section \<open>The pseudo-filesystems\<close>

definition mount_specs :: "(string \<times> string \<times> string \<times> u64) list" where
  "mount_specs =
     (let hardened = or (or MS_NODEV MS_NOSUID) MS_NOEXEC; dev_ok = or MS_NOSUID MS_NOEXEC in
      [(''proc'', ''/proc'', ''proc'', hardened),
       (''sysfs'', ''/sys'', ''sysfs'', hardened),
       (''devtmpfs'', ''/dev'', ''devtmpfs'', dev_ok),
       (''tmpfs'', ''/run'', ''tmpfs'', dev_ok),
       (''tmpfs'', ''/tmp'', ''tmpfs'', hardened)])"

text \<open>\<open>mount_pseudo src target fstype flags\<close> creates the mountpoint, ignoring errors, and mounts.\<close>

type_synonym 's pseudo_mount = "string \<Rightarrow> string \<Rightarrow> string \<Rightarrow> u64 \<Rightarrow> 's \<Rightarrow> (errno + unit) \<times> 's"

definition mount_one :: "'s pseudo_mount \<Rightarrow> string \<times> string \<times> string \<times> u64 \<Rightarrow> 's \<Rightarrow> (run_error + unit) \<times> 's" where
  "mount_one mount_pseudo spec s = (case spec of (src, target, fstype, flags) \<Rightarrow>
     (case mount_pseudo src target fstype flags s of
        (Inr _, s) \<Rightarrow> (Inr (), s)
      | (Inl e, s) \<Rightarrow> if e = EBUSY then (Inr (), s) else (Inl (RunMount target e), s)))"

definition mount_pseudo_filesystems :: "'s pseudo_mount \<Rightarrow> 's \<Rightarrow> (run_error + unit) \<times> 's" where
  "mount_pseudo_filesystems mount_pseudo = sfor mount_specs (mount_one mount_pseudo)"

section \<open>The bootstrap poll\<close>

text \<open>Milliseconds, and seconds for the budget.\<close>

definition POLL_INTERVAL :: nat where "POLL_INTERVAL = 5000"
definition DEFAULT_POLL_BUDGET :: u64 where "DEFAULT_POLL_BUDGET = 30 * 60"

definition poll_budget_iterations :: "u64 option \<Rightarrow> nat" where
  "poll_budget_iterations timeout =
     (let budget = unwrap_or timeout DEFAULT_POLL_BUDGET;
          polls = unat budget div max (POLL_INTERVAL div 1000) 1
      in min (max polls 1) (2 ^ 32 - 1))"

datatype poll_verdict = NotReady | Abort

definition classify_poll :: "client_error \<Rightarrow> poll_verdict" where
  "classify_poll e = (case e of
       Http code \<Rightarrow>
         if code = 401 \<or> code = 403 then Abort
         else if code = 404 then NotReady
         else if 500 \<le> code \<and> code < 600 then NotReady
         else Abort
     | BootstrapTooLarge \<Rightarrow> Abort
     | RetriesExhausted _ \<Rightarrow> NotReady
     | Transport _ \<Rightarrow> NotReady
     | Body \<Rightarrow> NotReady
     | _ \<Rightarrow> Abort)"

text \<open>The loop with \<open>k\<close> polls left; there is no sleep after the last one.\<close>

fun poll_loop ::
  "nat \<Rightarrow> (nat \<Rightarrow> 's \<Rightarrow> 's) \<Rightarrow> ('s \<Rightarrow> (client_error + bytes) \<times> 's) \<Rightarrow> 's \<Rightarrow> (run_error + bytes) \<times> 's" where
  "poll_loop 0 sleep fetch s = (Inl BootstrapTimeout, s)"
| "poll_loop (Suc k) sleep fetch s = (case fetch s of
       (Inr data, s) \<Rightarrow> (Inr data, s)
     | (Inl e, s) \<Rightarrow> (case classify_poll e of
           Abort \<Rightarrow> (Inl (BootstrapAborted e), s)
         | NotReady \<Rightarrow> poll_loop k sleep fetch (if k \<noteq> 0 then sleep POLL_INTERVAL s else s)))"

definition poll_bootstrap ::
  "nat \<Rightarrow> (nat \<Rightarrow> 's \<Rightarrow> 's) \<Rightarrow> ('s \<Rightarrow> (client_error + bytes) \<times> 's) \<Rightarrow> 's \<Rightarrow> (run_error + bytes) \<times> 's" where
  "poll_bootstrap max_polls sleep fetch s = poll_loop max_polls sleep fetch s"

section \<open>Failure callbacks\<close>

text \<open>The callback's own failure is only logged.\<close>

definition report_provision_failure ::
  "run_error \<Rightarrow> (string \<Rightarrow> 's \<Rightarrow> (client_error + unit) \<times> 's) \<Rightarrow> 's \<Rightarrow> run_error \<times> 's" where
  "report_provision_failure e callback s = (e, signore (callback (provision_failure_reason e)) s)"

definition require_target ::
  "disk_error + target_disk \<Rightarrow> (string \<Rightarrow> 's \<Rightarrow> (client_error + unit) \<times> 's) \<Rightarrow> 's \<Rightarrow>
     (run_error + target_disk) \<times> 's" where
  "require_target target callback s = (case target of
       Inr t \<Rightarrow> (Inr t, s)
     | Inl e \<Rightarrow> (case report_provision_failure (DiskErr e) callback s of (e', s) \<Rightarrow> (Inl e', s)))"

section \<open>The boot entry step\<close>

definition EFIVARFS_MOUNT :: string where "EFIVARFS_MOUNT = ''/sys/firmware/efi/efivars''"

text \<open>\<open>Display\<close> of \<open>EfiBootError\<close>, and its source, whose text is an argument.\<close>

definition efi_boot_error_display :: "efi_boot_error \<Rightarrow> string" where
  "efi_boot_error_display e = (case e of
       EfiMount _ \<Rightarrow> ''mounting efivarfs at '' @ EFIVARFS_MOUNT
     | ListVars _ \<Rightarrow> ''listing the UEFI variables''
     | ReadVar name _ \<Rightarrow> ''reading UEFI variable '' @ name
     | WriteVar name _ \<Rightarrow> ''writing UEFI variable '' @ name
     | BadBootOrder \<Rightarrow> ''the UEFI BootOrder variable is malformed''
     | NoFreeEntry \<Rightarrow> ''no free Boot#### number'')"

definition efi_boot_error_source :: "(io_error \<Rightarrow> string) \<Rightarrow> (errno \<Rightarrow> string) \<Rightarrow> efi_boot_error \<Rightarrow> string option" where
  "efi_boot_error_source show_io show_errno e = (case e of
       EfiMount n \<Rightarrow> Some (show_errno n)
     | ListVars s \<Rightarrow> Some (show_io s)
     | ReadVar _ s \<Rightarrow> Some (show_io s)
     | WriteVar _ s \<Rightarrow> Some (show_io s)
     | BadBootOrder \<Rightarrow> None
     | NoFreeEntry \<Rightarrow> None)"

definition order_text :: "u16 list \<Rightarrow> string" where
  "order_text ns = join '','' (map fmt_04X ns)"

text \<open>The apostrophe of the messages.\<close>

definition QUOTE_CHAR :: string where "QUOTE_CHAR = [CHR 0x27]"

definition boot_entry_line ::
  "(io_error \<Rightarrow> string) \<Rightarrow> (errno \<Rightarrow> string) \<Rightarrow> efi_boot_error + boot_entry \<Rightarrow> esp_partition \<Rightarrow> string" where
  "boot_entry_line show_io show_errno result esp = (case result of
       Inr entry \<Rightarrow> ''UEFI boot entry Boot'' @ fmt_04X (b_number entry) @ '' '' @ outcome_display (b_outcome entry)
         @ '' for '' @ esp_dev_path esp @ '' (BootOrder '' @ order_text (b_previous_order entry) @ '' -> ''
         @ order_text (b_boot_order entry) @ '')''
     | Inl e \<Rightarrow> ''warning: UEFI boot entry not registered ('' @ efi_boot_error_display e
         @ unwrap_or (map_option (\<lambda>s. '': '' @ s) (efi_boot_error_source show_io show_errno e)) []
         @ ''); leaving the firmware'' @ QUOTE_CHAR @ ''s removable-media fallback to boot '' @ esp_dev_path esp)"

definition esp_prepared_line :: "esp_prepared \<Rightarrow> esp_partition \<Rightarrow> string" where
  "esp_prepared_line prepared esp = (let dev = esp_dev_path esp; marker = ep_marker prepared in
     (case ep_startup_nsh prepared of
        Written False \<Rightarrow> ''ESP '' @ dev @ '' prepared: marker '' @ marker @ '', startup.nsh fallback written''
      | Written True \<Rightarrow> ''ESP '' @ dev @ '' prepared: marker '' @ marker
          @ '', startup.nsh fallback written, replacing ours from an earlier deploy''
      | LeftInPlace path \<Rightarrow> ''ESP '' @ dev @ '' prepared: the image'' @ QUOTE_CHAR @ ''s own '' @ path
          @ '' left in place, no startup.nsh fallback or marker written''
      | NotWritten cause \<Rightarrow> ''warning: ESP '' @ dev @ '': startup.nsh fallback not written ('' @ cause
          @ ''); the deploy carries on without it''))"

text \<open>A refused boot entry is only printed; \<open>print\<close> writes a line to the console.\<close>

definition register_boot_entry ::
  "(efi_boot_error + boot_entry \<Rightarrow> esp_partition \<Rightarrow> 's \<Rightarrow> 's) \<Rightarrow>
     (esp_partition \<Rightarrow> 's \<Rightarrow> (deploy_error + unit) \<times> 's) \<Rightarrow>
     (esp_partition \<Rightarrow> 's \<Rightarrow> (efi_boot_error + boot_entry) \<times> 's) \<Rightarrow>
     esp_partition \<Rightarrow> 's \<Rightarrow> (run_error + unit) \<times> 's" where
  "register_boot_entry print verify ensure esp =
     sbind (smap_err DeployErr (verify esp)) (\<lambda>_ s.
       case ensure esp s of (r, s) \<Rightarrow> (Inr (), print r esp s))"

definition esp_boot_entry_step ::
  "bool \<Rightarrow> ('s \<Rightarrow> (esp_error + esp_partition) \<times> 's) \<Rightarrow>
     (esp_partition \<Rightarrow> 's \<Rightarrow> (run_error + unit) \<times> 's) \<Rightarrow> 's \<Rightarrow> (run_error + unit) \<times> 's" where
  "esp_boot_entry_step efi find_esp register s =
     (if \<not> efi then (Inr (), s)
      else (case find_esp s of
          (Inr esp, s) \<Rightarrow> register esp s
        | (Inl e, s) \<Rightarrow> if is_absent e then (Inr (), s) else (Inl (EspErr e), s)))"

section \<open>Lemmas\<close>

text \<open>The reasons, all fixed.\<close>

definition REASONS :: "string list" where
  "REASONS = [''no eligible target disk'', ''pinned target disk not found'',
     ''pinned target disk is not a block device'', ''pinned target disk is a partition'',
     ''pinned target disk is ineligible'', ''image digest mismatch'', ''invalid image digest'',
     ''unsupported image URL scheme'', ''image too large'', ''image fetch failed'',
     ''whole-disk write failed'', ''target disk error'', ''partition re-read failed'',
     ''ESP loader check failed'', ''COS_OEM inject failed'', ''ESP write failed'', ''deploy failed'',
     ''ESP GPT read failed'', ''COS_OEM partition not found'']"

lemma part_reason_fixed: "part_reason p \<in> set REASONS"
  by (cases p) (simp_all add: part_reason_def REASONS_def)

lemma image_reason_fixed: "image_error_reason i \<in> set REASONS"
  by (cases i) (simp_all add: image_error_reason_def REASONS_def)

lemma deploy_reason_fixed: "deploy_error_reason d \<in> set REASONS"
  using part_reason_fixed image_reason_fixed
  by (cases d) (simp_all add: deploy_error_reason_def, simp_all add: REASONS_def)

lemma reason_fixed: "provision_failure_reason e \<in> set REASONS"
proof (cases e)
  case (DiskErr d)
  then show ?thesis by (cases d) (simp_all add: provision_failure_reason_def disk_error_reason_def REASONS_def)
next
  case (EspErr x)
  then show ?thesis using deploy_reason_fixed
    by (cases x) (simp_all add: provision_failure_reason_def, simp_all add: REASONS_def)
qed (use deploy_reason_fixed in \<open>simp_all add: provision_failure_reason_def\<close>, simp_all add: REASONS_def)

text \<open>Polling a script of answers, keeping the number of fetches and the sleeps.\<close>

definition poll_fetch :: "(nat \<Rightarrow> client_error + bytes) \<Rightarrow> nat \<times> nat list \<Rightarrow> (client_error + bytes) \<times> nat \<times> nat list" where
  "poll_fetch out s = (case s of (calls, sleeps) \<Rightarrow> (out calls, calls + 1, sleeps))"

definition poll_sleep :: "nat \<Rightarrow> nat \<times> nat list \<Rightarrow> nat \<times> nat list" where
  "poll_sleep ms s = (case s of (calls, sleeps) \<Rightarrow> (calls, sleeps @ [ms]))"

definition not_ready :: "client_error + bytes \<Rightarrow> bool" where
  "not_ready r \<longleftrightarrow> (case r of Inr _ \<Rightarrow> False | Inl e \<Rightarrow> classify_poll e = NotReady)"

definition poll_result :: "client_error + bytes \<Rightarrow> run_error + bytes" where
  "poll_result r = (case r of Inr data \<Rightarrow> Inr data | Inl e \<Rightarrow> Inl (BootstrapAborted e))"

lemma poll_loop_script:
  "poll_loop k poll_sleep (poll_fetch out) (n, sl) =
     (case find (\<lambda>i. \<not> not_ready (out i)) [n..<n + k] of
        Some i \<Rightarrow> (poll_result (out i), i + 1, sl @ replicate (i - n) POLL_INTERVAL)
      | None \<Rightarrow> (Inl BootstrapTimeout, n + k, sl @ replicate (k - 1) POLL_INTERVAL))"
proof (induction k arbitrary: n sl)
  case (Suc k)
  have u: "[n..<n + Suc k] = n # [n + 1..<n + 1 + k]" by (subst upt_conv_Cons) simp_all
  show ?case
  proof (cases "not_ready (out n)")
    case False
    then have "poll_loop (Suc k) poll_sleep (poll_fetch out) (n, sl) = (poll_result (out n), n + 1, sl)"
      by (auto simp: poll_fetch_def not_ready_def poll_result_def split: sum.splits poll_verdict.splits)
    with False show ?thesis unfolding u by simp
  next
    case True
    then obtain e where e: "out n = Inl e" "classify_poll e = NotReady" by (auto simp: not_ready_def split: sum.splits)
    let ?sl = "if k \<noteq> 0 then sl @ [POLL_INTERVAL] else sl"
    have step: "poll_loop (Suc k) poll_sleep (poll_fetch out) (n, sl) = poll_loop k poll_sleep (poll_fetch out) (n + 1, ?sl)"
      using e by (simp add: poll_fetch_def poll_sleep_def)
    have f: "find (\<lambda>i. \<not> not_ready (out i)) [n..<n + Suc k] = find (\<lambda>i. \<not> not_ready (out i)) [n + 1..<n + 1 + k]"
      unfolding u using True by simp
    show ?thesis
    proof (cases "find (\<lambda>i. \<not> not_ready (out i)) [n + 1..<n + 1 + k]")
      case None
      then show ?thesis unfolding step f Suc.IH by (cases k) (simp_all add: replicate_append_same)
    next
      case (Some i)
      then have "i \<in> set [n + 1..<n + 1 + k]" by (rule find_eq_SomeD [THEN conjunct1])
      then obtain j where "i = n + 1 + j" "k \<noteq> 0" by (auto dest: le_Suc_ex)
      with Some show ?thesis unfolding step f Suc.IH by (simp add: replicate_append_same)
    qed
  qed
qed simp

section \<open>Properties\<close>

text \<open>
  C28: the bootstrap poll. The budget gives at least one poll, one for each five seconds of
  it, and 360 without a timeout. Against any script of answers the result is that of the
  first one that is data or not worth waiting for, with five seconds of sleep before each
  further poll and none after it; when the data never comes it times out after exactly the
  budget's polls, and the last one is not followed by a sleep.
\<close>

theorem poll_bootstrap_spec:
  "let n = poll_budget_iterations timeout in
   n = (case timeout of None \<Rightarrow> 360 | Some t \<Rightarrow> if unat t < 10 then 1 else min (unat t div 5) 4294967295) \<and>
   poll_bootstrap n poll_sleep (poll_fetch out) (0, []) =
     (case find (\<lambda>i. \<not> not_ready (out i)) [0..<n] of
        Some i \<Rightarrow> (poll_result (out i), i + 1, replicate i 5000)
      | None \<Rightarrow> (Inl BootstrapTimeout, n, replicate (n - 1) 5000))"
proof -
  have "poll_budget_iterations timeout =
      (case timeout of None \<Rightarrow> 360 | Some t \<Rightarrow> if unat t < 10 then 1 else min (unat t div 5) 4294967295)"
  proof (cases timeout)
    case (Some t)
    have "unat t div 5 \<le> 1 \<longleftrightarrow> unat t < 10" by presburger
    with Some show ?thesis by (simp add: poll_budget_iterations_def POLL_INTERVAL_def Let_def)
  qed (simp add: poll_budget_iterations_def POLL_INTERVAL_def DEFAULT_POLL_BUDGET_def)
  moreover have "poll_bootstrap n poll_sleep (poll_fetch out) (0, []) =
     (case find (\<lambda>i. \<not> not_ready (out i)) [0..<n] of
        Some i \<Rightarrow> (poll_result (out i), i + 1, replicate i 5000)
      | None \<Rightarrow> (Inl BootstrapTimeout, n, replicate (n - 1) 5000))" for n
    using poll_loop_script [of n out 0 "[]"]
    by (simp add: poll_bootstrap_def POLL_INTERVAL_def cong: option.case_cong)
  ultimately show ?thesis unfolding Let_def by blast
qed

end
