(* ===== verification/Run.thy ===== *)
theory Run
  imports Run_Policy
begin

text \<open>
  \<open>src/run.rs\<close>: the two-phase run, over the operations of the other modules as one record
  \<open>host\<close> on a state of any type. A host can be instrumented to record what it was asked for;
  the recorded events follow an abstract state machine of phases.
\<close>

section \<open>The host\<close>

datatype console_line =
    NetworkUp net_config
  | ResolvConfFailed io_error
  | TargetLine target_disk
  | NoTargetLine disk_error
  | ReportAccepted
  | DryRunLine
  | BootstrapReceived
  | SharedGuidLine string bytes
  | EspLine string
  | BootEntryLine "efi_boot_error + boot_entry" esp_partition
  | ProvisionedAccepted
  | RebootingLine

record ('s, 'c) host =
  h_mount :: "'s pseudo_mount"
  h_lock_memory :: "'s \<Rightarrow> 's"
  h_cmdline :: "'s \<Rightarrow> (cmdline_error + boot_params) \<times> 's"
  h_load_drivers :: "string option \<Rightarrow> 's \<Rightarrow> 's"
  h_network :: "boot_params \<Rightarrow> 's \<Rightarrow> (net_error + net_config) \<times> 's"
  h_resolv_conf :: "ipv4 list \<Rightarrow> 's \<Rightarrow> (io_error + unit) \<times> 's"
  h_probe :: "'s \<Rightarrow> inspection_report \<times> 's"
  h_select :: "string option \<Rightarrow> u64 \<Rightarrow> 's \<Rightarrow> (disk_error + target_disk) \<times> 's"
  h_client :: "boot_params \<Rightarrow> client_error + 'c"
  h_submit_report :: "'c \<Rightarrow> inspection_report \<Rightarrow> 's \<Rightarrow> (client_error + unit) \<times> 's"
  h_fetch_bootstrap :: "'c \<Rightarrow> 's \<Rightarrow> (client_error + bytes) \<times> 's"
  h_sleep :: "nat \<Rightarrow> 's \<Rightarrow> 's"
  h_write_image :: "target_disk \<Rightarrow> string \<Rightarrow> string \<Rightarrow> u64 \<Rightarrow> 's \<Rightarrow> (deploy_error + u64) \<times> 's"
  h_reread :: "target_disk \<Rightarrow> 's \<Rightarrow> (deploy_error + unit) \<times> 's"
  h_efi_booted :: "'s \<Rightarrow> bool \<times> 's"
  h_find_esp :: "target_disk \<Rightarrow> 's \<Rightarrow> (esp_error + esp_partition) \<times> 's"
  h_other_disks :: "target_disk \<Rightarrow> bytes \<Rightarrow> 's \<Rightarrow> string list \<times> 's"
  h_prepare_esp :: "esp_partition \<Rightarrow> 's \<Rightarrow> (deploy_error + esp_prepared) \<times> 's"
  h_boot_entry :: "esp_partition \<Rightarrow> 's \<Rightarrow> (efi_boot_error + boot_entry) \<times> 's"
  h_find_oem :: "target_disk \<Rightarrow> 's \<Rightarrow> (oem_error + oem_partition) \<times> 's"
  h_inject :: "oem_partition \<Rightarrow> bytes \<Rightarrow> string \<Rightarrow> 's \<Rightarrow> (deploy_error + unit) \<times> 's"
  h_provisioned :: "'c \<Rightarrow> 's \<Rightarrow> (client_error + unit) \<times> 's"
  h_provision_failed :: "'c \<Rightarrow> string \<Rightarrow> 's \<Rightarrow> (client_error + unit) \<times> 's"
  h_reboot :: "'s \<Rightarrow> deploy_error \<times> 's"
  h_print :: "console_line \<Rightarrow> 's \<Rightarrow> 's"

section \<open>The deploy steps\<close>

text \<open>The closure given to \<open>esp_boot_entry_step\<close>: warn of shared GUIDs, then register.\<close>

definition verify_esp :: "('s, 'c) host \<Rightarrow> esp_partition \<Rightarrow> 's \<Rightarrow> (deploy_error + unit) \<times> 's" where
  "verify_esp h esp = sbind (h_prepare_esp h esp) (\<lambda>prepared s.
     (Inr (), h_print h (EspLine (esp_prepared_line prepared esp)) s))"

definition register_esp :: "('s, 'c) host \<Rightarrow> target_disk \<Rightarrow> esp_partition \<Rightarrow> 's \<Rightarrow> (run_error + unit) \<times> 's" where
  "register_esp h target esp s = (let guid = g_unique_guid (esp_gpt esp) in
     case h_other_disks h target guid s of (others, s) \<Rightarrow>
       register_boot_entry (\<lambda>r esp. h_print h (BootEntryLine r esp)) (verify_esp h) (h_boot_entry h) esp
         (fold (\<lambda>disk. h_print h (SharedGuidLine disk guid)) others s))"

definition esp_step :: "('s, 'c) host \<Rightarrow> target_disk \<Rightarrow> 's \<Rightarrow> (run_error + unit) \<times> 's" where
  "esp_step h target s = (case h_efi_booted h s of (efi, s) \<Rightarrow>
     esp_boot_entry_step efi (h_find_esp h target) (register_esp h target) s)"

definition run_deploy_steps ::
  "('s, 'c) host \<Rightarrow> target_disk \<Rightarrow> boot_params \<Rightarrow> bytes \<Rightarrow> 's \<Rightarrow> (run_error + unit) \<times> 's" where
  "run_deploy_steps h target params user_data =
     sbind (smap_err DeployErr (h_write_image h target (bp_target params) (bp_target_digest params)
       DEFAULT_MAX_IMAGE_BYTES)) (\<lambda>_.
     sbind (smap_err DeployErr (h_reread h target)) (\<lambda>_.
     sbind (esp_step h target) (\<lambda>_.
     sbind (smap_err OemErr (h_find_oem h target)) (\<lambda>oem.
     smap_err DeployErr (h_inject h oem user_data (bp_provider_id params))))))"

section \<open>The run\<close>

definition bring_up :: "('s, 'c) host \<Rightarrow> boot_params \<Rightarrow> 's \<Rightarrow> (run_error + unit) \<times> 's" where
  "bring_up h params s =
     sbind (smap_err NetErr (h_network h params)) (\<lambda>net s.
       let s = h_print h (NetworkUp net) s in
       case h_resolv_conf h (nc_dns net) s of
         (Inl e, s) \<Rightarrow> (Inr (), h_print h (ResolvConfFailed e) s)
       | (Inr _, s) \<Rightarrow> (Inr (), s)) (h_load_drivers h (bp_bootif params) s)"

definition print_target :: "('s, 'c) host \<Rightarrow> disk_error + target_disk \<Rightarrow> 's \<Rightarrow> 's" where
  "print_target h target = (case target of
       Inr t \<Rightarrow> h_print h (TargetLine t) | Inl e \<Rightarrow> h_print h (NoTargetLine e))"

text \<open>Phase 2. The user data is dropped, and zeroed, before the callback.\<close>

definition deploy_and_confirm ::
  "('s, 'c) host \<Rightarrow> boot_params \<Rightarrow> 'c \<Rightarrow> target_disk \<Rightarrow> bytes \<Rightarrow> 's \<Rightarrow> (run_error + unit) \<times> 's" where
  "deploy_and_confirm h params c target user_data s =
     (case run_deploy_steps h target params user_data (h_print h BootstrapReceived s) of
        (Inl e, s) \<Rightarrow> (case report_provision_failure e (h_provision_failed h c) s of (e, s) \<Rightarrow> (Inl e, s))
      | (Inr _, s) \<Rightarrow>
          sbind (smap_err ClientErr (h_provisioned h c)) (\<lambda>_ s.
            case h_reboot h (h_print h RebootingLine (h_print h ProvisionedAccepted s)) of
              (e, s) \<Rightarrow> (Inl (DeployErr e), s)) s)"

definition provision ::
  "('s, 'c) host \<Rightarrow> boot_params \<Rightarrow> 'c \<Rightarrow> disk_error + target_disk \<Rightarrow> 's \<Rightarrow> (run_error + unit) \<times> 's" where
  "provision h params c target =
     sbind (require_target target (h_provision_failed h c)) (\<lambda>target.
     sbind (poll_bootstrap (poll_budget_iterations (bp_timeout params)) (h_sleep h) (h_fetch_bootstrap h c))
       (deploy_and_confirm h params c target))"

text \<open>Phase 1, and phase 2 unless this is a dry run.\<close>

definition enroll :: "('s, 'c) host \<Rightarrow> bool \<Rightarrow> boot_params \<Rightarrow> 's \<Rightarrow> (run_error + unit) \<times> 's" where
  "enroll h dry_run params s =
     (case h_probe h s of (report, s) \<Rightarrow>
      case h_select h (bp_disk params) 0 s of (target, s) \<Rightarrow>
      let s = print_target h target s in
      case h_client h params of
        Inl e \<Rightarrow> (Inl (ClientErr e), s)
      | Inr c \<Rightarrow>
          sbind (smap_err ClientErr (h_submit_report h c report)) (\<lambda>_ s.
            let s = h_print h ReportAccepted s in
            if dry_run then (Inr (), h_print h DryRunLine s) else provision h params c target s) s)"

definition mount_and_lock :: "('s, 'c) host \<Rightarrow> 's \<Rightarrow> (run_error + unit) \<times> 's" where
  "mount_and_lock h = sbind (mount_pseudo_filesystems (h_mount h)) (\<lambda>_ s. (Inr (), h_lock_memory h s))"

definition run :: "('s, 'c) host \<Rightarrow> bool \<Rightarrow> 's \<Rightarrow> (run_error + unit) \<times> 's" where
  "run h dry_run =
     sbind (if dry_run then sreturn () else mount_and_lock h) (\<lambda>_.
     sbind (smap_err CmdlineErr (h_cmdline h)) (\<lambda>params.
     sbind (if dry_run then sreturn () else bring_up h params) (\<lambda>_.
     enroll h dry_run params)))"

end
