(* ===== verification/Host_Relations.thy ===== *)
theory Host_Relations
  imports Run
begin

text \<open>
  Two hosts beside each other. Operations are related when, from related states, they answer
  related results and end in related states. The locale \<open>related_hosts\<close> asks this of the
  operations of two hosts and gives it for whole runs; \<open>kept_by_host\<close> is the case of one host
  and a property of its states.
\<close>

section \<open>Related operations\<close>

definition related ::
  "('s1 \<Rightarrow> 's \<Rightarrow> bool) \<Rightarrow> ('r1 \<Rightarrow> 'r \<Rightarrow> bool) \<Rightarrow> ('s1 \<Rightarrow> 'r1 \<times> 's1) \<Rightarrow> ('s \<Rightarrow> 'r \<times> 's) \<Rightarrow> bool" where
  "related R Q m' m \<longleftrightarrow> (\<forall>s' s. R s' s \<longrightarrow> Q (fst (m' s')) (fst (m s)) \<and> R (snd (m' s')) (snd (m s)))"

definition related_cmd :: "('s1 \<Rightarrow> 's \<Rightarrow> bool) \<Rightarrow> ('s1 \<Rightarrow> 's1) \<Rightarrow> ('s \<Rightarrow> 's) \<Rightarrow> bool" where
  "related_cmd R c' c \<longleftrightarrow> (\<forall>s' s. R s' s \<longrightarrow> R (c' s') (c s))"

named_theorems related_intros \<open>operations of two hosts beside each other\<close>

lemma relatedI:
  "(\<And>s' s. R s' s \<Longrightarrow> Q (fst (m' s')) (fst (m s)) \<and> R (snd (m' s')) (snd (m s))) \<Longrightarrow> related R Q m' m"
  by (simp add: related_def)

lemma relatedD:
  "related R Q m' m \<Longrightarrow> R s' s \<Longrightarrow> Q (fst (m' s')) (fst (m s)) \<and> R (snd (m' s')) (snd (m s))"
  by (simp add: related_def)

lemma related_result [related_intros]: "related R (=) (\<lambda>s. (r, s)) (\<lambda>s. (r, s))" "related R (=) (sreturn a) (sreturn a)"
  by (simp_all add: related_def sreturn_def)

lemma related_then:
  assumes "related R Q m' m" "\<And>r' r. Q r' r \<Longrightarrow> related R P (f' r') (f r)"
  shows "related R P (\<lambda>s. case m' s of (r, s) \<Rightarrow> f' r s) (\<lambda>s. case m s of (r, s) \<Rightarrow> f r s)"
proof (rule relatedI)
  fix s' s
  assume "R s' s"
  from relatedD [OF assms(1) this] have "Q (fst (m' s')) (fst (m s))" "R (snd (m' s')) (snd (m s))" by simp_all
  from relatedD [OF assms(2) [OF this(1)] this(2)]
  show "P (fst (case m' s' of (r, s) \<Rightarrow> f' r s)) (fst (case m s of (r, s) \<Rightarrow> f r s)) \<and>
      R (snd (case m' s' of (r, s) \<Rightarrow> f' r s)) (snd (case m s of (r, s) \<Rightarrow> f r s))"
    by (simp add: case_prod_beta)
qed

lemma related_then_same:
  assumes "related R (=) m' m" "\<And>r. related R P (f' r) (f r)"
  shows "related R P (\<lambda>s. case m' s of (r, s) \<Rightarrow> f' r s) (\<lambda>s. case m s of (r, s) \<Rightarrow> f r s)"
  using related_then [OF assms(1), of P f' f] assms(2) by simp

lemma related_cases:
  assumes "\<And>e. r = Inl e \<Longrightarrow> related R P (f' e) (f e)" "\<And>a. r = Inr a \<Longrightarrow> related R P (g' a) (g a)"
  shows "related R P (\<lambda>s. case r of Inl e \<Rightarrow> f' e s | Inr a \<Rightarrow> g' a s) (\<lambda>s. case r of Inl e \<Rightarrow> f e s | Inr a \<Rightarrow> g a s)"
  using assms by (cases r) simp_all

text \<open>An operation that may fail as a pair taken apart twice.\<close>

lemma sbind_then: "sbind m f = (\<lambda>s. case m s of (r, s) \<Rightarrow> (case r of Inl e \<Rightarrow> (Inl e, s) | Inr a \<Rightarrow> f a s))"
  by (rule ext) (simp add: sbind_def split: prod.splits sum.splits)

lemma sum_cases_pair:
  "(case m s of (Inl e, s) \<Rightarrow> f e s | (Inr a, s) \<Rightarrow> g a s) =
     (case m s of (r, s) \<Rightarrow> (case r of Inl e \<Rightarrow> f e s | Inr a \<Rightarrow> g a s))"
  by (simp split: prod.splits sum.splits)

lemma related_sbind_rel:
  assumes "related R (rel_sum (=) A) m' m" "\<And>a' a. A a' a \<Longrightarrow> related R (=) (f' a') (f a)"
  shows "related R (=) (sbind m' f') (sbind m f)"
  unfolding sbind_then
proof (rule related_then [OF assms(1)])
  show "related R (=) (\<lambda>s. case r' of Inl e \<Rightarrow> (Inl e, s) | Inr a \<Rightarrow> f' a s) (\<lambda>s. case r of Inl e \<Rightarrow> (Inl e, s) | Inr a \<Rightarrow> f a s)"
    if "rel_sum (=) A r' r" for r' r
    using that assms(2) by cases (simp_all add: related_result)
qed

lemma related_sbind [related_intros]:
  "related R (=) m' m \<Longrightarrow> (\<And>a. related R (=) (f' a) (f a)) \<Longrightarrow> related R (=) (sbind m' f') (sbind m f)"
  by (rule related_sbind_rel [where A = "(=)"]) (simp_all add: sum.rel_eq)

lemma related_smap_err_rel:
  "related R (rel_sum (=) A) m' m \<Longrightarrow> related R (rel_sum (=) A) (smap_err g m') (smap_err g m)"
  unfolding smap_err_def [abs_def]
  by (rule related_then, assumption) (auto simp: related_def map_err_def elim!: rel_sum.cases)

lemma related_smap_err [related_intros]:
  "related R (=) m' m \<Longrightarrow> related R (=) (smap_err g m') (smap_err g m)"
  using related_smap_err_rel [of R "(=)"] by (simp add: sum.rel_eq)

lemma related_after:
  "related R P m' m \<Longrightarrow> related_cmd R c' c \<Longrightarrow> related R P (\<lambda>s. m' (c' s)) (\<lambda>s. m (c s))"
  by (simp add: related_def related_cmd_def)

lemma related_result_after [related_intros]:
  "related_cmd R c' c \<Longrightarrow> related R (=) (\<lambda>s. (r, c' s)) (\<lambda>s. (r, c s))"
  by (simp add: related_def related_cmd_def)

lemma related_sfor [related_intros]:
  "(\<And>x. related R (=) (f' x) (f x)) \<Longrightarrow> related R (=) (sfor xs f') (sfor xs f)"
proof (induction xs)
  case (Cons x xs)
  have "related R (=) (sbind (f' x) (\<lambda>_. sfor xs f')) (sbind (f x) (\<lambda>_. sfor xs f))"
    by (rule related_sbind [OF Cons.prems Cons.IH [OF Cons.prems]])
  then show ?case by (simp add: related_def)
qed (simp add: related_def)

lemma related_cmd_comp:
  "related_cmd R c' c \<Longrightarrow> related_cmd R d' d \<Longrightarrow> related_cmd R (\<lambda>s. c' (d' s)) (\<lambda>s. c (d s))"
  by (simp add: related_cmd_def)

text \<open>Operations after which the states are related in another way.\<close>

definition takes ::
  "('s1 \<Rightarrow> 's \<Rightarrow> bool) \<Rightarrow> ('s1 \<Rightarrow> 's \<Rightarrow> bool) \<Rightarrow> ('r1 \<Rightarrow> 'r \<Rightarrow> bool) \<Rightarrow> ('s1 \<Rightarrow> 'r1 \<times> 's1) \<Rightarrow> ('s \<Rightarrow> 'r \<times> 's) \<Rightarrow> bool" where
  "takes R R' Q m' m \<longleftrightarrow> (\<forall>s' s. R s' s \<longrightarrow> Q (fst (m' s')) (fst (m s)) \<and> R' (snd (m' s')) (snd (m s)))"

lemma takesD: "takes R R' Q m' m \<Longrightarrow> R s' s \<Longrightarrow> Q (fst (m' s')) (fst (m s)) \<and> R' (snd (m' s')) (snd (m s))"
  by (simp add: takes_def)

lemma takes_same [simp]: "takes R R Q m' m = related R Q m' m"
  by (simp add: takes_def related_def)

lemma related_takes: "related R Q m' m \<Longrightarrow> (\<And>s' s. R s' s \<Longrightarrow> R' s' s) \<Longrightarrow> takes R R' Q m' m"
  by (simp add: takes_def related_def)

lemma takes_then:
  assumes "takes R R1 Q m' m" "\<And>r' r. Q r' r \<Longrightarrow> takes R1 R2 P (f' r') (f r)"
  shows "takes R R2 P (\<lambda>s. case m' s of (r, s) \<Rightarrow> f' r s) (\<lambda>s. case m s of (r, s) \<Rightarrow> f r s)"
  using assms by (simp add: takes_def case_prod_beta)

lemma takes_then_same:
  "related R (=) m' m \<Longrightarrow> (\<And>r. takes R R' P (f' r) (f r)) \<Longrightarrow>
     takes R R' P (\<lambda>s. case m' s of (r, s) \<Rightarrow> f' r s) (\<lambda>s. case m s of (r, s) \<Rightarrow> f r s)"
  by (simp add: takes_def related_def case_prod_beta)

lemma takes_cases:
  assumes "\<And>e. r = Inl e \<Longrightarrow> takes R R' P (f' e) (f e)" "\<And>a. r = Inr a \<Longrightarrow> takes R R' P (g' a) (g a)"
  shows "takes R R' P (\<lambda>s. case r of Inl e \<Rightarrow> f' e s | Inr a \<Rightarrow> g' a s) (\<lambda>s. case r of Inl e \<Rightarrow> f e s | Inr a \<Rightarrow> g a s)"
  using assms by (cases r) simp_all

lemma takes_smap_err: "takes R R' (=) m' m \<Longrightarrow> takes R R' (=) (smap_err g m') (smap_err g m)"
  by (simp add: takes_def smap_err_def case_prod_beta)

lemma takes_after: "takes R R' P m' m \<Longrightarrow> related_cmd R c' c \<Longrightarrow> takes R R' P (\<lambda>s. m' (c' s)) (\<lambda>s. m (c s))"
  by (simp add: takes_def related_cmd_def)

lemma takes_sbind_rel:
  assumes "related R (rel_sum (=) A) m' m" "\<And>a' a. A a' a \<Longrightarrow> takes R R' (=) (f' a') (f a)"
    "\<And>s' s. R s' s \<Longrightarrow> R' s' s"
  shows "takes R R' (=) (sbind m' f') (sbind m f)"
  unfolding sbind_then
proof (rule takes_then)
  show "takes R R (rel_sum (=) A) m' m" using assms(1) by simp
  show "takes R R' (=) (\<lambda>s. case r' of Inl e \<Rightarrow> (Inl e, s) | Inr a \<Rightarrow> f' a s) (\<lambda>s. case r of Inl e \<Rightarrow> (Inl e, s) | Inr a \<Rightarrow> f a s)"
    if "rel_sum (=) A r' r" for r' r
    using that assms(2,3) by cases (simp_all add: takes_def)
qed

lemma takes_sbind:
  "related R (=) m' m \<Longrightarrow> (\<And>a. takes R R' (=) (f' a) (f a)) \<Longrightarrow> (\<And>s' s. R s' s \<Longrightarrow> R' s' s) \<Longrightarrow>
     takes R R' (=) (sbind m' f') (sbind m f)"
  by (rule takes_sbind_rel [where A = "(=)"]) (simp_all add: sum.rel_eq)

lemma related_cmd_fold: "(\<And>x. related_cmd R (c' x) (c x)) \<Longrightarrow> related_cmd R (fold c' xs) (fold c xs)"
  by (induction xs) (simp_all add: related_cmd_def)

section \<open>What an operation maintains\<close>

definition maintains :: "('s \<Rightarrow> bool) \<Rightarrow> ('s \<Rightarrow> 'r \<times> 's) \<Rightarrow> bool" where
  "maintains I m \<longleftrightarrow> (\<forall>s. I s \<longrightarrow> I (snd (m s)))"

named_theorems maintain_intros \<open>operations that maintain an invariant\<close>

lemma maintainsD: "maintains I m \<Longrightarrow> I s \<Longrightarrow> m s = (r, s') \<Longrightarrow> I s'"
  unfolding maintains_def by (metis snd_conv)

lemma maintains_result [maintain_intros]: "maintains I (\<lambda>s. (r, s))" "maintains I (sreturn a)" "maintains I (sfail e)"
  by (simp_all add: maintains_def sreturn_def sfail_def)

lemma maintains_then: "maintains I m \<Longrightarrow> (\<And>r. maintains I (f r)) \<Longrightarrow> maintains I (\<lambda>s. case m s of (r, s) \<Rightarrow> f r s)"
  by (simp add: maintains_def case_prod_beta)

lemma maintains_cases:
  "(\<And>e. r = Inl e \<Longrightarrow> maintains I (f e)) \<Longrightarrow> (\<And>a. r = Inr a \<Longrightarrow> maintains I (g a)) \<Longrightarrow>
     maintains I (\<lambda>s. case r of Inl e \<Rightarrow> f e s | Inr a \<Rightarrow> g a s)"
  by (cases r) simp_all

text \<open>An operation that may fail, in the shape of the models of nested matches.\<close>

lemma maintains_match:
  "maintains I m \<Longrightarrow> (\<And>e. maintains I (f e)) \<Longrightarrow> (\<And>a. maintains I (g a)) \<Longrightarrow>
     maintains I (\<lambda>s. case m s of (Inl e, s) \<Rightarrow> f e s | (Inr a, s) \<Rightarrow> g a s)"
proof -
  assume "maintains I m" "\<And>e. maintains I (f e)" "\<And>a. maintains I (g a)"
  then have "maintains I (\<lambda>s. case m s of (r, s) \<Rightarrow> (case r of Inl e \<Rightarrow> f e s | Inr a \<Rightarrow> g a s))"
    by (intro maintains_then maintains_cases)
  then show ?thesis by (simp add: maintains_def split: prod.splits sum.splits)
qed

lemma maintains_sbind [maintain_intros]: "maintains I m \<Longrightarrow> (\<And>a. maintains I (f a)) \<Longrightarrow> maintains I (sbind m f)"
  unfolding sbind_def [abs_def] by (rule maintains_match) (auto intro: maintains_result)

lemma maintains_smap_err [maintain_intros]: "maintains I m \<Longrightarrow> maintains I (smap_err g m)"
  unfolding smap_err_def [abs_def] by (rule maintains_then) (auto intro: maintains_result)

lemma maintains_sfor [maintain_intros]: "(\<And>x. maintains I (f x)) \<Longrightarrow> maintains I (sfor xs f)"
proof (induction xs)
  case (Cons x xs)
  have "maintains I (sbind (f x) (\<lambda>_. sfor xs f))" by (rule maintains_sbind [OF Cons.prems Cons.IH [OF Cons.prems]])
  then show ?case by (simp add: maintains_def)
qed (simp add: maintains_def)

lemma maintains_signore: "maintains I m \<Longrightarrow> I s \<Longrightarrow> I (signore m s)"
  by (simp add: maintains_def signore_def)

lemma maintains_after: "maintains I m \<Longrightarrow> (\<And>s. I s \<Longrightarrow> I (c s)) \<Longrightarrow> maintains I (\<lambda>s. m (c s))"
  by (simp add: maintains_def)

lemma maintains_result_after: "(\<And>s. I s \<Longrightarrow> I (c s)) \<Longrightarrow> maintains I (\<lambda>s. (r, c s))"
  by (simp add: maintains_def)

lemma maintains_ignored: "maintains I m \<Longrightarrow> maintains I (\<lambda>s. (r, signore m s))"
  by (simp add: maintains_def signore_def)

section \<open>Two hosts\<close>

text \<open>
  \<open>same\<close> relates the parameters read from the two command lines, \<open>client\<close> the two clients
  built from them, \<open>data\<close> the bootstrap data they fetch. What the run itself reads of the parameters
  has to be equal. The states are related by \<open>R\<close> up to the injection and by \<open>R'\<close>, which may be
  weaker, from then on.
\<close>

locale related_hosts =
  fixes h' :: "('s1, 'c1) host"
    and h :: "('s, 'c) host"
    and R R' :: "'s1 \<Rightarrow> 's \<Rightarrow> bool"
    and same :: "boot_params \<Rightarrow> boot_params \<Rightarrow> bool"
    and client :: "'c1 \<Rightarrow> 'c \<Rightarrow> bool"
    and data :: "bytes \<Rightarrow> bytes \<Rightarrow> bool"
  assumes weaker: "R s' s \<Longrightarrow> R' s' s"
    and params: "same p' p \<Longrightarrow> bp_bootif p' = bp_bootif p \<and> bp_disk p' = bp_disk p \<and> bp_timeout p' = bp_timeout p \<and>
      bp_target p' = bp_target p \<and> bp_target_digest p' = bp_target_digest p \<and> bp_provider_id p' = bp_provider_id p"
    and clients: "same p' p \<Longrightarrow> rel_sum (=) client (h_client h' p') (h_client h p)"
    and cmdline: "related R (rel_sum (=) same) (h_cmdline h') (h_cmdline h)"
    and network: "same p' p \<Longrightarrow> related R (=) (h_network h' p') (h_network h p)"
    and ops [related_intros]:
      "related R (=) (h_mount h' src target fstype flags) (h_mount h src target fstype flags)"
      "related R (=) (h_resolv_conf h' dns) (h_resolv_conf h dns)" "related R (=) (h_probe h') (h_probe h)"
      "related R (=) (h_select h' pin n) (h_select h pin n)"
      "related R (=) (h_write_image h' t url dig n) (h_write_image h t url dig n)"
      "related R (=) (h_reread h' t) (h_reread h t)" "related R (=) (h_efi_booted h') (h_efi_booted h)"
      "related R (=) (h_find_esp h' t) (h_find_esp h t)" "related R (=) (h_other_disks h' t g) (h_other_disks h t g)"
      "related R (=) (h_prepare_esp h' esp) (h_prepare_esp h esp)"
      "related R (=) (h_boot_entry h' esp) (h_boot_entry h esp)"
      "related R (=) (h_find_oem h' t) (h_find_oem h t)"
    and inject: "data d' d \<Longrightarrow> takes R R' (=) (h_inject h' oem d' pid) (h_inject h oem d pid)"
    and reboot: "related R' (=) (h_reboot h') (h_reboot h)"
    and calls:
      "client c' c \<Longrightarrow> related R (=) (h_submit_report h' c' x) (h_submit_report h c x)"
      "client c' c \<Longrightarrow> related R (rel_sum (=) data) (h_fetch_bootstrap h' c') (h_fetch_bootstrap h c)"
      "client c' c \<Longrightarrow> related R' (=) (h_provisioned h' c') (h_provisioned h c)"
      "client c' c \<Longrightarrow> related R (=) (h_provision_failed h' c' why) (h_provision_failed h c why)"
      "client c' c \<Longrightarrow> related R' (=) (h_provision_failed h' c' why) (h_provision_failed h c why)"
    and cmds [related_intros]:
      "related_cmd R (h_lock_memory h') (h_lock_memory h)" "related_cmd R (h_sleep h' ms) (h_sleep h ms)"
      "related_cmd R (h_print h' l) (h_print h l)" "related_cmd R (h_load_drivers h' b) (h_load_drivers h b)"
    and print_after: "related_cmd R' (h_print h' l) (h_print h l)"
begin

lemma register_esp: "related R (=) (register_esp h' target esp) (register_esp h target esp)"
proof -
  have reg: "related R (=) (register_boot_entry (\<lambda>r esp. h_print h' (BootEntryLine r esp)) (verify_esp h') (h_boot_entry h') esp)
      (register_boot_entry (\<lambda>r esp. h_print h (BootEntryLine r esp)) (verify_esp h) (h_boot_entry h) esp)"
    unfolding register_boot_entry_def verify_esp_def by (intro related_then_same related_intros)
  show ?thesis unfolding register_esp_def Let_def
    by (rule related_then_same [OF ops(9)], rule related_after [OF reg], rule related_cmd_fold, rule cmds(3))
qed

lemma esp_step: "related R (=) (esp_step h' t) (esp_step h t)"
proof -
  have step: "esp_boot_entry_step efi f reg = (if efi then (\<lambda>s. case f s of (r, s) \<Rightarrow>
      (case r of Inl e \<Rightarrow> (if is_absent e then Inr () else Inl (EspErr e), s) | Inr esp \<Rightarrow> reg esp s))
      else (\<lambda>s. (Inr (), s)))" for efi and f :: "'x \<Rightarrow> (esp_error + esp_partition) \<times> 'x" and reg
    by (rule ext) (simp add: esp_boot_entry_step_def split: prod.splits sum.splits)
  have "related R (=) (esp_boot_entry_step efi (h_find_esp h' t) (register_esp h' t))
      (esp_boot_entry_step efi (h_find_esp h t) (register_esp h t))" for efi
    unfolding step
    by (cases efi) (simp_all add: related_result, intro related_then_same related_cases related_intros register_esp)
  then show ?thesis unfolding esp_step_def [abs_def] by (rule related_then_same [OF ops(7)])
qed

lemma run_deploy_steps:
  assumes "same p' p" "data d' d"
  shows "takes R R' (=) (run_deploy_steps h' t p' d') (run_deploy_steps h t p d)"
  using params [OF assms(1)] unfolding run_deploy_steps_def
  by simp (intro takes_sbind related_intros esp_step weaker takes_smap_err inject assms(2))

lemma report_failure:
  assumes "\<And>why. related S (=) (h_provision_failed h' c' why) (h_provision_failed h c why)"
  shows "related S (=) (\<lambda>s. case report_provision_failure e (h_provision_failed h' c') s of (e, s) \<Rightarrow> (Inl e, s))
     (\<lambda>s. case report_provision_failure e (h_provision_failed h c) s of (e, s) \<Rightarrow> (Inl e, s))"
proof -
  have eq: "(\<lambda>s. case report_provision_failure e pf s of (e, s) \<Rightarrow> (Inl e, s)) =
      (\<lambda>s. case pf (provision_failure_reason e) s of (_, s) \<Rightarrow> (Inl e, s))" for pf :: "string \<Rightarrow> 'x \<Rightarrow> (client_error + unit) \<times> 'x"
    by (simp add: report_provision_failure_def signore_def case_prod_beta)
  show ?thesis unfolding eq by (intro related_then_same [OF assms] related_intros)
qed

lemma confirm:
  assumes "client c' c"
  shows "related R' (=) (sbind (smap_err ClientErr (h_provisioned h' c')) (\<lambda>_ s.
      case h_reboot h' (h_print h' RebootingLine (h_print h' ProvisionedAccepted s)) of (e, s) \<Rightarrow> (Inl (DeployErr e), s)))
    (sbind (smap_err ClientErr (h_provisioned h c)) (\<lambda>_ s.
      case h_reboot h (h_print h RebootingLine (h_print h ProvisionedAccepted s)) of (e, s) \<Rightarrow> (Inl (DeployErr e), s)))"
proof -
  have "related R' (=) (\<lambda>s. case h_reboot h' (h_print h' RebootingLine (h_print h' ProvisionedAccepted s)) of
        (e, s) \<Rightarrow> (Inl (DeployErr e), s))
      (\<lambda>s. case h_reboot h (h_print h RebootingLine (h_print h ProvisionedAccepted s)) of (e, s) \<Rightarrow> (Inl (DeployErr e), s))"
    by (rule related_then_same [OF related_after [OF reboot related_cmd_comp [OF print_after print_after]] related_result(1)])
  then show ?thesis by (rule related_sbind [OF related_smap_err [OF calls(3) [OF assms]]])
qed

lemma deploy_and_confirm:
  assumes "same p' p" "client c' c" "data d' d"
  shows "takes R R' (=) (deploy_and_confirm h' p' c' t d') (deploy_and_confirm h p c t d)"
  unfolding deploy_and_confirm_def sum_cases_pair
proof (rule takes_then)
  show "takes R R' (=) (\<lambda>s. run_deploy_steps h' t p' d' (h_print h' BootstrapReceived s))
      (\<lambda>s. run_deploy_steps h t p d (h_print h BootstrapReceived s))"
    by (rule takes_after [OF run_deploy_steps [OF assms(1,3)] cmds(3)])
  have "takes R' R' (=) (\<lambda>s. case r of
        Inl e \<Rightarrow> (case report_provision_failure e (h_provision_failed h' c') s of (e, s) \<Rightarrow> (Inl e, s))
      | Inr u \<Rightarrow> sbind (smap_err ClientErr (h_provisioned h' c')) (\<lambda>_ s.
          case h_reboot h' (h_print h' RebootingLine (h_print h' ProvisionedAccepted s)) of (e, s) \<Rightarrow> (Inl (DeployErr e), s)) s)
    (\<lambda>s. case r of
        Inl e \<Rightarrow> (case report_provision_failure e (h_provision_failed h c) s of (e, s) \<Rightarrow> (Inl e, s))
      | Inr u \<Rightarrow> sbind (smap_err ClientErr (h_provisioned h c)) (\<lambda>_ s.
          case h_reboot h (h_print h RebootingLine (h_print h ProvisionedAccepted s)) of (e, s) \<Rightarrow> (Inl (DeployErr e), s)) s)" for r
    unfolding takes_same by (rule related_cases, rule report_failure [OF calls(5) [OF assms(2)]], rule confirm [OF assms(2)])
  then show "takes R' R' (=) (\<lambda>s. case r' of
        Inl e \<Rightarrow> (case report_provision_failure e (h_provision_failed h' c') s of (e, s) \<Rightarrow> (Inl e, s))
      | Inr u \<Rightarrow> sbind (smap_err ClientErr (h_provisioned h' c')) (\<lambda>_ s.
          case h_reboot h' (h_print h' RebootingLine (h_print h' ProvisionedAccepted s)) of (e, s) \<Rightarrow> (Inl (DeployErr e), s)) s)
    (\<lambda>s. case r of
        Inl e \<Rightarrow> (case report_provision_failure e (h_provision_failed h c) s of (e, s) \<Rightarrow> (Inl e, s))
      | Inr u \<Rightarrow> sbind (smap_err ClientErr (h_provisioned h c)) (\<lambda>_ s.
          case h_reboot h (h_print h RebootingLine (h_print h ProvisionedAccepted s)) of (e, s) \<Rightarrow> (Inl (DeployErr e), s)) s)"
    if "r' = r" for r' r unfolding that .
qed

lemma poll_loop:
  assumes "client c' c"
  shows "related R (rel_sum (=) data) (poll_loop k (h_sleep h') (h_fetch_bootstrap h' c')) (poll_loop k (h_sleep h) (h_fetch_bootstrap h c))"
proof (induction k)
  case (Suc k)
  have step: "poll_loop (Suc k) sl fe = (\<lambda>s. case fe s of (r, s) \<Rightarrow> (case r of
      Inl e \<Rightarrow> (if classify_poll e = Abort then (Inl (BootstrapAborted e), s)
        else poll_loop k sl fe (if k \<noteq> 0 then sl POLL_INTERVAL s else s))
    | Inr data \<Rightarrow> (Inr data, s)))" for sl :: "nat \<Rightarrow> 'x \<Rightarrow> 'x" and fe
    by (rule ext) (auto split: prod.splits sum.splits poll_verdict.splits)
  have again: "related R (rel_sum (=) data)
      (\<lambda>s. if classify_poll e = Abort then (Inl (BootstrapAborted e), s)
        else poll_loop k (h_sleep h') (h_fetch_bootstrap h' c') (if k \<noteq> 0 then h_sleep h' POLL_INTERVAL s else s))
      (\<lambda>s. if classify_poll e = Abort then (Inl (BootstrapAborted e), s)
        else poll_loop k (h_sleep h) (h_fetch_bootstrap h c) (if k \<noteq> 0 then h_sleep h POLL_INTERVAL s else s))" for e
    using related_after [OF Suc.IH cmds(2)] Suc.IH
    by (cases "classify_poll e = Abort"; cases "k = 0") (simp_all add: related_def)
  show ?case unfolding step
  proof (rule related_then [OF calls(2) [OF assms]])
    fix r' r :: "client_error + bytes"
    assume "rel_sum (=) data r' r"
    then show "related R (rel_sum (=) data)
      (\<lambda>s. case r' of Inl e \<Rightarrow> (if classify_poll e = Abort then (Inl (BootstrapAborted e), s)
            else poll_loop k (h_sleep h') (h_fetch_bootstrap h' c') (if k \<noteq> 0 then h_sleep h' POLL_INTERVAL s else s))
          | Inr d \<Rightarrow> (Inr d, s))
      (\<lambda>s. case r of Inl e \<Rightarrow> (if classify_poll e = Abort then (Inl (BootstrapAborted e), s)
            else poll_loop k (h_sleep h) (h_fetch_bootstrap h c) (if k \<noteq> 0 then h_sleep h POLL_INTERVAL s else s))
          | Inr d \<Rightarrow> (Inr d, s))"
    proof cases
      case (1 e' e)
      with again show ?thesis by simp
    qed (simp add: related_def)
  qed
qed (simp add: related_def)

lemma provision:
  assumes "same p' p" "client c' c"
  shows "takes R R' (=) (provision h' p' c' target) (provision h p c target)"
proof -
  have "related R (=) (require_target target (h_provision_failed h' c')) (require_target target (h_provision_failed h c))"
  proof (cases target)
    case (Inl e)
    with report_failure [OF calls(4) [OF assms(2)], of "DiskErr e"] show ?thesis by (simp add: require_target_def [abs_def])
  qed (simp add: require_target_def [abs_def] related_result)
  then show ?thesis using params [OF assms(1)] unfolding provision_def poll_bootstrap_def [abs_def]
    by simp (rule takes_sbind, assumption, rule takes_sbind_rel [OF poll_loop [OF assms(2)] deploy_and_confirm [OF assms]],
      auto intro: weaker)
qed

lemma enroll:
  assumes "same p' p"
  shows "takes R R' (=) (enroll h' dry p') (enroll h dry p)"
proof -
  have print: "related_cmd R (print_target h' target) (print_target h target)" for target
    by (cases target) (simp_all add: print_target_def cmds)
  have fin: "takes R R' (=) (\<lambda>s. if dry then (Inr (), h_print h' DryRunLine (h_print h' ReportAccepted s))
        else provision h' p' c' target (h_print h' ReportAccepted s))
      (\<lambda>s. if dry then (Inr (), h_print h DryRunLine (h_print h ReportAccepted s))
        else provision h p c target (h_print h ReportAccepted s))" if "client c' c" for c' c target
    using related_takes [OF related_result_after [OF related_cmd_comp [OF cmds(3) cmds(3)]] weaker]
      takes_after [OF provision [OF assms that] cmds(3)]
    by (cases dry) simp_all
  have tail: "takes R R' (=) (\<lambda>s. case h_client h' p' of Inl e \<Rightarrow> (Inl (ClientErr e), print_target h' target s)
      | Inr c \<Rightarrow> sbind (smap_err ClientErr (h_submit_report h' c report)) (\<lambda>_ s.
          if dry then (Inr (), h_print h' DryRunLine (h_print h' ReportAccepted s))
          else provision h' p' c target (h_print h' ReportAccepted s)) (print_target h' target s))
    (\<lambda>s. case h_client h p of Inl e \<Rightarrow> (Inl (ClientErr e), print_target h target s)
      | Inr c \<Rightarrow> sbind (smap_err ClientErr (h_submit_report h c report)) (\<lambda>_ s.
          if dry then (Inr (), h_print h DryRunLine (h_print h ReportAccepted s))
          else provision h p c target (h_print h ReportAccepted s)) (print_target h target s))" for report target
    using clients [OF assms]
  proof cases
    case (1 e' e)
    then show ?thesis using related_takes [OF related_result_after [OF print] weaker] by simp
  next
    case (2 c' c)
    from takes_after [OF takes_sbind [OF related_smap_err [OF calls(1) [OF 2(3)]] fin [OF 2(3)] weaker] print]
    show ?thesis by (simp add: 2)
  qed
  show ?thesis using params [OF assms] unfolding enroll_def Let_def
    by simp (rule takes_then_same [OF ops(3)], rule takes_then_same [OF ops(4)], rule tail)
qed

lemma bring_up:
  assumes "same p' p"
  shows "related R (=) (bring_up h' p') (bring_up h p)"
proof -
  have "related R (=) (\<lambda>s. case h_resolv_conf h' dns (h_print h' l s) of (r, s) \<Rightarrow>
        (case r of Inl e \<Rightarrow> (Inr (), h_print h' (ResolvConfFailed e) s) | Inr _ \<Rightarrow> (Inr (), s)))
      (\<lambda>s. case h_resolv_conf h dns (h_print h l s) of (r, s) \<Rightarrow>
        (case r of Inl e \<Rightarrow> (Inr (), h_print h (ResolvConfFailed e) s) | Inr _ \<Rightarrow> (Inr (), s)))" for dns l
    by (rule related_then_same [OF related_after [OF ops(2) cmds(3)]], rule related_cases)
      (rule related_result_after [OF cmds(3)], rule related_result)
  then show ?thesis using params [OF assms] unfolding bring_up_def Let_def sum_cases_pair
    by simp (rule related_after [OF related_sbind [OF related_smap_err [OF network [OF assms]]] cmds(4)])
qed

lemma mount_and_lock: "related R (=) (mount_and_lock h') (mount_and_lock h)"
proof -
  have "related R (=) (mount_one (h_mount h') spec) (mount_one (h_mount h) spec)" for spec
  proof -
    obtain a b c d where spec: "spec = (a, b, c, d)" by (metis prod.exhaust)
    have eq: "mount_one mt spec = (\<lambda>s. case mt a b c d s of (r, s) \<Rightarrow>
        (case r of Inl e \<Rightarrow> (if e = EBUSY then Inr () else Inl (RunMount b e), s) | Inr _ \<Rightarrow> (Inr (), s)))"
      for mt :: "'x pseudo_mount"
      by (rule ext) (simp add: mount_one_def spec split: prod.splits sum.splits)
    show ?thesis unfolding eq by (intro related_then_same related_cases related_intros)
  qed
  then show ?thesis unfolding mount_and_lock_def mount_pseudo_filesystems_def
    by (rule related_sbind [OF related_sfor related_result_after [OF cmds(1)]])
qed

lemma run: "takes R R' (=) (run h' dry) (run h dry)"
  unfolding run_def
proof (rule takes_sbind)
  show "related R (=) (if dry then sreturn () else mount_and_lock h') (if dry then sreturn () else mount_and_lock h)"
    using mount_and_lock by (simp add: related_result)
  show "takes R R' (=) (sbind (smap_err CmdlineErr (h_cmdline h')) (\<lambda>params.
        sbind (if dry then sreturn () else bring_up h' params) (\<lambda>_. enroll h' dry params)))
      (sbind (smap_err CmdlineErr (h_cmdline h)) (\<lambda>params.
        sbind (if dry then sreturn () else bring_up h params) (\<lambda>_. enroll h dry params)))"
    by (rule takes_sbind_rel [OF related_smap_err_rel [OF cmdline] takes_sbind weaker])
      (auto simp: related_result intro: bring_up enroll weaker)
qed (rule weaker)

end

section \<open>One host\<close>

locale kept_by_host =
  fixes h :: "('s, 'c) host"
    and I :: "'s \<Rightarrow> bool"
  assumes kept_ops:
      "maintains I (h_mount h src target fstype flags)" "maintains I (h_cmdline h)" "maintains I (h_network h p)"
      "maintains I (h_resolv_conf h dns)" "maintains I (h_probe h)" "maintains I (h_select h pin n)"
      "maintains I (h_submit_report h c x)" "maintains I (h_fetch_bootstrap h c)"
      "maintains I (h_write_image h t url dig n)" "maintains I (h_reread h t)" "maintains I (h_efi_booted h)"
      "maintains I (h_find_esp h t)" "maintains I (h_other_disks h t g)" "maintains I (h_prepare_esp h esp)"
      "maintains I (h_boot_entry h esp)" "maintains I (h_find_oem h t)" "maintains I (h_inject h oem data pid)"
      "maintains I (h_provisioned h c)" "maintains I (h_provision_failed h c why)" "maintains I (h_reboot h)"
    and kept_cmds: "I s \<Longrightarrow> I (h_lock_memory h s)" "I s \<Longrightarrow> I (h_sleep h ms s)" "I s \<Longrightarrow> I (h_print h l s)"
      "I s \<Longrightarrow> I (h_load_drivers h b s)"

sublocale kept_by_host \<subseteq> kept: related_hosts h h "\<lambda>s' s. s' = s \<and> I s" "\<lambda>s' s. s' = s \<and> I s" "(=)" "(=)" "(=)"
proof
  have same: "related (\<lambda>s' s. s' = s \<and> I s) (=) m m" if "maintains I m" for m :: "'s \<Rightarrow> 'x \<times> 's"
    using that by (simp add: related_def maintains_def)
qed (simp_all add: sum.rel_eq related_def related_cmd_def kept_cmds kept_ops [unfolded maintains_def])

context kept_by_host
begin

lemma run_maintains: "maintains I (run h dry)"
  using kept.run [of dry] by (simp add: related_def maintains_def)

end

end
