(* ===== verification/Host_Laws.thy ===== *)
theory Host_Laws
  imports Host_Relations
begin

text \<open>
  What the run relies on: a contract of the host's operations over a view of its state, and
  what a run then achieves. Each operation may change one part of the view only; the lemmas
  follow a run of \<open>src/run.rs\<close> through them.
\<close>

section \<open>Frames\<close>

definition keeps :: "('s \<Rightarrow> 'v) \<Rightarrow> ('s \<Rightarrow> 'r \<times> 's) \<Rightarrow> bool" where
  "keeps v m \<longleftrightarrow> (\<forall>s. v (snd (m s)) = v s)"

definition keeps_cmd :: "('s \<Rightarrow> 'v) \<Rightarrow> ('s \<Rightarrow> 's) \<Rightarrow> bool" where
  "keeps_cmd v c \<longleftrightarrow> (\<forall>s. v (c s) = v s)"

named_theorems keep_intros \<open>operations that keep a part of the state\<close>

lemma keepsD: "keeps v m \<Longrightarrow> m s = (r, s') \<Longrightarrow> v s' = v s"
  unfolding keeps_def by (metis snd_conv)

lemma keeps_result [keep_intros]: "keeps v (\<lambda>s. (r, s))" "keeps v (sreturn a)"
  by (simp_all add: keeps_def sreturn_def)

lemma keeps_then: "keeps v m \<Longrightarrow> (\<And>r. keeps v (f r)) \<Longrightarrow> keeps v (\<lambda>s. case m s of (r, s) \<Rightarrow> f r s)"
  unfolding keeps_def by (metis (no_types, lifting) case_prod_beta)

lemma keeps_cases:
  "(\<And>e. r = Inl e \<Longrightarrow> keeps v (f e)) \<Longrightarrow> (\<And>a. r = Inr a \<Longrightarrow> keeps v (g a)) \<Longrightarrow>
     keeps v (\<lambda>s. case r of Inl e \<Rightarrow> f e s | Inr a \<Rightarrow> g a s)"
  by (cases r) simp_all

lemma keeps_sbind [keep_intros]: "keeps v m \<Longrightarrow> (\<And>a. keeps v (f a)) \<Longrightarrow> keeps v (sbind m f)"
  unfolding sbind_then by (intro keeps_then keeps_cases keeps_result)

lemma keeps_smap_err [keep_intros]: "keeps v m \<Longrightarrow> keeps v (smap_err g m)"
  unfolding smap_err_def [abs_def] by (intro keeps_then keeps_result)

lemma keeps_sfor [keep_intros]: "(\<And>x. keeps v (f x)) \<Longrightarrow> keeps v (sfor xs f)"
proof (induction xs)
  case (Cons x xs)
  have "keeps v (sbind (f x) (\<lambda>_. sfor xs f))" by (rule keeps_sbind [OF Cons.prems Cons.IH [OF Cons.prems]])
  then show ?case by (simp add: keeps_def)
qed (simp add: keeps_def)

lemma keeps_after: "keeps v m \<Longrightarrow> keeps_cmd v c \<Longrightarrow> keeps v (\<lambda>s. m (c s))"
  by (simp add: keeps_def keeps_cmd_def)

lemma keeps_result_after [keep_intros]: "keeps_cmd v c \<Longrightarrow> keeps v (\<lambda>s. (r, c s))"
  by (simp add: keeps_def keeps_cmd_def)

lemma keeps_cmd_fold [keep_intros]: "(\<And>x. keeps_cmd v (c x)) \<Longrightarrow> keeps_cmd v (fold c xs)"
proof (induction xs)
  case (Cons x xs)
  then show ?case by (simp add: keeps_cmd_def)
qed (simp add: keeps_cmd_def)

lemma keeps_fst: "keeps (\<lambda>s. (v s, w s)) m \<Longrightarrow> keeps v m" "keeps (\<lambda>s. (v s, w s)) m \<Longrightarrow> keeps w m"
  by (simp_all add: keeps_def)

lemma keepsI: "(\<And>s. v (snd (m s)) = v s) \<Longrightarrow> keeps v m"
  by (simp add: keeps_def)

section \<open>The contract\<close>

text \<open>
  The view: the tree of \<open>/sys\<close> and \<open>/proc\<close>, the contents of the disks, the file systems on
  their partitions, what was exchanged with the controller, and how often a reboot was asked.
\<close>

record ('t, 'd, 'p, 'n) view =
  v_tree :: 't
  v_disks :: 'd
  v_parts :: 'p
  v_heard :: 'n
  v_reboots :: nat

text \<open>
  \<open>told\<close> is what the command line can give; \<open>loaded\<close> and \<open>rescanned\<close> what loading drivers and
  re-reading a partition table make of the tree. The other predicates are the promises of the
  selection, of the lookup of \<open>COS_OEM\<close>, of the image write, of the injection, of a fetch and
  of the final callback.
\<close>

locale deploying_host =
  fixes h :: "('s, 'c) host"
    and view :: "'s \<Rightarrow> ('t, 'd, 'p, 'n) view"
    and told :: "boot_params \<Rightarrow> bool"
    and loaded :: "string option \<Rightarrow> 't \<Rightarrow> 't"
    and rescanned :: "'d \<Rightarrow> 't \<Rightarrow> 't"
    and chosen :: "string option \<Rightarrow> u64 \<Rightarrow> 't \<Rightarrow> target_disk \<Rightarrow> bool"
    and located :: "'d \<Rightarrow> 't \<Rightarrow> target_disk \<Rightarrow> oem_partition \<Rightarrow> bool"
    and imaged :: "'d \<Rightarrow> target_disk \<Rightarrow> string \<Rightarrow> u64 \<Rightarrow> bool"
    and injected :: "'p \<Rightarrow> oem_partition \<Rightarrow> bytes \<Rightarrow> string \<Rightarrow> bool"
    and answered :: "'n \<Rightarrow> 'c \<Rightarrow> bytes \<Rightarrow> bool"
    and confirmed :: "'n \<Rightarrow> 'c \<Rightarrow> bool"
  assumes quiet [keep_intros]:
      "keeps view (h_mount h src target fstype flags)" "keeps view (h_cmdline h)" "keeps view (h_network h p)"
      "keeps view (h_resolv_conf h dns)" "keeps view (h_probe h)" "keeps view (h_select h pin n)"
      "keeps view (h_efi_booted h)" "keeps view (h_find_esp h t)" "keeps view (h_other_disks h t g)"
      "keeps view (h_boot_entry h esp)" "keeps view (h_find_oem h t)"
    and quiet_cmds [keep_intros]:
      "keeps_cmd view (h_lock_memory h)" "keeps_cmd view (h_sleep h ms)" "keeps_cmd view (h_print h l)"
    and drivers: "view (h_load_drivers h bootif s) = (view s)\<lparr>v_tree := loaded bootif (v_tree (view s))\<rparr>"
    and writes: "\<exists>d. view (snd (h_write_image h t url dig n s)) = (view s)\<lparr>v_disks := d\<rparr>"
    and prepares: "\<exists>p. view (snd (h_prepare_esp h esp s)) = (view s)\<lparr>v_parts := p\<rparr>"
    and injects: "\<exists>p. view (snd (h_inject h oem data pid s)) = (view s)\<lparr>v_parts := p\<rparr>"
    and exchanges:
      "\<exists>n. view (snd (h_submit_report h c x s)) = (view s)\<lparr>v_heard := n\<rparr>"
      "\<exists>n. view (snd (h_fetch_bootstrap h c s)) = (view s)\<lparr>v_heard := n\<rparr>"
      "\<exists>n. view (snd (h_provisioned h c s)) = (view s)\<lparr>v_heard := n\<rparr>"
      "\<exists>n. view (snd (h_provision_failed h c why s)) = (view s)\<lparr>v_heard := n\<rparr>"
    and rescans: "\<exists>tr p. view (snd (h_reread h t s)) = (view s)\<lparr>v_tree := tr, v_parts := p\<rparr>"
    and reboots: "view (snd (h_reboot h s)) = (view s)\<lparr>v_reboots := Suc (v_reboots (view s))\<rparr>"
    and cmdline_told: "h_cmdline h s = (Inr p, s') \<Longrightarrow> told p"
    and select_chosen: "h_select h pin n s = (Inr t, s') \<Longrightarrow> chosen pin n (v_tree (view s)) t"
    and write_imaged: "h_write_image h t url dig n s = (Inr k, s') \<Longrightarrow> imaged (v_disks (view s')) t dig n"
    and reread_rescanned:
      "h_reread h t s = (Inr u, s') \<Longrightarrow> v_tree (view s') = rescanned (v_disks (view s)) (v_tree (view s))"
    and find_located: "h_find_oem h t s = (Inr oem, s') \<Longrightarrow> located (v_disks (view s)) (v_tree (view s)) t oem"
    and inject_injected: "h_inject h oem data pid s = (Inr u, s') \<Longrightarrow> injected (v_parts (view s')) oem data pid"
    and fetch_answered: "h_fetch_bootstrap h c s = (Inr data, s') \<Longrightarrow> answered (v_heard (view s')) c data"
    and provisioned_confirmed: "h_provisioned h c s = (Inr u, s') \<Longrightarrow> confirmed (v_heard (view s')) c"
    and answered_stays: "answered (v_heard (view s)) c data \<Longrightarrow>
      answered (v_heard (view (snd (h_provisioned h c' s)))) c data"
begin

text \<open>What a run from a host with the tree \<open>tr\<close> of its drivers has done when it asked for a reboot.\<close>

definition rebooted :: "boot_params \<Rightarrow> 'c \<Rightarrow> 't \<Rightarrow> target_disk \<Rightarrow> ('t, 'd, 'p, 'n) view \<Rightarrow> bool" where
  "rebooted p c tr t v' \<longleftrightarrow> (\<exists>data oem. answered (v_heard v') c data \<and>
     imaged (v_disks v') t (bp_target_digest p) DEFAULT_MAX_IMAGE_BYTES \<and>
     located (v_disks v') (rescanned (v_disks v') tr) t oem \<and>
     injected (v_parts v') oem data (bp_provider_id p) \<and> confirmed (v_heard v') c)"

text \<open>A deploy carried through, from the host as it was at the start to the one at the end.\<close>

definition deployed :: "('t, 'd, 'p, 'n) view \<Rightarrow> ('t, 'd, 'p, 'n) view \<Rightarrow> bool" where
  "deployed v v' \<longleftrightarrow> (\<exists>p c t. told p \<and> h_client h p = Inr c \<and>
     (let tr = loaded (bp_bootif p) (v_tree v) in chosen (bp_disk p) 0 tr t \<and> rebooted p c tr t v'))"

text \<open>What is kept apart from the exchanges, and apart from disks, partitions and tree.\<close>

definition local_state :: "'s \<Rightarrow> 't \<times> 'd \<times> 'p \<times> nat" where
  "local_state s = (v_tree (view s), v_disks (view s), v_parts (view s), v_reboots (view s))"

definition talk :: "'s \<Rightarrow> 'n \<times> nat" where
  "talk s = (v_heard (view s), v_reboots (view s))"

lemma local_state_eq: "local_state s' = local_state s \<longleftrightarrow> (\<exists>n. view s' = (view s)\<lparr>v_heard := n\<rparr>)"
  by (cases "view s"; cases "view s'") (auto simp: local_state_def)

lemma keeps_of_view:
  "keeps view m \<Longrightarrow> keeps local_state m" "keeps view m \<Longrightarrow> keeps talk m"
  "keeps_cmd view c \<Longrightarrow> keeps_cmd local_state c" "keeps_cmd view c \<Longrightarrow> keeps_cmd talk c"
  by (simp_all add: keeps_def keeps_cmd_def local_state_def talk_def)

lemmas local_quiet [keep_intros] = quiet [THEN keeps_of_view(1)] quiet_cmds [THEN keeps_of_view(3)]
lemmas talk_quiet [keep_intros] = quiet [THEN keeps_of_view(2)] quiet_cmds [THEN keeps_of_view(4)]

lemma local_exchanges [keep_intros]:
  "keeps local_state (h_submit_report h c x)" "keeps local_state (h_fetch_bootstrap h c)"
  "keeps local_state (h_provisioned h c)" "keeps local_state (h_provision_failed h c why)"
  unfolding keeps_def local_state_eq using exchanges by blast+

lemma talk_kept:
  "talk (snd (h_write_image h t url dig n s)) = talk s" "talk (snd (h_reread h t s)) = talk s"
  "talk (snd (h_prepare_esp h esp s)) = talk s" "talk (snd (h_inject h oem data pid s)) = talk s"
  using writes [of t url dig n s] rescans [of t s] prepares [of esp s] injects [of oem data pid s]
  by (auto simp: talk_def)

lemma talk_steps [keep_intros]:
  "keeps talk (h_write_image h t url dig n)" "keeps talk (h_reread h t)" "keeps talk (h_prepare_esp h esp)"
  "keeps talk (h_inject h oem data pid)" "keeps_cmd talk (h_load_drivers h bootif)"
  by (rule keepsI, rule talk_kept)+ (simp add: keeps_cmd_def talk_def drivers)

text \<open>The ESP step touches the partitions only.\<close>

definition off_parts :: "'s \<Rightarrow> 't \<times> 'd \<times> 'n \<times> nat" where
  "off_parts s = (v_tree (view s), v_disks (view s), v_heard (view s), v_reboots (view s))"

lemma off_parts_of_view:
  "keeps view m \<Longrightarrow> keeps off_parts m" "keeps_cmd view c \<Longrightarrow> keeps_cmd off_parts c"
  by (simp_all add: keeps_def keeps_cmd_def off_parts_def)

lemmas off_parts_quiet [keep_intros] = quiet [THEN off_parts_of_view(1)] quiet_cmds [THEN off_parts_of_view(2)]

lemma off_parts_prepare [keep_intros]: "keeps off_parts (h_prepare_esp h esp)"
proof (rule keepsI)
  show "off_parts (snd (h_prepare_esp h esp s)) = off_parts s" for s
    using prepares [of esp s] by (auto simp: off_parts_def)
qed

end

lemma esp_boot_entry_step_keeps:
  assumes "keeps v find_it" "\<And>esp. keeps v (register esp)"
  shows "keeps v (esp_boot_entry_step efi find_it register)"
proof -
  have step: "esp_boot_entry_step efi find_it register = (if efi then (\<lambda>s. case find_it s of (r, s) \<Rightarrow>
      (case r of Inl e \<Rightarrow> (if is_absent e then Inr () else Inl (EspErr e), s) | Inr esp \<Rightarrow> register esp s))
      else (\<lambda>s. (Inr (), s)))"
    by (rule ext) (simp add: esp_boot_entry_step_def split: prod.splits sum.splits)
  show ?thesis unfolding step
    by (cases efi) (simp_all add: keeps_result, intro keeps_then keeps_cases keeps_result assms)
qed

context deploying_host
begin

lemma register_esp_off_parts: "keeps off_parts (register_esp h t esp)"
proof -
  have verify: "keeps off_parts (verify_esp h esp)"
    unfolding verify_esp_def by (intro keep_intros)
  have reg: "keeps off_parts (register_boot_entry (\<lambda>r esp. h_print h (BootEntryLine r esp)) (verify_esp h) (h_boot_entry h) esp)"
    unfolding register_boot_entry_def
    by (intro keeps_sbind keeps_smap_err verify keeps_then off_parts_quiet keeps_result_after)
  show ?thesis
    unfolding register_esp_def Let_def
    by (rule keeps_then [OF off_parts_quiet(9)], rule keeps_after [OF reg], rule keeps_cmd_fold, rule off_parts_quiet)
qed

lemma esp_step_off_parts: "keeps off_parts (esp_step h t)"
  unfolding esp_step_def [abs_def]
  by (rule keeps_then [OF off_parts_quiet(7)], rule esp_boot_entry_step_keeps [OF off_parts_quiet(8) register_esp_off_parts])

section \<open>The deploy steps\<close>

lemma register_esp_talk: "keeps talk (register_esp h t esp)"
  using register_esp_off_parts [of t esp] by (auto simp: keeps_def off_parts_def talk_def)

lemma run_deploy_steps_talk: "keeps talk (run_deploy_steps h t p data)"
proof -
  have esp: "keeps talk (esp_step h t)"
    using esp_step_off_parts [of t] by (auto simp: keeps_def off_parts_def talk_def)
  show ?thesis unfolding run_deploy_steps_def
    by (intro keeps_sbind keeps_smap_err esp talk_steps talk_quiet)
qed

lemma run_deploy_steps_ok:
  assumes "run_deploy_steps h t p data s = (Inr u, s')"
  shows "\<exists>oem. imaged (v_disks (view s')) t (bp_target_digest p) DEFAULT_MAX_IMAGE_BYTES \<and>
     located (v_disks (view s')) (rescanned (v_disks (view s')) (v_tree (view s))) t oem \<and>
     injected (v_parts (view s')) oem data (bp_provider_id p)"
proof -
  from assms obtain k s1 u2 s2 u3 s3 oem s4 where
    w: "h_write_image h t (bp_target p) (bp_target_digest p) DEFAULT_MAX_IMAGE_BYTES s = (Inr k, s1)"
    and r: "h_reread h t s1 = (Inr u2, s2)" and e: "esp_step h t s2 = (Inr u3, s3)"
    and f: "h_find_oem h t s3 = (Inr oem, s4)" and i: "h_inject h oem data (bp_provider_id p) s4 = (Inr u, s')"
    by (auto simp: run_deploy_steps_def sbind_Inr smap_err_Inr)
  have "v_tree (view s1) = v_tree (view s)" using writes [of t "bp_target p" "bp_target_digest p" DEFAULT_MAX_IMAGE_BYTES s] w by auto
  moreover have "v_disks (view s2) = v_disks (view s1)" using rescans [of t s1] r by auto
  moreover have "v_tree (view s3) = v_tree (view s2)" "v_disks (view s3) = v_disks (view s2)"
    using keepsD [OF esp_step_off_parts e] by (simp_all add: off_parts_def)
  moreover have "view s4 = view s3" using keepsD [OF quiet(11) f] .
  moreover have "v_disks (view s') = v_disks (view s4)" using injects [of oem data "bp_provider_id p" s4] i by auto
  ultimately show ?thesis
    using write_imaged [OF w] reread_rescanned [OF r] find_located [OF f] inject_injected [OF i] by auto
qed

section \<open>The bootstrap poll\<close>

lemma poll_loop_effect:
  "poll_loop k (h_sleep h) (h_fetch_bootstrap h c) s = (r, s') \<Longrightarrow>
     local_state s' = local_state s \<and> (\<forall>data. r = Inr data \<longrightarrow> answered (v_heard (view s')) c data)"
proof (induction k arbitrary: s)
  case (Suc k)
  obtain r1 s1 where f: "h_fetch_bootstrap h c s = (r1, s1)" by fastforce
  have l1: "local_state s1 = local_state s" using keepsD [OF local_exchanges(2) f] .
  show ?case
  proof (cases r1)
    case (Inr data)
    with Suc.prems f l1 fetch_answered show ?thesis by auto
  next
    case (Inl e)
    let ?s2 = "if k \<noteq> 0 then h_sleep h POLL_INTERVAL s1 else s1"
    have l2: "local_state ?s2 = local_state s" using l1 local_quiet(13) by (simp add: keeps_cmd_def)
    show ?thesis
    proof (cases "classify_poll e")
      case Abort
      with Suc.prems f Inl l1 show ?thesis by auto
    next
      case NotReady
      with Suc.prems f Inl have "poll_loop k (h_sleep h) (h_fetch_bootstrap h c) ?s2 = (r, s')" by simp
      from Suc.IH [OF this] l2 show ?thesis by simp
    qed
  qed
qed auto

section \<open>The run\<close>

abbreviation (input) idle :: "'s \<Rightarrow> 's \<Rightarrow> bool" where
  "idle s s' \<equiv> v_reboots (view s') = v_reboots (view s)"

lemma view_print [simp]: "view (h_print h l s) = view s"
  using quiet_cmds(3) by (simp add: keeps_cmd_def)

lemma deploy_and_confirm_effect:
  assumes "deploy_and_confirm h p c t data s = (r, s')"
    and "answered (v_heard (view s)) c data"
  shows "\<not> is_ok r \<and> (idle s s' \<or> v_reboots (view s') = Suc (v_reboots (view s)) \<and>
     (\<exists>oem. answered (v_heard (view s')) c data \<and>
       imaged (v_disks (view s')) t (bp_target_digest p) DEFAULT_MAX_IMAGE_BYTES \<and>
       located (v_disks (view s')) (rescanned (v_disks (view s')) (v_tree (view s))) t oem \<and>
       injected (v_parts (view s')) oem data (bp_provider_id p) \<and> confirmed (v_heard (view s')) c))"
proof -
  obtain r1 s1 where d: "run_deploy_steps h t p data (h_print h BootstrapReceived s) = (r1, s1)" by fastforce
  have t1: "v_heard (view s1) = v_heard (view s)" "idle s s1"
    using keepsD [OF run_deploy_steps_talk d] by (simp_all add: talk_def)
  show ?thesis
  proof (cases r1)
    case (Inl e)
    obtain n where "view (snd (h_provision_failed h c (provision_failure_reason e) s1)) = (view s1)\<lparr>v_heard := n\<rparr>"
      using exchanges(4) by blast
    with assms d Inl t1 show ?thesis
      by (auto simp: deploy_and_confirm_def report_provision_failure_def signore_def)
  next
    case (Inr u)
    from run_deploy_steps_ok [OF d [unfolded Inr]] obtain oem where ok:
      "imaged (v_disks (view s1)) t (bp_target_digest p) DEFAULT_MAX_IMAGE_BYTES"
      "located (v_disks (view s1)) (rescanned (v_disks (view s1)) (v_tree (view s))) t oem"
      "injected (v_parts (view s1)) oem data (bp_provider_id p)" by auto
    obtain r2 s2 where c2: "h_provisioned h c s1 = (r2, s2)" by fastforce
    obtain n where v2: "view s2 = (view s1)\<lparr>v_heard := n\<rparr>" using exchanges(3) [of c s1] c2 by auto
    have a2: "answered (v_heard (view s2)) c data" using answered_stays [of s1 c data c] assms(2) t1 c2 by simp
    show ?thesis
    proof (cases r2)
      case (Inl e)
      with assms d Inr c2 v2 t1 show ?thesis
        by (auto simp: deploy_and_confirm_def sbind_def smap_err_def)
    next
      case (Inr u2)
      let ?s3 = "h_print h RebootingLine (h_print h ProvisionedAccepted s2)"
      obtain e s4 where b: "h_reboot h ?s3 = (e, s4)" by fastforce
      have "view s4 = (view s2)\<lparr>v_reboots := Suc (v_reboots (view s2))\<rparr>" using reboots [of ?s3] b by simp
      moreover have "r = Inl (DeployErr e)" "s' = s4"
        using assms(1) d c2 b Inr \<open>r1 = Inr u\<close> by (simp_all add: deploy_and_confirm_def sbind_def smap_err_def)
      moreover have "confirmed (v_heard (view s2)) c" using provisioned_confirmed c2 Inr by blast
      ultimately show ?thesis using ok a2 v2 t1 by auto
    qed
  qed
qed

lemma provision_effect:
  assumes "provision h p c target s = (r, s')"
  shows "\<not> is_ok r \<and> (idle s s' \<or> v_reboots (view s') = Suc (v_reboots (view s)) \<and>
     (\<exists>t. target = Inr t \<and> rebooted p c (v_tree (view s)) t (view s')))"
proof (cases target)
  case (Inl e)
  obtain n where "view (snd (h_provision_failed h c (provision_failure_reason (DiskErr e)) s)) = (view s)\<lparr>v_heard := n\<rparr>"
    using exchanges(4) by blast
  with assms Inl show ?thesis
    by (auto simp: provision_def sbind_def require_target_def report_provision_failure_def signore_def)
next
  case (Inr t)
  obtain r1 s1 where f: "poll_bootstrap (poll_budget_iterations (bp_timeout p)) (h_sleep h) (h_fetch_bootstrap h c) s = (r1, s1)"
    by fastforce
  note eff = poll_loop_effect [OF f [unfolded poll_bootstrap_def]]
  then have l: "v_tree (view s1) = v_tree (view s)" "idle s s1" by (simp_all add: local_state_def)
  show ?thesis
  proof (cases r1)
    case (Inl e)
    with assms \<open>target = Inr t\<close> f l show ?thesis by (auto simp: provision_def sbind_def require_target_def)
  next
    case (Inr data)
    with assms \<open>target = Inr t\<close> f have "deploy_and_confirm h p c t data s1 = (r, s')"
      by (simp add: provision_def sbind_def require_target_def)
    from deploy_and_confirm_effect [OF this] eff Inr l \<open>target = Inr t\<close> show ?thesis
      by (auto simp: rebooted_def)
  qed
qed

lemma print_target_view: "view (print_target h target s) = view s"
  by (cases target) (simp_all add: print_target_def)

lemma enroll_effect:
  assumes "enroll h dry p s = (r, s')"
  shows "if dry then local_state s' = local_state s
    else \<not> is_ok r \<and> (idle s s' \<or> v_reboots (view s') = Suc (v_reboots (view s)) \<and>
      (\<exists>c t. h_client h p = Inr c \<and> chosen (bp_disk p) 0 (v_tree (view s)) t \<and>
         rebooted p c (v_tree (view s)) t (view s')))"
proof -
  obtain report s1 where p: "h_probe h s = (report, s1)" by fastforce
  obtain target s2 where t: "h_select h (bp_disk p) 0 s1 = (target, s2)" by fastforce
  let ?s3 = "print_target h target s2"
  have v3: "view ?s3 = view s" "view s1 = view s"
    using keepsD [OF quiet(5) p] keepsD [OF quiet(6) t] by (simp_all add: print_target_view)
  show ?thesis
  proof (cases "h_client h p")
    case (Inl e)
    with assms p t v3 show ?thesis by (auto simp: enroll_def Let_def local_state_def)
  next
    case client: (Inr c)
    obtain r4 s4 where f: "h_submit_report h c report ?s3 = (r4, s4)" by fastforce
    have l4: "local_state s4 = local_state s"
      using keepsD [OF local_exchanges(1) f] v3 by (simp add: local_state_def)
    then have v4: "v_tree (view s4) = v_tree (view s)" "idle s s4" by (simp_all add: local_state_def)
    show ?thesis
    proof (cases r4)
      case (Inl e)
      with assms p t client f l4 v4 show ?thesis by (auto simp: enroll_def Let_def sbind_def smap_err_def)
    next
      case (Inr u)
      show ?thesis
      proof (cases dry)
        case True
        with assms p t client f Inr l4 show ?thesis
          by (auto simp: enroll_def Let_def sbind_def smap_err_def local_state_def)
      next
        case False
        with assms p t client f Inr have "provision h p c target (h_print h ReportAccepted s4) = (r, s')"
          by (simp add: enroll_def Let_def sbind_def smap_err_def)
        from provision_effect [OF this] v4 have
          "\<not> is_ok r \<and> (idle s s' \<or> v_reboots (view s') = Suc (v_reboots (view s)) \<and>
             (\<exists>t. target = Inr t \<and> rebooted p c (v_tree (view s)) t (view s')))" by simp
        with t v3 client False show ?thesis using select_chosen by fastforce
      qed
    qed
  qed
qed

lemma bring_up_effect:
  "bring_up h p s = (r, s') \<Longrightarrow> view s' = (view s)\<lparr>v_tree := loaded (bp_bootif p) (v_tree (view s))\<rparr>"
proof -
  assume b: "bring_up h p s = (r, s')"
  let ?m = "sbind (smap_err NetErr (h_network h p)) (\<lambda>net s.
      case h_resolv_conf h (nc_dns net) (h_print h (NetworkUp net) s) of (r, s) \<Rightarrow>
        (case r of Inl e \<Rightarrow> (Inr () :: run_error + unit, h_print h (ResolvConfFailed e) s) | Inr _ \<Rightarrow> (Inr (), s)))"
  have "keeps view ?m"
    by (intro keeps_sbind keeps_smap_err quiet, rule keeps_then [OF keeps_after [OF quiet(4) quiet_cmds(3)]],
      intro keeps_cases keeps_result_after keeps_result quiet_cmds)
  moreover have "?m (h_load_drivers h (bp_bootif p) s) = (r, s')"
    using b by (simp add: bring_up_def Let_def case_prod_beta sum.case_eq_if)
  ultimately have "view s' = view (h_load_drivers h (bp_bootif p) s)" by (rule keepsD)
  then show ?thesis by (simp add: drivers)
qed

lemma mount_and_lock_view: "keeps view (mount_and_lock h)"
proof -
  have "keeps view (mount_one (h_mount h) spec)" for spec
  proof (cases spec)
    case (fields src target fstype flags)
    have one: "mount_one (h_mount h) spec = (\<lambda>s. case h_mount h src target fstype flags s of (r, s) \<Rightarrow>
        (case r of Inl e \<Rightarrow> if e = EBUSY then Inr () else Inl (RunMount target e) | Inr _ \<Rightarrow> Inr (), s))"
      by (rule ext) (simp add: fields mount_one_def split: prod.splits sum.splits)
    show ?thesis unfolding one by (intro keeps_then quiet keeps_result)
  qed
  then show ?thesis unfolding mount_and_lock_def mount_pseudo_filesystems_def
    by (intro keeps_sbind keeps_sfor keeps_result_after quiet_cmds)
qed

lemma run_dry_effect: "run h True s = (r, s') \<Longrightarrow> local_state s' = local_state s"
  using enroll_effect [of True] keepsD [OF local_quiet(2)]
  by (auto simp: run_def sbind_def smap_err_def sreturn_def local_state_def split: prod.splits sum.splits)

lemma run_effect:
  assumes "run h False s = (r, s')"
  shows "\<not> is_ok r \<and> (idle s s' \<or> v_reboots (view s') = Suc (v_reboots (view s)) \<and> deployed (view s) (view s'))"
proof -
  obtain r1 s1 where m: "mount_and_lock h s = (r1, s1)" by fastforce
  have v1: "view s1 = view s" using keepsD [OF mount_and_lock_view m] .
  show ?thesis
  proof (cases r1)
    case (Inl e)
    with assms m v1 show ?thesis by (auto simp: run_def sbind_def)
  next
    case ok1: (Inr u)
    obtain r2 s2 where c: "h_cmdline h s1 = (r2, s2)" by fastforce
    have v2: "view s2 = view s" using keepsD [OF quiet(2) c] v1 by simp
    show ?thesis
    proof (cases r2)
      case (Inl e)
      with assms m ok1 c v2 show ?thesis by (auto simp: run_def sbind_def smap_err_def)
    next
      case ok2: (Inr p)
      obtain r3 s3 where b: "bring_up h p s2 = (r3, s3)" by fastforce
      have v3: "view s3 = (view s)\<lparr>v_tree := loaded (bp_bootif p) (v_tree (view s))\<rparr>"
        using bring_up_effect [OF b] v2 by simp
      show ?thesis
      proof (cases r3)
        case (Inl e)
        with assms m ok1 c ok2 b v3 show ?thesis by (auto simp: run_def sbind_def smap_err_def)
      next
        case (Inr u3)
        with assms m ok1 c ok2 b have "enroll h False p s3 = (r, s')"
          by (simp add: run_def sbind_def smap_err_def)
        from enroll_effect [OF this] v3 cmdline_told [OF c [unfolded ok2]] show ?thesis
          by (auto simp: deployed_def Let_def)
      qed
    qed
  qed
qed

lemmas run_explicit = run_effect [unfolded deployed_def rebooted_def Let_def]

end

end
