(* ===== verification/Machine.thy ===== *)
theory Machine
  imports Host_Laws
begin

text \<open>
  The modules put together: a host of \<open>src/run.rs\<close> whose operations are those of the modules,
  over one state of a machine. What is not under \<open>src/\<close> is one record of arguments. The host
  keeps the contract of \<open>Host_Laws\<close>, so its lemmas give what a whole run does to the machine.
\<close>

section \<open>Where things are\<close>

definition SYSFS_BLOCK :: "string list" where "SYSFS_BLOCK = [''sys'', ''block'']"
definition SYSFS_CLASS_BLOCK :: "string list" where "SYSFS_CLASS_BLOCK = [''sys'', ''class'', ''block'']"
definition PROC_MOUNTS :: "string list" where "PROC_MOUNTS = [''proc'', ''mounts'']"
definition PROC_SWAPS :: "string list" where "PROC_SWAPS = [''proc'', ''swaps'']"
definition SYSFS_NET :: "string list" where "SYSFS_NET = [''sys'', ''class'', ''net'']"
definition MODULES_ROOT :: "string list" where "MODULES_ROOT = [''lib'', ''modules'']"
definition EFI_SYSFS_PATH :: "string list" where "EFI_SYSFS_PATH = [''sys'', ''firmware'', ''efi'']"

text \<open>The tree at a path; below a path that does not resolve every access fails.\<close>

definition subtree :: "fsnode \<Rightarrow> string list \<Rightarrow> fsnode" where
  "subtree root ps = unwrap_or (Option.bind (lookup root ps) follow) NoAccess"

section \<open>The machine\<close>

text \<open>A disk: what \<open>stat\<close> answers, its contents, and the answers to writes and to \<open>fsync\<close>.\<close>

record disk_node =
  dn_meta :: "io_error + bool \<times> u64"
  dn_content :: bytes
  dn_answers :: "(io_error + nat) list"
  dn_sync :: "io_error + unit"

type_synonym disks = "string \<Rightarrow> io_error + disk_node"

text \<open>What was sent to the controller, with the certificates trusted, and its answer.\<close>

type_synonym 'cert exchange = "'cert list \<times> request \<times> (ureq_error + response)"

record 'cert machine =
  m_tree :: fsnode
  m_disks :: disks
  m_kernel :: kernel
  m_vars :: efivar_fs
  m_links :: nl_state
  m_log :: "'cert exchange list"
  m_pseudo :: "(string \<times> u64) list"
  m_console :: "console_line list"
  m_slept :: nat
  m_reboots :: nat

text \<open>
  The arguments: the kernel's answers and reactions (\<open>x_polls\<close> the tree at each settle poll
  and how much later it is than its sleeps of a tenth of a second asked for, \<open>x_rescan\<close> the tree after a partition table was re-read,
  \<open>x_filesystems\<close> what the partitions then hold, \<open>x_part_reads\<close> the reads of a partition's
  node), the DHCP sockets, the image server, the controller (\<open>x_http\<close>, by the number of the
  exchange), and the libraries.
\<close>

record ('r, 'h, 'cert) outside =
  x_cmdline :: "io_error + string"
  x_mount :: "string \<Rightarrow> errno + unit"
  x_open_module :: "string \<Rightarrow> io_error + 'h"
  x_finit :: "'h \<Rightarrow> errno + unit"
  x_polls :: "nat \<Rightarrow> fsnode \<times> nat"
  x_dhcp_call :: "open_call \<Rightarrow> errno option"
  x_dhcp_random :: "bytes option"
  x_dhcp_sock :: "string \<Rightarrow> dhcp_sock"
  x_etc :: "fs_write \<Rightarrow> io_error + unit"
  x_dmi :: "io_error + bytes"
  x_ifaddrs :: "(string \<times> ip_addr option) list option"
  x_canon :: canonicalizer
  x_major :: "u64 \<Rightarrow> u64"
  x_minor :: "u64 \<Rightarrow> u64"
  x_makedev :: "u64 \<Rightarrow> u64 \<Rightarrow> u64"
  x_open :: "bool \<Rightarrow> string \<Rightarrow> io_error option"
  x_read_fault :: "string \<Rightarrow> nat \<Rightarrow> io_error option"
  x_get :: "request \<Rightarrow> string + u16 \<times> 'r"
  x_body :: "'r reader"
  x_sha :: "bytes \<Rightarrow> bytes"
  x_blkrrpart :: "dev_file \<Rightarrow> errno + unit"
  x_rescan :: "disks \<Rightarrow> fsnode \<Rightarrow> fsnode"
  x_filesystems :: "disks \<Rightarrow> u64 \<Rightarrow> fs"
  x_part_reads :: "disks \<Rightarrow> string \<Rightarrow> io_error + (io_error + bytes) list"
  x_arch :: arch
  x_show_io :: "io_error \<Rightarrow> string"
  x_urandom :: "io_error + bytes"
  x_efivar_mount :: "errno + unit"
  x_base64 :: "string \<Rightarrow> bytes option"
  x_pem :: "bytes \<Rightarrow> (unit + 'cert) list"
  x_trustable :: "'cert \<Rightarrow> bool"
  x_report_json :: "inspection_report \<Rightarrow> bytes option"
  x_reason_json :: "string \<Rightarrow> bytes option"
  x_http :: "nat \<Rightarrow> 'cert list \<Rightarrow> request \<Rightarrow> ureq_error + response"
  x_reboot :: errno

section \<open>The kernel and its tree\<close>

definition m_mount :: "('r, 'h, 'cert) outside \<Rightarrow> 'cert machine pseudo_mount" where
  "m_mount x src target fstype flags m = (case x_mount x target of
       Inl e \<Rightarrow> (Inl e, m) | Inr _ \<Rightarrow> (Inr (), m\<lparr>m_pseudo := m_pseudo m @ [(target, flags)]\<rparr>))"

text \<open>The tree once the drivers are loaded, as the last settle poll saw it, and the sleep till then.\<close>

definition drivers_loaded :: "('r, 'h, 'cert) outside \<Rightarrow> string option \<Rightarrow> fsnode \<Rightarrow> fsnode \<times> nat" where
  "drivers_loaded x bootif tree =
     (let devices = (\<lambda>t. (subtree t SYSFS_BLOCK, subtree t SYSFS_NET)) in
      case load_drivers (subtree tree MODULES_ROOT) (x_open_module x) (x_finit x) bootif (devices tree)
          (\<lambda>i. case x_polls x i of (t, late) \<Rightarrow> (devices t, SETTLE_POLL * (i + 1) + late)) of
        Some (_, Some (_, _, i)) \<Rightarrow> (fst (x_polls x i), SETTLE_POLL * (i + 1))
      | _ \<Rightarrow> (tree, 0))"

definition with_drivers :: "('r, 'h, 'cert) outside \<Rightarrow> string option \<Rightarrow> fsnode \<Rightarrow> fsnode" where
  "with_drivers x bootif tree = fst (drivers_loaded x bootif tree)"

definition m_load_drivers :: "('r, 'h, 'cert) outside \<Rightarrow> string option \<Rightarrow> 'cert machine \<Rightarrow> 'cert machine" where
  "m_load_drivers x bootif m = m\<lparr>m_tree := with_drivers x bootif (m_tree m),
     m_slept := m_slept m + snd (drivers_loaded x bootif (m_tree m))\<rparr>"

text \<open>
  The sleep of the network's bring-up is its longest carrier wait: more than one is made only
  by the threads of the race, at the same time.
\<close>

definition longest_wait :: "nat list \<Rightarrow> nat" where
  "longest_wait ws = CARRIER_POLL * fold max ws 0"

definition m_network ::
  "('r, 'h, 'cert) outside \<Rightarrow> boot_params \<Rightarrow> 'cert machine \<Rightarrow> (net_error + net_config) \<times> 'cert machine" where
  "m_network x p m = (case bring_up_provisioning_network (subtree (m_tree m) SYSFS_NET)
       (\<lambda>iface mac. fst (acquire (x_dhcp_call x) (x_dhcp_random x) iface mac (x_dhcp_sock x iface)))
       (bp_bootif p) (bp_ip p) ((m_links m)\<lparr>nl_waits := []\<rparr>) of
     (r, links) \<Rightarrow> (r, m\<lparr>m_links := links, m_slept := m_slept m + longest_wait (nl_waits links)\<rparr>))"

definition m_probe :: "('r, 'h, 'cert) outside \<Rightarrow> 'cert machine \<Rightarrow> inspection_report \<times> 'cert machine" where
  "m_probe x m = (probe_collect (x_dmi x) (path_exists (m_tree m) EFI_SYSFS_PATH)
     (subtree (m_tree m) SYSFS_BLOCK) (subtree (m_tree m) SYSFS_NET) (x_ifaddrs x), m)"

definition select_on :: "('r, 'h, 'cert) outside \<Rightarrow> fsnode \<Rightarrow> string option \<Rightarrow> u64 \<Rightarrow> disk_error + target_disk" where
  "select_on x tree pin min_bytes = select_disk (x_canon x) (read_to_string tree PROC_MOUNTS)
     (read_to_string tree PROC_SWAPS) (subtree tree SYSFS_BLOCK) (subtree tree SYSFS_CLASS_BLOCK) pin min_bytes"

section \<open>The disks\<close>

text \<open>Opening a node, exclusively for writing or for reading.\<close>

definition open_disk :: "('r, 'h, 'cert) outside \<Rightarrow> bool \<Rightarrow> disks \<Rightarrow> string \<Rightarrow> io_error + disk_node" where
  "open_disk x excl ds path = (case x_open x excl path of Some e \<Rightarrow> Inl e | None \<Rightarrow> ds path)"

definition opened :: "disk_node \<Rightarrow> dev_file" where
  "opened n = \<lparr>f_meta = dn_meta n, f_written = [], f_answers = dn_answers n, f_sync = dn_sync n\<rparr>"

text \<open>The contents after the bytes of a file were written from the start.\<close>

definition overwritten :: "disk_node \<Rightarrow> dev_file \<Rightarrow> disk_node" where
  "overwritten n f = n\<lparr>dn_content := f_written f @ drop (length (f_written f)) (dn_content n),
     dn_answers := f_answers f\<rparr>"

definition m_write_image ::
  "('r, 'h, 'cert) outside \<Rightarrow> target_disk \<Rightarrow> string \<Rightarrow> string \<Rightarrow> u64 \<Rightarrow> 'cert machine \<Rightarrow>
     (deploy_error + u64) \<times> 'cert machine" where
  "m_write_image x t url dig cap m =
     (case write_image (\<lambda>p. map_sum id opened (open_disk x True (m_disks m) p)) (x_major x) (x_minor x)
         (x_get x) (x_sha x) (x_body x) t url dig cap of
        (r, None) \<Rightarrow> (r, m)
      | (r, Some f) \<Rightarrow> (r, m\<lparr>m_disks := (m_disks m)(dev_path t :=
          map_sum id (\<lambda>n. overwritten n f) (m_disks m (dev_path t)))\<rparr>))"

definition m_reread ::
  "('r, 'h, 'cert) outside \<Rightarrow> target_disk \<Rightarrow> 'cert machine \<Rightarrow> (deploy_error + unit) \<times> 'cert machine" where
  "m_reread x t m =
     (case reread_partition_table (\<lambda>p. map_sum id opened (open_disk x False (m_disks m) p))
         (x_major x) (x_minor x) (x_blkrrpart x) t of
        Inl e \<Rightarrow> (Inl e, m)
      | Inr _ \<Rightarrow> (Inr (), m\<lparr>m_tree := x_rescan x (m_disks m) (m_tree m),
          m_kernel := (m_kernel m)\<lparr>k_parts := x_filesystems x (m_disks m)\<rparr>\<rparr>))"

definition disk_reader :: "('r, 'h, 'cert) outside \<Rightarrow> string \<Rightarrow> disk_node \<Rightarrow> seek_reader" where
  "disk_reader x path n = \<lparr>r_data = dn_content n, r_fail = x_read_fault x path\<rparr>"

definition m_find_esp ::
  "('r, 'h, 'cert) outside \<Rightarrow> target_disk \<Rightarrow> 'cert machine \<Rightarrow> (esp_error + esp_partition) \<times> 'cert machine" where
  "m_find_esp x t m = (find_esp_partition
     (\<lambda>p. map_sum id (\<lambda>n. (opened n, disk_reader x p n)) (open_disk x False (m_disks m) p))
     (x_major x) (x_minor x) (subtree (m_tree m) SYSFS_BLOCK) t, m)"

definition m_other_disks ::
  "('r, 'h, 'cert) outside \<Rightarrow> target_disk \<Rightarrow> bytes \<Rightarrow> 'cert machine \<Rightarrow> string list \<times> 'cert machine" where
  "m_other_disks x t guid m = (other_disks_with_guid
     (\<lambda>p. map_sum id (disk_reader x p) (open_disk x False (m_disks m) p)) (subtree (m_tree m) SYSFS_BLOCK) t guid, m)"

definition find_oem_on ::
  "('r, 'h, 'cert) outside \<Rightarrow> disks \<Rightarrow> fsnode \<Rightarrow> target_disk \<Rightarrow> oem_error + oem_partition" where
  "find_oem_on x ds tree t = find_oem_partition (subtree tree SYSFS_BLOCK) (x_part_reads x ds) t"

section \<open>Partitions and boot variables\<close>

definition on_kernel ::
  "(kernel \<Rightarrow> 'a \<times> kernel) \<Rightarrow> 'cert machine \<Rightarrow> 'a \<times> 'cert machine" where
  "on_kernel f m = (case f (m_kernel m) of (r, k) \<Rightarrow> (r, m\<lparr>m_kernel := k\<rparr>))"

definition m_prepare_esp ::
  "('r, 'h, 'cert) outside \<Rightarrow> esp_partition \<Rightarrow> 'cert machine \<Rightarrow> (deploy_error + esp_prepared) \<times> 'cert machine" where
  "m_prepare_esp x esp = on_kernel (prepare_esp (x_arch x) (x_show_io x) (x_makedev x) (x_urandom x) esp)"

definition m_inject ::
  "('r, 'h, 'cert) outside \<Rightarrow> oem_partition \<Rightarrow> bytes \<Rightarrow> string \<Rightarrow> 'cert machine \<Rightarrow>
     (deploy_error + unit) \<times> 'cert machine" where
  "m_inject x oem data pid = on_kernel (inject_oem_config (x_makedev x) oem data pid)"

definition m_boot_entry ::
  "('r, 'h, 'cert) outside \<Rightarrow> esp_partition \<Rightarrow> 'cert machine \<Rightarrow> (efi_boot_error + boot_entry) \<times> 'cert machine" where
  "m_boot_entry x esp m = (case ensure_disk_boot_entry (x_efivar_mount x) (x_arch x) esp (m_vars m) of
     (r, vars) \<Rightarrow> (r, m\<lparr>m_vars := vars\<rparr>))"

section \<open>The controller\<close>

definition exchange :: "('r, 'h, 'cert) outside \<Rightarrow> ('cert, 'cert machine) http" where
  "exchange x roots rq m = (let answer = x_http x (length (m_log m)) roots rq in
     (answer, m\<lparr>m_log := m_log m @ [(roots, rq, answer)]\<rparr>))"

text \<open>A call of the client with its sleeps.\<close>

definition slept :: "('cert machine \<Rightarrow> 'a \<times> 'cert machine \<times> nat list) \<Rightarrow> 'cert machine \<Rightarrow> 'a \<times> 'cert machine" where
  "slept call m = (case call m of (r, m, sleeps) \<Rightarrow> (r, m\<lparr>m_slept := m_slept m + sum_list sleeps\<rparr>))"

definition machine_host :: "('r, 'h, 'cert) outside \<Rightarrow> ('cert machine, 'cert client) host" where
  "machine_host x = \<lparr>
     h_mount = m_mount x,
     h_lock_memory = (\<lambda>m. m),
     h_cmdline = (\<lambda>m. (from_proc_cmdline (x_cmdline x), m)),
     h_load_drivers = m_load_drivers x,
     h_network = m_network x,
     h_resolv_conf = (\<lambda>dns. sfor (write_resolv_conf dns) (\<lambda>w m. (x_etc x w, m))),
     h_probe = m_probe x,
     h_select = (\<lambda>pin n m. (select_on x (m_tree m) pin n, m)),
     h_client = client_new (x_base64 x) (x_pem x) (x_trustable x),
     h_submit_report = (\<lambda>c report. slept (submit_report (exchange x) (x_report_json x) c report)),
     h_fetch_bootstrap = (\<lambda>c. slept (fetch_bootstrap (exchange x) c)),
     h_sleep = (\<lambda>ms m. m\<lparr>m_slept := m_slept m + ms\<rparr>),
     h_write_image = m_write_image x,
     h_reread = m_reread x,
     h_efi_booted = (\<lambda>m. (path_exists (m_tree m) EFI_SYSFS_PATH, m)),
     h_find_esp = m_find_esp x,
     h_other_disks = m_other_disks x,
     h_prepare_esp = m_prepare_esp x,
     h_boot_entry = m_boot_entry x,
     h_find_oem = (\<lambda>t m. (find_oem_on x (m_disks m) (m_tree m) t, m)),
     h_inject = m_inject x,
     h_provisioned = (\<lambda>c. slept (provisioned (exchange x) c)),
     h_provision_failed = (\<lambda>c why. slept (provision_failed (exchange x) (x_reason_json x) c why)),
     h_reboot = (\<lambda>m. (reboot_now (x_reboot x), m\<lparr>m_reboots := Suc (m_reboots m)\<rparr>)),
     h_print = (\<lambda>l m. m\<lparr>m_console := m_console m @ [l]\<rparr>)\<rparr>"

section \<open>What the operations promise\<close>

definition machine_view :: "'cert machine \<Rightarrow> (fsnode, disks, u64 \<Rightarrow> fs, 'cert exchange list) view" where
  "machine_view m = \<lparr>v_tree = m_tree m, v_disks = m_disks m, v_parts = k_parts (m_kernel m),
     v_heard = m_log m, v_reboots = m_reboots m\<rparr>"

text \<open>The target holds an image of the digest: a prefix of its contents, within the bounds.\<close>

definition holds_image :: "('r, 'h, 'cert) outside \<Rightarrow> disks \<Rightarrow> target_disk \<Rightarrow> string \<Rightarrow> u64 \<Rightarrow> bool" where
  "holds_image x ds t dig cap \<longleftrightarrow> (\<exists>node rdev len. ds (dev_path t) = Inr node \<and>
     dn_meta node = Inr (True, rdev) \<and> dev_text (x_major x) (x_minor x) rdev = t_dev_number t \<and>
     len \<le> length (dn_content node) \<and> len \<le> unat cap \<and>
     (t_size_bytes t = 0 \<or> len \<le> unat (t_size_bytes t)) \<and>
     digest_display (Sha256Digest (x_sha x (take len (dn_content node)))) = dig)"

definition holds_config :: "('r, 'h, 'cert) outside \<Rightarrow> (u64 \<Rightarrow> fs) \<Rightarrow> oem_partition \<Rightarrow> bytes \<Rightarrow> string \<Rightarrow> bool" where
  "holds_config x parts oem data pid \<longleftrightarrow>
     (case parse_dev_number (x_makedev x) (oem_dev_number oem) of
        None \<Rightarrow> False
      | Some d \<Rightarrow> file_at (parts d) [''99_beskar7.yaml''] = Some (data, 0x180) \<and>
          file_at (parts d) [''beskar7'', ''provider-id''] = Some (as_bytes pid, 0x180))"

text \<open>In the log: a successful answer to the request, over the trusted certificates.\<close>

definition success_logged :: "'cert exchange list \<Rightarrow> 'cert client \<Rightarrow> request \<Rightarrow> response \<Rightarrow> bool" where
  "success_logged log c rq resp \<longleftrightarrow> (cl_roots c, rq, Inr resp) \<in> set log \<and>
     200 \<le> rs_status resp \<and> rs_status resp < 300"

definition data_received :: "'cert exchange list \<Rightarrow> 'cert client \<Rightarrow> bytes \<Rightarrow> bool" where
  "data_received log c data \<longleftrightarrow> (\<exists>resp. success_logged log c (get_bootstrap c) resp \<and>
     rs_body resp = data \<and> \<not> rs_broken resp \<and> length data \<le> 4194304)"

definition completion_accepted :: "'cert exchange list \<Rightarrow> 'cert client \<Rightarrow> bool" where
  "completion_accepted log c \<longleftrightarrow>
     (\<exists>resp. success_logged log c (post_json c (cl_provisioned_url c) PROVISIONED_BODY) resp)"

section \<open>Lemmas\<close>

text \<open>The calls of the client only add exchanges, and succeed by a successful one among them.\<close>

lemma retry_loop_log:
  "retry_loop n k e (attempts (exchange x) c rq verdict) m = (r, m', sl) \<Longrightarrow>
     \<exists>new. m' = m\<lparr>m_log := m_log m @ new\<rparr> \<and> list_all (\<lambda>(roots, q, _). roots = cl_roots c \<and> q = rq) new \<and>
       (\<forall>v. r = Inr v \<longrightarrow> (\<exists>res. (cl_roots c, rq, res) \<in> set new \<and> verdict res = Done v))"
proof (induction k arbitrary: n e m sl)
  case 0
  then show ?case by (intro exI [of _ "[]"]) auto
next
  case (Suc k)
  let ?res = "x_http x (length (m_log m)) (cl_roots c) rq"
  let ?m1 = "m\<lparr>m_log := m_log m @ [(cl_roots c, rq, ?res)]\<rparr>"
  have a: "attempts (exchange x) c rq verdict n m = (verdict ?res, ?m1)"
    by (simp add: attempts_def exchange_def Let_def)
  show ?case
  proof (cases "verdict ?res")
    case (Retry e')
    with a Suc.prems obtain sl' where
      "retry_loop (n + 1) k (Some e') (attempts (exchange x) c rq verdict) ?m1 = (r, m', sl')"
      by (auto split: prod.splits)
    from Suc.IH [OF this] obtain new where "m' = ?m1\<lparr>m_log := m_log ?m1 @ new\<rparr>"
      "list_all (\<lambda>(roots, q, _). roots = cl_roots c \<and> q = rq) new"
      "\<forall>v. r = Inr v \<longrightarrow> (\<exists>res. (cl_roots c, rq, res) \<in> set new \<and> verdict res = Done v)" by blast
    then show ?thesis by (intro exI [of _ "(cl_roots c, rq, ?res) # new"]) auto
  qed (use a Suc.prems in \<open>auto intro!: exI [of _ "[(cl_roots c, rq, ?res)]"]\<close>)
qed

lemma retries_logged:
  assumes "slept (run_with_retries k (attempts (exchange x) c rq verdict)) m = (r, m')"
  shows "\<exists>new z. m' = m\<lparr>m_log := m_log m @ new, m_slept := z\<rparr> \<and>
    list_all (\<lambda>(roots, q, _). roots = cl_roots c \<and> q = rq) new \<and>
    (\<forall>v. r = Inr v \<longrightarrow> (\<exists>res. (cl_roots c, rq, res) \<in> set new \<and> verdict res = Done v))"
proof -
  from assms obtain m1 sl where
    r: "retry_loop 0 k None (attempts (exchange x) c rq verdict) m = (r, m1, sl)"
    and m': "m' = m1\<lparr>m_slept := m_slept m1 + sum_list sl\<rparr>"
    by (auto simp: slept_def run_with_retries_def split: prod.splits)
  from retry_loop_log [OF r] obtain new where "m1 = m\<lparr>m_log := m_log m @ new\<rparr>"
    "list_all (\<lambda>(roots, q, _). roots = cl_roots c \<and> q = rq) new"
    "\<forall>v. r = Inr v \<longrightarrow> (\<exists>res. (cl_roots c, rq, res) \<in> set new \<and> verdict res = Done v)" by blast
  with m' show ?thesis by auto
qed

lemma slept_failure: "slept (\<lambda>m. (r, m, [])) m = (r, m)"
  by (simp add: slept_def)

lemma slept_retries:
  "\<exists>new z. snd (slept (run_with_retries k (attempts (exchange x) c rq verdict)) m) =
     m\<lparr>m_log := m_log m @ new, m_slept := z\<rparr>"
  using retries_logged [of k x c rq verdict m] by (metis prod.collapse)

lemma slept_nothing: "\<exists>new z. m = m\<lparr>m_log := m_log m @ new, m_slept := z\<rparr>"
  by (rule exI [of _ "[]"], rule exI [of _ "m_slept m"]) simp

lemma client_calls:
  "\<exists>new z. snd (slept (submit_report (exchange x) tj c report) m) = m\<lparr>m_log := m_log m @ new, m_slept := z\<rparr>"
  "\<exists>new z. snd (slept (fetch_bootstrap (exchange x) c) m) = m\<lparr>m_log := m_log m @ new, m_slept := z\<rparr>"
  "\<exists>new z. snd (slept (provisioned (exchange x) c) m) = m\<lparr>m_log := m_log m @ new, m_slept := z\<rparr>"
  "\<exists>new z. snd (slept (provision_failed (exchange x) rj c why) m) = m\<lparr>m_log := m_log m @ new, m_slept := z\<rparr>"
proof -
  show "\<exists>new z. snd (slept (submit_report (exchange x) tj c report) m) = m\<lparr>m_log := m_log m @ new, m_slept := z\<rparr>"
    using slept_retries slept_nothing by (cases "tj report") (simp_all add: submit_report_def [abs_def] slept_failure)
  show "\<exists>new z. snd (slept (fetch_bootstrap (exchange x) c) m) = m\<lparr>m_log := m_log m @ new, m_slept := z\<rparr>"
    using slept_retries by (simp add: fetch_bootstrap_def [abs_def])
  show "\<exists>new z. snd (slept (provisioned (exchange x) c) m) = m\<lparr>m_log := m_log m @ new, m_slept := z\<rparr>"
    using slept_retries by (simp add: provisioned_def [abs_def])
  show "\<exists>new z. snd (slept (provision_failed (exchange x) rj c why) m) = m\<lparr>m_log := m_log m @ new, m_slept := z\<rparr>"
    using slept_retries slept_nothing by (cases "rj why") (simp_all add: provision_failed_def [abs_def] slept_failure)
qed

lemma fetch_received:
  assumes "slept (fetch_bootstrap (exchange x) c) m = (Inr data, m')"
  shows "data_received (m_log m') c data"
proof -
  from retries_logged [OF assms [unfolded fetch_bootstrap_def]] obtain new z res where
    m': "m' = m\<lparr>m_log := m_log m @ new, m_slept := z\<rparr>"
    and res: "(cl_roots c, get_bootstrap c, res) \<in> set new" "bootstrap_attempt res = Done data" by auto
  from res(2) obtain resp where "res = Inr resp" "200 \<le> rs_status resp" "rs_status resp < 300"
      "read_capped resp MAX_BOOTSTRAP_BYTES = Inr data"
    by (cases res) (auto simp: bootstrap_attempt_def classify_status_def into_attempt_def Let_def
        split: sum.splits if_splits client_error.splits)
  moreover from this(4) have "rs_body resp = data" "\<not> rs_broken resp" "length data \<le> 4194304"
    by (auto simp: read_capped_def Let_def MAX_BOOTSTRAP_BYTES_def split: if_splits)
  ultimately show ?thesis using res(1) m' by (auto simp: data_received_def success_logged_def)
qed

lemma provisioned_accepted:
  assumes "slept (provisioned (exchange x) c) m = (Inr u, m')"
  shows "completion_accepted (m_log m') c"
proof -
  from retries_logged [OF assms [unfolded provisioned_def]] obtain new z res where
    m': "m' = m\<lparr>m_log := m_log m @ new, m_slept := z\<rparr>"
    and res: "(cl_roots c, post_json c (cl_provisioned_url c) PROVISIONED_BODY, res) \<in> set new"
      "accept_attempt res = Done u" by auto
  from res(2) obtain resp where "res = Inr resp" "200 \<le> rs_status resp" "rs_status resp < 300"
    by (cases res) (auto simp: accept_attempt_def classify_status_def into_attempt_def Let_def
        split: sum.splits if_splits)
  with res(1) m' show ?thesis by (auto simp: completion_accepted_def success_logged_def)
qed

lemma data_received_mono: "data_received log c data \<Longrightarrow> data_received (log @ new) c data"
  by (auto simp: data_received_def success_logged_def)

lemma write_image_Inr:
  assumes "write_image open_excl major minor get sha rd t url dig cap = (Inr n, fo)"
  shows "\<exists>f f' rdev body. open_excl (dev_path t) = Inr f \<and> fo = Some f' \<and> f_meta f = Inr (True, rdev) \<and>
    dev_text major minor rdev = t_dev_number t \<and> f_written f' = f_written f @ body \<and>
    length body \<le> unat (effective_max_bytes cap (t_size_bytes t)) \<and>
    digest_display (Sha256Digest (sha body)) = dig"
proof -
  from assms obtain d f f' where
    d: "digest_parse dig = Inr d" and f: "open_excl (dev_path t) = Inr f"
    and v: "verify_node_identity major minor f (dev_path t) (t_dev_number t) = Inr ()"
    and w: "fetch_to get sha rd write_all file_flush url d (effective_max_bytes cap (t_size_bytes t)) f = (Inr n, f')"
      "fo = Some f'"
    by (auto simp: write_image_def Let_def split: sum.splits prod.splits)
  with fetch_sound [OF w(1)] digest_display_inj_parse [OF d] show ?thesis
    by (auto simp: verify_node_identity_Inr)
qed

lemma m_write_image_holds:
  assumes "m_write_image x t url dig cap m = (Inr n, m')"
  shows "holds_image x (m_disks m') t dig cap"
proof -
  let ?open = "\<lambda>p. map_sum id opened (open_disk x True (m_disks m) p)"
  obtain fo where w: "write_image ?open (x_major x) (x_minor x) (x_get x) (x_sha x) (x_body x) t url dig cap = (Inr n, fo)"
    using assms by (auto simp: m_write_image_def split: prod.splits option.splits)
  from write_image_Inr [OF this] obtain f f' rdev body where
    f: "?open (dev_path t) = Inr f" "fo = Some f'" "f_meta f = Inr (True, rdev)"
      "dev_text (x_major x) (x_minor x) rdev = t_dev_number t" "f_written f' = f_written f @ body"
      "length body \<le> unat (effective_max_bytes cap (t_size_bytes t))"
      "digest_display (Sha256Digest (x_sha x body)) = dig" by blast
  from f(1) obtain node where n: "m_disks m (dev_path t) = Inr node" "f = opened node"
    by (cases "open_disk x True (m_disks m) (dev_path t)") (auto simp: open_disk_def split: option.splits)
  with f(3,5) have b: "f_written f' = body" "dn_meta node = Inr (True, rdev)" by (simp_all add: opened_def)
  have "m_disks m' (dev_path t) = Inr (overwritten node f')"
    using assms w f(2) n by (simp add: m_write_image_def) (auto split: prod.splits)
  moreover have "length body \<le> unat cap" "t_size_bytes t = 0 \<or> length body \<le> unat (t_size_bytes t)"
    using f(6) by (auto simp: effective_max_bytes_def min_def word_le_nat_alt split: if_splits)
  ultimately show ?thesis
    unfolding holds_image_def using f(4,7) b
    by (intro exI [of _ "overwritten node f'"] exI [of _ rdev] exI [of _ "length body"]) (simp add: overwritten_def)
qed

lemma m_inject_holds:
  assumes "m_inject x oem data pid m = (Inr u, m')"
  shows "holds_config x (k_parts (m_kernel m')) oem data pid"
proof -
  from assms obtain k' where i: "inject_oem_config (x_makedev x) oem data pid (m_kernel m) = (Inr u, k')"
    and m': "m' = m\<lparr>m_kernel := k'\<rparr>"
    by (auto simp: m_inject_def on_kernel_def split: prod.splits)
  then obtain d where d: "parse_dev_number (x_makedev x) (oem_dev_number oem) = Some d"
    by (cases "parse_dev_number (x_makedev x) (oem_dev_number oem)")
      (auto simp: inject_oem_config_def with_private_mount_bad)
  let ?work = "inject_files data pid []"
  have "mount_effect OEM_MOUNT d ?work (m_kernel m) (Inr u) k'"
    using with_private_mount_effect [OF i [unfolded inject_oem_config_def] d] by simp
  then have k: "k_parts k' d = snd (?work (k_parts (m_kernel m) d))" "fst (?work (k_parts (m_kernel m) d)) = Inr u"
    by (auto simp: mount_effect_def split: if_splits)
  then have "?work (k_parts (m_kernel m) d) = (Inr u, k_parts k' d)" by (simp add: prod_eq_iff)
  from inject_files_effect [OF this] d m' show ?thesis
    by (simp add: holds_config_def OEM_CONFIG_FILENAME_def OEM_PROVIDER_ID_SUBDIR_def
        OEM_PROVIDER_ID_FILENAME_def PRIVATE_MODE_def)
qed

text \<open>The operations outside the contract's interest.\<close>

lemma sfor_unchanged: "snd (sfor xs (\<lambda>y m. (f y, m)) m) = m"
  by (induction xs) (simp_all add: sbind_def split: sum.splits)

lemma m_write_image_view:
  "\<exists>d. machine_view (snd (m_write_image x t url dig cap m)) = (machine_view m)\<lparr>v_disks := d\<rparr>"
  unfolding m_write_image_def machine_view_def
  by (auto split: prod.splits option.splits intro: exI [of _ "m_disks m"])

lemma m_kernel_view: "\<exists>p. machine_view (snd (on_kernel f m)) = (machine_view m)\<lparr>v_parts := p\<rparr>"
  by (auto simp: on_kernel_def machine_view_def split: prod.splits)

lemma m_reread_view:
  "\<exists>tr p. machine_view (snd (m_reread x t m)) = (machine_view m)\<lparr>v_tree := tr, v_parts := p\<rparr>"
  by (auto simp: m_reread_def machine_view_def split: sum.splits
      intro!: exI [of _ "m_tree m"] exI [of _ "k_parts (m_kernel m)"])

lemma logged_view:
  "\<exists>new z. m' = m\<lparr>m_log := m_log m @ new, m_slept := z\<rparr> \<Longrightarrow> \<exists>n. machine_view m' = (machine_view m)\<lparr>v_heard := n\<rparr>"
  by (auto simp: machine_view_def)

lemma machine_quiet:
  "keeps machine_view (h_mount (machine_host x) src target fstype flags)"
  "keeps machine_view (h_cmdline (machine_host x))" "keeps machine_view (h_network (machine_host x) p)"
  "keeps machine_view (h_resolv_conf (machine_host x) dns)" "keeps machine_view (h_probe (machine_host x))"
  "keeps machine_view (h_select (machine_host x) pin n)" "keeps machine_view (h_efi_booted (machine_host x))"
  "keeps machine_view (h_find_esp (machine_host x) t)" "keeps machine_view (h_other_disks (machine_host x) t g)"
  "keeps machine_view (h_boot_entry (machine_host x) esp)" "keeps machine_view (h_find_oem (machine_host x) t)"
  by (simp_all add: machine_host_def keeps_def machine_view_def m_mount_def m_network_def m_probe_def m_find_esp_def
      m_other_disks_def m_boot_entry_def sfor_unchanged split: prod.splits sum.splits)

lemma machine_quiet_cmds:
  "keeps_cmd machine_view (h_lock_memory (machine_host x))" "keeps_cmd machine_view (h_sleep (machine_host x) ms)"
  "keeps_cmd machine_view (h_print (machine_host x) l)"
  by (simp_all add: machine_host_def keeps_cmd_def machine_view_def)

lemma machine_changes:
  "machine_view (h_load_drivers (machine_host x) b m) =
     (machine_view m)\<lparr>v_tree := with_drivers x b (v_tree (machine_view m))\<rparr>"
  "\<exists>d. machine_view (snd (h_write_image (machine_host x) t url dig n m)) = (machine_view m)\<lparr>v_disks := d\<rparr>"
  "\<exists>p. machine_view (snd (h_prepare_esp (machine_host x) esp m)) = (machine_view m)\<lparr>v_parts := p\<rparr>"
  "\<exists>p. machine_view (snd (h_inject (machine_host x) oem data pid m)) = (machine_view m)\<lparr>v_parts := p\<rparr>"
  "\<exists>n. machine_view (snd (h_submit_report (machine_host x) c report m)) = (machine_view m)\<lparr>v_heard := n\<rparr>"
  "\<exists>n. machine_view (snd (h_fetch_bootstrap (machine_host x) c m)) = (machine_view m)\<lparr>v_heard := n\<rparr>"
  "\<exists>n. machine_view (snd (h_provisioned (machine_host x) c m)) = (machine_view m)\<lparr>v_heard := n\<rparr>"
  "\<exists>n. machine_view (snd (h_provision_failed (machine_host x) c why m)) = (machine_view m)\<lparr>v_heard := n\<rparr>"
  "\<exists>tr p. machine_view (snd (h_reread (machine_host x) t m)) = (machine_view m)\<lparr>v_tree := tr, v_parts := p\<rparr>"
  "machine_view (snd (h_reboot (machine_host x) m)) =
     (machine_view m)\<lparr>v_reboots := Suc (v_reboots (machine_view m))\<rparr>"
  using m_write_image_view m_reread_view m_kernel_view client_calls [THEN logged_view]
  by (simp_all add: machine_host_def m_prepare_esp_def m_inject_def) (simp_all add: machine_view_def m_load_drivers_def)

lemma machine_promises:
  "h_write_image (machine_host x) t url dig n m = (Inr k, m') \<Longrightarrow> holds_image x (v_disks (machine_view m')) t dig n"
  "h_reread (machine_host x) t m = (Inr u, m') \<Longrightarrow>
     v_tree (machine_view m') = x_rescan x (v_disks (machine_view m)) (v_tree (machine_view m))"
  "h_inject (machine_host x) oem data pid m = (Inr u, m') \<Longrightarrow> holds_config x (v_parts (machine_view m')) oem data pid"
  "h_fetch_bootstrap (machine_host x) c m = (Inr data, m') \<Longrightarrow> data_received (v_heard (machine_view m')) c data"
  "h_provisioned (machine_host x) c m = (Inr u, m') \<Longrightarrow> completion_accepted (v_heard (machine_view m')) c"
  "data_received (v_heard (machine_view m)) c data \<Longrightarrow>
     data_received (v_heard (machine_view (snd (h_provisioned (machine_host x) c' m)))) c data"
  using client_calls(3) [of x c' m] data_received_mono
  by (auto simp: machine_host_def machine_view_def m_write_image_holds m_inject_holds fetch_received
      provisioned_accepted m_reread_def split: sum.splits)

interpretation machine: deploying_host "machine_host x" machine_view
  "\<lambda>p. from_proc_cmdline (x_cmdline x) = Inr p" "with_drivers x" "x_rescan x"
  "\<lambda>pin n tree t. select_on x tree pin n = Inr t" "\<lambda>ds tree t oem. find_oem_on x ds tree t = Inr oem"
  "holds_image x" "holds_config x" data_received completion_accepted
  for x :: "('r, 'h, 'cert) outside"
  by (unfold_locales; (rule machine_quiet machine_quiet_cmds machine_changes | erule machine_promises
      | simp add: machine_host_def machine_view_def))

section \<open>A dry run\<close>

text \<open>What a dry run may not change, and the exchanges it adds.\<close>

definition hands_off :: "'cert machine \<Rightarrow> fsnode \<times> disks \<times> kernel \<times> efivar_fs \<times> nl_state \<times> (string \<times> u64) list \<times> nat" where
  "hands_off m = (m_tree m, m_disks m, m_kernel m, m_vars m, m_links m, m_pseudo m, m_reboots m)"

lemma hands_off_print [simp]: "hands_off (h_print (machine_host x) l m) = hands_off m"
  by (simp add: hands_off_def machine_host_def)

lemma hands_off_print_target [simp]: "hands_off (print_target (machine_host x) t m) = hands_off m"
  by (cases t) (simp_all add: print_target_def)

lemma dry_enroll_hands_off:
  assumes "enroll (machine_host x) True p m = (r, m')"
  shows "hands_off m' = hands_off m"
proof -
  let ?h = "machine_host x"
  obtain report where report: "h_probe ?h m = (report, m)" by (simp add: machine_host_def m_probe_def)
  obtain target where t: "h_select ?h (bp_disk p) 0 m = (target, m)" by (simp add: machine_host_def)
  let ?m = "print_target ?h target m"
  show ?thesis
  proof (cases "h_client ?h p")
    case (Inl e)
    with assms report t show ?thesis by (auto simp: enroll_def Let_def)
  next
    case (Inr c)
    obtain r1 m1 where sub: "h_submit_report ?h c report ?m = (r1, m1)" by fastforce
    have "hands_off m1 = hands_off ?m"
      using client_calls(1) [of x "x_report_json x" c report ?m] sub
      by (auto simp: machine_host_def hands_off_def)
    with assms report t Inr sub show ?thesis
      by (auto simp: enroll_def Let_def sbind_def smap_err_def split: sum.splits)
  qed
qed

section \<open>Properties\<close>

text \<open>
  C1: a reboot means a deploy carried through. A full run never returns a success. It asks for
  a reboot at most once, and then the selected disk, none of those behind the mounted file
  systems and swap at that time, is the identified block device whose contents begin with an
  image of the requested digest, within the build's limit and the disk's size; the
  \<open>COS_OEM\<close> partition found on that disk after its table was re-read holds exactly the
  bootstrap data and the provider id, readable by root alone; the bootstrap data is the complete
  body of a successful answer of this run, over the certificates of the command line; and the
  controller has accepted the completion. (The file systems of the partitions are apart from
  the bytes the image write put on the disk.)
\<close>

theorem reboot_means_deployed:
  "case run (machine_host x) False (m\<lparr>m_log := [], m_reboots := 0\<rparr>) of (r, m') \<Rightarrow>
     \<not> is_ok r \<and> (m_reboots m' = 0 \<or> m_reboots m' = 1 \<and>
      (\<exists>p c t data oem. from_proc_cmdline (x_cmdline x) = Inr p \<and>
         client_new (x_base64 x) (x_pem x) (x_trustable x) p = Inr c \<and>
         (let tree = with_drivers x (bp_bootif p) (m_tree m);
              tree' = x_rescan x (m_disks m') tree
          in select_on x tree (bp_disk p) 0 = Inr t \<and>
            t_kname t \<notin> ramdisk_backing_knames (x_canon x) (read_to_string tree PROC_MOUNTS)
              (read_to_string tree PROC_SWAPS) (subtree tree SYSFS_BLOCK) \<and>
            find_oem_on x (m_disks m') tree' t = Inr oem) \<and>
         holds_image x (m_disks m') t (bp_target_digest p) DEFAULT_MAX_IMAGE_BYTES \<and>
         holds_config x (k_parts (m_kernel m')) oem data (bp_provider_id p) \<and>
         data_received (m_log m') c data \<and> completion_accepted (m_log m') c))"
proof -
  let ?m = "m\<lparr>m_log := [], m_reboots := 0\<rparr>"
  obtain r m' where run: "run (machine_host x) False ?m = (r, m')" by fastforce
  note eff = machine.run_explicit [OF run]
  show ?thesis
  proof (cases "m_reboots m' = 0")
    case True
    with eff run show ?thesis by simp
  next
    case False
    with eff obtain p c t data oem where one: "m_reboots m' = 1" and p: "from_proc_cmdline (x_cmdline x) = Inr p"
        "h_client (machine_host x) p = Inr c"
        "select_on x (with_drivers x (bp_bootif p) (m_tree m)) (bp_disk p) 0 = Inr t"
      and q: "data_received (m_log m') c data"
        "holds_image x (m_disks m') t (bp_target_digest p) DEFAULT_MAX_IMAGE_BYTES"
        "find_oem_on x (m_disks m') (x_rescan x (m_disks m') (with_drivers x (bp_bootif p) (m_tree m))) t = Inr oem"
        "holds_config x (k_parts (m_kernel m')) oem data (bp_provider_id p)" "completion_accepted (m_log m') c"
      unfolding machine_view_def by auto
    have "client_new (x_base64 x) (x_pem x) (x_trustable x) p = Inr c" using p(2) by (simp add: machine_host_def)
    with p(1,3) q one eff run select_disk_ramdisk [OF p(3) [unfolded select_on_def]] show ?thesis
      by (simp add: Let_def) blast
  qed
qed

text \<open>
  C8: a dry run keeps its hands off the machine: whatever the answers, it mounts nothing,
  configures no link, loads no driver, writes no disk, partition or boot variable and does not
  reboot; all it adds are exchanges with the controller, console lines and sleeps.
\<close>

theorem dry_run_hands_off:
  "case run (machine_host x) True m of (r, m') \<Rightarrow>
     m_tree m' = m_tree m \<and> m_disks m' = m_disks m \<and> m_kernel m' = m_kernel m \<and> m_vars m' = m_vars m \<and>
     m_links m' = m_links m \<and> m_pseudo m' = m_pseudo m \<and> m_reboots m' = m_reboots m"
proof -
  obtain r m' where run: "run (machine_host x) True m = (r, m')" by fastforce
  have "h_cmdline (machine_host x) m = (from_proc_cmdline (x_cmdline x), m)" by (simp add: machine_host_def)
  with run have "hands_off m' = hands_off m"
    using dry_enroll_hands_off
    by (cases "from_proc_cmdline (x_cmdline x)") (auto simp: run_def sbind_def smap_err_def sreturn_def)
  with run show ?thesis by (simp add: hands_off_def)
qed

end
