(* ===== verification/Requests.thy ===== *)
theory Requests
  imports Machine
begin

text \<open>
  What a run may send: an invariant of the log of exchanges, kept by every step of a run of
  \<open>src/run.rs\<close> on the machine.
\<close>

section \<open>Invariants of operations\<close>

definition stable :: "('s \<Rightarrow> bool) \<Rightarrow> ('s \<Rightarrow> 'r \<times> 's) \<Rightarrow> bool" where
  "stable I m \<longleftrightarrow> (\<forall>s. I s \<longrightarrow> I (snd (m s)))"

lemma stableI: "(\<And>s. I s \<Longrightarrow> I (snd (m s))) \<Longrightarrow> stable I m"
  by (simp add: stable_def)

lemma stableD: "stable I m \<Longrightarrow> I s \<Longrightarrow> m s = (r, s') \<Longrightarrow> I s'"
  unfolding stable_def by (metis snd_conv)

lemma stable_result: "stable I (\<lambda>s. (r, s))" "stable I (sreturn a)"
  by (simp_all add: stable_def sreturn_def)

lemma stable_then:
  "stable I m \<Longrightarrow> (\<And>r s s1. m s = (r, s1) \<Longrightarrow> stable I (f r)) \<Longrightarrow> stable I (\<lambda>s. case m s of (r, s) \<Rightarrow> f r s)"
  by (rule stableI) (auto simp: stable_def case_prod_beta, metis prod.collapse)

lemma stable_cases:
  "(\<And>e. r = Inl e \<Longrightarrow> stable I (f e)) \<Longrightarrow> (\<And>a. r = Inr a \<Longrightarrow> stable I (g a)) \<Longrightarrow>
     stable I (\<lambda>s. case r of Inl e \<Rightarrow> f e s | Inr a \<Rightarrow> g a s)"
  by (cases r) simp_all

lemma stable_sbind:
  "stable I m \<Longrightarrow> (\<And>a s s1. m s = (Inr a, s1) \<Longrightarrow> stable I (f a)) \<Longrightarrow> stable I (sbind m f)"
  unfolding sbind_then by (rule stable_then) (auto intro!: stable_cases stable_result)

lemma stable_smap_err: "stable I m \<Longrightarrow> stable I (smap_err g m)"
  by (simp add: stable_def smap_err_def case_prod_beta)

lemma stable_after: "stable I m \<Longrightarrow> (\<And>s. I s \<Longrightarrow> I (c s)) \<Longrightarrow> stable I (\<lambda>s. m (c s))"
  by (simp add: stable_def)

lemma stable_keeps: "keeps v m \<Longrightarrow> stable (\<lambda>s. P (v s)) m"
  by (simp add: stable_def keeps_def)

section \<open>The requests\<close>

text \<open>
  The requests of a run: to the four endpoints of the command line, with its token, over its
  certificates, and with a report of the probe, the fixed completion, a fixed reason or
  nothing as the body.
\<close>

definition run_client :: "('r, 'h, 'cert) outside \<Rightarrow> 'cert client option" where
  "run_client x = Option.bind (result_ok (from_proc_cmdline (x_cmdline x)))
     (\<lambda>p. result_ok (client_new (x_base64 x) (x_pem x) (x_trustable x) p))"

definition allowed_request :: "('r, 'h, 'cert) outside \<Rightarrow> 'cert client \<Rightarrow> request \<Rightarrow> bool" where
  "allowed_request x c rq \<longleftrightarrow> rq = get_bootstrap c \<or>
     rq = post_json c (cl_provisioned_url c) PROVISIONED_BODY \<or>
     (\<exists>why body. why \<in> set REASONS \<and> x_reason_json x why = Some body \<and>
        rq = post_json c (cl_provision_failed_url c) body) \<or>
     (\<exists>m body. x_report_json x (fst (m_probe x m)) = Some body \<and>
        rq = post_json c (cl_inspection_url c) body)"

lemma allowed_requestI:
  "allowed_request x c (get_bootstrap c)"
  "allowed_request x c (post_json c (cl_provisioned_url c) PROVISIONED_BODY)"
  "why \<in> set REASONS \<Longrightarrow> x_reason_json x why = Some body \<Longrightarrow>
     allowed_request x c (post_json c (cl_provision_failed_url c) body)"
  "x_report_json x (fst (m_probe x m)) = Some body \<Longrightarrow>
     allowed_request x c (post_json c (cl_inspection_url c) body)"
  unfolding allowed_request_def by blast+

definition allowed_exchange :: "('r, 'h, 'cert) outside \<Rightarrow> 'cert exchange \<Rightarrow> bool" where
  "allowed_exchange x ex = (case ex of (roots, rq, _) \<Rightarrow> (case run_client x of
     None \<Rightarrow> False | Some c \<Rightarrow> roots = cl_roots c \<and> allowed_request x c rq))"

definition clean_log :: "('r, 'h, 'cert) outside \<Rightarrow> 'cert machine \<Rightarrow> bool" where
  "clean_log x m \<longleftrightarrow> list_all (allowed_exchange x) (m_log m)"

lemma clean_log_view: "clean_log x m \<longleftrightarrow> list_all (allowed_exchange x) (v_heard (machine_view m))"
  by (simp add: clean_log_def machine_view_def)

lemma stable_quiet: "keeps machine_view m \<Longrightarrow> stable (clean_log x) m"
  unfolding clean_log_view [abs_def] by (rule stable_keeps)

lemma clean_print [simp]: "clean_log x (h_print (machine_host y) l m) = clean_log x m"
  by (simp add: clean_log_def machine_host_def)

lemma clean_print_target [simp]: "clean_log x (print_target (machine_host y) t m) = clean_log x m"
  by (cases t) (simp_all add: print_target_def)

lemma retries_stable:
  assumes "run_client x = Some c" "allowed_request x c rq"
  shows "stable (clean_log x) (slept (run_with_retries k (attempts (exchange x) c rq verdict)))"
proof (rule stableI)
  fix m assume "clean_log x m"
  moreover obtain r m' where r: "slept (run_with_retries k (attempts (exchange x) c rq verdict)) m = (r, m')" by fastforce
  from retries_logged [OF r] obtain new z where "m' = m\<lparr>m_log := m_log m @ new, m_slept := z\<rparr>"
    "list_all (\<lambda>(roots, q, _). roots = cl_roots c \<and> q = rq) new" by blast
  ultimately show "clean_log x (snd (slept (run_with_retries k (attempts (exchange x) c rq verdict)) m))"
    using r assms by (auto simp: clean_log_def allowed_exchange_def list_all_iff)
qed

lemma client_calls_stable:
  assumes "run_client x = Some c"
  shows "stable (clean_log x) (h_fetch_bootstrap (machine_host x) c)"
    "stable (clean_log x) (h_provisioned (machine_host x) c)"
    "why \<in> set REASONS \<Longrightarrow> stable (clean_log x) (h_provision_failed (machine_host x) c why)"
    "stable (clean_log x) (h_submit_report (machine_host x) c (fst (m_probe x m)))"
proof -
  note call = retries_stable [OF assms]
  have none: "slept (\<lambda>m. (r, m, [])) = (\<lambda>m. (r, m))" for r :: "client_error + unit"
    by (rule ext) (simp add: slept_def)
  show "stable (clean_log x) (h_fetch_bootstrap (machine_host x) c)"
    unfolding machine_host_def by (simp add: fetch_bootstrap_def [abs_def] call allowed_requestI)
  show "stable (clean_log x) (h_provisioned (machine_host x) c)"
    unfolding machine_host_def by (simp add: provisioned_def [abs_def] call allowed_requestI)
  show "stable (clean_log x) (h_provision_failed (machine_host x) c why)" if "why \<in> set REASONS"
    using that unfolding machine_host_def
    by (cases "x_reason_json x why")
      (auto simp: provision_failed_def [abs_def] none stable_result intro!: call allowed_requestI)
  show "stable (clean_log x) (h_submit_report (machine_host x) c (fst (m_probe x m)))"
    unfolding machine_host_def
    by (cases "x_report_json x (fst (m_probe x m))")
      (auto simp: submit_report_def [abs_def] none stable_result intro!: call allowed_requestI)
qed

section \<open>The run\<close>

lemma stable_log_kept: "(\<And>m. m_log (snd (f m)) = m_log m) \<Longrightarrow> stable (clean_log x) f"
  by (simp add: stable_def clean_log_def)

lemma machine_steps_stable:
  "stable (clean_log x) (h_write_image (machine_host y) t url dig n)"
  "stable (clean_log x) (h_reread (machine_host y) t)"
  "stable (clean_log x) (h_prepare_esp (machine_host y) esp)"
  "stable (clean_log x) (h_inject (machine_host y) oem data pid)"
  "stable (clean_log x) (h_reboot (machine_host y))"
  by (rule stable_log_kept;
      simp add: machine_host_def m_write_image_def m_reread_def m_prepare_esp_def m_inject_def on_kernel_def
        split: prod.splits sum.splits option.splits)+

lemma report_failure_stable:
  assumes "run_client x = Some c"
  shows "stable (clean_log x) (report_provision_failure e (h_provision_failed (machine_host x) c))"
  using client_calls_stable(3) [OF assms reason_fixed [of e]]
  by (simp add: stable_def report_provision_failure_def signore_def)

lemma run_deploy_steps_stable: "stable (clean_log x) (run_deploy_steps (machine_host x) t p data)"
proof -
  have esp: "stable (clean_log x) (esp_step (machine_host x) t)"
    using machine.esp_step_off_parts [of x t]
    by (auto simp: stable_def keeps_def machine.off_parts_def clean_log_view)
  show ?thesis unfolding run_deploy_steps_def
    by (intro stable_sbind stable_smap_err esp machine_steps_stable stable_quiet machine_quiet)
qed

lemma deploy_and_confirm_stable:
  assumes "run_client x = Some c"
  shows "stable (clean_log x) (deploy_and_confirm (machine_host x) p c t data)"
proof -
  let ?h = "machine_host x"
  have fail: "stable (clean_log x) (\<lambda>s. case report_provision_failure e (h_provision_failed ?h c) s of (e, s) \<Rightarrow> (Inl e :: run_error + unit, s))" for e
    by (rule stable_then [OF report_failure_stable [OF assms] stable_result(1)])
  have reboot: "stable (clean_log x) (\<lambda>s. case h_reboot ?h (h_print ?h RebootingLine (h_print ?h ProvisionedAccepted s)) of
      (e, s) \<Rightarrow> (Inl (DeployErr e), s))"
    by (rule stable_then [OF stable_after [OF machine_steps_stable(5)] stable_result(1)]) simp
  show ?thesis
    unfolding deploy_and_confirm_def [abs_def] sum_cases_pair
    by (rule stable_then [OF stable_after [OF run_deploy_steps_stable]], simp, rule stable_cases,
      rule fail, rule stable_sbind [OF stable_smap_err [OF client_calls_stable(2) [OF assms]] reboot])
qed

lemma poll_loop_stable:
  assumes "run_client x = Some c"
  shows "stable (clean_log x) (poll_loop k (h_sleep (machine_host x)) (h_fetch_bootstrap (machine_host x) c))"
proof (induction k)
  case 0
  show ?case by (simp add: stable_def)
next
  case (Suc k)
  show ?case
  proof (rule stableI)
    fix m assume m: "clean_log x m"
    obtain r m1 where f: "h_fetch_bootstrap (machine_host x) c m = (r, m1)" by fastforce
    have "clean_log x m1" using stableD [OF client_calls_stable(1) [OF assms] m f] .
    then have "clean_log x (if k \<noteq> 0 then h_sleep (machine_host x) POLL_INTERVAL m1 else m1)"
      by (simp add: machine_host_def clean_log_def)
    with Suc.IH \<open>clean_log x m1\<close> f
    show "clean_log x (snd (poll_loop (Suc k) (h_sleep (machine_host x)) (h_fetch_bootstrap (machine_host x) c) m))"
      by (auto simp: stable_def split: sum.splits poll_verdict.splits)
  qed
qed

lemma provision_stable:
  assumes "run_client x = Some c"
  shows "stable (clean_log x) (provision (machine_host x) p c target)"
proof -
  have req: "stable (clean_log x) (require_target target (h_provision_failed (machine_host x) c))"
    using stable_then [OF report_failure_stable [OF assms] stable_result(1) [where r = "Inl e" for e]]
    by (cases target) (simp_all add: require_target_def [abs_def] stable_result)
  show ?thesis unfolding provision_def poll_bootstrap_def [abs_def]
    by (intro stable_sbind req poll_loop_stable deploy_and_confirm_stable assms)
qed

lemma enroll_stable:
  assumes "from_proc_cmdline (x_cmdline x) = Inr p"
  shows "stable (clean_log x) (enroll (machine_host x) dry p)"
proof (rule stableI)
  fix m assume m: "clean_log x m"
  let ?h = "machine_host x"
  have report: "h_probe ?h m = (fst (m_probe x m), m)" by (simp add: machine_host_def m_probe_def)
  obtain target where t: "h_select ?h (bp_disk p) 0 m = (target, m)" by (simp add: machine_host_def)
  show "clean_log x (snd (enroll ?h dry p m))"
  proof (cases "h_client ?h p")
    case (Inl e)
    with report t m show ?thesis by (simp add: enroll_def Let_def)
  next
    case (Inr c)
    then have c: "run_client x = Some c" using assms by (simp add: run_client_def machine_host_def)
    have "stable (clean_log x) (\<lambda>s. if dry then (Inr (), h_print ?h DryRunLine (h_print ?h ReportAccepted s))
        else provision ?h p c target (h_print ?h ReportAccepted s))"
      using stable_after [OF provision_stable [OF c]] by (cases dry) (simp_all add: stable_def)
    then have "stable (clean_log x) (sbind (smap_err ClientErr (h_submit_report ?h c (fst (m_probe x m))))
        (\<lambda>_ s. if dry then (Inr (), h_print ?h DryRunLine (h_print ?h ReportAccepted s))
        else provision ?h p c target (h_print ?h ReportAccepted s)))"
      by (intro stable_sbind stable_smap_err client_calls_stable c)
    with report t Inr m show ?thesis by (simp add: enroll_def Let_def stable_def)
  qed
qed

lemma run_stable: "stable (clean_log x) (run (machine_host x) dry)"
proof -
  let ?h = "machine_host x"
  have up: "stable (clean_log x) (bring_up ?h p)" for p
  proof (rule stableI)
    fix m assume "clean_log x m"
    moreover obtain r m' where "bring_up ?h p m = (r, m')" by fastforce
    ultimately show "clean_log x (snd (bring_up ?h p m))"
      using machine.bring_up_effect by (fastforce simp: clean_log_view)
  qed
  have first: "stable (clean_log x) (mount_and_lock ?h)"
    by (rule stable_quiet [OF machine.mount_and_lock_view])
  have cmd: "stable (clean_log x) (smap_err CmdlineErr (h_cmdline ?h))"
    by (intro stable_smap_err stable_quiet machine_quiet)
  have told: "from_proc_cmdline (x_cmdline x) = Inr p" if "smap_err CmdlineErr (h_cmdline ?h) s = (Inr p, s1)" for p s s1
    using that by (simp add: smap_err_def machine_host_def map_err_eq_Inr)
  show ?thesis unfolding run_def
    by (intro stable_sbind) (auto simp: stable_result first up cmd told enroll_stable)
qed

section \<open>The image server\<close>

text \<open>
  The run asks the image server for one thing: with another server that answers that request alike,
  the run is the same.
\<close>

lemma write_image_asks:
  assumes "get (image_get url) = get' (image_get url)"
  shows "write_image open_excl major minor get sha rd t url dig cap = write_image open_excl major minor get' sha rd t url dig cap"
proof -
  have fetch: "fetch_to get sha rd write_all file_flush url = fetch_to get' sha rd write_all file_flush url"
    by (intro ext, cases "validate_image_scheme url") (simp_all add: fetch_to_def assms)
  show ?thesis unfolding write_image_def fetch ..
qed

lemma machine_host_get:
  "machine_host (x\<lparr>x_get := g\<rparr>) = (machine_host x)\<lparr>h_write_image := m_write_image (x\<lparr>x_get := g\<rparr>)\<rparr>"
proof -
  have "open_disk (x\<lparr>x_get := g\<rparr>) = open_disk x" "disk_reader (x\<lparr>x_get := g\<rparr>) = disk_reader x"
    "exchange (x\<lparr>x_get := g\<rparr>) = exchange x" "drivers_loaded (x\<lparr>x_get := g\<rparr>) = drivers_loaded x"
    "select_on (x\<lparr>x_get := g\<rparr>) = select_on x" "find_oem_on (x\<lparr>x_get := g\<rparr>) = find_oem_on x"
    "m_mount (x\<lparr>x_get := g\<rparr>) = m_mount x"
    by (simp_all add: fun_eq_iff open_disk_def disk_reader_def exchange_def drivers_loaded_def select_on_def find_oem_on_def
        m_mount_def split: option.splits prod.splits)
  note outside = this with_drivers_def
  have "m_load_drivers (x\<lparr>x_get := g\<rparr>) = m_load_drivers x" "m_network (x\<lparr>x_get := g\<rparr>) = m_network x"
    "m_probe (x\<lparr>x_get := g\<rparr>) = m_probe x" "m_reread (x\<lparr>x_get := g\<rparr>) = m_reread x"
    "m_find_esp (x\<lparr>x_get := g\<rparr>) = m_find_esp x" "m_other_disks (x\<lparr>x_get := g\<rparr>) = m_other_disks x"
    "m_prepare_esp (x\<lparr>x_get := g\<rparr>) = m_prepare_esp x" "m_inject (x\<lparr>x_get := g\<rparr>) = m_inject x"
    "m_boot_entry (x\<lparr>x_get := g\<rparr>) = m_boot_entry x"
    by (simp_all add: fun_eq_iff m_load_drivers_def m_network_def m_probe_def m_reread_def m_find_esp_def m_other_disks_def
        m_prepare_esp_def m_inject_def m_boot_entry_def outside split: sum.split)
  with outside show ?thesis by (simp add: machine_host_def)
qed

lemma run_image_url:
  assumes w: "\<And>t d n p. \<not> dry \<Longrightarrow> ps = Inr p \<Longrightarrow> w t (bp_target p) d n = h_write_image h t (bp_target p) d n"
    and cmd: "h_cmdline h = (\<lambda>s. (ps, s))"
  shows "run (h\<lparr>h_write_image := w\<rparr>) dry = run h dry"
proof -
  let ?h = "h\<lparr>h_write_image := w\<rparr>"
  have v: "verify_esp ?h = verify_esp h" by (simp add: fun_eq_iff verify_esp_def)
  have r: "register_esp ?h = register_esp h" unfolding fun_eq_iff register_esp_def v by simp
  have "esp_step ?h = esp_step h" unfolding fun_eq_iff esp_step_def r by simp
  then have esp: "esp_step ?h = esp_step h" "mount_and_lock ?h = mount_and_lock h" "bring_up ?h = bring_up h"
      "print_target ?h = print_target h"
    by (simp_all add: fun_eq_iff mount_and_lock_def bring_up_def print_target_def cong: sum.case_cong)
  have enroll: "enroll ?h dry p = enroll h dry p" if p: "ps = Inr p" for p
  proof (cases dry)
    case True
    then show ?thesis by (intro ext) (simp add: enroll_def esp Let_def cong: sum.case_cong)
  next
    case False
    have "run_deploy_steps ?h t p data = run_deploy_steps h t p data" for t data
      by (simp add: run_deploy_steps_def esp w [OF False p])
    then have d: "deploy_and_confirm ?h p = deploy_and_confirm h p"
      by (intro ext) (simp add: deploy_and_confirm_def cong: sum.case_cong)
    have "provision ?h p = provision h p" by (intro ext) (simp add: provision_def d)
    with False show ?thesis by (intro ext) (simp add: enroll_def esp Let_def cong: sum.case_cong)
  qed
  have told: "sbind (smap_err CmdlineErr (h_cmdline h)) g = (case ps of Inl e \<Rightarrow> \<lambda>s. (Inl (CmdlineErr e), s) | Inr p \<Rightarrow> g p)"
    for g :: "boot_params \<Rightarrow> 'a \<Rightarrow> (run_error + unit) \<times> 'a"
    by (rule ext) (simp add: cmd sbind_def smap_err_def split: sum.split)
  have h: "h_cmdline ?h = h_cmdline h" by simp
  show ?thesis unfolding run_def h told esp using enroll by (cases ps) simp_all
qed

definition image_request :: "('r, 'h, 'cert) outside \<Rightarrow> request option" where
  "image_request x = map_option (\<lambda>p. image_get (bp_target p)) (result_ok (from_proc_cmdline (x_cmdline x)))"

lemma run_asks_for_image:
  fixes x :: "('r, 'h, 'cert) outside"
  shows "run (machine_host (x\<lparr>x_get := \<lambda>rq. if \<not> dry \<and> image_request x = Some rq then x_get x rq else other rq\<rparr>)) dry =
     run (machine_host x) dry"
  unfolding machine_host_get
proof (rule run_image_url)
  show "h_cmdline (machine_host x) = (\<lambda>s. (from_proc_cmdline (x_cmdline x), s))" by (simp add: machine_host_def)
  fix t d n p assume "\<not> dry" "from_proc_cmdline (x_cmdline x) = Inr p"
  then show "m_write_image (x\<lparr>x_get := \<lambda>rq. if \<not> dry \<and> image_request x = Some rq then x_get x rq else other rq\<rparr>)
      t (bp_target p) d n = h_write_image (machine_host x) t (bp_target p) d n"
    by (intro ext) (simp add: m_write_image_def machine_host_def image_request_def open_disk_def
      write_image_asks [where get = "\<lambda>rq. if _ rq then _ rq else _ rq" and get' = "x_get x"])
qed

section \<open>Properties\<close>

text \<open>
  C3: the HTTP requests of a run, to the controller and to the image server. Every exchange with
  the controller, in a run dry or not, whatever the controller, the kernel and the disks answer,
  trusts only the certificates of the command line's CA and is one of four requests to the command
  line's endpoints with its token: a report of the probe, the request for the bootstrap data, the
  fixed completion, or one of the fixed failure reasons. And of the image server a run asks only
  one thing: a GET of the command line's \<open>beskar7.target\<close> with no header of the program's (no
  token) and no body, and a dry run asks nothing: were every other request to any server answered
  differently (\<open>other\<close>), the run would be the same. So nothing of the token, the bootstrap data or an
  error's details reaches the image server, and nothing of the bootstrap data, of the image or of
  an error's details reaches the controller. The packets of DHCP and the netlink messages that set up
  the link come before and are not HTTP; they are not what this property is about.
\<close>

theorem run_requests:
  "(case run (machine_host x) dry_run (m\<lparr>m_log := []\<rparr>) of (r, m') \<Rightarrow>
     list_all (\<lambda>(roots, rq, answer). case run_client x of
       None \<Rightarrow> False
     | Some c \<Rightarrow> roots = cl_roots c \<and> allowed_request x c rq) (m_log m')) \<and>
   run (machine_host (x\<lparr>x_get := \<lambda>rq. if \<not> dry_run \<and> (case from_proc_cmdline (x_cmdline x) of
       Inr p \<Rightarrow> rq = \<lparr>rq_method = ''GET'', rq_url = bp_target p, rq_headers = [], rq_body = []\<rparr>
     | Inl _ \<Rightarrow> False) then x_get x rq else other rq\<rparr>)) dry_run m = run (machine_host x) dry_run m"
proof
  have "clean_log x (snd (run (machine_host x) dry_run (m\<lparr>m_log := []\<rparr>)))"
    using run_stable [of x dry_run] by (simp add: stable_def clean_log_def)
  moreover have "allowed_exchange x = (\<lambda>(roots, rq, answer). case run_client x of
      None \<Rightarrow> False | Some c \<Rightarrow> roots = cl_roots c \<and> allowed_request x c rq)"
    by (rule ext) (simp add: allowed_exchange_def split: prod.splits)
  ultimately show "case run (machine_host x) dry_run (m\<lparr>m_log := []\<rparr>) of (r, m') \<Rightarrow>
     list_all (\<lambda>(roots, rq, answer). case run_client x of
       None \<Rightarrow> False
     | Some c \<Rightarrow> roots = cl_roots c \<and> allowed_request x c rq) (m_log m')" by (simp add: clean_log_def case_prod_beta)
  have "(case from_proc_cmdline (x_cmdline x) of
       Inr p \<Rightarrow> rq = \<lparr>rq_method = ''GET'', rq_url = bp_target p, rq_headers = [], rq_body = []\<rparr>
     | Inl _ \<Rightarrow> False) = (image_request x = Some rq)" for rq
    by (auto simp: image_request_def image_get_def result_ok_def split: sum.splits)
  then show "run (machine_host (x\<lparr>x_get := \<lambda>rq. if \<not> dry_run \<and> (case from_proc_cmdline (x_cmdline x) of
       Inr p \<Rightarrow> rq = \<lparr>rq_method = ''GET'', rq_url = bp_target p, rq_headers = [], rq_body = []\<rparr>
     | Inl _ \<Rightarrow> False) then x_get x rq else other rq\<rparr>)) dry_run m = run (machine_host x) dry_run m"
    using run_asks_for_image [where x = x and dry = dry_run and other = other] by simp
qed

end
