(* ===== verification/Budget.thy ===== *)
theory Budget
  imports Machine
begin

text \<open>
  What a run can cost: how many exchanges with the controller, and how much sleep. The locale
  \<open>metered_host\<close> adds up the costs of the operations of a host over a run; the machine interprets it
  for its log of exchanges and for its clock.
\<close>

section \<open>Costs\<close>

definition spends :: "('s \<Rightarrow> nat) \<Rightarrow> nat \<Rightarrow> ('s \<Rightarrow> 'r \<times> 's) \<Rightarrow> bool" where
  "spends f n m \<longleftrightarrow> (\<forall>s. f (snd (m s)) \<le> f s + n)"

lemma spends_mono: "spends f a m \<Longrightarrow> a \<le> b \<Longrightarrow> spends f b m"
  unfolding spends_def by (meson add_left_mono order_trans)

lemma spends_result: "spends f n (\<lambda>s. (g s, s))" "spends f n (sreturn a)"
  by (simp_all add: spends_def sreturn_def)

lemma spends_then:
  assumes "spends f a m" "\<And>r. spends f b (g r)"
  shows "spends f (a + b) (\<lambda>s. case m s of (r, s) \<Rightarrow> g r s)"
proof -
  have "f (snd (g (fst (m s)) (snd (m s)))) \<le> f s + (a + b)" for s
  proof -
    have "f (snd (g (fst (m s)) (snd (m s)))) \<le> f (snd (m s)) + b" "f (snd (m s)) \<le> f s + a"
      using assms by (simp_all add: spends_def)
    then show ?thesis by simp
  qed
  then show ?thesis by (simp add: spends_def case_prod_beta)
qed

lemma spends_cases:
  "(\<And>e. r = Inl e \<Longrightarrow> spends f n (g e)) \<Longrightarrow> (\<And>a. r = Inr a \<Longrightarrow> spends f n (h a)) \<Longrightarrow>
     spends f n (\<lambda>s. case r of Inl e \<Rightarrow> g e s | Inr a \<Rightarrow> h a s)"
  by (cases r) simp_all

lemma spends_sbind_seen:
  assumes "spends f a m" "\<And>x s. fst (m s) = Inr x \<Longrightarrow> spends f b (g x)"
  shows "spends f (a + b) (sbind m g)"
  unfolding spends_def
proof
  fix s
  obtain r s1 where m: "m s = (r, s1)" by fastforce
  with assms(1) have "f s1 \<le> f s + a" unfolding spends_def by (metis snd_conv)
  moreover have "f (snd (g x s1)) \<le> f s1 + b" if "r = Inr x" for x
    using assms(2) [of s x] m that by (simp add: spends_def)
  ultimately show "f (snd (sbind m g s)) \<le> f s + (a + b)"
    by (cases r) (fastforce simp: sbind_def m)+
qed

lemma spends_sbind: "spends f a m \<Longrightarrow> (\<And>x. spends f b (g x)) \<Longrightarrow> spends f (a + b) (sbind m g)"
  by (rule spends_sbind_seen)

lemma spends_smap_err: "spends f n m \<Longrightarrow> spends f n (smap_err e m)"
  by (simp add: spends_def smap_err_def case_prod_beta)

lemma spends_after: "spends f n m \<Longrightarrow> (\<And>s. f (c s) \<le> f s) \<Longrightarrow> spends f n (\<lambda>s. m (c s))"
  unfolding spends_def by (meson add_right_mono order_trans)

lemma spends_result_after: "(\<And>s. f (c s) \<le> f s) \<Longrightarrow> spends f n (\<lambda>s. (r, c s))"
  unfolding spends_def by (simp add: trans_le_add1)

text \<open>Operations that are free.\<close>

lemma free_then: "spends f 0 m \<Longrightarrow> (\<And>r. spends f n (g r)) \<Longrightarrow> spends f n (\<lambda>s. case m s of (r, s) \<Rightarrow> g r s)"
  using spends_then [of f 0 m n g] by simp

lemma free_sbind: "spends f 0 m \<Longrightarrow> (\<And>x. spends f n (g x)) \<Longrightarrow> spends f n (sbind m g)"
  using spends_sbind [of f 0 m n g] by simp

lemma free_sfor: "(\<And>x. spends f 0 (g x)) \<Longrightarrow> spends f 0 (sfor xs g)"
proof (induction xs)
  case (Cons x xs)
  have "spends f 0 (sbind (g x) (\<lambda>_. sfor xs g))" by (rule free_sbind [OF Cons.prems Cons.IH [OF Cons.prems]])
  then show ?case by (simp add: spends_def)
qed (simp add: spends_def)

lemma free_fold: "(\<And>x s. f (c x s) \<le> f s) \<Longrightarrow> f (fold c xs s) \<le> (f s :: nat)"
proof (induction xs arbitrary: s)
  case (Cons x xs)
  have "f (fold c xs (c x s)) \<le> f (c x s)" by (rule Cons.IH [OF Cons.prems])
  also have "\<dots> \<le> f s" by (rule Cons.prems)
  finally show ?case by simp
qed simp

section \<open>The cost of a run\<close>

text \<open>
  A call costs at most \<open>call\<close>, a pause between polls \<open>pause\<close>, and there are at most \<open>n\<close> polls; the
  drivers cost at most \<open>settling\<close> and the network \<open>linking\<close>.
\<close>

locale metered_host =
  fixes h :: "('s, 'c) host"
    and f :: "'s \<Rightarrow> nat"
    and call :: nat and pause :: nat and n :: nat and settling :: nat and linking :: nat
  assumes polls: "fst (h_cmdline h s) = Inr p \<Longrightarrow> poll_budget_iterations (bp_timeout p) \<le> n"
    and calls: "spends f call (h_submit_report h c x)" "spends f call (h_fetch_bootstrap h c)"
      "spends f call (h_provisioned h c)" "spends f call (h_provision_failed h c why)"
    and paused: "f (h_sleep h POLL_INTERVAL s) \<le> f s + pause"
    and free: "spends f 0 (h_mount h src target fstype flags)" "spends f 0 (h_cmdline h)" "spends f linking (h_network h p)"
      "spends f 0 (h_resolv_conf h dns)" "spends f 0 (h_probe h)" "spends f 0 (h_select h pin m)"
      "spends f 0 (h_write_image h t url dig m)" "spends f 0 (h_reread h t)" "spends f 0 (h_efi_booted h)"
      "spends f 0 (h_find_esp h t)" "spends f 0 (h_other_disks h t g)" "spends f 0 (h_prepare_esp h esp)"
      "spends f 0 (h_boot_entry h esp)" "spends f 0 (h_find_oem h t)" "spends f 0 (h_inject h oem data pid)"
      "spends f 0 (h_reboot h)"
    and free_cmds: "f (h_lock_memory h s) \<le> f s" "f (h_print h l s) \<le> f s" "f (h_load_drivers h b s) \<le> f s + settling"
begin

lemma printed: "spends f k m \<Longrightarrow> spends f k (\<lambda>s. m (h_print h l s))"
  by (rule spends_after [where c = "h_print h l"]) (simp_all add: free_cmds)

lemma printed_twice: "spends f k m \<Longrightarrow> spends f k (\<lambda>s. m (h_print h l (h_print h l' s)))"
  by (rule printed [where m = "\<lambda>s. m (h_print h l s)"], rule printed)

lemma register_esp: "spends f 0 (register_esp h target esp)"
proof -
  have reg: "spends f 0 (register_boot_entry (\<lambda>r esp. h_print h (BootEntryLine r esp)) (verify_esp h) (h_boot_entry h) esp)"
    unfolding register_boot_entry_def verify_esp_def
    by (rule free_sbind, rule spends_smap_err, rule free_sbind, rule free(12), rule spends_result_after, rule free_cmds(2),
        rule free_then, rule free(13), rule spends_result_after, rule free_cmds(2))
  show ?thesis unfolding register_esp_def Let_def
    by (rule free_then [OF free(11)], rule spends_after [OF reg], rule free_fold, rule free_cmds(2))
qed

lemma esp_step: "spends f 0 (esp_step h t)"
proof -
  have step: "esp_boot_entry_step efi find reg = (if efi then (\<lambda>s. case find s of (r, s) \<Rightarrow>
      (case r of Inl e \<Rightarrow> (if is_absent e then Inr () else Inl (EspErr e), s) | Inr esp \<Rightarrow> reg esp s))
      else (\<lambda>s. (Inr (), s)))" for efi and find :: "'s \<Rightarrow> (esp_error + esp_partition) \<times> 's" and reg
    by (rule ext) (simp add: esp_boot_entry_step_def split: prod.splits sum.splits)
  have "spends f 0 (\<lambda>s. case h_find_esp h t s of (r, s) \<Rightarrow> (case r of
      Inl e \<Rightarrow> (if is_absent e then Inr () else Inl (EspErr e), s) | Inr esp \<Rightarrow> register_esp h t esp s))"
    by (rule free_then [OF free(10)], rule spends_cases, rule spends_result, rule register_esp)
  then have "spends f 0 (esp_boot_entry_step efi (h_find_esp h t) (register_esp h t))" for efi
    unfolding step by (simp add: spends_result)
  then show ?thesis unfolding esp_step_def [abs_def] by (rule free_then [OF free(9)])
qed

lemma deploy_steps: "spends f 0 (run_deploy_steps h t p data)"
  unfolding run_deploy_steps_def by (intro free_sbind spends_smap_err free esp_step)

lemma failure_reported:
  "spends f call (\<lambda>s. case report_provision_failure e (h_provision_failed h c) s of (e, s) \<Rightarrow> (Inl e, s))"
  using calls(4) by (simp add: spends_def report_provision_failure_def signore_def)

lemma deploy_and_confirm: "spends f call (deploy_and_confirm h p c t data)"
  unfolding deploy_and_confirm_def sum_cases_pair
proof (rule free_then)
  show "spends f 0 (\<lambda>s. run_deploy_steps h t p data (h_print h BootstrapReceived s))"
    by (rule printed, rule deploy_steps)
  have reboot: "spends f 0 (\<lambda>s. case h_reboot h (h_print h RebootingLine (h_print h ProvisionedAccepted s)) of
      (e, s) \<Rightarrow> (Inl (DeployErr e), s))"
    by (rule free_then, rule printed_twice, rule free(16), rule spends_result)
  show "spends f call (\<lambda>s. case r of
      Inl e \<Rightarrow> (case report_provision_failure e (h_provision_failed h c) s of (e, s) \<Rightarrow> (Inl e, s))
    | Inr u \<Rightarrow> sbind (smap_err ClientErr (h_provisioned h c)) (\<lambda>_ s.
        case h_reboot h (h_print h RebootingLine (h_print h ProvisionedAccepted s)) of (e, s) \<Rightarrow> (Inl (DeployErr e), s)) s)" for r
    using spends_sbind [OF spends_smap_err [OF calls(3)] reboot] by (intro spends_cases failure_reported) simp_all
qed

lemma poll_loop: "spends f (k * call + (k - 1) * pause) (poll_loop k (h_sleep h) (h_fetch_bootstrap h c))"
proof (induction k)
  case (Suc k)
  have step: "poll_loop (Suc k) sl fe = (\<lambda>s. case fe s of (r, s) \<Rightarrow> (case r of
      Inl e \<Rightarrow> (if classify_poll e = Abort then (Inl (BootstrapAborted e), s)
        else poll_loop k sl fe (if k \<noteq> 0 then sl POLL_INTERVAL s else s))
    | Inr data \<Rightarrow> (Inr data, s)))" for sl :: "nat \<Rightarrow> 's \<Rightarrow> 's" and fe
    by (rule ext) (auto split: prod.splits sum.splits poll_verdict.splits)
  have "f (snd (poll_loop k (h_sleep h) (h_fetch_bootstrap h c) (if k \<noteq> 0 then h_sleep h POLL_INTERVAL s else s))) \<le>
      f s + (k * call + k * pause)" for s
  proof (cases k)
    case (Suc j)
    have "f (snd (poll_loop k (h_sleep h) (h_fetch_bootstrap h c) (h_sleep h POLL_INTERVAL s))) \<le>
        f (h_sleep h POLL_INTERVAL s) + (k * call + (k - 1) * pause)" using Suc.IH by (simp add: spends_def)
    with paused [of s] Suc show ?thesis by simp
  qed simp
  then have again: "spends f (k * call + k * pause) (\<lambda>s. if classify_poll e = Abort then (Inl (BootstrapAborted e), s)
        else poll_loop k (h_sleep h) (h_fetch_bootstrap h c) (if k \<noteq> 0 then h_sleep h POLL_INTERVAL s else s))" for e
    by (simp add: spends_def)
  have "spends f (call + (k * call + k * pause)) (poll_loop (Suc k) (h_sleep h) (h_fetch_bootstrap h c))"
    unfolding step by (rule spends_then [OF calls(2)], rule spends_cases, rule again, rule spends_result)
  moreover have "Suc k * call + (Suc k - 1) * pause = call + (k * call + k * pause)" by (simp add: algebra_simps)
  ultimately show ?case by (simp only:)
qed (simp add: spends_def)

lemma provision:
  assumes "poll_budget_iterations (bp_timeout p) \<le> n"
  shows "spends f (call * (n + 1) + (n - 1) * pause) (provision h p c target)"
proof (cases target)
  case (Inl e)
  have "provision h p c (Inl e) = (\<lambda>s. case report_provision_failure (DiskErr e) (h_provision_failed h c) s of (e, s) \<Rightarrow> (Inl e, s))"
    by (rule ext) (simp add: provision_def sbind_def require_target_def split: prod.splits)
  moreover have "call \<le> call * (n + 1) + (n - 1) * pause" by simp
  ultimately show ?thesis using spends_mono [OF failure_reported] Inl by metis
next
  case (Inr t)
  let ?k = "poll_budget_iterations (bp_timeout p)"
  have eq: "provision h p c (Inr t) = sbind (poll_loop ?k (h_sleep h) (h_fetch_bootstrap h c)) (deploy_and_confirm h p c t)"
    by (rule ext) (simp add: provision_def sbind_def [of "require_target _ _"] require_target_def poll_bootstrap_def [abs_def])
  have le: "?k * call + (?k - 1) * pause + call \<le> call * (n + 1) + (n - 1) * pause"
  proof -
    have "?k * call + (?k - 1) * pause + call \<le> n * call + (n - 1) * pause + call"
      by (intro add_le_mono mult_le_mono1 diff_le_mono assms order_refl)
    then show ?thesis by (simp add: algebra_simps)
  qed
  show ?thesis unfolding Inr eq
    by (rule spends_mono [OF spends_sbind [OF poll_loop deploy_and_confirm] le])
qed

lemma enroll:
  assumes "poll_budget_iterations (bp_timeout p) \<le> n"
  shows "spends f (call * (n + 2) + (n - 1) * pause) (enroll h dry p)"
proof -
  have print: "f (print_target h target s) \<le> f s" for target s
    by (cases target) (simp_all add: print_target_def free_cmds)
  have fin: "spends f (call * (n + 1) + (n - 1) * pause) (\<lambda>s. if dry then (Inr (), h_print h DryRunLine (h_print h ReportAccepted s))
      else provision h p c target (h_print h ReportAccepted s))" for c target
  proof (cases dry)
    case True
    have "spends f (call * (n + 1) + (n - 1) * pause) (\<lambda>s. (Inr (), h_print h DryRunLine (h_print h ReportAccepted s)))"
      by (rule printed_twice [where m = "\<lambda>s. (Inr (), s)"], rule spends_result)
    with True show ?thesis by simp
  next
    case False
    have "spends f (call * (n + 1) + (n - 1) * pause) (\<lambda>s. provision h p c target (h_print h ReportAccepted s))"
      by (rule printed, rule provision, rule assms)
    with False show ?thesis by simp
  qed
  have "spends f (call + (call * (n + 1) + (n - 1) * pause)) (\<lambda>s. case h_client h p of
      Inl e \<Rightarrow> (Inl (ClientErr e), print_target h target s)
    | Inr c \<Rightarrow> sbind (smap_err ClientErr (h_submit_report h c report)) (\<lambda>_ s.
        if dry then (Inr (), h_print h DryRunLine (h_print h ReportAccepted s))
        else provision h p c target (h_print h ReportAccepted s)) (print_target h target s))" for report target
  proof (cases "h_client h p")
    case (Inl e)
    have "spends f (call + (call * (n + 1) + (n - 1) * pause)) (\<lambda>s. (Inl (ClientErr e), print_target h target s))"
      by (rule spends_result_after, rule print)
    with Inl show ?thesis by simp
  next
    case (Inr c)
    from spends_after [where c = "print_target h target", OF spends_sbind [OF spends_smap_err [OF calls(1)] fin] print] Inr
    show ?thesis by simp
  qed
  then have tail: "spends f (call * (n + 2) + (n - 1) * pause) (\<lambda>s. case h_client h p of
      Inl e \<Rightarrow> (Inl (ClientErr e), print_target h target s)
    | Inr c \<Rightarrow> sbind (smap_err ClientErr (h_submit_report h c report)) (\<lambda>_ s.
        if dry then (Inr (), h_print h DryRunLine (h_print h ReportAccepted s))
        else provision h p c target (h_print h ReportAccepted s)) (print_target h target s))" for report target
    by (simp add: algebra_simps)
  show ?thesis unfolding enroll_def Let_def
    by (rule free_then [OF free(5)], rule free_then [OF free(6)], rule tail)
qed

lemma bring_up: "spends f (settling + linking) (bring_up h p)"
proof -
  have "spends f 0 (\<lambda>s. case h_resolv_conf h dns (h_print h l s) of (r, s) \<Rightarrow>
      (case r of Inl e \<Rightarrow> (Inr (), h_print h (ResolvConfFailed e) s) | Inr _ \<Rightarrow> (Inr (), s)))" for dns l
    by (rule free_then, rule printed, rule free(4), rule spends_cases, rule spends_result_after, rule free_cmds(2),
        rule spends_result)
  from spends_sbind [OF spends_smap_err [OF free(3)] this]
  have net: "spends f (linking + 0) (sbind (smap_err NetErr (h_network h p)) (\<lambda>net s.
      case h_resolv_conf h (nc_dns net) (h_print h (NetworkUp net) s) of (r, s) \<Rightarrow>
      (case r of Inl e \<Rightarrow> (Inr (), h_print h (ResolvConfFailed e) s) | Inr _ \<Rightarrow> (Inr (), s))))" .
  then have "f (snd (bring_up h p s)) \<le> f (h_load_drivers h (bp_bootif p) s) + linking" for s
    unfolding bring_up_def Let_def sum_cases_pair spends_def add_0_right by blast
  with free_cmds(3) show ?thesis unfolding spends_def by (metis add.assoc add_le_mono1 order_trans)
qed

lemma mount_and_lock: "spends f 0 (mount_and_lock h)"
proof -
  have "spends f 0 (mount_one (h_mount h) spec)" for spec
  proof -
    obtain a b c d where spec: "spec = (a, b, c, d)" by (metis prod.exhaust)
    show ?thesis using free(1) [of a b c d] unfolding spec
      by (auto simp: spends_def mount_one_def split: prod.splits sum.splits) (metis snd_conv)+
  qed
  then show ?thesis unfolding mount_and_lock_def mount_pseudo_filesystems_def
    by (rule free_sbind [OF free_sfor]) (auto simp: spends_def free_cmds)
qed

lemma run_spends: "spends f (call * (n + 2) + (n - 1) * pause + settling + linking) (run h dry)"
  (is "spends f ?all _")
  unfolding run_def
proof (rule free_sbind)
  show "spends f 0 (if dry then sreturn () else mount_and_lock h)"
    using mount_and_lock by (simp add: spends_result)
  have "spends f (0 + ?all) (sbind (smap_err CmdlineErr (h_cmdline h)) (\<lambda>params.
      sbind (if dry then sreturn () else bring_up h params) (\<lambda>_. enroll h dry params)))"
  proof (rule spends_sbind_seen [OF spends_smap_err [OF free(2)]])
    fix p s
    assume "fst (smap_err CmdlineErr (h_cmdline h) s) = Inr p"
    then have "fst (h_cmdline h s) = Inr p"
      by (simp add: smap_err_def map_err_def split: prod.splits sum.splits)
    then have "spends f (settling + linking + (call * (n + 2) + (n - 1) * pause))
        (sbind (if dry then sreturn () else bring_up h p) (\<lambda>_. enroll h dry p))"
      using polls by (intro spends_sbind enroll) (auto simp: spends_result bring_up)
    then show "spends f ?all (sbind (if dry then sreturn () else bring_up h p) (\<lambda>_. enroll h dry p))"
      by (simp add: add_ac)
  qed
  then show "spends f ?all (sbind (smap_err CmdlineErr (h_cmdline h)) (\<lambda>params.
      sbind (if dry then sreturn () else bring_up h params) (\<lambda>_. enroll h dry params)))" by simp
qed

end

section \<open>The machine\<close>

lemma retry_loop_exchanges:
  "retry_loop i k e (attempts (exchange x) c rq verdict) m = (r, m', sl) \<Longrightarrow>
     \<exists>new. m' = m\<lparr>m_log := m_log m @ new\<rparr> \<and> length new \<le> k \<and> sum_list sl \<le> sum_list (map backoff [i..<i + (k - 1)])"
proof (induction k arbitrary: i e m sl)
  case 0
  then show ?case by (intro exI [of _ "[]"]) auto
next
  case (Suc k)
  let ?ex = "(cl_roots c, rq, x_http x (length (m_log m)) (cl_roots c) rq)"
  let ?m1 = "m\<lparr>m_log := m_log m @ [?ex]\<rparr>"
  have a: "attempts (exchange x) c rq verdict i m = (verdict (x_http x (length (m_log m)) (cl_roots c) rq), ?m1)"
    by (simp add: attempts_def exchange_def Let_def)
  show ?case
  proof (cases "verdict (x_http x (length (m_log m)) (cl_roots c) rq)")
    case (Retry e')
    with a Suc.prems obtain sl' where
      rec: "retry_loop (i + 1) k (Some e') (attempts (exchange x) c rq verdict) ?m1 = (r, m', sl')"
      and sl: "sl = (if k \<noteq> 0 then backoff i # sl' else sl')" by (auto split: prod.splits)
    from Suc.IH [OF rec] obtain new where new: "m' = ?m1\<lparr>m_log := m_log ?m1 @ new\<rparr>" "length new \<le> k"
      "sum_list sl' \<le> sum_list (map backoff [i + 1..<i + 1 + (k - 1)])" by blast
    have "sum_list sl \<le> sum_list (map backoff [i..<i + k])"
    proof (cases k)
      case (Suc j)
      then have "[i..<i + k] = i # [i + 1..<i + 1 + (k - 1)]" by (subst upt_conv_Cons) simp_all
      with new(3) sl Suc show ?thesis by simp
    qed (use new(3) sl in simp)
    with new(1,2) show ?thesis by (intro exI [of _ "?ex # new"]) simp
  qed (use a Suc.prems in \<open>auto intro!: exI [of _ "[?ex]"]\<close>)
qed

lemma backoffs: "sum_list (map backoff [0..<4]) = 7500"
  by (simp add: upt_rec backoff_nat)

lemma retries_spend:
  "spends (\<lambda>m. length (m_log m)) 5 (slept (run_with_retries MAX_ATTEMPTS (attempts (exchange x) c rq verdict)))"
  "spends m_slept 7500 (slept (run_with_retries MAX_ATTEMPTS (attempts (exchange x) c rq verdict)))"
proof -
  have "length (m_log (snd (slept (run_with_retries MAX_ATTEMPTS (attempts (exchange x) c rq verdict)) m))) \<le> length (m_log m) + 5 \<and>
      m_slept (snd (slept (run_with_retries MAX_ATTEMPTS (attempts (exchange x) c rq verdict)) m)) \<le> m_slept m + 7500" for m
  proof -
    obtain r m' sl where o: "retry_loop 0 5 None (attempts (exchange x) c rq verdict) m = (r, m', sl)"
      by (metis prod.exhaust)
    from retry_loop_exchanges [OF o] obtain new where "m' = m\<lparr>m_log := m_log m @ new\<rparr>" "length new \<le> 5"
      "sum_list sl \<le> sum_list (map backoff [0..<4])" by auto
    then show ?thesis by (simp add: slept_def run_with_retries_def MAX_ATTEMPTS_def o backoffs)
  qed
  then show "spends (\<lambda>m. length (m_log m)) 5 (slept (run_with_retries MAX_ATTEMPTS (attempts (exchange x) c rq verdict)))"
    "spends m_slept 7500 (slept (run_with_retries MAX_ATTEMPTS (attempts (exchange x) c rq verdict)))"
    by (simp_all add: spends_def)
qed

lemma calls_spend:
  assumes "\<And>rq (verdict :: ureq_error + response \<Rightarrow> unit attempt).
      spends f k (slept (run_with_retries MAX_ATTEMPTS (attempts (exchange x) c rq verdict)))"
    and "\<And>rq (verdict :: ureq_error + response \<Rightarrow> bytes attempt).
      spends f k (slept (run_with_retries MAX_ATTEMPTS (attempts (exchange x) c rq verdict)))"
  shows "spends f k (slept (submit_report (exchange x) tj c report))" "spends f k (slept (fetch_bootstrap (exchange x) c))"
    "spends f k (slept (provisioned (exchange x) c))" "spends f k (slept (provision_failed (exchange x) rj c why))"
proof -
  have failed: "spends f k (slept (\<lambda>m. (r, m, [])))" for r :: "client_error + unit"
    by (simp add: spends_def slept_failure)
  show "spends f k (slept (submit_report (exchange x) tj c report))"
    using assms(1) failed by (cases "tj report") (simp_all add: submit_report_def [abs_def])
  show "spends f k (slept (fetch_bootstrap (exchange x) c))" using assms(2) by (simp add: fetch_bootstrap_def [abs_def])
  show "spends f k (slept (provisioned (exchange x) c))" using assms(1) by (simp add: provisioned_def [abs_def])
  show "spends f k (slept (provision_failed (exchange x) rj c why))"
    using assms(1) failed by (cases "rj why") (simp_all add: provision_failed_def [abs_def])
qed

text \<open>Everything but the calls leaves the log alone; the drivers and the network have waits of their own.\<close>

lemma ops_spend:
  assumes f: "f = (\<lambda>m. length (m_log m)) \<or> f = m_slept"
  shows "spends f 0 (m_mount x src target fstype flags)" "spends f 0 (m_probe x)"
    "spends f 0 (m_write_image x t url dig cap)" "spends f 0 (m_reread x t)" "spends f 0 (m_find_esp x t)"
    "spends f 0 (m_other_disks x t guid)" "spends f 0 (m_boot_entry x esp)" "spends f 0 (on_kernel g)"
  using f by (auto simp: spends_def m_mount_def m_probe_def m_write_image_def m_reread_def m_find_esp_def
      m_other_disks_def m_boot_entry_def on_kernel_def split: prod.splits sum.splits option.splits)

lemma log_kept:
  "spends (\<lambda>m. length (m_log m)) 0 (m_network x p)" "m_log (m_load_drivers x b m) = m_log m"
  by (simp_all add: spends_def m_network_def m_load_drivers_def split: prod.splits)

lemma drivers_wait: "snd (drivers_loaded x b tree) \<le> 30000"
proof -
  let ?devices = "\<lambda>t. (subtree t SYSFS_BLOCK, subtree t SYSFS_NET)"
  let ?polls = "\<lambda>i. case x_polls x i of (t, late) \<Rightarrow> (?devices t, SETTLE_POLL * (i + 1) + late)"
  obtain r where r: "load_drivers (subtree tree MODULES_ROOT) (x_open_module x) (x_finit x) b (?devices tree) ?polls = r" by simp
  have "SETTLE_POLL * (k + 1) \<le> 30000" if "r = Some (counts, Some (out, cur, k))" for counts out cur k
  proof -
    let ?i = "device_counts_in (fst (?devices tree)) (snd (?devices tree)) b"
    let ?obs = "\<lambda>i. (device_counts_in (fst (fst (?polls i))) (snd (fst (?polls i))) b, snd (?polls i))"
    from that r have k: "settle_loop ?obs 0 (settle_new ?i) = Some (out, cur, k)"
      by (auto simp: load_drivers_def settle_def split: Option.bind_splits)
    have "SETTLE_POLL * (j + 1) \<le> snd (?obs j)" for j by (simp split: prod.split)
    moreover have "settle_inv ?i ?obs 0 (settle_new ?i)" by (simp add: settle_inv_def settle_new_def history_def)
    ultimately have "k < 300" using settle_loop_returns [of ?obs ?i 0 "settle_new ?i"] k by auto
    then show ?thesis by (simp add: SETTLE_POLL_def)
  qed
  then show ?thesis unfolding drivers_loaded_def Let_def r by (auto split: option.splits prod.splits)
qed

text \<open>Each carrier wait is of at most thirty sleeps.\<close>

definition short_waits :: "nl_state \<Rightarrow> bool" where
  "short_waits s \<longleftrightarrow> list_all (\<lambda>w. w \<le> 30) (nl_waits s)"

lemma send_waits: "send_and_ack nl_ops m s = (r, s') \<Longrightarrow> short_waits s' = short_waits s"
  by (auto simp: send_nl short_waits_def)

lemma apply_lease_short: "short_waits (snd (apply_addr i ip pl gw s)) = short_waits s"
  by (auto simp: apply_addr_def nl_step_def link_msg send_nl short_waits_def split: prod.split sum.split option.split)

lemma link_waits_short: "list_all (\<lambda>w. w \<le> 30) (link_waits carrier as cands)"
  by (auto simp: link_waits_def link_wait_def wait_for_link_le list_all_iff)

lemma dhcp_link_short: "short_waits s \<Longrightarrow> short_waits (snd (dhcp_link acq iface i mac s))"
  by (auto simp: dhcp_link_def nl_step_def link_msg send_nl short_waits_def link_waited_def wait_for_link_le split: sum.split)

lemma finish_race_short: "short_waits s \<Longrightarrow> short_waits (snd (finish_race rs s))"
proof -
  assume s: "short_waits s"
  have a: "short_waits s2" if "apply_lease i l s = (x, s2)" for i l x s2
    using apply_lease_short [of i "l_ip l" "l_prefix_len l" "l_gateway l" s] that s by (simp add: apply_lease_def)
  have "short_waits (link_downs ds s2) = short_waits s2" for ds s2 by (simp add: link_downs_effect short_waits_def)
  with s a show ?thesis
    by (auto simp: finish_race_def Let_def split: option.split prod.split sum.split)
qed

lemma network_waits:
  assumes "short_waits s"
  shows "short_waits (snd (bring_up_provisioning_network d acq bootif ip s))"
proof -
  have one: "short_waits (snd (bring_up_one d acq iface s))" for iface
  proof -
    have a: "short_waits s2" if "apply_lease i l s1 = (x, s2)" "dhcp_link acq iface i mac s = (y, s1)" for i l x s2 mac y s1
      using apply_lease_short [of i "l_ip l" "l_prefix_len l" "l_gateway l" s1] that
        dhcp_link_short [OF assms, of acq iface i mac] by (simp add: apply_lease_def)
    have b: "short_waits s1" if "dhcp_link acq iface i mac s = (y, s1)" for i mac y s1
      using dhcp_link_short [OF assms, of acq iface i mac] that by simp
    show ?thesis using assms a b by (auto simp: bring_up_one_def split: prod.split sum.split)
  qed
  have static: "short_waits (snd (bring_up_static d iface st s))" for iface st
  proof -
    have a: "short_waits s2" if "apply_addr i ip pl gw (link_waited iface s1) = (x, s2)" "nl_step op (link_up nl_ops i s) = (y, s1)"
      for i ip pl gw x s2 y s1 op
      using apply_lease_short [of i ip pl gw "link_waited iface s1"] that assms
      by (auto simp: nl_step_def link_msg send_nl short_waits_def link_waited_def wait_for_link_le)
    have b: "short_waits s1" if "nl_step op (link_up nl_ops i s) = (y, s1)" for op i y s1
      using that assms by (auto simp: nl_step_def link_msg send_nl short_waits_def)
    show ?thesis using assms a b by (auto simp: bring_up_static_def split: prod.split sum.split)
  qed
  have "short_waits (snd (race_leases acq cands s))" for cands
    using assms link_waits_short by (simp add: race_leases_effect short_waits_def)
  then have "short_waits (snd (bring_up_race d acq ifaces s))" for ifaces
    using assms by (auto simp: bring_up_race_def Let_def case_prod_beta intro: finish_race_short)
  with assms one static show ?thesis
    by (auto simp: bring_up_provisioning_network_def split: sum.split option.split nic_selection.split)
qed

lemma network_wait: "spends m_slept 3000 (m_network x p)"
proof -
  have "fold max ws a \<le> 30" if "list_all (\<lambda>w. w \<le> 30) ws" "a \<le> 30" for ws and a :: nat
    using that by (induction ws arbitrary: a) auto
  then have "longest_wait (nl_waits s) \<le> 3000" if "short_waits s" for s
    using that by (simp add: longest_wait_def CARRIER_POLL_def short_waits_def)
  note short = this
  have "m_slept (snd (m_network x p m)) \<le> m_slept m + 3000" for m
  proof -
    let ?acq = "\<lambda>iface mac. fst (acquire (x_dhcp_call x) (x_dhcp_random x) iface mac (x_dhcp_sock x iface))"
    obtain r links where n: "bring_up_provisioning_network (subtree (m_tree m) SYSFS_NET) ?acq (bp_bootif p) (bp_ip p)
        ((m_links m)\<lparr>nl_waits := []\<rparr>) = (r, links)" by fastforce
    have "short_waits ((m_links m)\<lparr>nl_waits := []\<rparr>)" by (simp add: short_waits_def)
    from network_waits [OF this, where d = "subtree (m_tree m) SYSFS_NET" and acq = ?acq and bootif = "bp_bootif p" and ip = "bp_ip p"]
    have "short_waits links" by (simp only: n snd_conv)
    with short n show ?thesis by (simp add: m_network_def)
  qed
  then show ?thesis by (simp add: spends_def)
qed

definition poll_limit :: "cmdline_error + boot_params \<Rightarrow> nat" where
  "poll_limit ps = (case ps of Inl _ \<Rightarrow> 0 | Inr p \<Rightarrow> poll_budget_iterations (bp_timeout p))"

lemmas exchange_calls = calls_spend [OF retries_spend(1) retries_spend(1)]
lemmas clock_calls = calls_spend [OF retries_spend(2) retries_spend(2)]

lemma resolv_spends: "spends f 0 (sfor ws (\<lambda>w m. (x_etc x w, m)))"
  by (rule free_sfor) (rule spends_result)

interpretation exchanges: metered_host "machine_host x" "\<lambda>m. length (m_log m)" 5 0
    "poll_limit (from_proc_cmdline (x_cmdline x))" 0 0 for x
  by unfold_locales (simp_all add: machine_host_def exchange_calls ops_spend log_kept resolv_spends spends_result m_prepare_esp_def
      m_inject_def m_load_drivers_def poll_limit_def spends_def [of _ _ "\<lambda>m. (_, m\<lparr>m_reboots := _ m\<rparr>)"])

interpretation clock: metered_host "machine_host x" m_slept 7500 5000
    "poll_limit (from_proc_cmdline (x_cmdline x))" 30000 3000 for x
  by unfold_locales (simp_all add: machine_host_def clock_calls ops_spend network_wait drivers_wait resolv_spends spends_result m_prepare_esp_def
      m_inject_def m_load_drivers_def poll_limit_def POLL_INTERVAL_def spends_def [of _ _ "\<lambda>m. (_, m\<lparr>m_reboots := _ m\<rparr>)"])

section \<open>The property\<close>

text \<open>
  C7: what a run can cost. With \<open>n\<close> polls in the budget of the command line (360 by default, one for
  five seconds of \<open>beskar7.timeout\<close>), a run makes at most \<open>5 * (n + 2)\<close> exchanges with the
  controller, and all its sleeps (between the attempts of a call, between the polls, for the drivers
  to settle and for the carrier, whose waits the race's threads make at the same time) come
  to at most \<open>7.5 * (n + 2) + 5 * (n - 1) + 30 + 3\<close> seconds. Counting each exchange with the whole of
  the timeout its agent has for a call (thirty seconds), the exchanges with the controller and the sleeps
  hold a host for \<open>157.5 * (n + 2) + 5 * (n - 1) + 33\<close> seconds and no longer, whatever the
  controller answers. The waits of the DHCP socket and of the image's download are not sleeps
  and not counted.
\<close>

theorem run_budget:
  "case run (machine_host x) dry m of (r, m') \<Rightarrow>
    case poll_limit (from_proc_cmdline (x_cmdline x)) of n \<Rightarrow>
      case length (m_log m') - length (m_log m) of tries \<Rightarrow> case m_slept m' - m_slept m of asleep \<Rightarrow>
        tries \<le> 5 * (n + 2) \<and> asleep \<le> 7500 * (n + 2) + 5000 * (n - 1) + 33000 \<and>
        tries * unwrap_or (ag_timeout_global (client_agent c)) 0 + asleep \<le> 157500 * (n + 2) + 5000 * (n - 1) + 33000"
proof -
  let ?n = "poll_limit (from_proc_cmdline (x_cmdline x))"
  obtain r m' where run: "run (machine_host x) dry m = (r, m')" by fastforce
  have a: "length (m_log m') - length (m_log m) \<le> 5 * (?n + 2)"
    using exchanges.run_spends [of x dry] run by (simp add: spends_def) (metis le_diff_conv add.commute snd_conv)
  have "m_slept m' \<le> m_slept m + (7500 * (?n + 2) + (?n - 1) * 5000 + 30000 + 3000)"
    using clock.run_spends [of x dry] run unfolding spends_def by (metis snd_conv)
  then have b: "m_slept m' - m_slept m \<le> 7500 * (?n + 2) + 5000 * (?n - 1) + 33000" by simp
  from a b show ?thesis by (simp add: run client_agent_def CALL_TIMEOUT_def)
qed

end
