(* ===== verification/Phases.thy ===== *)
theory Phases
  imports Host_Relations
begin

text \<open>
  The order of a run of \<open>src/run.rs\<close>: a host instrumented to record what it was asked for, the
  abstract machine of phases that every recorded run follows, and the refinement.
\<close>

section \<open>Instrumentation\<close>

text \<open>What was asked of the host, and whether it succeeded.\<close>

datatype event =
    EvMount bool
  | EvLock
  | EvCmdline bool
  | EvDrivers
  | EvNetwork bool
  | EvResolv bool
  | EvProbe
  | EvSelect bool
  | EvReport bool
  | EvFetch bool
  | EvSleep
  | EvWrite bool
  | EvReread bool
  | EvFindEsp bool
  | EvPrepareEsp bool
  | EvBootEntry bool
  | EvFindOem bool
  | EvInject bool
  | EvProvisioned bool
  | EvFailed string
  | EvReboot

type_synonym 's traced = "'s \<times> event list"

definition recorded :: "('r \<Rightarrow> event) \<Rightarrow> ('s \<Rightarrow> 'r \<times> 's) \<Rightarrow> 's traced \<Rightarrow> 'r \<times> 's traced" where
  "recorded ev m st = (case st of (s, tr) \<Rightarrow> case m s of (r, s') \<Rightarrow> (r, s', tr @ [ev r]))"

definition recorded_cmd :: "event \<Rightarrow> ('s \<Rightarrow> 's) \<Rightarrow> 's traced \<Rightarrow> 's traced" where
  "recorded_cmd ev m st = (case st of (s, tr) \<Rightarrow> (m s, tr @ [ev]))"

definition unrecorded :: "('s \<Rightarrow> 'r \<times> 's) \<Rightarrow> 's traced \<Rightarrow> 'r \<times> 's traced" where
  "unrecorded m st = (case st of (s, tr) \<Rightarrow> case m s of (r, s') \<Rightarrow> (r, s', tr))"

definition traced_host :: "('s, 'c) host \<Rightarrow> ('s traced, 'c) host" where
  "traced_host h = \<lparr>
     h_mount = (\<lambda>a b c d. recorded (\<lambda>r. EvMount (is_ok r \<or> r = Inl EBUSY)) (h_mount h a b c d)),
     h_lock_memory = recorded_cmd EvLock (h_lock_memory h),
     h_cmdline = recorded (\<lambda>r. EvCmdline (is_ok r)) (h_cmdline h),
     h_load_drivers = (\<lambda>b. recorded_cmd EvDrivers (h_load_drivers h b)),
     h_network = (\<lambda>p. recorded (\<lambda>r. EvNetwork (is_ok r)) (h_network h p)),
     h_resolv_conf = (\<lambda>d. recorded (\<lambda>r. EvResolv (is_ok r)) (h_resolv_conf h d)),
     h_probe = recorded (\<lambda>_. EvProbe) (h_probe h),
     h_select = (\<lambda>p n. recorded (\<lambda>r. EvSelect (is_ok r)) (h_select h p n)),
     h_client = h_client h,
     h_submit_report = (\<lambda>c x. recorded (\<lambda>r. EvReport (is_ok r)) (h_submit_report h c x)),
     h_fetch_bootstrap = (\<lambda>c. recorded (\<lambda>r. EvFetch (is_ok r)) (h_fetch_bootstrap h c)),
     h_sleep = (\<lambda>n. recorded_cmd EvSleep (h_sleep h n)),
     h_write_image = (\<lambda>t u d n. recorded (\<lambda>r. EvWrite (is_ok r)) (h_write_image h t u d n)),
     h_reread = (\<lambda>t. recorded (\<lambda>r. EvReread (is_ok r)) (h_reread h t)),
     h_efi_booted = unrecorded (h_efi_booted h),
     h_find_esp = (\<lambda>t. recorded (\<lambda>r. EvFindEsp (is_ok r)) (h_find_esp h t)),
     h_other_disks = (\<lambda>t g. unrecorded (h_other_disks h t g)),
     h_prepare_esp = (\<lambda>e. recorded (\<lambda>r. EvPrepareEsp (is_ok r)) (h_prepare_esp h e)),
     h_boot_entry = (\<lambda>e. recorded (\<lambda>r. EvBootEntry (is_ok r)) (h_boot_entry h e)),
     h_find_oem = (\<lambda>t. recorded (\<lambda>r. EvFindOem (is_ok r)) (h_find_oem h t)),
     h_inject = (\<lambda>o' u p. recorded (\<lambda>r. EvInject (is_ok r)) (h_inject h o' u p)),
     h_provisioned = (\<lambda>c. recorded (\<lambda>r. EvProvisioned (is_ok r)) (h_provisioned h c)),
     h_provision_failed = (\<lambda>c why. recorded (\<lambda>_. EvFailed why) (h_provision_failed h c why)),
     h_reboot = recorded (\<lambda>_. EvReboot) (h_reboot h),
     h_print = (\<lambda>l (s, tr). (h_print h l s, tr))\<rparr>"

section \<open>The abstract machine\<close>

text \<open>
  \<open>Stopped\<close> is an error before the deploy or after it, \<open>Broken\<close> a failed deploy step not yet
  reported, \<open>Halted\<close> a reported failure with the reason sent.
\<close>

datatype phase = Setup | Enrolled | Ready | Imaged | Rescanned | EspFound | EspReady | EspDone | OemFound
  | Injected | Confirmed | Rebooting | Stopped | Broken | Halted string

inductive phase_step :: "bool \<Rightarrow> phase \<Rightarrow> event \<Rightarrow> phase \<Rightarrow> bool" for dry where
  "\<not> dry \<Longrightarrow> phase_step dry Setup (EvMount b) (if b then Setup else Stopped)"
| "\<not> dry \<Longrightarrow> e \<in> {EvLock, EvDrivers, EvResolv b} \<Longrightarrow> phase_step dry Setup e Setup"
| "\<not> dry \<Longrightarrow> phase_step dry Setup (EvNetwork b) (if b then Setup else Stopped)"
| "phase_step dry Setup (EvCmdline b) (if b then Setup else Stopped)"
| "e \<in> {EvProbe, EvSelect b} \<Longrightarrow> phase_step dry Setup e Setup"
| "phase_step dry Setup (EvReport b) (if b then Enrolled else Stopped)"
| "\<not> dry \<Longrightarrow> phase_step dry Enrolled (EvFetch b) (if b then Ready else Enrolled)"
| "\<not> dry \<Longrightarrow> phase_step dry Enrolled EvSleep Enrolled"
| "\<not> dry \<Longrightarrow> phase_step dry Enrolled (EvFailed why) (Halted why)"
| "\<not> dry \<Longrightarrow> phase_step dry Ready (EvWrite b) (if b then Imaged else Broken)"
| "phase_step dry Imaged (EvReread b) (if b then Rescanned else Broken)"
| "q \<in> (if b then {EspFound} else {EspDone, Broken}) \<Longrightarrow> phase_step dry Rescanned (EvFindEsp b) q"
| "phase_step dry EspFound (EvPrepareEsp b) (if b then EspReady else Broken)"
| "phase_step dry EspReady (EvBootEntry b) EspDone"
| "p \<in> {Rescanned, EspDone} \<Longrightarrow> phase_step dry p (EvFindOem b) (if b then OemFound else Broken)"
| "phase_step dry OemFound (EvInject b) (if b then Injected else Broken)"
| "phase_step dry Injected (EvProvisioned b) (if b then Confirmed else Stopped)"
| "phase_step dry Confirmed EvReboot Rebooting"
| "phase_step dry Broken (EvFailed why) (Halted why)"

inductive_cases phase_stepE: "phase_step dry p e q"

inductive_simps phase_step_Setup: "phase_step dry Setup e q"
inductive_simps phase_step_dry: "phase_step True p e q"

inductive phase_path :: "bool \<Rightarrow> event list \<Rightarrow> phase \<Rightarrow> bool" for dry where
  start: "phase_path dry [] Setup"
| step: "phase_path dry tr p \<Longrightarrow> phase_step dry p e q \<Longrightarrow> phase_path dry (tr @ [e]) q"

section \<open>Following the abstract machine\<close>

text \<open>
  From a recorded run that reached a phase in \<open>P\<close>, the operation \<open>m\<close> goes on along the
  abstract machine, to a phase that \<open>Q\<close> relates to its result.
\<close>

definition moves ::
  "bool \<Rightarrow> (phase \<Rightarrow> bool) \<Rightarrow> ('s traced \<Rightarrow> 'r \<times> 's traced) \<Rightarrow> ('r \<Rightarrow> phase \<Rightarrow> bool) \<Rightarrow> bool" where
  "moves dry P m Q \<longleftrightarrow> (\<forall>s tr p r s' tr'. phase_path dry tr p \<and> P p \<and> m (s, tr) = (r, s', tr') \<longrightarrow>
     (\<exists>q. phase_path dry tr' q \<and> Q r q))"

lemma movesI:
  "(\<And>s tr p r s' tr'. phase_path dry tr p \<Longrightarrow> P p \<Longrightarrow> m (s, tr) = (r, s', tr') \<Longrightarrow>
      \<exists>q. phase_path dry tr' q \<and> Q r q) \<Longrightarrow> moves dry P m Q"
  unfolding moves_def by blast

lemma movesD:
  "moves dry P m Q \<Longrightarrow> phase_path dry tr p \<Longrightarrow> P p \<Longrightarrow> m (s, tr) = (r, s', tr') \<Longrightarrow>
     \<exists>q. phase_path dry tr' q \<and> Q r q"
  unfolding moves_def by blast

lemma moves_conseq:
  "moves dry P m Q \<Longrightarrow> (\<And>p. P' p \<Longrightarrow> P p) \<Longrightarrow> (\<And>r p. Q r p \<Longrightarrow> Q' r p) \<Longrightarrow> moves dry P' m Q'"
  unfolding moves_def by blast

lemma moves_recorded:
  assumes "\<And>p r. P p \<Longrightarrow> \<exists>q. phase_step dry p (ev r) q \<and> Q r q"
  shows "moves dry P (recorded ev m) Q"
proof (rule movesI)
  fix s tr p r s' tr'
  assume "phase_path dry tr p" "P p" "recorded ev m (s, tr) = (r, s', tr')"
  then show "\<exists>q. phase_path dry tr' q \<and> Q r q"
    using assms [of p r] by (auto simp: recorded_def split: prod.splits intro: phase_path.step)
qed

lemma moves_unrecorded: "(\<And>p r. P p \<Longrightarrow> Q r p) \<Longrightarrow> moves dry P (unrecorded m) Q"
  by (rule movesI) (auto simp: unrecorded_def split: prod.splits)

lemma moves_then:
  assumes "moves dry P m R" "\<And>r. moves dry (R r) (f r) Q"
  shows "moves dry P (\<lambda>st. case m st of (r, st) \<Rightarrow> f r st) Q"
proof (rule movesI)
  fix s tr p r s' tr'
  assume a: "phase_path dry tr p" "P p" "(case m (s, tr) of (r, st) \<Rightarrow> f r st) = (r, s', tr')"
  obtain r1 s1 tr1 where m: "m (s, tr) = (r1, s1, tr1)" by (metis prod.exhaust)
  from movesD [OF assms(1) a(1,2) m] obtain q where "phase_path dry tr1 q" "R r1 q" by blast
  with movesD [OF assms(2) this] m a(3) show "\<exists>q. phase_path dry tr' q \<and> Q r q" by simp
qed

lemma moves_sbind:
  assumes "moves dry P m R" "\<And>a. moves dry (R (Inr a)) (f a) Q" "\<And>e p. R (Inl e) p \<Longrightarrow> Q (Inl e) p"
  shows "moves dry P (sbind m f) Q"
proof -
  have "moves dry (R r) (\<lambda>st. case r of Inl e \<Rightarrow> (Inl e, st) | Inr a \<Rightarrow> f a st) Q" for r
    using assms(2,3) by (cases r) (auto intro!: movesI dest: movesD)
  from moves_then [OF assms(1) this]
  have "moves dry P (\<lambda>st. case m st of (r, st) \<Rightarrow> (case r of Inl e \<Rightarrow> (Inl e, st) | Inr a \<Rightarrow> f a st)) Q" .
  moreover have "sbind m f = (\<lambda>st. case m st of (r, st) \<Rightarrow> (case r of Inl e \<Rightarrow> (Inl e, st) | Inr a \<Rightarrow> f a st))"
    by (rule ext) (simp add: sbind_def split: prod.splits sum.splits)
  ultimately show ?thesis by simp
qed

lemma moves_smap_err:
  assumes "moves dry P m (\<lambda>r. Q (map_err g r))"
  shows "moves dry P (smap_err g m) Q"
  using moves_then [OF assms, of "\<lambda>r st. (map_err g r, st)" Q]
  by (simp add: smap_err_def [abs_def] moves_def)

lemma moves_sreturn: "(\<And>p. P p \<Longrightarrow> Q (Inr a) p) \<Longrightarrow> moves dry P (sreturn a) Q"
  by (rule movesI) (auto simp: sreturn_def)

lemma moves_result: "(\<And>p. P p \<Longrightarrow> Q r p) \<Longrightarrow> moves dry P (\<lambda>st. (r, st)) Q"
  by (rule movesI) auto

text \<open>Commands before an operation.\<close>

lemma moves_after_cmd:
  assumes "\<And>p. P p \<Longrightarrow> \<exists>q. phase_step dry p ev q \<and> R q" "moves dry R m Q"
  shows "moves dry P (\<lambda>st. m (recorded_cmd ev c st)) Q"
proof (rule movesI)
  fix s tr p r s' tr'
  assume a: "phase_path dry tr p" "P p" "m (recorded_cmd ev c (s, tr)) = (r, s', tr')"
  from assms(1) [OF a(2)] obtain q where "phase_path dry (tr @ [ev]) q" "R q"
    using phase_path.step [OF a(1)] by blast
  with movesD [OF assms(2) this] a(3) show "\<exists>q. phase_path dry tr' q \<and> Q r q" by (simp add: recorded_cmd_def)
qed

lemma moves_after_silent:
  assumes "moves dry P m Q" "\<And>s tr. snd (c (s, tr)) = tr"
  shows "moves dry P (\<lambda>st. m (c st)) Q"
proof (rule movesI)
  fix s tr p r s' tr'
  assume a: "phase_path dry tr p" "P p" "m (c (s, tr)) = (r, s', tr')"
  then have "m (fst (c (s, tr)), tr) = (r, s', tr')" using assms(2) [of s tr] by (metis prod.collapse)
  from movesD [OF assms(1) a(1,2) this] show "\<exists>q. phase_path dry tr' q \<and> Q r q" .
qed

lemma moves_sfor:
  assumes "\<And>x. x \<in> set xs \<Longrightarrow> moves dry P (f x) (\<lambda>r p. case r of Inr _ \<Rightarrow> P p | Inl e \<Rightarrow> Q (Inl e) p)"
    and "\<And>p. P p \<Longrightarrow> Q (Inr ()) p"
  shows "moves dry P (sfor xs f) Q"
  using assms(1)
proof (induction xs)
  case Nil
  then show ?case using assms(2) by (auto intro: movesI)
next
  case (Cons x xs)
  have "moves dry P (sbind (f x) (\<lambda>_. sfor xs f)) Q"
    by (rule moves_sbind [OF Cons.prems]) (use Cons in simp_all)
  then show ?case by (simp add: moves_def)
qed

lemma fold_silent: "(\<And>l s tr. snd (c l (s, tr)) = tr) \<Longrightarrow> snd (fold c ls (s, tr)) = tr"
  by (induction ls arbitrary: s tr) (simp, metis fold_simps(2) prod.collapse)

section \<open>The steps of the run\<close>

lemma print_silent [simp]: "snd (h_print (traced_host h) l (s, tr)) = tr"
  by (simp add: traced_host_def)

abbreviation (input) steps_to :: "phase \<Rightarrow> phase \<Rightarrow> ('e + 'a) \<Rightarrow> phase \<Rightarrow> bool" where
  "steps_to good bad r p \<equiv> p = (if is_ok r then good else bad)"

lemma moves_test:
  assumes "\<And>b. phase_step dry p (ev b) (if b then good else bad)"
  shows "moves dry (\<lambda>q. q = p) (recorded (\<lambda>r. ev (ok r)) m) (\<lambda>r q. q = (if ok r then good else bad))"
  using assms by (intro moves_recorded) auto

lemma moves_op:
  assumes "\<And>b. phase_step dry p (ev b) (if b then good else bad)"
  shows "moves dry (\<lambda>q. q = p) (recorded (\<lambda>r. ev (is_ok r)) m) (steps_to good bad)"
  using assms by (intro moves_recorded) auto

lemma is_ok_map_err [simp]: "is_ok (map_err g r) = is_ok r"
  by (cases r) simp_all

lemma moves_op_err:
  assumes "\<And>b. phase_step dry p (ev b) (if b then good else bad)"
  shows "moves dry (\<lambda>q. q = p) (smap_err g (recorded (\<lambda>r. ev (is_ok r)) m)) (steps_to good bad)"
  using moves_op [OF assms] by (intro moves_smap_err) simp

lemma register_esp_moves:
  "moves dry (\<lambda>p. p = EspFound) (register_esp (traced_host h) target esp) (steps_to EspDone Broken)"
proof -
  let ?h = "traced_host h"
  have "moves dry (\<lambda>p. p = EspFound) (verify_esp ?h esp) (steps_to EspReady Broken)"
    unfolding verify_esp_def
  proof (rule moves_sbind)
    show "moves dry (\<lambda>p. p = EspFound) (h_prepare_esp ?h esp) (steps_to EspReady Broken)"
      unfolding traced_host_def by simp (rule moves_op, rule phase_step.intros)
    show "moves dry (steps_to EspReady Broken (Inr prepared)) (\<lambda>s. (Inr (), h_print ?h (EspLine (esp_prepared_line prepared esp)) s))
        (steps_to EspReady Broken)" for prepared
      by (rule moves_after_silent [of _ _ "\<lambda>s. (Inr (), s)"]) (auto intro: moves_result)
  qed simp
  then have v: "moves dry (\<lambda>p. p = EspFound) (smap_err DeployErr (verify_esp ?h esp)) (steps_to EspReady Broken)"
    by (intro moves_smap_err) simp
  have b: "moves dry (\<lambda>p. p = EspReady) (\<lambda>s. case h_boot_entry ?h esp s of (r, s) \<Rightarrow>
      (Inr (), h_print ?h (BootEntryLine r esp) s)) (steps_to EspDone Broken)"
  proof (rule moves_then)
    show "moves dry (\<lambda>p. p = EspReady) (h_boot_entry ?h esp) (\<lambda>_ p. p = EspDone)"
      unfolding traced_host_def by simp (rule moves_recorded, auto intro: phase_step.intros)
    show "moves dry (\<lambda>p. p = EspDone) (\<lambda>s. (Inr (), h_print ?h (BootEntryLine r esp) s)) (steps_to EspDone Broken)" for r
      by (rule moves_after_silent [of _ _ "\<lambda>s. (Inr (), s)"]) (auto intro: moves_result)
  qed
  have reg: "moves dry (\<lambda>p. p = EspFound) (register_boot_entry (\<lambda>r esp. h_print ?h (BootEntryLine r esp))
      (verify_esp ?h) (h_boot_entry ?h) esp) (steps_to EspDone Broken)"
    unfolding register_boot_entry_def by (rule moves_sbind [OF v]) (use b in simp_all)
  show ?thesis
    unfolding register_esp_def Let_def
  proof (rule moves_then)
    show "moves dry (\<lambda>p. p = EspFound) (h_other_disks ?h target g) (\<lambda>_ p. p = EspFound)" for g
      unfolding traced_host_def by simp (rule moves_unrecorded, simp)
    show "moves dry (\<lambda>p. p = EspFound) (\<lambda>s. register_boot_entry (\<lambda>r esp. h_print ?h (BootEntryLine r esp))
        (verify_esp ?h) (h_boot_entry ?h) esp (fold (\<lambda>disk. h_print ?h (SharedGuidLine disk g)) ds s))
        (steps_to EspDone Broken)" for ds g
      by (rule moves_after_silent [OF reg]) (rule fold_silent, simp)
  qed
qed

lemma esp_step_moves:
  "moves dry (\<lambda>p. p = Rescanned) (esp_step (traced_host h) target)
     (\<lambda>r p. if is_ok r then p = Rescanned \<or> p = EspDone else p = Broken)"
proof -
  let ?h = "traced_host h"
  let ?found = "\<lambda>r p. p = (case r of Inr _ \<Rightarrow> EspFound | Inl e \<Rightarrow> if is_absent e then EspDone else Broken)"
  let ?Q = "\<lambda>r p. if is_ok r then p = Rescanned \<or> p = EspDone else p = Broken"
  have find: "moves dry (\<lambda>p. p = Rescanned) (h_find_esp ?h target) ?found"
    unfolding traced_host_def by simp
      (rule moves_recorded, auto intro!: phase_step.intros(12) split: sum.splits if_splits)
  have go: "moves dry (?found r) (\<lambda>s. case r of Inr esp \<Rightarrow> register_esp ?h target esp s
      | Inl e \<Rightarrow> if is_absent e then (Inr (), s) else (Inl (EspErr e), s)) ?Q" for r
  proof (cases r)
    case (Inl e)
    then show ?thesis by (auto intro: moves_result)
  next
    case (Inr esp)
    show ?thesis unfolding Inr sum.case
      by (rule moves_conseq [OF register_esp_moves]) (simp_all split: if_splits)
  qed
  have step: "moves dry (\<lambda>p. p = Rescanned) (esp_boot_entry_step efi (h_find_esp ?h target) (register_esp ?h target)) ?Q" for efi
  proof (cases efi)
    case False
    then show ?thesis unfolding esp_boot_entry_step_def by (auto intro: moves_result)
  next
    case True
    have "esp_boot_entry_step efi (h_find_esp ?h target) (register_esp ?h target) =
        (\<lambda>s. case h_find_esp ?h target s of (r, s) \<Rightarrow> (case r of Inr esp \<Rightarrow> register_esp ?h target esp s
          | Inl e \<Rightarrow> if is_absent e then (Inr (), s) else (Inl (EspErr e), s)))"
      using True by (intro ext) (simp add: esp_boot_entry_step_def split: prod.splits sum.splits)
    with moves_then [OF find go] show ?thesis by simp
  qed
  have efi: "moves dry (\<lambda>p. p = Rescanned) (h_efi_booted ?h) (\<lambda>_ p. p = Rescanned)"
    unfolding traced_host_def by simp (rule moves_unrecorded, simp)
  show ?thesis unfolding esp_step_def by (rule moves_then [OF efi step])
qed

lemma run_deploy_steps_moves:
  "moves False (\<lambda>p. p = Ready) (run_deploy_steps (traced_host h) target params user_data) (steps_to Injected Broken)"
  unfolding run_deploy_steps_def
proof (intro moves_sbind)
  let ?h = "traced_host h"
  show "moves False (\<lambda>p. p = Ready) (smap_err DeployErr (h_write_image ?h target (bp_target params)
      (bp_target_digest params) DEFAULT_MAX_IMAGE_BYTES)) (steps_to Imaged Broken)"
    unfolding traced_host_def by simp (rule moves_op_err, rule phase_step.intros, simp)
  show "moves False (steps_to Imaged Broken (Inr n)) (smap_err DeployErr (h_reread ?h target)) (steps_to Rescanned Broken)" for n
    unfolding traced_host_def by simp (rule moves_op_err, rule phase_step.intros)
  show "moves False (steps_to Rescanned Broken (Inr u)) (esp_step ?h target)
      (\<lambda>r p. if is_ok r then p = Rescanned \<or> p = EspDone else p = Broken)" for u
    by (rule moves_conseq [OF esp_step_moves]) simp_all
  show "moves False ((\<lambda>r p. if is_ok r then p = Rescanned \<or> p = EspDone else p = Broken) (Inr u))
      (smap_err OemErr (h_find_oem ?h target)) (steps_to OemFound Broken)" for u
    unfolding traced_host_def by simp
      (rule moves_smap_err, rule moves_recorded, rule exI, rule conjI, rule phase_step.intros(15), auto)
  show "moves False (steps_to OemFound Broken (Inr oem)) (smap_err DeployErr (h_inject ?h oem user_data (bp_provider_id params)))
      (steps_to Injected Broken)" for oem
    unfolding traced_host_def by simp (rule moves_op_err, rule phase_step.intros)
qed simp_all

text \<open>How a run may end.\<close>

definition run_end :: "bool \<Rightarrow> run_error + unit \<Rightarrow> phase \<Rightarrow> bool" where
  "run_end dry r p \<longleftrightarrow> (case r of
       Inr _ \<Rightarrow> dry \<and> p = Enrolled
     | Inl e \<Rightarrow> (case p of
           Setup \<Rightarrow> (\<exists>c. e = ClientErr c)
         | Stopped \<Rightarrow> True
         | Enrolled \<Rightarrow> e = BootstrapTimeout \<or> (\<exists>c. e = BootstrapAborted c)
         | Halted why \<Rightarrow> why = provision_failure_reason e
         | Rebooting \<Rightarrow> (\<exists>d. e = DeployErr d)
         | _ \<Rightarrow> False))"

lemma report_failure_moves:
  assumes "\<And>p. P p \<Longrightarrow> \<forall>why. phase_step dry p (EvFailed why) (Halted why)"
  shows "moves dry P (\<lambda>s. case report_provision_failure e (h_provision_failed (traced_host h) c) s of (e, s) \<Rightarrow> (Inl e, s))
    (run_end dry)"
proof (rule moves_then)
  let ?why = "provision_failure_reason e"
  have "moves dry P (h_provision_failed (traced_host h) c ?why) (\<lambda>_ p. p = Halted ?why)"
    unfolding traced_host_def by simp (rule moves_recorded, use assms in blast)
  from moves_then [OF this, of "\<lambda>_ s. (e, s)" "\<lambda>r p. r = e \<and> p = Halted ?why"]
  show "moves dry P (report_provision_failure e (h_provision_failed (traced_host h) c)) (\<lambda>r p. r = e \<and> p = Halted ?why)"
    by (simp add: report_provision_failure_def [abs_def] signore_def case_prod_beta moves_result)
  show "moves dry (\<lambda>p. r = e \<and> p = Halted ?why) (\<lambda>s. (Inl r, s)) (run_end dry)" for r
    by (rule moves_result) (auto simp: run_end_def)
qed

lemma deploy_and_confirm_moves:
  "moves False (\<lambda>p. p = Ready) (deploy_and_confirm (traced_host h) params c target user_data) (run_end False)"
proof -
  let ?h = "traced_host h"
  have dep: "moves False (\<lambda>p. p = Ready) (\<lambda>s. run_deploy_steps ?h target params user_data (h_print ?h BootstrapReceived s))
      (steps_to Injected Broken)"
    by (rule moves_after_silent [OF run_deploy_steps_moves]) simp
  have prov: "moves False (\<lambda>p. p = Injected) (smap_err ClientErr (h_provisioned ?h c)) (steps_to Confirmed Stopped)"
    unfolding traced_host_def by simp (rule moves_op_err, rule phase_step.intros)
  have reboot: "moves False (\<lambda>p. p = Confirmed) (h_reboot ?h) (\<lambda>_ p. p = Rebooting)"
    unfolding traced_host_def by simp (rule moves_recorded, auto intro: phase_step.intros)
  have last_step: "moves False (\<lambda>p. p = Confirmed) (\<lambda>s. case h_reboot ?h (h_print ?h RebootingLine (h_print ?h ProvisionedAccepted s))
      of (e, s) \<Rightarrow> (Inl (DeployErr e), s)) (run_end False)"
  proof (rule moves_then)
    show "moves False (\<lambda>p. p = Confirmed) (\<lambda>s. h_reboot ?h (h_print ?h RebootingLine (h_print ?h ProvisionedAccepted s)))
        (\<lambda>_ p. p = Rebooting)"
      by (rule moves_after_silent [OF reboot]) (metis print_silent prod.collapse)
  qed (rule moves_result, simp add: run_end_def)
  have "moves False (steps_to Injected Broken r) (\<lambda>s. case r of
      Inl e \<Rightarrow> (case report_provision_failure e (h_provision_failed ?h c) s of (e, s) \<Rightarrow> (Inl e, s))
    | Inr _ \<Rightarrow> sbind (smap_err ClientErr (h_provisioned ?h c)) (\<lambda>_ s.
        case h_reboot ?h (h_print ?h RebootingLine (h_print ?h ProvisionedAccepted s)) of (e, s) \<Rightarrow> (Inl (DeployErr e), s)) s)
    (run_end False)" for r
  proof (cases r)
    case (Inl e)
    then show ?thesis
      using report_failure_moves [of "\<lambda>p. p = Broken" False e h c] by (simp add: phase_step.intros)
  next
    case (Inr u)
    have "moves False (\<lambda>p. p = Injected) (sbind (smap_err ClientErr (h_provisioned ?h c)) (\<lambda>_ s.
        case h_reboot ?h (h_print ?h RebootingLine (h_print ?h ProvisionedAccepted s)) of (e, s) \<Rightarrow> (Inl (DeployErr e), s)))
        (run_end False)"
      by (rule moves_sbind [OF prov]) (use last_step in \<open>simp_all add: run_end_def\<close>)
    with Inr show ?thesis by simp
  qed
  from moves_then [OF dep this] show ?thesis
    by (simp add: deploy_and_confirm_def [abs_def] case_prod_beta sum.case_eq_if cong: if_cong)
qed

lemma poll_loop_moves:
  "moves False (\<lambda>p. p = Enrolled)
     (poll_loop k (h_sleep (traced_host h)) (h_fetch_bootstrap (traced_host h) c))
     (\<lambda>r p. case r of Inr _ \<Rightarrow> p = Ready
       | Inl e \<Rightarrow> p = Enrolled \<and> (e = BootstrapTimeout \<or> (\<exists>c. e = BootstrapAborted c)))"
proof (induction k)
  case 0
  show ?case by (auto intro: movesI)
next
  case (Suc k)
  let ?h = "traced_host h"
  let ?Q = "\<lambda>r p. case r of Inr _ \<Rightarrow> p = Ready
       | Inl e \<Rightarrow> p = Enrolled \<and> (e = BootstrapTimeout \<or> (\<exists>c. e = BootstrapAborted c))"
  let ?poll = "\<lambda>k. poll_loop k (h_sleep ?h) (h_fetch_bootstrap ?h c)"
  have fetch: "moves False (\<lambda>p. p = Enrolled) (h_fetch_bootstrap ?h c) (steps_to Ready Enrolled)"
    unfolding traced_host_def by simp (rule moves_op, rule phase_step.intros, simp)
  have again: "moves False (\<lambda>p. p = Enrolled) (\<lambda>s. ?poll k (if k \<noteq> 0 then h_sleep ?h POLL_INTERVAL s else s)) ?Q"
  proof (cases "k = 0")
    case True
    with Suc.IH show ?thesis by simp
  next
    case False
    have "moves False (\<lambda>p. p = Enrolled) (\<lambda>s. ?poll k (recorded_cmd EvSleep (h_sleep h POLL_INTERVAL) s)) ?Q"
      by (rule moves_after_cmd [OF _ Suc.IH]) (auto intro: phase_step.intros)
    with False show ?thesis by (simp add: traced_host_def)
  qed
  have "moves False (steps_to Ready Enrolled r) (\<lambda>s. case r of Inr data \<Rightarrow> (Inr data, s)
      | Inl e \<Rightarrow> (case classify_poll e of Abort \<Rightarrow> (Inl (BootstrapAborted e), s)
         | NotReady \<Rightarrow> ?poll k (if k \<noteq> 0 then h_sleep ?h POLL_INTERVAL s else s))) ?Q" for r
  proof (cases r)
    case (Inl e)
    with again show ?thesis by (cases "classify_poll e") (auto intro: moves_result)
  qed (auto intro: moves_result)
  from moves_then [OF fetch this] show ?case by (simp add: moves_def case_prod_beta sum.case_eq_if)
qed

lemma provision_moves:
  "moves False (\<lambda>p. p = Enrolled) (provision (traced_host h) params c target) (run_end False)"
  unfolding provision_def
proof (rule moves_sbind)
  let ?h = "traced_host h"
  show "moves False (\<lambda>p. p = Enrolled) (require_target target (h_provision_failed ?h c))
      (\<lambda>r p. case r of Inr _ \<Rightarrow> p = Enrolled | Inl e \<Rightarrow> run_end False (Inl e) p)"
  proof (cases target)
    case (Inl e)
    have "moves False (\<lambda>p. p = Enrolled)
        (\<lambda>s. case report_provision_failure (DiskErr e) (h_provision_failed ?h c) s of (e, s) \<Rightarrow> (Inl e, s)) (run_end False)"
      by (rule report_failure_moves) (simp add: phase_step.intros)
    then have "moves False (\<lambda>p. p = Enrolled)
        (\<lambda>s. case report_provision_failure (DiskErr e) (h_provision_failed ?h c) s of
           (e, s) \<Rightarrow> (Inl e :: run_error + target_disk, s))
        (\<lambda>r p. case r of Inr _ \<Rightarrow> p = Enrolled | Inl e \<Rightarrow> run_end False (Inl e) p)"
      by (auto simp: moves_def split: prod.splits)
    with Inl show ?thesis by (simp add: require_target_def [abs_def])
  next
    case (Inr t)
    then show ?thesis by (simp add: require_target_def [abs_def] moves_result)
  qed
  show "moves False ((\<lambda>r p. case r of Inr _ \<Rightarrow> p = Enrolled | Inl e \<Rightarrow> run_end False (Inl e) p) (Inr t))
      (sbind (poll_bootstrap (poll_budget_iterations (bp_timeout params)) (h_sleep ?h) (h_fetch_bootstrap ?h c))
        (deploy_and_confirm ?h params c t)) (run_end False)" for t
    unfolding poll_bootstrap_def [abs_def] sum.case
    by (rule moves_sbind [OF poll_loop_moves]) (use deploy_and_confirm_moves in \<open>auto simp: run_end_def\<close>)
qed simp

lemma enroll_moves: "moves dry (\<lambda>p. p = Setup) (enroll (traced_host h) dry params) (run_end dry)"
proof -
  let ?h = "traced_host h"
  have probe: "moves dry (\<lambda>p. p = Setup) (h_probe ?h) (\<lambda>_ p. p = Setup)"
    unfolding traced_host_def by simp (rule moves_recorded, auto intro: phase_step.intros)
  have sel: "moves dry (\<lambda>p. p = Setup) (h_select ?h pin n) (\<lambda>_ p. p = Setup)" for pin n
    unfolding traced_host_def by simp (rule moves_recorded, auto intro: phase_step.intros)
  have rep: "moves dry (\<lambda>p. p = Setup) (smap_err ClientErr (h_submit_report ?h c report)) (steps_to Enrolled Stopped)" for c report
    unfolding traced_host_def by simp (rule moves_op_err, rule phase_step.intros)
  have fin: "moves dry (\<lambda>p. p = Enrolled) (\<lambda>s. if dry then (Inr (), h_print ?h DryRunLine (h_print ?h ReportAccepted s))
      else provision ?h params c target (h_print ?h ReportAccepted s)) (run_end dry)" for c target
  proof (cases dry)
    case True
    have "moves dry (\<lambda>p. p = Enrolled) (\<lambda>s. (Inr (), h_print ?h DryRunLine (h_print ?h ReportAccepted s))) (run_end dry)"
      by (rule moves_after_silent [of _ _ "\<lambda>s. (Inr (), s)"])
        (auto intro: moves_result simp: run_end_def True, metis print_silent prod.collapse)
    with True show ?thesis by simp
  next
    case False
    have "moves False (\<lambda>p. p = Enrolled) (\<lambda>s. provision ?h params c target (h_print ?h ReportAccepted s)) (run_end False)"
      by (rule moves_after_silent [OF provision_moves]) simp
    with False show ?thesis by simp
  qed
  have sub: "moves dry (\<lambda>p. p = Setup) (sbind (smap_err ClientErr (h_submit_report ?h c report)) (\<lambda>_ s.
      let s = h_print ?h ReportAccepted s in
      if dry then (Inr (), h_print ?h DryRunLine s) else provision ?h params c target s)) (run_end dry)" for c report target
    by (rule moves_sbind [OF rep]) (use fin in \<open>simp_all add: run_end_def Let_def\<close>)
  have tail: "moves dry (\<lambda>p. p = Setup) (\<lambda>s. let s = print_target ?h target s in
      case h_client ?h params of Inl e \<Rightarrow> (Inl (ClientErr e), s)
      | Inr c \<Rightarrow> sbind (smap_err ClientErr (h_submit_report ?h c report)) (\<lambda>_ s.
          let s = h_print ?h ReportAccepted s in
          if dry then (Inr (), h_print ?h DryRunLine s) else provision ?h params c target s) s) (run_end dry)" for report target
  proof -
    have quiet: "snd (print_target ?h target (s, tr)) = tr" for s tr
      by (cases target) (simp_all add: print_target_def)
    show ?thesis
    proof (cases "h_client ?h params")
      case (Inl e)
      have "moves dry (\<lambda>p. p = Setup) (\<lambda>s. (Inl (ClientErr e), print_target ?h target s)) (run_end dry)"
        by (rule moves_after_silent [of _ _ "\<lambda>s. (Inl (ClientErr e), s)"])
          (auto intro: moves_result simp: run_end_def quiet)
      with Inl show ?thesis by (simp add: Let_def)
    next
      case (Inr c)
      from moves_after_silent [OF sub quiet] Inr show ?thesis by (simp add: Let_def)
    qed
  qed
  show ?thesis unfolding enroll_def by (intro moves_then [OF probe] moves_then [OF sel] tail)
qed

lemma mount_and_lock_moves:
  "moves False (\<lambda>p. p = Setup) (mount_and_lock (traced_host h)) (steps_to Setup Stopped)"
proof -
  let ?h = "traced_host h"
  have mounts: "moves False (\<lambda>p. p = Setup) (mount_pseudo_filesystems (h_mount ?h)) (steps_to Setup Stopped)"
    unfolding mount_pseudo_filesystems_def
  proof (rule moves_sfor)
    fix spec assume "spec \<in> set mount_specs"
    obtain src target fstype flags where spec: "spec = (src, target, fstype, flags)" by (metis prod.exhaust)
    have m: "moves False (\<lambda>p. p = Setup) (h_mount ?h src target fstype flags)
        (\<lambda>r p. p = (if is_ok r \<or> r = Inl EBUSY then Setup else Stopped))"
      using moves_test [of False Setup EvMount Setup Stopped "\<lambda>r. is_ok r \<or> r = Inl EBUSY", OF phase_step.intros(1)]
      by (simp add: traced_host_def)
    have t: "moves False (\<lambda>p. p = (if is_ok r \<or> r = Inl EBUSY then Setup else Stopped))
        (\<lambda>s. case r of Inr _ \<Rightarrow> (Inr (), s) | Inl e \<Rightarrow> if e = EBUSY then (Inr (), s) else (Inl (RunMount target e), s))
        (\<lambda>r p. case r of Inr _ \<Rightarrow> p = Setup | Inl e \<Rightarrow> steps_to Setup Stopped (Inl e) p)" for r
      by (cases r) (auto intro: movesI split: if_splits)
    have "mount_one (h_mount ?h) spec = (\<lambda>s. case h_mount ?h src target fstype flags s of (r, s) \<Rightarrow>
        (case r of Inr _ \<Rightarrow> (Inr (), s) | Inl e \<Rightarrow> if e = EBUSY then (Inr (), s) else (Inl (RunMount target e), s)))"
      by (rule ext) (simp add: mount_one_def spec split: prod.splits sum.splits)
    with moves_then [OF m t] show "moves False (\<lambda>p. p = Setup) (mount_one (h_mount ?h) spec)
        (\<lambda>r p. case r of Inr _ \<Rightarrow> p = Setup | Inl e \<Rightarrow> steps_to Setup Stopped (Inl e) p)" by simp
  qed simp
  have lock: "moves False (\<lambda>p. p = Setup) (\<lambda>s. (Inr (), h_lock_memory ?h s)) (steps_to Setup Stopped)"
    using moves_after_cmd [of "\<lambda>p. p = Setup" False EvLock "\<lambda>p. p = Setup" "\<lambda>s. (Inr (), s)" "steps_to Setup Stopped" "h_lock_memory h"]
    by (simp add: traced_host_def moves_result phase_step.intros)
  show ?thesis unfolding mount_and_lock_def by (rule moves_sbind [OF mounts]) (use lock in simp_all)
qed

lemma bring_up_moves:
  "moves False (\<lambda>p. p = Setup) (bring_up (traced_host h) params) (steps_to Setup Stopped)"
proof -
  let ?h = "traced_host h"
  have net: "moves False (\<lambda>p. p = Setup) (smap_err NetErr (h_network ?h params)) (steps_to Setup Stopped)"
    unfolding traced_host_def by simp (rule moves_op_err, rule phase_step.intros, simp)
  have res: "moves False (\<lambda>p. p = Setup) (h_resolv_conf ?h dns) (\<lambda>_ p. p = Setup)" for dns
    unfolding traced_host_def by simp (rule moves_recorded, auto intro: phase_step.intros)
  have res': "moves False (\<lambda>p. p = Setup) (\<lambda>s. h_resolv_conf ?h dns (h_print ?h l s)) (\<lambda>_ p. p = Setup)" for dns l
    by (rule moves_after_silent [OF res]) simp
  let ?after = "\<lambda>(r :: io_error + unit) s. case r of Inl e \<Rightarrow> (Inr () :: run_error + unit, h_print ?h (ResolvConfFailed e) s)
      | Inr _ \<Rightarrow> (Inr (), s)"
  have after: "moves False (\<lambda>p. p = Setup) (?after r) (steps_to Setup Stopped)" for r
  proof (cases r)
    case (Inl e)
    have "moves False (\<lambda>p. p = Setup) (\<lambda>s. (Inr () :: run_error + unit, h_print ?h (ResolvConfFailed e) s)) (steps_to Setup Stopped)"
      by (rule moves_after_silent [of _ _ "\<lambda>s. (Inr (), s)"]) (auto intro: moves_result)
    with Inl show ?thesis by simp
  qed (simp add: moves_result)
  have drivers: "h_load_drivers ?h b = recorded_cmd EvDrivers (h_load_drivers h b)" for b
    by (simp add: traced_host_def)
  let ?net = "sbind (smap_err NetErr (h_network ?h params)) (\<lambda>net s.
      case h_resolv_conf ?h (nc_dns net) (h_print ?h (NetworkUp net) s) of (r, s) \<Rightarrow> ?after r s)"
  have "moves False (\<lambda>p. p = Setup) ?net (steps_to Setup Stopped)"
    by (rule moves_sbind [OF net]) (use moves_then [OF res' after] in simp_all)
  then have "moves False (\<lambda>p. p = Setup) (\<lambda>s. ?net (recorded_cmd EvDrivers (h_load_drivers h (bp_bootif params)) s)) (steps_to Setup Stopped)"
    by (rule moves_after_cmd [rotated]) (auto intro: phase_step.intros)
  moreover have "bring_up ?h params = (\<lambda>s. ?net (recorded_cmd EvDrivers (h_load_drivers h (bp_bootif params)) s))"
    by (rule ext) (simp add: bring_up_def Let_def drivers case_prod_beta sum.case_eq_if)
  ultimately show ?thesis by simp
qed

lemma run_moves: "moves dry (\<lambda>p. p = Setup) (run (traced_host h) dry) (run_end dry)"
proof -
  have first: "moves dry (\<lambda>p. p = Setup) (if dry then sreturn () else mount_and_lock (traced_host h)) (steps_to Setup Stopped)"
    using mount_and_lock_moves by (cases dry) (simp_all add: moves_sreturn)
  have cmd: "moves dry (\<lambda>p. p = Setup) (smap_err CmdlineErr (h_cmdline (traced_host h))) (steps_to Setup Stopped)"
    unfolding traced_host_def by simp (rule moves_op_err, rule phase_step.intros)
  have up: "moves dry (\<lambda>p. p = Setup) (if dry then sreturn () else bring_up (traced_host h) params) (steps_to Setup Stopped)" for params
    using bring_up_moves by (cases dry) (simp_all add: moves_sreturn)
  show ?thesis unfolding run_def
  proof (rule moves_sbind [OF first])
    show "moves dry (steps_to Setup Stopped (Inr u)) (sbind (smap_err CmdlineErr (h_cmdline (traced_host h))) (\<lambda>params.
       sbind (if dry then sreturn () else bring_up (traced_host h) params) (\<lambda>_. enroll (traced_host h) dry params)))
       (run_end dry)" for u
    proof (simp, rule moves_sbind [OF cmd])
      show "moves dry (steps_to Setup Stopped (Inr params))
         (sbind (if dry then sreturn () else bring_up (traced_host h) params) (\<lambda>_. enroll (traced_host h) dry params))
         (run_end dry)" for params
        by (simp only: is_ok_simps if_True, rule moves_sbind [OF up]) (use enroll_moves in \<open>simp_all add: run_end_def\<close>)
    qed (simp add: run_end_def)
  qed (simp add: run_end_def)
qed

section \<open>Recording changes nothing\<close>

lemma related_recorded: "related (\<lambda>st s. fst st = s) (=) (recorded ev m) m"
  by (auto simp: related_def recorded_def split: prod.splits)

lemma related_unrecorded: "related (\<lambda>st s. fst st = s) (=) (unrecorded m) m"
  by (auto simp: related_def unrecorded_def split: prod.splits)

interpretation traced: related_hosts "traced_host h" h "\<lambda>st s. fst st = s" "\<lambda>st s. fst st = s" "(=)" "(=)" "(=)" for h
  by unfold_locales
    (auto simp: traced_host_def related_recorded related_unrecorded recorded_cmd_def sum.rel_eq related_cmd_def)

lemma run_erases: "fst (run (traced_host h) dry (s, tr)) = fst (run h dry s) \<and>
    fst (snd (run (traced_host h) dry (s, tr))) = snd (run h dry s)"
  using takesD [OF traced.run, of "(s, tr)" s] by simp

section \<open>Order of the milestones\<close>

definition MILESTONES :: "event list" where
  "MILESTONES = [EvReport True, EvFetch True, EvWrite True, EvReread True, EvFindOem True, EvInject True,
     EvProvisioned True, EvReboot]"

text \<open>How many of them a phase has behind it.\<close>

fun passed :: "phase \<Rightarrow> nat set" where
  "passed Setup = {0}"
| "passed Enrolled = {1}"
| "passed Ready = {2}"
| "passed Imaged = {3}"
| "passed Rescanned = {4}"
| "passed EspFound = {4}"
| "passed EspReady = {4}"
| "passed EspDone = {4}"
| "passed OemFound = {5}"
| "passed Injected = {6}"
| "passed Confirmed = {7}"
| "passed Rebooting = {8}"
| "passed Stopped = {0, 6}"
| "passed Broken = {2, 3, 4, 5}"
| "passed (Halted why) = {1, 2, 3, 4, 5}"

definition milestones :: "event list \<Rightarrow> event list" where
  "milestones tr = filter (\<lambda>e. e \<in> set MILESTONES) tr"

lemma take_milestones [simp]:
  "take 1 MILESTONES = [EvReport True]" "take 2 MILESTONES = [EvReport True, EvFetch True]"
  "take (Suc 0) MILESTONES = [EvReport True]"
  "take 3 MILESTONES = [EvReport True, EvFetch True, EvWrite True]"
  "take 4 MILESTONES = [EvReport True, EvFetch True, EvWrite True, EvReread True]"
  "take 5 MILESTONES = [EvReport True, EvFetch True, EvWrite True, EvReread True, EvFindOem True]"
  "take 6 MILESTONES = [EvReport True, EvFetch True, EvWrite True, EvReread True, EvFindOem True, EvInject True]"
  "take 7 MILESTONES = [EvReport True, EvFetch True, EvWrite True, EvReread True, EvFindOem True, EvInject True,
     EvProvisioned True]"
  "take 8 MILESTONES = MILESTONES"
  by (simp_all add: MILESTONES_def)

lemma milestones_snoc: "milestones (tr @ [e]) = milestones tr @ (if e \<in> set MILESTONES then [e] else [])"
  by (simp add: milestones_def)

lemma milestone_events [simp]:
  "e \<in> set MILESTONES \<longleftrightarrow> e \<in> {EvReport True, EvFetch True, EvWrite True, EvReread True, EvFindOem True,
     EvInject True, EvProvisioned True, EvReboot}"
  by (simp add: MILESTONES_def)

lemma phase_step_milestone:
  "phase_step dry p e q \<Longrightarrow> n \<in> passed p \<Longrightarrow>
     \<exists>m\<in>passed q. take n MILESTONES @ (if e \<in> set MILESTONES then [e] else []) = take m MILESTONES"
  by (induction rule: phase_step.induct) (auto simp: MILESTONES_def split: if_splits)

lemma phase_path_milestones:
  "phase_path dry tr p \<Longrightarrow> \<exists>n\<in>passed p. milestones tr = take n MILESTONES"
proof (induction rule: phase_path.induct)
  case start
  then show ?case by (simp add: milestones_def)
next
  case (step tr p e q)
  then obtain n where "n \<in> passed p" "milestones tr = take n MILESTONES" by blast
  with phase_step_milestone [OF step.hyps(2)] show ?case by (simp only: milestones_snoc)
qed

text \<open>What a dry run may ask of the host.\<close>

definition report_only :: "event \<Rightarrow> bool" where
  "report_only e \<longleftrightarrow> (case e of EvCmdline _ \<Rightarrow> True | EvProbe \<Rightarrow> True | EvSelect _ \<Rightarrow> True | EvReport _ \<Rightarrow> True
     | _ \<Rightarrow> False)"

lemma dry_step_report_only:
  "phase_step dry p e q \<Longrightarrow> dry \<Longrightarrow> p \<in> {Setup, Enrolled, Stopped} \<Longrightarrow> q \<in> {Setup, Enrolled, Stopped} \<and> report_only e"
  by (induction rule: phase_step.induct) (auto simp: report_only_def)

lemma dry_path_report_only:
  "phase_path dry tr p \<Longrightarrow> dry \<Longrightarrow> p \<in> {Setup, Enrolled, Stopped} \<and> list_all report_only tr"
proof (induction rule: phase_path.induct)
  case (step tr p e q)
  with dry_step_report_only [OF step.hyps(2)] show ?case by simp
qed simp

section \<open>Properties\<close>

text \<open>
  C2: refinement of the phase machine. Recorded on any host, a run gives the same result and
  the same host as without recording, and what it asks of the host is a path of the phase
  machine from \<open>Setup\<close> that ends as the result says: a dry run that succeeds has only
  enrolled; a failed deploy step or a missing disk has been reported to the controller with
  the fixed reason of that failure; a reboot is the last thing asked. The successful report,
  fetch, write, re-read, \<open>COS_OEM\<close> lookup, injection and callback, and the reboot, come in
  that order, none of them skipped or repeated. A dry run reads the command line, probes,
  selects and reports, and nothing else.
\<close>

theorem run_refines_phases:
  "case run (traced_host h) dry_run (s, []) of (r, (s', tr)) \<Rightarrow>
     run h dry_run s = (r, s') \<and>
     (\<exists>p n. phase_path dry_run tr p \<and> run_end dry_run r p \<and>
        n \<in> passed p \<and> milestones tr = take n MILESTONES) \<and>
     (if dry_run then list_all report_only tr else True)"
proof -
  obtain r s' tr where run: "run (traced_host h) dry_run (s, []) = (r, s', tr)" by (metis prod.exhaust)
  from movesD [OF run_moves phase_path.start _ this] obtain p where p: "phase_path dry_run tr p" "run_end dry_run r p"
    by auto
  moreover from phase_path_milestones [OF p(1)] obtain n where "n \<in> passed p" "milestones tr = take n MILESTONES" by blast
  moreover have "run h dry_run s = (r, s')"
    using run_erases [of h dry_run s "[]"] run by (simp add: prod_eq_iff)
  moreover have "dry_run \<Longrightarrow> list_all report_only tr" using dry_path_report_only [OF p(1)] by simp
  ultimately show ?thesis using run by auto
qed

end
