(* ===== verification/Liveness.thy ===== *)
theory Liveness
  imports Phases
begin

text \<open>
  When nothing fatal fails, a run of \<open>src/run.rs\<close> reaches the reboot: what it tolerates on the
  way, and that the order of its steps then has all of them.
\<close>

section \<open>A healthy host\<close>

text \<open>
  No operation that a run depends on fails. Mounts may find the file system already mounted,
  the resolver file and the boot entry may fail, the ESP may be absent, and the bootstrap data may
  be late: from a state \<open>s\<close>, at most \<open>late s\<close> more fetches find it not ready.
\<close>

definition always :: "('r \<Rightarrow> bool) \<Rightarrow> ('s \<Rightarrow> 'r \<times> 's) \<Rightarrow> bool" where
  "always P m \<longleftrightarrow> (\<forall>s. P (fst (m s)))"

definition fetch_late :: "('s \<Rightarrow> nat) \<Rightarrow> ('s \<Rightarrow> (client_error + bytes) \<times> 's) \<Rightarrow> bool" where
  "fetch_late late fetch \<longleftrightarrow> (\<forall>s. case fetch s of
     (Inr _, _) \<Rightarrow> True | (Inl e, s') \<Rightarrow> classify_poll e = NotReady \<and> late s' < late s)"

definition healthy :: "('s, 'c) host \<Rightarrow> ('s \<Rightarrow> nat) \<Rightarrow> boot_params \<Rightarrow> bool" where
  "healthy h late p \<longleftrightarrow>
     (\<forall>src target fstype flags. always (\<lambda>r. is_ok r \<or> r = Inl EBUSY) (h_mount h src target fstype flags)) \<and>
     always (\<lambda>r. r = Inr p) (h_cmdline h) \<and>
     always is_ok (h_network h p) \<and> is_ok (h_client h p) \<and>
     (\<forall>n. always is_ok (h_select h (bp_disk p) n)) \<and>
     (\<forall>c report. always is_ok (h_submit_report h c report)) \<and>
     (\<forall>c. fetch_late late (h_fetch_bootstrap h c)) \<and>
     (\<forall>ms s. late (h_sleep h ms s) \<le> late s) \<and>
     (\<forall>s. late s < poll_budget_iterations (bp_timeout p)) \<and>
     (\<forall>t url dig n. always is_ok (h_write_image h t url dig n)) \<and>
     (\<forall>t. always is_ok (h_reread h t)) \<and>
     (\<forall>t. always (\<lambda>r. case r of Inr _ \<Rightarrow> True | Inl e \<Rightarrow> is_absent e) (h_find_esp h t)) \<and>
     (\<forall>esp. always is_ok (h_prepare_esp h esp)) \<and>
     (\<forall>t. always is_ok (h_find_oem h t)) \<and>
     (\<forall>oem data. always is_ok (h_inject h oem data (bp_provider_id p))) \<and>
     (\<forall>c. always is_ok (h_provisioned h c))"

section \<open>Success through the run\<close>

abbreviation (input) succeeds :: "('s \<Rightarrow> ('e + 'a) \<times> 's) \<Rightarrow> bool" where
  "succeeds m \<equiv> always is_ok m"

text \<open>The operation ends by asking for the reboot.\<close>

definition ends_rebooting :: "('s, 'c) host \<Rightarrow> ('s \<Rightarrow> (run_error + 'a) \<times> 's) \<Rightarrow> bool" where
  "ends_rebooting h m \<longleftrightarrow> (\<forall>s. \<exists>s1. m s = (Inl (DeployErr (fst (h_reboot h s1))), snd (h_reboot h s1)))"

lemma succeedsE:
  assumes "succeeds m"
  obtains a s' where "m s = (Inr a, s')"
  using assms unfolding always_def is_ok_iff by (metis prod.collapse)

lemma succeeds_sbind: "succeeds m \<Longrightarrow> (\<And>a. succeeds (f a)) \<Longrightarrow> succeeds (sbind m f)"
  by (simp add: always_def sbind_def is_ok_iff split: prod.splits sum.splits)
    (metis fst_conv sum.distinct(1))

lemma succeeds_smap_err: "succeeds m \<Longrightarrow> succeeds (smap_err g m)"
  by (simp add: always_def smap_err_def case_prod_beta)

lemma succeeds_sfor: "(\<And>x. succeeds (f x)) \<Longrightarrow> succeeds (sfor xs f)"
proof (induction xs)
  case (Cons x xs)
  have "succeeds (sbind (f x) (\<lambda>_. sfor xs f))" by (rule succeeds_sbind [OF Cons.prems Cons.IH [OF Cons.prems]])
  then show ?case by (simp add: always_def)
qed (simp add: always_def)

lemma succeeds_result: "succeeds (\<lambda>s. (Inr a, c s))"
  by (simp add: always_def)

lemma ends_sbind:
  assumes "succeeds m" "\<And>a. ends_rebooting h (f a)"
  shows "ends_rebooting h (sbind m f)"
  unfolding ends_rebooting_def
proof
  fix s
  obtain a s' where "m s = (Inr a, s')" using succeedsE [OF assms(1)] .
  with assms(2) [unfolded ends_rebooting_def] show
    "\<exists>s1. sbind m f s = (Inl (DeployErr (fst (h_reboot h s1))), snd (h_reboot h s1))"
    by (simp add: sbind_def)
qed

lemma ends_after: "ends_rebooting h m \<Longrightarrow> ends_rebooting h (\<lambda>s. m (c s))"
  by (simp add: ends_rebooting_def)

lemma poll_succeeds:
  assumes "fetch_late late fetch"
    and "\<And>ms s. late (sleep ms s) \<le> late s"
  shows "late s < k \<Longrightarrow> is_ok (fst (poll_loop k sleep fetch s))"
proof (induction k arbitrary: s)
  case (Suc k)
  obtain r s1 where f: "fetch s = (r, s1)" by fastforce
  show ?case
  proof (cases r)
    case (Inl e)
    let ?s2 = "if k \<noteq> 0 then sleep POLL_INTERVAL s1 else s1"
    from assms(1) [unfolded fetch_late_def, rule_format, of s] f Inl
    have e: "classify_poll e = NotReady" "late s1 < late s" by simp_all
    moreover have "late ?s2 \<le> late s1" using assms(2) by simp
    ultimately have "late ?s2 < k" using Suc.prems by linarith
    from Suc.IH [OF this] f Inl e show ?thesis by simp
  qed (use f in simp)
qed simp

section \<open>The steps\<close>

lemma healthy_mounts: "healthy h late p \<Longrightarrow> succeeds (mount_and_lock h)"
proof -
  assume healthy: "healthy h late p"
  have "succeeds (mount_one (h_mount h) spec)" for spec
  proof (cases spec)
    case (fields src target fstype flags)
    with healthy have "always (\<lambda>r. is_ok r \<or> r = Inl EBUSY) (h_mount h src target fstype flags)"
      by (simp add: healthy_def)
    then show ?thesis
      by (auto simp: fields mount_one_def always_def is_ok_iff split: prod.splits sum.splits)
        (metis fst_conv sum.distinct(1) sum.inject(1))+
  qed
  then show ?thesis
    unfolding mount_and_lock_def mount_pseudo_filesystems_def
    by (intro succeeds_sbind succeeds_sfor succeeds_result)
qed

lemma healthy_bring_up: "healthy h late p \<Longrightarrow> succeeds (bring_up h p)"
proof -
  assume "healthy h late p"
  then have net: "succeeds (smap_err NetErr (h_network h p))" by (intro succeeds_smap_err) (simp add: healthy_def)
  have "succeeds (sbind (smap_err NetErr (h_network h p)) (\<lambda>net s.
      let s = h_print h (NetworkUp net) s in
      case h_resolv_conf h (nc_dns net) s of
        (Inl e, s) \<Rightarrow> (Inr () :: run_error + unit, h_print h (ResolvConfFailed e) s)
      | (Inr _, s) \<Rightarrow> (Inr (), s)))"
    by (rule succeeds_sbind [OF net]) (simp add: always_def Let_def split: prod.splits sum.splits)
  then show ?thesis by (simp add: always_def bring_up_def)
qed

lemma healthy_esp_step: "healthy h late p \<Longrightarrow> succeeds (esp_step h t)"
proof -
  assume healthy: "healthy h late p"
  have "succeeds (verify_esp h esp)" for esp
    unfolding verify_esp_def
    by (rule succeeds_sbind) (use healthy in \<open>simp_all add: healthy_def succeeds_result\<close>)
  then have reg: "succeeds (register_boot_entry (\<lambda>r esp. h_print h (BootEntryLine r esp)) (verify_esp h) (h_boot_entry h) esp)" for esp
    unfolding register_boot_entry_def
    by (intro succeeds_sbind succeeds_smap_err) (simp_all add: always_def split: prod.splits)
  have r: "is_ok (fst (register_esp h t esp s))" for esp s
    using reg by (simp add: register_esp_def Let_def always_def split: prod.splits)
  have "case fst (h_find_esp h t s) of Inr _ \<Rightarrow> True | Inl e \<Rightarrow> is_absent e" for s
    using healthy by (simp add: healthy_def always_def)
  with r show ?thesis
    unfolding always_def esp_step_def esp_boot_entry_step_def
    by (auto split: prod.splits sum.splits) (metis fst_conv old.sum.simps(5))+
qed

lemma healthy_deploy_steps:
  assumes "healthy h late p"
  shows "succeeds (run_deploy_steps h t p data)"
  unfolding run_deploy_steps_def
  by (intro succeeds_sbind succeeds_smap_err healthy_esp_step [OF assms])
    (use assms in \<open>simp_all add: healthy_def\<close>)

lemma healthy_deploy:
  assumes "healthy h late p"
  shows "ends_rebooting h (deploy_and_confirm h p c t data)"
proof -
  have prov: "succeeds (smap_err ClientErr (h_provisioned h c))"
    by (rule succeeds_smap_err) (use assms in \<open>simp add: healthy_def\<close>)
  have rb: "ends_rebooting h (sbind (smap_err ClientErr (h_provisioned h c)) (\<lambda>_ s.
      case h_reboot h (h_print h RebootingLine (h_print h ProvisionedAccepted s)) of (e, s) \<Rightarrow>
        (Inl (DeployErr e) :: run_error + unit, s)))"
    by (rule ends_sbind [OF prov]) (auto simp: ends_rebooting_def case_prod_beta)
  show ?thesis unfolding ends_rebooting_def
  proof
    fix s
    obtain u s1 where "run_deploy_steps h t p data (h_print h BootstrapReceived s) = (Inr u, s1)"
      using succeedsE [OF healthy_deploy_steps [OF assms]] .
    with rb show "\<exists>s1. deploy_and_confirm h p c t data s = (Inl (DeployErr (fst (h_reboot h s1))), snd (h_reboot h s1))"
      by (simp add: deploy_and_confirm_def ends_rebooting_def)
  qed
qed

lemma healthy_provision:
  assumes "healthy h late p"
  shows "ends_rebooting h (provision h p c (Inr t))"
proof -
  let ?k = "poll_budget_iterations (bp_timeout p)"
  have "is_ok (fst (poll_loop ?k (h_sleep h) (h_fetch_bootstrap h c) s))" for s
    by (rule poll_succeeds [of late "h_fetch_bootstrap h c"]) (use assms in \<open>simp_all add: healthy_def\<close>)
  then have "succeeds (poll_bootstrap ?k (h_sleep h) (h_fetch_bootstrap h c))"
    by (simp add: always_def poll_bootstrap_def)
  then have "ends_rebooting h (sbind (poll_bootstrap ?k (h_sleep h) (h_fetch_bootstrap h c)) (deploy_and_confirm h p c t))"
    by (rule ends_sbind) (rule healthy_deploy [OF assms])
  then show ?thesis by (simp add: provision_def ends_rebooting_def sbind_def [of "require_target _ _"] require_target_def)
qed

lemma healthy_enroll:
  assumes "healthy h late p"
  shows "ends_rebooting h (enroll h False p)"
  unfolding ends_rebooting_def
proof
  fix s
  obtain report s1 where r: "h_probe h s = (report, s1)" by fastforce
  have "succeeds (h_select h (bp_disk p) 0)" using assms by (simp add: healthy_def)
  from succeedsE [OF this] obtain t s2 where t: "h_select h (bp_disk p) 0 s1 = (Inr t, s2)" .
  obtain c where c: "h_client h p = Inr c" using assms by (auto simp: healthy_def is_ok_iff)
  have "succeeds (smap_err ClientErr (h_submit_report h c report))"
    by (rule succeeds_smap_err) (use assms in \<open>simp add: healthy_def\<close>)
  then have "ends_rebooting h (sbind (smap_err ClientErr (h_submit_report h c report))
      (\<lambda>_ s. provision h p c (Inr t) (h_print h ReportAccepted s)))"
    by (rule ends_sbind) (rule ends_after [OF healthy_provision [OF assms]])
  with r t c show "\<exists>s1. enroll h False p s = (Inl (DeployErr (fst (h_reboot h s1))), snd (h_reboot h s1))"
    by (simp add: enroll_def Let_def ends_rebooting_def)
qed

lemma healthy_run:
  assumes "healthy h late p"
  shows "ends_rebooting h (run h False)"
proof -
  have cmd: "smap_err CmdlineErr (h_cmdline h) s = (Inr p, snd (h_cmdline h s))" for s
    using assms by (simp add: smap_err_def case_prod_beta healthy_def always_def)
  have "ends_rebooting h (sbind (bring_up h p) (\<lambda>_. enroll h False p))"
    by (rule ends_sbind [OF healthy_bring_up [OF assms]]) (rule healthy_enroll [OF assms])
  then have "ends_rebooting h (sbind (smap_err CmdlineErr (h_cmdline h)) (\<lambda>p. sbind (bring_up h p) (\<lambda>_. enroll h False p)))"
    by (simp add: ends_rebooting_def sbind_def [of "smap_err _ _"] cmd)
  with ends_sbind [OF healthy_mounts [OF assms], of h] show ?thesis by (simp add: run_def)
qed

text \<open>Recording keeps a host healthy.\<close>

lemma always_recorded: "always P m \<Longrightarrow> always P (recorded ev m)" "always P m \<Longrightarrow> always P (unrecorded m)"
  by (auto simp: always_def recorded_def unrecorded_def split: prod.splits) (metis fst_conv)+

lemma healthy_traced:
  assumes "healthy h late p"
  shows "healthy (traced_host h) (\<lambda>st. late (fst st)) p"
proof -
  have fetch: "fetch_late late m \<Longrightarrow> fetch_late (\<lambda>st. late (fst st)) (recorded ev m)" for m :: "'a \<Rightarrow> (client_error + bytes) \<times> 'a" and ev
    by (auto simp: fetch_late_def recorded_def split: prod.splits sum.splits)
  show ?thesis
    using assms fetch unfolding healthy_def traced_host_def
    by (simp add: always_recorded recorded_cmd_def split: prod.splits)
qed

lemma phase_step_reboot: "phase_step dry p e q \<Longrightarrow> e = EvReboot \<Longrightarrow> q = Rebooting"
  by (induction rule: phase_step.induct) auto

lemma path_to_reboot:
  assumes "phase_path dry (tr @ [EvReboot]) q"
  shows "milestones (tr @ [EvReboot]) = MILESTONES"
proof -
  from assms have "q = Rebooting" by (cases rule: phase_path.cases) (auto dest: phase_step_reboot)
  with phase_path_milestones [OF assms] show ?thesis by simp
qed

text \<open>A host that is healthy, with the bootstrap data ready at the third fetch.\<close>

definition demo_params :: boot_params where
  "demo_params = \<lparr>bp_api = ''https://c'', bp_namespace = ''n'', bp_host = ''h'', bp_token = secret_new ''t'',
     bp_target = ''http://i'', bp_target_digest = ''sha256:00'', bp_provider_id = ''b7://n/h'', bp_ca = ''ca'',
     bp_disk = None, bp_bootif = None, bp_ip = None, bp_timeout = Some 60, bp_debug = False\<rparr>"

definition demo_target :: target_disk where
  "demo_target = \<lparr>t_kname = ''vda'', t_size_bytes = 1000, t_dev_number = ''253:0''\<rparr>"

definition demo_oem :: oem_partition where
  "demo_oem = \<lparr>oem_kname = ''vda2'', oem_dev_number = ''253:2''\<rparr>"

definition demo_config :: net_config where
  "demo_config = \<lparr>nc_iface = ''eth0'', nc_ip = 1, nc_prefix_len = 24, nc_gateway = None, nc_dns = []\<rparr>"

definition demo_report :: inspection_report where
  "demo_report = assemble [] False [] []"

definition demo_run_host :: "(nat, unit) host" where
  "demo_run_host = \<lparr>
     h_mount = (\<lambda>_ target _ _ s. (if target = ''/dev'' then Inl EBUSY else Inr (), s)),
     h_lock_memory = (\<lambda>s. s), h_cmdline = (\<lambda>s. (Inr demo_params, s)), h_load_drivers = (\<lambda>_ s. s),
     h_network = (\<lambda>_ s. (Inr demo_config, s)), h_resolv_conf = (\<lambda>_ s. (Inl (OsError EROFS), s)),
     h_probe = (\<lambda>s. (demo_report, s)), h_select = (\<lambda>_ _ s. (Inr demo_target, s)), h_client = (\<lambda>_. Inr ()),
     h_submit_report = (\<lambda>_ _ s. (Inr (), s)),
     h_fetch_bootstrap = (\<lambda>_ s. if s = 0 then (Inr [1, 2], 0) else (Inl (Http 404), min (s - 1) 1)),
     h_sleep = (\<lambda>_ s. s), h_write_image = (\<lambda>_ _ _ _ s. (Inr 1000, s)), h_reread = (\<lambda>_ s. (Inr (), s)),
     h_efi_booted = (\<lambda>s. (True, s)), h_find_esp = (\<lambda>_ s. (Inl (NoGpt ''vda''), s)),
     h_other_disks = (\<lambda>_ _ s. ([], s)),
     h_prepare_esp = (\<lambda>_ s. (Inr \<lparr>ep_marker = ''m'', ep_startup_nsh = Written False\<rparr>, s)),
     h_boot_entry = (\<lambda>_ s. (Inl NoFreeEntry, s)), h_find_oem = (\<lambda>_ s. (Inr demo_oem, s)),
     h_inject = (\<lambda>_ _ _ s. (Inr (), s)), h_provisioned = (\<lambda>_ s. (Inr (), s)),
     h_provision_failed = (\<lambda>_ _ s. (Inr (), s)), h_reboot = (\<lambda>s. (RebootFailed 1, s)), h_print = (\<lambda>_ s. s)\<rparr>"

lemma demo_healthy: "healthy demo_run_host (\<lambda>s. min s 2) demo_params"
  by (auto simp: healthy_def demo_run_host_def always_def fetch_late_def classify_poll_def demo_params_def
      poll_budget_iterations_def POLL_INTERVAL_def is_absent_def Let_def)

section \<open>Properties\<close>

text \<open>
  C6: a healthy run gets to the reboot. When no operation the run depends on fails and the
  bootstrap data comes within the budget's polls, the run writes the image, injects the
  configuration, confirms and asks for the reboot: the recorded milestones are all of them, each
  once and in order, and the reboot is last. File systems that are already mounted, a resolver
  file that cannot be written, an absent ESP, a refused boot entry and fetches that find the
  data not ready do not stop it.
\<close>

theorem healthy_host_reboots:
  assumes "healthy h late p"
  shows "case run (traced_host h) False (s, []) of (r, (s', tr)) \<Rightarrow>
    milestones tr = MILESTONES \<and> last tr = EvReboot \<and> (\<exists>e. r = Inl (DeployErr e))"
proof -
  from healthy_run [OF healthy_traced [OF assms]] obtain s1 tr1 where
    run: "run (traced_host h) False (s, []) =
      (Inl (DeployErr (fst (h_reboot (traced_host h) (s1, tr1)))), snd (h_reboot (traced_host h) (s1, tr1)))"
    unfolding ends_rebooting_def by (metis prod.collapse)
  then have "run (traced_host h) False (s, []) =
      (Inl (DeployErr (fst (h_reboot h s1))), snd (h_reboot h s1), tr1 @ [EvReboot])"
    by (simp add: traced_host_def recorded_def case_prod_beta)
  moreover from movesD [OF run_moves phase_path.start _ this] obtain q where "phase_path False (tr1 @ [EvReboot]) q" by auto
  ultimately show ?thesis using path_to_reboot by simp
qed

theorem healthy_host_reboots_witness:
  "case run (traced_host demo_run_host) False (2, []) of (r, (s', tr)) \<Rightarrow>
     milestones tr = MILESTONES \<and> last tr = EvReboot"
  using healthy_host_reboots [OF demo_healthy, of 2] by (auto split: prod.splits)

end
