(* ===== verification/Entry.thy ===== *)
theory Entry
  imports Phases
begin

text \<open>
  \<open>src/main.rs\<close>: the entry point of PID 1. \<open>Parked\<close> is the endless loop of \<open>park\<close>.
\<close>

datatype main_end = Finished | ExitedWith nat | Parked

definition main_dry_run :: "string list \<Rightarrow> bool" where
  "main_dry_run args = list_ex (\<lambda>a. a = ''--dry-run'') (drop 1 args)"

definition main_fn :: "('s, 'c) host \<Rightarrow> string list \<Rightarrow> 's \<Rightarrow> main_end \<times> 's" where
  "main_fn h args s = (let dry_run = main_dry_run args in
     case run h dry_run s of
       (Inr _, s) \<Rightarrow> (Finished, s)
     | (Inl e, s) \<Rightarrow> if dry_run then (ExitedWith 1, s) else (Parked, s))"

lemma full_run_never_ok: "run h False s = (r, s') \<Longrightarrow> \<not> is_ok r"
proof -
  assume run: "run h False s = (r, s')"
  obtain tr where "run (traced_host h) False (s, []) = (r, s', tr)"
    using run_erases [of h False s "[]"] run by (metis fst_conv prod.collapse snd_conv)
  from movesD [OF run_moves phase_path.start _ this] obtain p where "run_end False r p" by auto
  then show ?thesis by (auto simp: run_end_def is_ok_iff)
qed

section \<open>Properties\<close>

text \<open>
  C25: PID 1 never returns. Without \<open>--dry-run\<close> among its arguments (the program name is not one)
  the entry point neither finishes nor exits, whatever happens: it is parked when the run comes
  back, and a run never comes back with a success. With it, the process ends with status 0 for a
  success and 1 for an error.
\<close>

theorem pid1_never_returns:
  "case main_fn h args s of (how, s') \<Rightarrow>
     (if main_dry_run args then \<exists>r. run h True s = (r, s') \<and> how = (if is_ok r then Finished else ExitedWith 1)
      else how = Parked \<and> (\<exists>e. run h False s = (Inl e, s')))"
proof -
  obtain r s' where run: "run h (main_dry_run args) s = (r, s')" by fastforce
  show ?thesis
  proof (cases "main_dry_run args")
    case True
    with run show ?thesis by (cases r) (simp_all add: main_fn_def)
  next
    case False
    with run full_run_never_ok [of h s r s'] obtain e where "r = Inl e" by (cases r) auto
    with run False show ?thesis by (simp add: main_fn_def)
  qed
qed

end
