(* ===== verification/Sockets.thy ===== *)
theory Sockets
  imports Dhcp Netlink Fs
begin

text \<open>
  The sockets of \<open>src/net/dhcp.rs\<close> (\<open>Socket\<close>) and \<open>src/net/netlink.rs\<close> (\<open>NlSocket\<close>) call by call:
  descriptors, options, addresses, and the close on drop. \<open>Dhcp\<close> and \<open>Netlink\<close> have the exchanges
  over an abstract socket; here they are run over the system calls, and refine them.
\<close>

section \<open>Calls\<close>

definition AF_INET :: u16 where "AF_INET = 2"
definition AF_NETLINK :: u16 where "AF_NETLINK = 16"
definition SOCK_DGRAM :: nat where "SOCK_DGRAM = 2"
definition SOCK_RAW :: nat where "SOCK_RAW = 3"
definition NETLINK_ROUTE :: nat where "NETLINK_ROUTE = 0"
definition EBADF :: errno where "EBADF = 9"

text \<open>Addresses as they lie in memory: family, then port and address in network byte order.\<close>

datatype sock_addr = SockaddrIn u16 bytes bytes | SockaddrNl u16

text \<open>Options with their values; timeouts in seconds.\<close>

datatype sock_option = SO_REUSEADDR u32 | SO_BROADCAST u32 | SO_BINDTODEVICE string | SO_RCVTIMEO nat

datatype sock_call =
    CallSocket u16 nat nat
  | CallSetsockopt nat sock_option
  | CallBind nat sock_addr
  | CallSendto nat bytes sock_addr
  | CallSend nat bytes
  | CallRecv nat nat
  | CallClose nat

fun call_fd :: "sock_call \<Rightarrow> nat option" where
  "call_fd (CallSocket af ty proto) = None"
| "call_fd (CallSetsockopt fd opt) = Some fd"
| "call_fd (CallBind fd addr) = Some fd"
| "call_fd (CallSendto fd pkt addr) = Some fd"
| "call_fd (CallSend fd pkt) = Some fd"
| "call_fd (CallRecv fd len) = Some fd"
| "call_fd (CallClose fd) = Some fd"

text \<open>
  The kernel's side: the open descriptors, the calls so far, the answers to the calls that set a
  socket up (by the number of the call) and to the sends, the packets that went out, and what
  the receives return. A call on a descriptor that is not open fails.
\<close>

record net_kernel =
  nk_fds :: "nat list"
  nk_calls :: "sock_call list"
  nk_setup :: "nat \<Rightarrow> sock_call \<Rightarrow> errno option"
  nk_sends :: "errno option list"
  nk_sent :: "bytes list"
  nk_inbox :: "recv_event list"

definition sys_log :: "sock_call \<Rightarrow> net_kernel \<Rightarrow> net_kernel" where
  "sys_log c k = k\<lparr>nk_calls := nk_calls k @ [c]\<rparr>"

definition valid_fd :: "sock_call \<Rightarrow> net_kernel \<Rightarrow> bool" where
  "valid_fd c k = (case call_fd c of None \<Rightarrow> True | Some fd \<Rightarrow> fd \<in> set (nk_fds k))"

definition sys_setup :: "sock_call \<Rightarrow> net_kernel \<Rightarrow> (errno + unit) \<times> net_kernel" where
  "sys_setup c k = (if \<not> valid_fd c k then Inl EBADF
     else case nk_setup k (length (nk_calls k)) c of Some e \<Rightarrow> Inl e | None \<Rightarrow> Inr (), sys_log c k)"

text \<open>A new socket has the lowest free descriptor.\<close>

definition first_free :: "nat list \<Rightarrow> nat" where
  "first_free fds = unwrap_or (List.find (\<lambda>n. n \<notin> set fds) [0..<Suc (length fds)]) 0"

definition sys_socket :: "u16 \<Rightarrow> nat \<Rightarrow> nat \<Rightarrow> net_kernel \<Rightarrow> (errno + nat) \<times> net_kernel" where
  "sys_socket af ty proto k = (case sys_setup (CallSocket af ty proto) k of
       (Inl e, k) \<Rightarrow> (Inl e, k)
     | (Inr _, k) \<Rightarrow> (let fd = first_free (nk_fds k) in (Inr fd, k\<lparr>nk_fds := fd # nk_fds k\<rparr>)))"

definition sys_send :: "sock_call \<Rightarrow> bytes \<Rightarrow> net_kernel \<Rightarrow> (errno + unit) \<times> net_kernel" where
  "sys_send c pkt k = (let k1 = sys_log c k in
     if \<not> valid_fd c k then (Inl EBADF, k1)
     else case nk_sends k of
       [] \<Rightarrow> (Inr (), k1\<lparr>nk_sent := nk_sent k @ [pkt]\<rparr>)
     | None # rs \<Rightarrow> (Inr (), k1\<lparr>nk_sent := nk_sent k @ [pkt], nk_sends := rs\<rparr>)
     | Some e # rs \<Rightarrow> (Inl e, k1\<lparr>nk_sends := rs\<rparr>))"

text \<open>A receive into a buffer, with whether the deadline of the caller has passed once it is read.\<close>

definition sys_recv :: "nat \<Rightarrow> nat \<Rightarrow> net_kernel \<Rightarrow> (errno + bytes \<times> bool) \<times> net_kernel" where
  "sys_recv fd len k = (let c = CallRecv fd len; k1 = sys_log c k in
     if \<not> valid_fd c k then (Inl EBADF, k1)
     else case nk_inbox k of
       [] \<Rightarrow> (Inl EAGAIN, k1)
     | RecvErr e # evs \<Rightarrow> (Inl e, k1\<lparr>nk_inbox := evs\<rparr>)
     | Datagram d late # evs \<Rightarrow> (Inr (take len d, late), k1\<lparr>nk_inbox := evs\<rparr>))"

text \<open>\<open>drop\<close> of \<open>Socket\<close> and \<open>NlSocket\<close>.\<close>

definition sys_close :: "nat \<Rightarrow> net_kernel \<Rightarrow> net_kernel" where
  "sys_close fd k = (sys_log (CallClose fd) k)\<lparr>nk_fds := remove1 fd (nk_fds k)\<rparr>"

text \<open>
  The scope of a socket: dropped at the end of it (\<open>send_and_ack\<close>, \<open>acquire\<close>), or when the set-up
  fails before it is handed out (\<open>open\<close>, \<open>open_dhcp\<close>).
\<close>

definition dropped_after :: "nat \<Rightarrow> (net_kernel \<Rightarrow> 'a \<times> net_kernel) \<Rightarrow> net_kernel \<Rightarrow> 'a \<times> net_kernel" where
  "dropped_after fd m k = (case m k of (r, k) \<Rightarrow> (r, sys_close fd k))"

definition handed_out ::
  "nat \<Rightarrow> (net_kernel \<Rightarrow> ('e + unit) \<times> net_kernel) \<Rightarrow> net_kernel \<Rightarrow> ('e + nat) \<times> net_kernel" where
  "handed_out fd pre k = (case pre k of
       (Inl e, k) \<Rightarrow> (Inl e, sys_close fd k) | (Inr _, k) \<Rightarrow> (Inr fd, k))"

section \<open>The DHCP socket\<close>

definition CLIENT_PORT :: u16 where "CLIENT_PORT = 68"
definition SERVER_PORT :: u16 where "SERVER_PORT = 67"
definition RECV_TIMEOUT :: nat where "RECV_TIMEOUT = 3"

definition IPV4_UNSPECIFIED :: ipv4 where "IPV4_UNSPECIFIED = ipv4_new 0 0 0 0"
definition IPV4_BROADCAST :: ipv4 where "IPV4_BROADCAST = ipv4_new 255 255 255 255"

definition sockaddr_in :: "ipv4 \<Rightarrow> u16 \<Rightarrow> sock_addr" where
  "sockaddr_in ip port = SockaddrIn AF_INET (rev (u16_to_le port)) (u32_to_be ip)"

definition set_int :: "nat \<Rightarrow> sock_option \<Rightarrow> net_kernel \<Rightarrow> (net_error + unit) \<times> net_kernel" where
  "set_int fd opt = smap_err SocketError (sys_setup (CallSetsockopt fd opt))"

definition bind_to_device :: "nat \<Rightarrow> string \<Rightarrow> net_kernel \<Rightarrow> (net_error + unit) \<times> net_kernel" where
  "bind_to_device fd iface = smap_err SocketError (sys_setup (CallSetsockopt fd (SO_BINDTODEVICE iface)))"

definition set_rcv_timeout :: "nat \<Rightarrow> nat \<Rightarrow> net_kernel \<Rightarrow> (net_error + unit) \<times> net_kernel" where
  "set_rcv_timeout fd secs = smap_err SocketError (sys_setup (CallSetsockopt fd (SO_RCVTIMEO secs)))"

definition bind_client_port :: "nat \<Rightarrow> net_kernel \<Rightarrow> (net_error + unit) \<times> net_kernel" where
  "bind_client_port fd = smap_err SocketError (sys_setup (CallBind fd (sockaddr_in IPV4_UNSPECIFIED CLIENT_PORT)))"

definition socket_open_dhcp :: "string \<Rightarrow> net_kernel \<Rightarrow> (net_error + nat) \<times> net_kernel" where
  "socket_open_dhcp iface = sbind (smap_err SocketError (sys_socket AF_INET SOCK_DGRAM 0)) (\<lambda>fd.
     handed_out fd
       (sbind (set_int fd (SO_REUSEADDR 1)) (\<lambda>_.
        sbind (set_int fd (SO_BROADCAST 1)) (\<lambda>_.
        sbind (bind_to_device fd iface) (\<lambda>_.
        sbind (set_rcv_timeout fd RECV_TIMEOUT) (\<lambda>_.
        bind_client_port fd))))))"

definition socket_send_broadcast :: "nat \<Rightarrow> bytes \<Rightarrow> net_kernel \<Rightarrow> (net_error + unit) \<times> net_kernel" where
  "socket_send_broadcast fd pkt =
     smap_err SocketError (sys_send (CallSendto fd pkt (sockaddr_in IPV4_BROADCAST SERVER_PORT)) pkt)"

lemma sys_recv_shrinks: "sys_recv fd len k = (Inr x, k') \<Longrightarrow> length (nk_inbox k') < length (nk_inbox k)"
  by (auto simp: sys_recv_def Let_def split: if_splits list.splits recv_event.splits)

function socket_recv_reply ::
  "nat \<Rightarrow> u32 \<Rightarrow> u8 \<Rightarrow> net_kernel \<Rightarrow> (net_error + reply option) \<times> net_kernel" where
  "socket_recv_reply fd xid want k = (case sys_recv fd 4096 k of
       (Inl e, k1) \<Rightarrow> (if e = EAGAIN \<or> e = EINTR then Inr None else Inl (SocketError e), k1)
     | (Inr (buf, late), k1) \<Rightarrow> (case parse_reply buf xid of
         Some r \<Rightarrow> if msg_type r = want then (Inr (Some r), k1)
           else if late then (Inr None, k1) else socket_recv_reply fd xid want k1
       | None \<Rightarrow> if late then (Inr None, k1) else socket_recv_reply fd xid want k1))"
  by pat_completeness auto
termination
  by (relation "measure (\<lambda>(fd, xid, want, k). length (nk_inbox k))") (auto dest: sys_recv_shrinks [OF sym])

declare socket_recv_reply.simps [simp del]

fun socket_rounds :: "nat \<Rightarrow> nat \<Rightarrow> u32 \<Rightarrow> bytes \<Rightarrow> net_kernel \<Rightarrow> (net_error + lease) \<times> net_kernel" where
  "socket_rounds 0 fd xid mac = sfail DhcpTimeout"
| "socket_rounds (Suc n) fd xid mac =
     sbind (socket_send_broadcast fd (build_packet DHCP_DISCOVER xid mac None None)) (\<lambda>_.
     sbind (socket_recv_reply fd xid DHCP_OFFER) (\<lambda>offer. case offer of
       None \<Rightarrow> socket_rounds n fd xid mac
     | Some offer \<Rightarrow>
     sbind (socket_send_broadcast fd
       (build_packet DHCP_REQUEST xid mac (Some (yiaddr offer)) (server_id offer))) (\<lambda>_.
     sbind (socket_recv_reply fd xid DHCP_ACK) (\<lambda>ack. case ack of
       None \<Rightarrow> socket_rounds n fd xid mac
     | Some ack \<Rightarrow> sreturn (lease_of ack)))))"

definition socket_acquire ::
  "bytes option \<Rightarrow> string \<Rightarrow> bytes \<Rightarrow> net_kernel \<Rightarrow> (net_error + lease) \<times> net_kernel" where
  "socket_acquire urandom iface mac = sbind (socket_open_dhcp iface) (\<lambda>fd.
     dropped_after fd (socket_rounds MAX_ROUNDS fd (random_xid urandom) mac))"

section \<open>The netlink socket\<close>

definition nl_socket_open :: "net_kernel \<Rightarrow> (errno + nat) \<times> net_kernel" where
  "nl_socket_open = sbind (sys_socket AF_NETLINK SOCK_RAW NETLINK_ROUTE) (\<lambda>fd.
     handed_out fd
       (sbind (sys_setup (CallBind fd (SockaddrNl AF_NETLINK))) (\<lambda>_.
        sys_setup (CallSetsockopt fd (SO_RCVTIMEO 5)))))"

definition nl_socket_send :: "nat \<Rightarrow> bytes \<Rightarrow> net_kernel \<Rightarrow> (errno + unit) \<times> net_kernel" where
  "nl_socket_send fd msg = sys_send (CallSend fd msg) msg"

definition nl_socket_recv_ack :: "nat \<Rightarrow> net_kernel \<Rightarrow> (errno + unit) \<times> net_kernel" where
  "nl_socket_recv_ack fd = sbind (sys_recv fd 4096) (\<lambda>(buf, _) k. (parse_ack buf, k))"

definition socket_send_and_ack :: "bytes \<Rightarrow> net_kernel \<Rightarrow> (errno + unit) \<times> net_kernel" where
  "socket_send_and_ack msg = sbind nl_socket_open (\<lambda>fd.
     dropped_after fd (sbind (nl_socket_send fd msg) (\<lambda>_. nl_socket_recv_ack fd)))"

section \<open>What the abstract sockets see\<close>

definition script :: "net_kernel \<Rightarrow> dhcp_sock" where
  "script k = \<lparr>inbox = nk_inbox k, send_results = nk_sends k, sent = nk_sent k\<rparr>"

fun libc_call :: "nat \<Rightarrow> open_call \<Rightarrow> nat \<times> sock_call" where
  "libc_call fd SysSocket = (0, CallSocket AF_INET SOCK_DGRAM 0)"
| "libc_call fd SetReuseAddr = (1, CallSetsockopt fd (SO_REUSEADDR 1))"
| "libc_call fd SetBroadcast = (2, CallSetsockopt fd (SO_BROADCAST 1))"
| "libc_call fd (BindToDevice iface) = (3, CallSetsockopt fd (SO_BINDTODEVICE iface))"
| "libc_call fd SetRcvTimeout = (4, CallSetsockopt fd (SO_RCVTIMEO 3))"
| "libc_call fd BindClientPort = (5, CallBind fd (SockaddrIn 2 [0, 68] [0, 0, 0, 0]))"

definition setup_answer :: "net_kernel \<Rightarrow> open_call \<Rightarrow> errno option" where
  "setup_answer k c = (case libc_call (first_free (nk_fds k)) c of (i, call) \<Rightarrow> nk_setup k (length (nk_calls k) + i) call)"

definition nl_setup :: "nat \<Rightarrow> sock_call list" where
  "nl_setup fd = [CallSocket 16 3 0, CallBind fd (SockaddrNl 16), CallSetsockopt fd (SO_RCVTIMEO 5)]"

text \<open>The first refused call of a set-up.\<close>

fun first_error :: "(nat \<Rightarrow> sock_call \<Rightarrow> errno option) \<Rightarrow> nat \<Rightarrow> sock_call list \<Rightarrow> errno option" where
  "first_error os i [] = None"
| "first_error os i (c # cs) = (case os i c of Some e \<Rightarrow> Some e | None \<Rightarrow> first_error os (Suc i) cs)"

definition script_ops :: "net_kernel \<Rightarrow> dhcp_sock kernel_ops" where
  "script_ops k = \<lparr>
     nl_open = (\<lambda>s. (first_error (nk_setup k) (length (nk_calls k)) (nl_setup (first_free (nk_fds k))), s)),
     nl_send = (\<lambda>msg s. case send_results s of
         [] \<Rightarrow> (Inr (), s\<lparr>sent := sent s @ [msg]\<rparr>)
       | None # rs \<Rightarrow> (Inr (), s\<lparr>sent := sent s @ [msg], send_results := rs\<rparr>)
       | Some e # rs \<Rightarrow> (Inl e, s\<lparr>send_results := rs\<rparr>)),
     nl_recv = (\<lambda>s. case inbox s of
         [] \<Rightarrow> (Inl EAGAIN, s)
       | RecvErr e # evs \<Rightarrow> (Inl e, s\<lparr>inbox := evs\<rparr>)
       | Datagram d _ # evs \<Rightarrow> (Inr d, s\<lparr>inbox := evs\<rparr>))\<rparr>"

text \<open>
  The calls of one socket: a prefix of the set-up; if it got a descriptor, then traffic, only after
  the whole set-up, and one close, last.
\<close>

definition socket_session :: "nat \<Rightarrow> sock_call list \<Rightarrow> (sock_call \<Rightarrow> bool) \<Rightarrow> sock_call list \<Rightarrow> bool" where
  "socket_session fd pre traffic calls \<longleftrightarrow> calls = take 1 pre \<or>
     list_ex (\<lambda>n. calls = take n pre @ [CallClose fd]) [2..<Suc (length pre)] \<or>
     (take (length pre) calls = pre \<and> length pre < length calls \<and> last calls = CallClose fd \<and>
      list_all traffic (butlast (drop (length pre) calls)))"

definition dhcp_setup :: "nat \<Rightarrow> string \<Rightarrow> sock_call list" where
  "dhcp_setup fd iface = map (\<lambda>c. snd (libc_call fd c)) (open_calls iface)"

fun dhcp_traffic :: "nat \<Rightarrow> sock_call \<Rightarrow> bool" where
  "dhcp_traffic fd (CallSendto f pkt to) \<longleftrightarrow> f = fd \<and> to = SockaddrIn 2 [0, 67] [255, 255, 255, 255]"
| "dhcp_traffic fd (CallRecv f len) \<longleftrightarrow> f = fd \<and> len = 4096"
| "dhcp_traffic fd _ \<longleftrightarrow> False"

fun nl_traffic :: "nat \<Rightarrow> bytes \<Rightarrow> sock_call \<Rightarrow> bool" where
  "nl_traffic fd msg (CallSend f pkt) \<longleftrightarrow> f = fd \<and> pkt = msg"
| "nl_traffic fd msg (CallRecv f len) \<longleftrightarrow> f = fd \<and> len = 4096"
| "nl_traffic fd msg _ \<longleftrightarrow> False"

section \<open>Descriptors and the set-up\<close>

lemma first_free_fresh: "first_free fds \<notin> set fds"
proof (cases "List.find (\<lambda>n. n \<notin> set fds) [0..<Suc (length fds)]")
  case None
  then have "set [0..<Suc (length fds)] \<subseteq> set fds" by (auto simp: find_None_iff)
  then have "card (set [0..<Suc (length fds)]) \<le> card (set fds)" by (rule card_mono [rotated]) simp
  also have "\<dots> \<le> length fds" by (rule card_length)
  finally show ?thesis by simp
next
  case (Some n)
  then have "n \<notin> set fds" by (auto simp: find_Some_iff)
  with Some show ?thesis by (simp add: first_free_def)
qed

lemma sfor_one: "sfor [c] f = f c"
  by (rule ext) (simp add: sbind_def split: prod.splits sum.splits)

lemma sfor_cons: "cs \<noteq> [] \<Longrightarrow> sfor (c # cs) f = sbind (f c) (\<lambda>_. sfor cs f)"
  by (rule ext) simp

lemma smap_err_sbind: "smap_err g (sbind m f) = sbind (smap_err g m) (\<lambda>a. smap_err g (f a))"
  by (rule ext) (simp add: smap_err_def sbind_def map_err_def split: prod.splits sum.splits)

text \<open>A set-up on an open descriptor: all its calls, or those up to the first refused one.\<close>

lemma setup_run:
  assumes "list_all (\<lambda>c. call_fd c = Some fd) cs" "fd \<in> set (nk_fds k)"
  shows "case first_error (nk_setup k) (length (nk_calls k)) cs of
      None \<Rightarrow> sfor cs sys_setup k = (Inr (), k\<lparr>nk_calls := nk_calls k @ cs\<rparr>)
    | Some e \<Rightarrow> \<exists>n. 0 < n \<and> n \<le> length cs \<and> sfor cs sys_setup k = (Inl e, k\<lparr>nk_calls := nk_calls k @ take n cs\<rparr>)"
  using assms
proof (induction cs arbitrary: k)
  case (Cons c cs)
  have v: "valid_fd c k" using Cons.prems by (simp add: valid_fd_def)
  show ?case
  proof (cases "nk_setup k (length (nk_calls k)) c")
    case None
    then have step: "sfor (c # cs) sys_setup k = sfor cs sys_setup (sys_log c k)"
      by (simp add: sbind_def sys_setup_def v)
    have "list_all (\<lambda>c. call_fd c = Some fd) cs" "fd \<in> set (nk_fds (sys_log c k))"
      using Cons.prems by (simp_all add: sys_log_def)
    from Cons.IH [OF this] show ?thesis
      by (auto simp: None step sys_log_def simp del: sfor.simps split: option.splits intro: exI [of _ "Suc _"])
  next
    case (Some e)
    then show ?thesis by (auto simp: sbind_def sys_setup_def v sys_log_def intro!: exI [of _ "Suc 0"])
  qed
qed simp

text \<open>Opening: the descriptor with its set-up, or nothing left open.\<close>

lemma session_cut:
  assumes "0 < n" "n \<le> length cs"
  shows "socket_session fd (c # cs) traffic (c # take n cs @ [CallClose fd])"
proof -
  have "c # take n cs @ [CallClose fd] = take (Suc n) (c # cs) @ [CallClose fd]" by simp
  moreover have "Suc n \<in> set [2..<Suc (length (c # cs))]" using assms by auto
  ultimately show ?thesis unfolding socket_session_def list_ex_iff by blast
qed

lemma open_run:
  assumes "pre (first_free (nk_fds k)) = cs" "list_all (\<lambda>c. call_fd c = Some (first_free (nk_fds k))) cs"
  shows "case first_error (nk_setup k) (length (nk_calls k)) (CallSocket af ty proto # cs) of
      None \<Rightarrow> sbind (sys_socket af ty proto) (\<lambda>fd. handed_out fd (sfor (pre fd) sys_setup)) k =
        (Inr (first_free (nk_fds k)), k\<lparr>nk_calls := nk_calls k @ CallSocket af ty proto # cs,
           nk_fds := first_free (nk_fds k) # nk_fds k\<rparr>)
    | Some e \<Rightarrow> \<exists>calls. socket_session (first_free (nk_fds k)) (CallSocket af ty proto # cs) traffic calls \<and>
        sbind (sys_socket af ty proto) (\<lambda>fd. handed_out fd (sfor (pre fd) sys_setup)) k =
          (Inl e, k\<lparr>nk_calls := nk_calls k @ calls\<rparr>)"
proof -
  let ?fd = "first_free (nk_fds k)" and ?c = "CallSocket af ty proto"
  let ?k1 = "k\<lparr>nk_calls := nk_calls k @ [?c], nk_fds := ?fd # nk_fds k\<rparr>"
  have v: "valid_fd ?c k" by (simp add: valid_fd_def)
  show ?thesis
  proof (cases "nk_setup k (length (nk_calls k)) ?c")
    case (Some e)
    then show ?thesis
      by (auto simp: sbind_def sys_socket_def sys_setup_def v sys_log_def socket_session_def intro!: exI [of _ "[?c]"])
  next
    case None
    then have start: "sys_socket af ty proto k = (Inr ?fd, ?k1)"
      by (simp add: sys_socket_def sys_setup_def v sys_log_def Let_def)
    have "?fd \<in> set (nk_fds ?k1)" by simp
    note run = setup_run [OF assms(2) this]
    show ?thesis
    proof (cases "first_error (nk_setup ?k1) (length (nk_calls ?k1)) cs")
      case (Some e)
      with run obtain n where n: "0 < n" "n \<le> length cs"
        "sfor cs sys_setup ?k1 = (Inl e, ?k1\<lparr>nk_calls := nk_calls ?k1 @ take n cs\<rparr>)" by auto
      with session_cut [OF n(1,2), of ?fd ?c traffic] Some show ?thesis
        by (auto simp: None sbind_def start handed_out_def assms(1) sys_close_def sys_log_def
            intro!: exI [of _ "?c # take n cs @ [CallClose ?fd]"])
    qed (use run in \<open>auto simp: None sbind_def start handed_out_def assms(1)\<close>)
  qed
qed

section \<open>Operations on an open descriptor\<close>

text \<open>
  An operation on the descriptor against one of the abstract socket: the same answers and effect on
  the script, with calls of the kind \<open>traffic\<close> only.
\<close>

definition carries :: "nat \<Rightarrow> (sock_call \<Rightarrow> bool) \<Rightarrow> (net_kernel \<Rightarrow> 'r \<times> net_kernel) \<Rightarrow>
    (dhcp_sock \<Rightarrow> 'r \<times> dhcp_sock) \<Rightarrow> bool" where
  "carries fd traffic m a \<longleftrightarrow> (\<forall>k. fd \<in> set (nk_fds k) \<longrightarrow>
     a (script k) = (fst (m k), script (snd (m k))) \<and> nk_fds (snd (m k)) = nk_fds k \<and>
     (\<exists>calls. nk_calls (snd (m k)) = nk_calls k @ calls \<and> list_all traffic calls))"

named_theorems carried \<open>operations on a descriptor that carry those of the abstract socket\<close>

lemma carriesD:
  assumes "carries fd traffic m a" "fd \<in> set (nk_fds k)" "m k = (r, k')"
  obtains calls where "a (script k) = (r, script k')" "nk_fds k' = nk_fds k" "nk_calls k' = nk_calls k @ calls"
    "list_all traffic calls"
  using assms unfolding carries_def by force

lemma carries_result [carried]: "carries fd traffic (\<lambda>k. (r, k)) (\<lambda>s. (r, s))" "carries fd traffic (sreturn x) (sreturn x)"
    "carries fd traffic (sfail e) (sfail e)"
  by (simp_all add: carries_def sreturn_def sfail_def)

lemma carries_sbind [carried]:
  assumes "carries fd traffic m a" "\<And>x. carries fd traffic (f x) (g x)"
  shows "carries fd traffic (sbind m f) (sbind a g)"
  unfolding carries_def
proof (intro allI impI)
  fix k :: net_kernel
  assume fd: "fd \<in> set (nk_fds k)"
  obtain r k1 where m: "m k = (r, k1)" by fastforce
  from assms(1) fd m obtain calls where 1: "a (script k) = (r, script k1)" "nk_fds k1 = nk_fds k"
    "nk_calls k1 = nk_calls k @ calls" "list_all traffic calls" by (rule carriesD)
  show "sbind a g (script k) = (fst (sbind m f k), script (snd (sbind m f k))) \<and>
      nk_fds (snd (sbind m f k)) = nk_fds k \<and>
      (\<exists>calls. nk_calls (snd (sbind m f k)) = nk_calls k @ calls \<and> list_all traffic calls)"
  proof (cases r)
    case (Inr x)
    obtain r2 k2 where f: "f x k1 = (r2, k2)" by fastforce
    from 1(2) fd have "fd \<in> set (nk_fds k1)" by simp
    from assms(2) this f obtain more where "g x (script k1) = (r2, script k2)" "nk_fds k2 = nk_fds k1"
      "nk_calls k2 = nk_calls k1 @ more" "list_all traffic more" by (rule carriesD)
    with 1 m f Inr show ?thesis by (simp add: sbind_def)
  qed (use 1 m in \<open>auto simp: sbind_def\<close>)
qed

lemma carries_smap_err: "carries fd traffic m a \<Longrightarrow> carries fd traffic (smap_err g m) (smap_err g a)"
  by (simp add: carries_def smap_err_def case_prod_beta)

lemma carries_option [carried]:
  "carries fd traffic m a \<Longrightarrow> (\<And>x. carries fd traffic (f x) (g x)) \<Longrightarrow>
     carries fd traffic (case y of None \<Rightarrow> m | Some x \<Rightarrow> f x) (case y of None \<Rightarrow> a | Some x \<Rightarrow> g x)"
  by (cases y) simp_all

lemma send_carries [carried]:
  "traffic (CallSendto fd pkt (sockaddr_in IPV4_BROADCAST SERVER_PORT)) \<Longrightarrow>
     carries fd traffic (socket_send_broadcast fd pkt) (send_broadcast pkt)"
  by (auto simp: carries_def socket_send_broadcast_def smap_err_def map_err_def sys_send_def valid_fd_def Let_def
      send_broadcast_def script_def sys_log_def split: list.splits option.splits)

lemma nl_send_carries [carried]:
  "traffic (CallSend fd msg) \<Longrightarrow> carries fd traffic (nl_socket_send fd msg) (nl_send (script_ops k) msg)"
  by (auto simp: carries_def nl_socket_send_def sys_send_def valid_fd_def Let_def script_ops_def script_def sys_log_def
      split: list.splits option.splits)

lemma nl_recv_carries [carried]:
  assumes "traffic (CallRecv fd 4096)"
  shows "carries fd traffic (nl_socket_recv_ack fd) (sbind (nl_recv (script_ops k)) (\<lambda>buf s. (parse_ack (take 4096 buf), s)))"
  using assms by (auto simp: carries_def nl_socket_recv_ack_def sbind_def sys_recv_def valid_fd_def Let_def script_ops_def
      script_def sys_log_def split: list.splits recv_event.splits)

lemma recv_carries [carried]:
  assumes "traffic (CallRecv fd 4096)"
  shows "carries fd traffic (socket_recv_reply fd xid want) (recv_reply xid want)"
proof -
  have "case socket_recv_reply fd xid want k of (r, k') \<Rightarrow> recv_reply xid want (script k) = (r, script k') \<and>
      nk_fds k' = nk_fds k \<and> (\<exists>n. nk_calls k' = nk_calls k @ replicate n (CallRecv fd 4096))"
    if "fd \<in> set (nk_fds k)" for k
    using that
  proof (induction fd xid want k rule: socket_recv_reply.induct)
    case (1 fd xid want k)
    let ?c = "CallRecv fd 4096"
    have v: "valid_fd ?c k" using "1.prems" by (simp add: valid_fd_def)
    have one: "\<exists>n. [?c] = replicate n ?c" by (rule exI [of _ 1]) simp
    show ?case
    proof (cases "nk_inbox k")
      case Nil
      then have "sys_recv fd 4096 k = (Inl EAGAIN, sys_log ?c k)" by (simp add: sys_recv_def v Let_def)
      with Nil one show ?thesis
        by (subst socket_recv_reply.simps) (simp add: recv_reply_def script_def sys_log_def)
    next
      case (Cons ev evs)
      let ?k1 = "(sys_log ?c k)\<lparr>nk_inbox := evs\<rparr>"
      show ?thesis
      proof (cases ev)
        case (RecvErr e)
        with Cons have "sys_recv fd 4096 k = (Inl e, ?k1)" by (simp add: sys_recv_def v Let_def)
        with Cons RecvErr one show ?thesis
          by (subst socket_recv_reply.simps) (simp add: recv_reply_def script_def sys_log_def)
      next
        case (Datagram d late)
        with Cons have r: "sys_recv fd 4096 k = (Inr (take 4096 d, late), ?k1)"
          by (simp add: sys_recv_def v Let_def)
        have fd: "fd \<in> set (nk_fds ?k1)" using "1.prems" by (simp add: sys_log_def)
        have sk: "script ?k1 = script k\<lparr>inbox := evs\<rparr>" "inbox (script k) = Datagram d late # evs"
          using Cons Datagram by (simp_all add: script_def sys_log_def)
        show ?thesis
        proof (cases "late \<or> (\<exists>x. parse_reply (take 4096 d) xid = Some x \<and> msg_type x = want)")
          case True
          then have "\<exists>ret. socket_recv_reply fd xid want k = (ret, ?k1) \<and> recv_reply xid want (script k) = (ret, script ?k1)"
            by (subst socket_recv_reply.simps) (auto simp: r recv_reply_def sk split: option.splits)
          with one show ?thesis by (auto simp: sys_log_def)
        next
          case False
          then have step: "socket_recv_reply fd xid want k = socket_recv_reply fd xid want ?k1"
            by (subst socket_recv_reply.simps) (auto simp: r split: option.splits)
          have astep: "recv_reply xid want (script k) = recv_reply xid want (script ?k1)"
            using False by (auto simp: recv_reply_def sk split: option.splits prod.splits)
          have "case socket_recv_reply fd xid want ?k1 of (ret, k') \<Rightarrow> recv_reply xid want (script ?k1) = (ret, script k') \<and>
              nk_fds k' = nk_fds ?k1 \<and> (\<exists>n. nk_calls k' = nk_calls ?k1 @ replicate n ?c)"
            using "1.IH"(1) [OF r [symmetric] refl refl _ _ fd] "1.IH"(2) [OF r [symmetric] refl refl _ _ _ fd] False
            by (cases "parse_reply (take 4096 d) xid") auto
          then show ?thesis unfolding step astep by (auto simp: sys_log_def intro: exI [of _ "Suc _"])
        qed
      qed
    qed
  qed
  with assms show ?thesis by (fastforce simp: carries_def list_all_iff)
qed

lemma acquire_rounds_sbind:
  "acquire_rounds (Suc n) xid mac =
     sbind (send_broadcast (build_packet DHCP_DISCOVER xid mac None None)) (\<lambda>_.
     sbind (recv_reply xid DHCP_OFFER) (\<lambda>offer. case offer of
       None \<Rightarrow> acquire_rounds n xid mac
     | Some offer \<Rightarrow>
     sbind (send_broadcast (build_packet DHCP_REQUEST xid mac (Some (yiaddr offer)) (server_id offer))) (\<lambda>_.
     sbind (recv_reply xid DHCP_ACK) (\<lambda>ack. case ack of
       None \<Rightarrow> acquire_rounds n xid mac
     | Some ack \<Rightarrow> sreturn (lease_of ack)))))"
  by (rule ext) (simp add: sbind_def sreturn_def split: prod.splits sum.splits option.splits)

lemma le_bytes_2_4:
  "le_bytes 2 n = [word_of_nat (n mod 256), word_of_nat (n div 256 mod 256)]"
  "le_bytes 4 n = [word_of_nat (n mod 256), word_of_nat (n div 256 mod 256), word_of_nat (n div 256 div 256 mod 256),
     word_of_nat (n div 256 div 256 div 256 mod 256)]"
proof -
  have "(2 :: nat) = Suc (Suc 0)" "(4 :: nat) = Suc (Suc (Suc (Suc 0)))" by simp_all
  then show "le_bytes 2 n = [word_of_nat (n mod 256), word_of_nat (n div 256 mod 256)]"
    "le_bytes 4 n = [word_of_nat (n mod 256), word_of_nat (n div 256 mod 256), word_of_nat (n div 256 div 256 mod 256),
       word_of_nat (n div 256 div 256 div 256 mod 256)]"
    by (simp_all only: le_bytes.simps)
qed

lemma addresses:
  "sockaddr_in IPV4_BROADCAST SERVER_PORT = SockaddrIn 2 [0, 67] [255, 255, 255, 255]"
  "sockaddr_in IPV4_UNSPECIFIED CLIENT_PORT = SockaddrIn 2 [0, 68] [0, 0, 0, 0]"
  by (simp_all add: sockaddr_in_def AF_INET_def IPV4_BROADCAST_def IPV4_UNSPECIFIED_def SERVER_PORT_def CLIENT_PORT_def
      ipv4_new_def u32_be_def u32_le_def u16_to_le_def u32_to_be_def u32_to_le_def le_bytes_2_4)

lemma dhcp_traffic_calls:
  "dhcp_traffic fd (CallSendto fd pkt (sockaddr_in IPV4_BROADCAST SERVER_PORT))" "dhcp_traffic fd (CallRecv fd 4096)"
  by (simp_all add: addresses)

lemma rounds_carries: "carries fd (dhcp_traffic fd) (socket_rounds n fd xid mac) (acquire_rounds n xid mac)"
proof (induction n)
  case 0
  then show ?case by (simp add: carries_def sfail_def)
next
  case (Suc n)
  show ?case unfolding acquire_rounds_sbind socket_rounds.simps
    by (intro carried Suc.IH dhcp_traffic_calls)
qed

section \<open>Sessions\<close>

lemma session_whole:
  assumes "list_all traffic calls"
  shows "socket_session fd pre traffic (pre @ calls @ [CallClose fd])"
  using assms by (simp add: socket_session_def butlast_append)

text \<open>
  From the opening to the drop: a kind of socket, its set-up, and the use made of it (\<open>m\<close>, which
  carries \<open>a\<close> with calls of the kind \<open>traffic\<close>).
\<close>

definition opens :: "u16 \<Rightarrow> nat \<Rightarrow> nat \<Rightarrow> (nat \<Rightarrow> sock_call list) \<Rightarrow> net_kernel \<Rightarrow> (errno + nat) \<times> net_kernel" where
  "opens af ty proto pre = sbind (sys_socket af ty proto) (\<lambda>fd. handed_out fd (sfor (pre fd) sys_setup))"

locale socket_scope =
  fixes af :: u16 and ty :: nat and proto :: nat
    and pre :: "nat \<Rightarrow> sock_call list"
    and g :: "errno \<Rightarrow> 'e"
    and m :: "nat \<Rightarrow> net_kernel \<Rightarrow> ('e + 'r) \<times> net_kernel"
    and a :: "dhcp_sock \<Rightarrow> ('e + 'r) \<times> dhcp_sock"
    and traffic :: "nat \<Rightarrow> sock_call \<Rightarrow> bool"
  assumes calls_on_fd: "list_all (\<lambda>c. call_fd c = Some fd) (pre fd)"
    and body: "carries fd (traffic fd) (m fd) a"
begin

lemma session:
  "case sbind (smap_err g (opens af ty proto pre)) (\<lambda>fd. dropped_after fd (m fd)) k of (r, k') \<Rightarrow>
    (r, script k') = (case first_error (nk_setup k) (length (nk_calls k)) (CallSocket af ty proto # pre (first_free (nk_fds k))) of
      Some e \<Rightarrow> (Inl (g e), script k) | None \<Rightarrow> a (script k)) \<and> nk_fds k' = nk_fds k \<and>
    (\<exists>calls. nk_calls k' = nk_calls k @ calls \<and>
      socket_session (first_free (nk_fds k)) (CallSocket af ty proto # pre (first_free (nk_fds k)))
        (traffic (first_free (nk_fds k))) calls)"
proof -
  let ?fd = "first_free (nk_fds k)" and ?cs = "CallSocket af ty proto # pre (first_free (nk_fds k))"
  note opened = open_run [where pre = pre and k = k, OF refl calls_on_fd, of af ty proto "traffic (first_free (nk_fds k))",
      folded opens_def]
  show ?thesis
  proof (cases "first_error (nk_setup k) (length (nk_calls k)) ?cs")
    case None
    let ?k1 = "k\<lparr>nk_calls := nk_calls k @ ?cs, nk_fds := ?fd # nk_fds k\<rparr>"
    obtain r k2 where m: "m ?fd ?k1 = (r, k2)" by fastforce
    have "?fd \<in> set (nk_fds ?k1)" by simp
    from body this m obtain calls where c: "a (script ?k1) = (r, script k2)" "nk_fds k2 = nk_fds ?k1"
      "nk_calls k2 = nk_calls ?k1 @ calls" "list_all (traffic ?fd) calls" by (rule carriesD)
    have "script ?k1 = script k" "script (sys_close ?fd k2) = script k2"
      by (simp_all add: script_def sys_close_def sys_log_def)
    with None opened m c session_whole [OF c(4), of ?fd ?cs] show ?thesis
      by (auto simp: sbind_def smap_err_def map_err_def dropped_after_def sys_close_def sys_log_def)
  next
    case (Some e)
    with opened obtain calls where "socket_session ?fd ?cs (traffic ?fd) calls"
      "opens af ty proto pre k = (Inl e, k\<lparr>nk_calls := nk_calls k @ calls\<rparr>)" by auto
    with Some show ?thesis by (auto simp: sbind_def smap_err_def map_err_def script_def)
  qed
qed

end

lemma handed_out_smap_err: "handed_out fd (smap_err g m) = smap_err g (handed_out fd m)"
  by (rule ext) (simp add: handed_out_def smap_err_def map_err_def split: prod.splits sum.splits)

lemma smap_err_same: "smap_err (\<lambda>e. e) m = m"
  by (rule ext) (simp add: smap_err_def map_err_def split: prod.splits sum.splits)

lemma dhcp_setup_calls:
  "dhcp_setup fd iface = CallSocket AF_INET SOCK_DGRAM 0 # [CallSetsockopt fd (SO_REUSEADDR 1),
     CallSetsockopt fd (SO_BROADCAST 1), CallSetsockopt fd (SO_BINDTODEVICE iface), CallSetsockopt fd (SO_RCVTIMEO RECV_TIMEOUT),
     CallBind fd (sockaddr_in IPV4_UNSPECIFIED CLIENT_PORT)]"
  by (simp add: dhcp_setup_def open_calls_def addresses AF_INET_def SOCK_DGRAM_def RECV_TIMEOUT_def)

lemma open_dhcp_opening: "socket_open_dhcp iface = smap_err SocketError (opens AF_INET SOCK_DGRAM 0 (\<lambda>fd. tl (dhcp_setup fd iface)))"
  unfolding socket_open_dhcp_def opens_def dhcp_setup_calls list.sel smap_err_sbind handed_out_smap_err [symmetric]
  by (simp only: sfor_cons sfor_one list.distinct not_False_eq_True smap_err_sbind set_int_def bind_to_device_def
      set_rcv_timeout_def bind_client_port_def)

lemma nl_open_opening: "nl_socket_open = opens AF_NETLINK SOCK_RAW NETLINK_ROUTE (\<lambda>fd. tl (nl_setup fd))"
  unfolding nl_socket_open_def opens_def nl_setup_def list.sel
  by (simp only: sfor_cons sfor_one list.distinct not_False_eq_True AF_NETLINK_def)

lemma open_dhcp_answers:
  "open_dhcp (setup_answer k) iface = (case first_error (nk_setup k) (length (nk_calls k))
       (dhcp_setup (first_free (nk_fds k)) iface) of
     None \<Rightarrow> Inr () | Some e \<Rightarrow> Inl (SocketError e))"
  by (simp add: open_dhcp_def open_calls_def dhcp_setup_def setup_answer_def rc_to_result_def rbind_def numeral_eq_Suc
      split: option.splits)

interpretation dhcp_scope: socket_scope AF_INET SOCK_DGRAM 0 "\<lambda>fd. tl (dhcp_setup fd iface)" SocketError
    "\<lambda>fd. socket_rounds n fd xid mac" "acquire_rounds n xid mac" dhcp_traffic for iface n xid mac
  by unfold_locales (simp_all add: dhcp_setup_calls rounds_carries)

definition nl_request :: "net_kernel \<Rightarrow> bytes \<Rightarrow> dhcp_sock \<Rightarrow> (errno + unit) \<times> dhcp_sock" where
  "nl_request k msg = sbind (nl_send (script_ops k) msg) (\<lambda>_. sbind (nl_recv (script_ops k))
     (\<lambda>buf s. (parse_ack (take 4096 buf), s)))"

interpretation nl_scope: socket_scope AF_NETLINK SOCK_RAW NETLINK_ROUTE "\<lambda>fd. tl (nl_setup fd)" "\<lambda>e. e"
    "\<lambda>fd. sbind (nl_socket_send fd msg) (\<lambda>_. nl_socket_recv_ack fd)" "nl_request k msg" "\<lambda>fd. nl_traffic fd msg" for k msg
proof
  show "list_all (\<lambda>c. call_fd c = Some fd) (tl (nl_setup fd))" for fd by (simp add: nl_setup_def)
  show "carries fd (nl_traffic fd msg) (sbind (nl_socket_send fd msg) (\<lambda>_. nl_socket_recv_ack fd)) (nl_request k msg)" for fd
    unfolding nl_request_def by (intro carried) simp_all
qed

section \<open>Properties\<close>

text \<open>
  C32: the DHCP socket. Whatever the kernel answers, the exchange over the system calls has the
  result of the exchange over the abstract socket, reads the same replies and sends the same packets.
  It leaves the descriptors that were open, and no other: the new one is closed exactly once, as
  its last call. Nothing is sent before all of the set-up succeeded, with the socket
  bound to the interface, and only to 255.255.255.255 port 67.
\<close>

theorem dhcp_socket_refines:
  "case socket_acquire urandom iface mac k of (r, k') \<Rightarrow>
    (r, script k') = acquire (setup_answer k) urandom iface mac (script k) \<and> nk_fds k' = nk_fds k \<and>
    (\<exists>calls. nk_calls k' = nk_calls k @ calls \<and>
      socket_session (first_free (nk_fds k)) (dhcp_setup (first_free (nk_fds k)) iface)
        (dhcp_traffic (first_free (nk_fds k))) calls)"
proof -
  let ?fd = "first_free (nk_fds k)"
  have "CallSocket AF_INET SOCK_DGRAM 0 # tl (dhcp_setup ?fd iface) = dhcp_setup ?fd iface"
    by (simp add: dhcp_setup_calls)
  with dhcp_scope.session [where iface = iface and n = MAX_ROUNDS and xid = "random_xid urandom" and mac = mac and k = k] show ?thesis
    unfolding socket_acquire_def open_dhcp_opening acquire_def open_dhcp_answers by (auto split: option.splits)
qed

text \<open>
  The netlink socket. A request over the system calls has the result of the abstract exchange:
  the message sent once, one acknowledgement read. It leaves no descriptor open, also when the
  bind, the timeout, the send or the receive fails.
\<close>

lemma netlink_socket_refines:
  "case socket_send_and_ack msg k of (r, k') \<Rightarrow>
    (r, script k') = send_and_ack (script_ops k) msg (script k) \<and> nk_fds k' = nk_fds k \<and>
    (\<exists>calls. nk_calls k' = nk_calls k @ calls \<and>
      socket_session (first_free (nk_fds k)) (nl_setup (first_free (nk_fds k))) (nl_traffic (first_free (nk_fds k)) msg) calls)"
proof -
  let ?fd = "first_free (nk_fds k)"
  have "CallSocket AF_NETLINK SOCK_RAW NETLINK_ROUTE # tl (nl_setup ?fd) = nl_setup ?fd"
    by (simp add: nl_setup_def AF_NETLINK_def SOCK_RAW_def NETLINK_ROUTE_def)
  moreover have "send_and_ack (script_ops k) msg s =
      (case nl_open (script_ops k) s of (Some e, s) \<Rightarrow> (Inl e, s) | (None, s) \<Rightarrow> nl_request k msg s)" for s
    by (simp add: send_and_ack_def nl_request_def sbind_def split: option.splits prod.splits sum.splits)
  moreover have "nl_open (script_ops k) s = (first_error (nk_setup k) (length (nk_calls k)) (nl_setup ?fd), s)" for s
    by (simp add: script_ops_def)
  ultimately show ?thesis
    using nl_scope.session [where msg = msg and k = k and ka = k] unfolding socket_send_and_ack_def nl_open_opening smap_err_same by simp
qed

end
