(* ===== verification/Race_Threads.thy ===== *)
theory Race_Threads
  imports Net "HOL-Library.Multiset"
begin

text \<open>
  The race of \<open>src/net.rs\<close> with its threads: one for each candidate, which brings its link up
  over a netlink socket of its own and then runs its DHCP exchange, while the caller waits to join
  them. A schedule is the list of the threads in the order of their turns; the kernel answers a
  thread by its interface. \<open>Net\<close> runs the threads one after the other; here every schedule is shown
  to give the same.
\<close>

section \<open>The threads\<close>

text \<open>Not yet started, waiting for the acknowledgement, waiting for the carrier, with the link up, or ended.\<close>

datatype link_thread = Starting | Asked | Waiting | Up | Ended "lease option"

text \<open>A turn of a thread: a system call, a carrier wait or the DHCP exchange.\<close>

definition thread_turn ::
  "dhcp \<Rightarrow> (u32 \<Rightarrow> nl_answer) \<Rightarrow> string \<times> u32 \<times> bytes \<Rightarrow> link_thread \<Rightarrow> nl_state \<Rightarrow> link_thread \<times> nl_state" where
  "thread_turn acq ans cand t s = (case cand of (iface, ifindex, mac) \<Rightarrow> (case t of
       Starting \<Rightarrow> if took (ans ifindex) then (Asked, s\<lparr>nl_log := nl_log s @ [build_link_set_flags ifindex IFF_UP]\<rparr>)
         else (Ended None, s)
     | Asked \<Rightarrow> (case heard (ans ifindex) of Inl _ \<Rightarrow> (Ended None, s) | Inr _ \<Rightarrow> (Waiting, s))
     | Waiting \<Rightarrow> (Up, link_waited iface s)
     | Up \<Rightarrow> (Ended (result_ok (acq iface mac)), s)
     | Ended r \<Rightarrow> (Ended r, s)))"

definition turn ::
  "dhcp \<Rightarrow> (u32 \<Rightarrow> nl_answer) \<Rightarrow> (string \<times> u32 \<times> bytes) list \<Rightarrow> nat \<Rightarrow>
     link_thread list \<times> nl_state \<Rightarrow> link_thread list \<times> nl_state" where
  "turn acq ans cands i st = (case st of (ts, s) \<Rightarrow>
     if i < length cands then (case thread_turn acq ans (cands ! i) (ts ! i) s of (t, s) \<Rightarrow> (ts[i := t], s))
     else (ts, s))"

definition run_threads ::
  "dhcp \<Rightarrow> (u32 \<Rightarrow> nl_answer) \<Rightarrow> (string \<times> u32 \<times> bytes) list \<Rightarrow> nat list \<Rightarrow> nl_state \<Rightarrow>
     link_thread list \<times> nl_state" where
  "run_threads acq ans cands sched s = fold (turn acq ans cands) sched (replicate (length cands) Starting, s)"

definition joined :: "link_thread \<Rightarrow> lease option option" where
  "joined t = (case t of Ended r \<Rightarrow> Some r | _ \<Rightarrow> None)"

text \<open>The results in the candidates' order, once every thread has ended.\<close>

definition join_all ::
  "(string \<times> u32 \<times> bytes) list \<Rightarrow> link_thread list \<Rightarrow> (string \<times> u32 \<times> lease option) list option" where
  "join_all cands ts =
     (if list_all (\<lambda>t. joined t \<noteq> None) ts
      then Some (map (\<lambda>((iface, ifindex, _), t). (iface, ifindex, the (joined t))) (zip cands ts)) else None)"

text \<open>None while the caller still waits.\<close>

definition bring_up_race_threads ::
  "fsnode \<Rightarrow> dhcp \<Rightarrow> (u32 \<Rightarrow> nl_answer) \<Rightarrow> string list \<Rightarrow> nat list \<Rightarrow> nl_state \<Rightarrow>
     ((net_error + net_config) \<times> nl_state) option" where
  "bring_up_race_threads net_dir acq ans ifaces sched s =
     (let cands = race_candidates net_dir ifaces in
      if cands = [] then Some (Inl NoInterface, s)
      else case run_threads acq ans cands sched s of (ts, s1) \<Rightarrow>
        map_option (\<lambda>results. finish_race results s1) (join_all cands ts))"

section \<open>One thread\<close>

text \<open>Where a turn takes a thread, and what it adds to the messages and the waits.\<close>

definition thread_next ::
  "dhcp \<Rightarrow> (u32 \<Rightarrow> nl_answer) \<Rightarrow> string \<times> u32 \<times> bytes \<Rightarrow> link_thread \<Rightarrow> link_thread" where
  "thread_next acq ans cand t = (case cand of (iface, ifindex, mac) \<Rightarrow> (case t of
       Starting \<Rightarrow> if took (ans ifindex) then Asked else Ended None
     | Asked \<Rightarrow> if is_ok (heard (ans ifindex)) then Waiting else Ended None
     | Waiting \<Rightarrow> Up
     | Up \<Rightarrow> Ended (result_ok (acq iface mac))
     | Ended r \<Rightarrow> Ended r))"

definition thread_msgs :: "(u32 \<Rightarrow> nl_answer) \<Rightarrow> string \<times> u32 \<times> bytes \<Rightarrow> link_thread \<Rightarrow> bytes list" where
  "thread_msgs ans cand t = (if t = Starting then taken [ans (fst (snd cand))] [up_msg (fst (snd cand))] else [])"

definition thread_waits :: "nl_state \<Rightarrow> string \<times> u32 \<times> bytes \<Rightarrow> link_thread \<Rightarrow> nat list" where
  "thread_waits s cand t = (if t = Waiting then [wait_for_link (nl_carrier s (fst cand))] else [])"

lemma thread_turn_effect:
  "thread_turn acq ans cand t s = (thread_next acq ans cand t,
     s\<lparr>nl_log := nl_log s @ thread_msgs ans cand t, nl_waits := nl_waits s @ thread_waits s cand t\<rparr>)"
  by (simp add: thread_turn_def thread_next_def thread_msgs_def thread_waits_def link_waited_def answer_at_def up_msg_def
      split: link_thread.split prod.split sum.split)

definition after_turns ::
  "dhcp \<Rightarrow> (u32 \<Rightarrow> nl_answer) \<Rightarrow> string \<times> u32 \<times> bytes \<Rightarrow> nat \<Rightarrow> link_thread" where
  "after_turns acq ans cand k = (thread_next acq ans cand ^^ k) Starting"

lemma after_turns_simps [simp]:
  "after_turns acq ans cand 0 = Starting"
  "after_turns acq ans cand (Suc k) = thread_next acq ans cand (after_turns acq ans cand k)"
  by (simp_all add: after_turns_def)

lemma refused_unheard: "\<not> took a \<Longrightarrow> \<not> is_ok (heard a)"
  by (simp add: took_def heard_def split: nl_answer.splits)

lemma turns_ended: "after_turns acq ans cand (4 + k) = Ended (outcome acq (ans (fst (snd cand))) cand)"
  by (induction k) (use refused_unheard in \<open>auto simp: eval_nat_numeral thread_next_def outcome_def split: prod.split\<close>)

text \<open>The thread starts in its first turn only, and waits in its third only.\<close>

lemma turn_states:
  "after_turns acq ans cand k = Starting \<longleftrightarrow> k = 0"
  "after_turns acq ans cand k = Waiting \<longleftrightarrow> k = 2 \<and> is_ok (heard (ans (fst (snd cand))))"
  "joined (after_turns acq ans cand k) = Some r \<Longrightarrow> r = outcome acq (ans (fst (snd cand))) cand"
  "joined (after_turns acq ans cand k) = Some r \<Longrightarrow> k = 0 \<Longrightarrow> False"
  "joined (after_turns acq ans cand k) = Some r \<Longrightarrow> is_ok (heard (ans (fst (snd cand)))) \<Longrightarrow> 2 < k"
proof -
  consider "k = 0" | "k = 1" | "k = 2" | "k = 3" | j where "k = 4 + j"
  proof -
    have "k = 4 + (k - 4) \<or> k = 0 \<or> k = 1 \<or> k = 2 \<or> k = 3" by arith
    then show thesis using that by blast
  qed
  note k = this
  note sp = eval_nat_numeral thread_next_def joined_def outcome_def
  show "after_turns acq ans cand k = Starting \<longleftrightarrow> k = 0"
    using k by cases (simp_all only: turns_ended, auto simp: sp split: prod.splits)
  show "after_turns acq ans cand k = Waiting \<longleftrightarrow> k = 2 \<and> is_ok (heard (ans (fst (snd cand))))"
    using k by cases (simp_all only: turns_ended, use refused_unheard in \<open>auto simp: sp split: prod.splits\<close>)
  show "r = outcome acq (ans (fst (snd cand))) cand" if "joined (after_turns acq ans cand k) = Some r"
    using k that by cases (simp_all only: turns_ended, use refused_unheard in \<open>auto simp: sp split: prod.splits if_splits\<close>)
  show False if "joined (after_turns acq ans cand k) = Some r" "k = 0"
    using that by (simp add: joined_def)
  show "2 < k" if "joined (after_turns acq ans cand k) = Some r" "is_ok (heard (ans (fst (snd cand))))"
    using k that by cases (simp_all only: turns_ended, use refused_unheard in \<open>auto simp: sp split: prod.splits if_splits\<close>)
qed

lemma joined_after_four: "4 \<le> k \<Longrightarrow> joined (after_turns acq ans cand k) = Some (outcome acq (ans (fst (snd cand))) cand)"
  using turns_ended [of acq ans cand "k - 4"] by (simp add: joined_def)

section \<open>Turns in a schedule\<close>

text \<open>The threads in the order in which they have their \<open>k\<close>-th turn, counting from 0.\<close>

definition kth_turns :: "nat \<Rightarrow> nat list \<Rightarrow> nat list" where
  "kth_turns k sched = map ((!) sched) (filter (\<lambda>j. count_list (take j sched) (sched ! j) = k) [0..<length sched])"

lemma kth_turns_Nil [simp]: "kth_turns k [] = []"
  by (simp add: kth_turns_def)

lemma kth_turns_snoc: "kth_turns k (sched @ [i]) = kth_turns k sched @ (if count_list sched i = k then [i] else [])"
proof -
  have "map ((!) (sched @ [i])) (filter (\<lambda>j. count_list (take j (sched @ [i])) ((sched @ [i]) ! j) = k) [0..<length sched]) =
      kth_turns k sched"
    unfolding kth_turns_def by (intro map_cong filter_cong) (auto simp: nth_append)
  then show ?thesis unfolding kth_turns_def [of k "sched @ [i]"] by simp
qed

lemma kth_turns: "distinct (kth_turns k sched)" "set (kth_turns k sched) = {i. k < count_list sched i}"
proof -
  have "distinct (kth_turns k sched) \<and> set (kth_turns k sched) = {i. k < count_list sched i}"
  proof (induction sched rule: rev_induct)
    case (snoc i sched)
    then show ?case by (auto simp: kth_turns_snoc)
  qed simp
  then show "distinct (kth_turns k sched)" "set (kth_turns k sched) = {i. k < count_list sched i}" by simp_all
qed

section \<open>All threads\<close>

text \<open>After any schedule a thread is where its own turns took it.\<close>

definition asked_msgs :: "(u32 \<Rightarrow> nl_answer) \<Rightarrow> (string \<times> u32 \<times> bytes) list \<Rightarrow> nat list \<Rightarrow> bytes list" where
  "asked_msgs ans cands is = concat (map (\<lambda>i. thread_msgs ans (cands ! i) Starting) (filter (\<lambda>i. i < length cands) is))"

definition waited :: "nl_state \<Rightarrow> (u32 \<Rightarrow> nl_answer) \<Rightarrow> (string \<times> u32 \<times> bytes) list \<Rightarrow> nat list \<Rightarrow> nat list" where
  "waited s ans cands is = concat (map (\<lambda>i. link_wait (nl_carrier s) (ans (fst (snd (cands ! i)))) (cands ! i))
     (filter (\<lambda>i. i < length cands) is))"

lemma run_threads_state:
  "run_threads acq ans cands sched s =
     (map (\<lambda>i. after_turns acq ans (cands ! i) (count_list sched i)) [0..<length cands],
      s\<lparr>nl_log := nl_log s @ asked_msgs ans cands (kth_turns 0 sched),
        nl_waits := nl_waits s @ waited s ans cands (kth_turns 2 sched)\<rparr>)"
proof (induction sched rule: rev_induct)
  case Nil
  show ?case by (simp add: run_threads_def map_replicate_const asked_msgs_def waited_def)
next
  case (snoc i sched)
  let ?after = "\<lambda>sched i. after_turns acq ans (cands ! i) (count_list sched i)"
  have step: "run_threads acq ans cands (sched @ [i]) s = turn acq ans cands i (run_threads acq ans cands sched s)"
    by (simp add: run_threads_def)
  show ?case
  proof (cases "i < length cands")
    case True
    have "(map (?after sched) [0..<length cands])[i := thread_next acq ans (cands ! i) (?after sched i)] =
        map (?after (sched @ [i])) [0..<length cands]"
      using True by (intro nth_equalityI) (auto simp: nth_list_update)
    moreover have "thread_msgs ans (cands ! i) (?after sched i) =
        (if count_list sched i = 0 then thread_msgs ans (cands ! i) Starting else [])"
      by (simp add: thread_msgs_def turn_states(1))
    moreover have "thread_waits t (cands ! i) (?after sched i) =
        (if count_list sched i = 2 then link_wait (nl_carrier t) (ans (fst (snd (cands ! i)))) (cands ! i) else [])" for t
      by (simp add: thread_waits_def turn_states(2) link_wait_def)
    ultimately show ?thesis using True
      unfolding step snoc.IH
      by (simp add: turn_def thread_turn_effect kth_turns_snoc asked_msgs_def waited_def)
  next
    case False
    then have "map (?after (sched @ [i])) [0..<length cands] = map (?after sched) [0..<length cands]" by simp
    with False show ?thesis unfolding step snoc.IH
      by (simp add: turn_def kth_turns_snoc asked_msgs_def waited_def)
  qed
qed

text \<open>The caller goes on once every thread has ended, which four turns of each bring about.\<close>

lemma join_all_None:
  assumes "join_all cands (fst (run_threads acq ans cands sched s)) = None"
  shows "\<exists>i<length cands. count_list sched i < 4"
proof (rule ccontr)
  assume "\<not> (\<exists>i<length cands. count_list sched i < 4)"
  then have "4 \<le> count_list sched i" if "i < length cands" for i using that by (metis not_less)
  then have "list_all (\<lambda>t. joined t \<noteq> None) (fst (run_threads acq ans cands sched s))"
    by (simp add: run_threads_state list_all_iff joined_after_four)
  with assms show False by (simp add: join_all_def)
qed

text \<open>What the threads have sent and waited by then is, in some order, what they send and wait one by one.\<close>

lemma mset_turns:
  assumes "\<And>i. i < n \<Longrightarrow> f i \<noteq> [] \<Longrightarrow> k < count_list sched i"
  shows "mset (concat (map f (filter (\<lambda>i. i < n) (kth_turns k sched)))) = mset (concat (map f [0..<n]))"
proof -
  let ?xs = "filter (\<lambda>i. f i \<noteq> []) (filter (\<lambda>i. i < n) (kth_turns k sched))" and ?ys = "filter (\<lambda>i. f i \<noteq> []) [0..<n]"
  have cat: "concat (map f xs) = concat (map f (filter (\<lambda>i. f i \<noteq> []) xs))" for xs
    by (induction xs) auto
  have "set ?xs = set ?ys" using assms by (auto simp: kth_turns(2))
  moreover have "distinct ?xs" "distinct ?ys" using kth_turns(1) by (simp_all add: distinct_filter)
  ultimately have "mset ?xs = mset ?ys" by (intro set_eq_iff_mset_eq_distinct [THEN iffD1]) simp_all
  then have "mset (concat (map f ?xs)) = mset (concat (map f ?ys))"
    by (simp only: mset_concat mset_map flip: sum_mset_sum_list)
  then show ?thesis by (metis cat)
qed

lemma join_all_Some:
  assumes "join_all cands (fst (run_threads acq ans cands sched s)) = Some rs"
  shows "rs = map (\<lambda>(iface, i, mac). (iface, i, outcome acq (ans i) (iface, i, mac))) cands"
    and "mset (asked_msgs ans cands (kth_turns 0 sched)) = mset (asked_msgs ans cands [0..<length cands])"
    and "mset (waited s ans cands (kth_turns 2 sched)) = mset (waited s ans cands [0..<length cands])"
proof -
  let ?n = "length cands" and ?after = "\<lambda>i. after_turns acq ans (cands ! i) (count_list sched i)"
  from assms have j: "\<forall>i<?n. joined (?after i) \<noteq> None"
    and rs: "rs = map (\<lambda>((iface, ifindex, _), t). (iface, ifindex, the (joined t))) (zip cands (map ?after [0..<?n]))"
    by (auto simp: join_all_def run_threads_state list_all_iff split: if_splits)
  have o: "joined (?after i) = Some (outcome acq (ans (fst (snd (cands ! i)))) (cands ! i))" if "i < ?n" for i
    using j that turn_states(3) [of acq ans "cands ! i"] by fastforce
  show "rs = map (\<lambda>(iface, i, mac). (iface, i, outcome acq (ans i) (iface, i, mac))) cands"
    unfolding rs by (rule nth_equalityI) (simp_all add: o case_prod_beta)
  have all: "filter (\<lambda>i. i < ?n) [0..<?n] = [0..<?n]" by simp
  have "0 < count_list sched i" if "i < ?n" for i
    using turn_states(4) [OF o [OF that]] by blast
  then show "mset (asked_msgs ans cands (kth_turns 0 sched)) = mset (asked_msgs ans cands [0..<?n])"
    unfolding asked_msgs_def all by (intro mset_turns)
  have "2 < count_list sched i" if "i < ?n" "link_wait (nl_carrier s) (ans (fst (snd (cands ! i)))) (cands ! i) \<noteq> []" for i
    using turn_states(5) [OF o [OF that(1)]] that(2) by (auto simp: link_wait_def split: if_splits)
  then show "mset (waited s ans cands (kth_turns 2 sched)) = mset (waited s ans cands [0..<?n])"
    unfolding waited_def all by (intro mset_turns)
qed

section \<open>One thread after the other\<close>

text \<open>The kernel's answers in that order.\<close>

definition answers_in_order :: "(u32 \<Rightarrow> nl_answer) \<Rightarrow> (string \<times> u32 \<times> bytes) list \<Rightarrow> nl_answer list" where
  "answers_in_order ans cands = map (\<lambda>(_, i, _). ans i) cands"

text \<open>The messages of the candidates whose request is taken.\<close>

definition up_requests :: "(u32 \<Rightarrow> nl_answer) \<Rightarrow> (string \<times> u32 \<times> bytes) list \<Rightarrow> bytes list" where
  "up_requests ans cands = map (\<lambda>(_, i, _). up_msg i) (filter (\<lambda>(_, i, _). took (ans i)) cands)"

lemma answers_nth: "j < length cands \<Longrightarrow> answer_at (answers_in_order ans cands @ rest) j = ans (fst (snd (cands ! j)))"
  by (simp add: answer_at_def answers_in_order_def nth_append case_prod_beta)

lemma taken_in_order: "taken (answers_in_order ans cands @ rest) (map (\<lambda>(_, i, _). up_msg i) cands) = up_requests ans cands"
  by (induction cands) (auto simp: answers_in_order_def up_requests_def answer_at_def)

lemma asked_in_order: "asked_msgs ans cands [0..<length cands] = up_requests ans cands"
proof -
  have "asked_msgs ans cands [0..<length cands] = concat (map (\<lambda>c. thread_msgs ans c Starting) cands)"
    unfolding asked_msgs_def by (subst map_nth [symmetric, of cands]) (simp add: comp_def)
  also have "\<dots> = up_requests ans cands"
    by (induction cands) (auto simp: up_requests_def thread_msgs_def answer_at_def)
  finally show ?thesis .
qed

lemma race_leases_in_order:
  "race_leases acq cands (s\<lparr>nl_answers := answers_in_order ans cands @ nl_answers s\<rparr>) =
     (map (\<lambda>(iface, i, mac). (iface, i, outcome acq (ans i) (iface, i, mac))) cands,
      s\<lparr>nl_log := nl_log s @ up_requests ans cands, nl_waits := nl_waits s @ waited s ans cands [0..<length cands]\<rparr>)"
proof -
  let ?as = "answers_in_order ans cands @ nl_answers s"
  have "length (answers_in_order ans cands) = length cands" by (simp add: answers_in_order_def)
  moreover have "map (\<lambda>((iface, i, _), l). (iface, i, l)) (zip cands (link_leases acq ?as cands)) =
      map (\<lambda>(iface, i, mac). (iface, i, outcome acq (ans i) (iface, i, mac))) cands"
    by (rule nth_equalityI) (simp_all add: link_leases_def answers_nth case_prod_beta)
  moreover have "link_waits (nl_carrier s) ?as cands = waited s ans cands [0..<length cands]"
    unfolding link_waits_def waited_def by (intro arg_cong [where f = concat]) (simp add: answers_nth)
  ultimately show ?thesis by (cases s) (simp add: race_leases_effect taken_in_order)
qed

section \<open>After the join\<close>

text \<open>What was sent and waited before makes no difference to what is sent later and to the answers.\<close>

definition preceded :: "bytes list \<Rightarrow> nat list \<Rightarrow> nl_state \<Rightarrow> nl_state" where
  "preceded before ws s = s\<lparr>nl_log := before @ nl_log s, nl_waits := ws @ nl_waits s\<rparr>"

lemma send_preceded: "send_and_ack nl_ops m (preceded b w s) = map_prod id (preceded b w) (send_and_ack nl_ops m s)"
  by (simp add: send_nl preceded_def)

lemma apply_lease_preceded: "apply_lease i l (preceded b w s) = map_prod id (preceded b w) (apply_lease i l s)"
  by (simp add: apply_lease_def apply_addr_def nl_step_def add_address_def add_default_route_def send_preceded
      split: prod.split sum.split option.split)

lemma link_downs_preceded: "link_downs is (preceded b w s) = preceded b w (link_downs is s)"
  by (induction "is" arbitrary: s) (simp_all add: link_downs_def link_down_def send_preceded)

lemma finish_race_preceded: "finish_race rs (preceded b w s) = map_prod id (preceded b w) (finish_race rs s)"
  by (simp add: finish_race_def Let_def apply_lease_preceded link_downs_preceded split: option.split prod.split sum.split)

lemma apply_lease_waits: "nl_waits (snd (apply_lease i l s)) = nl_waits s"
  by (auto simp: apply_lease_def apply_addr_def nl_step_def link_msg send_nl split: prod.split sum.split option.split)

lemma finish_race_waits: "nl_waits (snd (finish_race rs s)) = nl_waits s"
proof -
  have "nl_waits s2 = nl_waits s" if "apply_lease i l s = (x, s2)" for i l x s2
    using apply_lease_waits [of i l s] that by simp
  then show ?thesis
    by (auto simp: finish_race_def Let_def link_downs_effect split: option.split prod.split sum.split)
qed

section \<open>The property\<close>

text \<open>
  C30: the race of the threads. Under every schedule the caller either still waits for a thread
  that has had fewer than four turns, or ends in the result, the remaining answers and, after the
  threads' messages, the messages of the model that runs them one after the other. The threads'
  messages bring up each candidate's link once, in some order, those apart whose socket the kernel
  refused; and each thread waits for its carrier as long as it does there.
\<close>

theorem race_any_schedule:
  "case bring_up_race_threads d acq ans ifaces sched s of
     None \<Rightarrow> \<exists>i<length (race_candidates d ifaces). count_list sched i < 4
   | Some (r, s') \<Rightarrow> let cands = race_candidates d ifaces in
       (case bring_up_race d acq ifaces (s\<lparr>nl_answers := answers_in_order ans cands @ nl_answers s\<rparr>) of
          (r0, s0) \<Rightarrow> r = r0 \<and> nl_answers s' = nl_answers s0 \<and>
            (\<exists>asked later. nl_log s' = nl_log s @ asked @ later \<and>
               mset asked = mset (map (\<lambda>(_, i, _). up_msg i) (filter (\<lambda>(_, i, _). took (ans i)) cands)) \<and>
               nl_log s0 = nl_log s @ map (\<lambda>(_, i, _). up_msg i) (filter (\<lambda>(_, i, _). took (ans i)) cands) @ later) \<and>
            mset (nl_waits s') = mset (nl_waits s0))"
proof (cases "race_candidates d ifaces = []")
  case True
  then show ?thesis by (simp add: bring_up_race_threads_def bring_up_race_def answers_in_order_def)
next
  case False
  let ?cands = "race_candidates d ifaces"
  let ?run = "run_threads acq ans ?cands sched s"
  show ?thesis
  proof (cases "join_all ?cands (fst ?run)")
    case None
    with join_all_None [OF this] False show ?thesis
      by (simp add: bring_up_race_threads_def case_prod_beta)
  next
    case (Some rs)
    note rs = join_all_Some [OF Some]
    let ?asked = "asked_msgs ans ?cands (kth_turns 0 sched)" and ?waits = "waited s ans ?cands (kth_turns 2 sched)"
    let ?in_order = "up_requests ans ?cands" and ?pauses = "waited s ans ?cands [0..<length ?cands]"
    obtain r t where f: "finish_race rs (s\<lparr>nl_log := [], nl_waits := []\<rparr>) = (r, t)" by fastforce
    have t: "nl_waits t = []" using finish_race_waits [of rs "s\<lparr>nl_log := [], nl_waits := []\<rparr>"] f by simp
    have fin: "finish_race rs (s\<lparr>nl_log := b, nl_waits := w\<rparr>) = (r, preceded b w t)" for b w
      using finish_race_preceded [of rs b w "s\<lparr>nl_log := [], nl_waits := []\<rparr>"] f by (simp add: preceded_def)
    have threads: "bring_up_race_threads d acq ans ifaces sched s =
        Some (r, preceded (nl_log s @ ?asked) (nl_waits s @ ?waits) t)"
      using Some False by (simp add: bring_up_race_threads_def run_threads_state Let_def fin)
    have one: "bring_up_race d acq ifaces (s\<lparr>nl_answers := answers_in_order ans ?cands @ nl_answers s\<rparr>) =
        (r, preceded (nl_log s @ ?in_order) (nl_waits s @ ?pauses) t)"
      using False by (simp add: bring_up_race_def Let_def race_leases_in_order rs(1) [symmetric] fin)
    have "mset ?asked = mset ?in_order" "mset ?waits = mset ?pauses"
      using rs(2,3) by (simp_all add: asked_in_order)
    then show ?thesis unfolding threads Let_def option.case prod.case one up_requests_def [symmetric]
      by (intro conjI exI [of _ ?asked] exI [of _ "nl_log t"]) (simp_all add: preceded_def t)
  qed
qed

end
