(* ===== verification/Clean_Up.thy ===== *)
theory Clean_Up
  imports Machine
begin

text \<open>
  What a run leaves behind of its private mounts (\<open>with_private_mount\<close> and
  \<open>mount_write_unmount\<close> of \<open>src/deploy.rs\<close>): the kernel at the end compared with the kernel at
  the start, whatever ends the run. The invariant is carried through the run by \<open>kept_by_host\<close>.
\<close>

section \<open>Nothing left behind\<close>









section \<open>The calls\<close>










section \<open>The private mount\<close>



section \<open>The run\<close>






section \<open>Property\<close>


end
