(* ===== verification/Report_Contract.thy ===== *)
theory Report_Contract
  imports Probe Net_Config
begin

text \<open>
  The report against the rules of the controller for its values (\<open>src/report.rs\<close>, the checks of
  \<open>tests/contract.rs\<close>): which texts a field may hold, and which entries the lists have.
\<close>

section \<open>The types of the fields\<close>

definition ACCEPTED_MEMORY_SUFFIXES :: "string list" where
  "ACCEPTED_MEMORY_SUFFIXES = [''GiB'', ''MiB'', ''TiB'', ''GB'', ''MB'', ''TB'']"

text \<open>A magnitude and a unit; digits, or digits and a point.\<close>

definition has_unit :: "(char \<Rightarrow> bool) \<Rightarrow> string list \<Rightarrow> string \<Rightarrow> bool" where
  "has_unit ok units t \<longleftrightarrow> list_ex (\<lambda>u. case strip_suffix u t of
       None \<Rightarrow> False | Some n \<Rightarrow> n \<noteq> [] \<and> list_all ok n) units"

definition decimal :: "char \<Rightarrow> bool" where
  "decimal c \<longleftrightarrow> is_ascii_digit c \<or> c = CHR ''.''"

text \<open>One address: never empty, and without the comma of a joined list.\<close>

definition address_char :: "char \<Rightarrow> bool" where
  "address_char c \<longleftrightarrow> decimal c \<or> c = CHR '':'' \<or> (CHR ''a'' \<le> c \<and> c \<le> CHR ''f'')"

definition cpu_typed :: "cpu \<Rightarrow> bool" where
  "cpu_typed c \<longleftrightarrow> c_frequency c = [] \<or> has_unit decimal [''GHz''] (c_frequency c)"

definition memory_typed :: "memory_module \<Rightarrow> bool" where
  "memory_typed m \<longleftrightarrow> has_unit is_ascii_digit ACCEPTED_MEMORY_SUFFIXES (m_capacity m) \<and> m_type m \<noteq> [] \<and>
     (m_speed m = [] \<or> has_unit is_ascii_digit [''MHz''] (m_speed m))"

definition disk_typed :: "disk \<Rightarrow> bool" where
  "disk_typed d \<longleftrightarrow> starts_with ''/dev/'' (d_name d) \<and> d_type d \<in> {''NVMe'', ''SSD'', ''HDD''}"

definition nic_typed :: "nic \<Rightarrow> bool" where
  "nic_typed n \<longleftrightarrow> (n_speed n = [] \<or> has_unit decimal [''Gbps'', ''Mbps''] (n_speed n)) \<and>
     list_all (\<lambda>ip. ip \<noteq> [] \<and> list_all address_char ip) (n_ips n)"

definition report_typed :: "inspection_report \<Rightarrow> bool" where
  "report_typed r \<longleftrightarrow> boot_mode_detected r \<in> {''UEFI'', ''Legacy''} \<and> list_all cpu_typed (cpus r) \<and>
     list_all memory_typed (memory r) \<and> list_all disk_typed (disks r) \<and> list_all nic_typed (nics r)"

section \<open>Lemmas\<close>

lemma has_unit_app: "u \<in> set units \<Longrightarrow> n \<noteq> [] \<Longrightarrow> list_all ok n \<Longrightarrow> has_unit ok units (n @ u)"
  by (auto simp: has_unit_def list_ex_iff strip_suffix_app intro!: bexI [of _ u])

lemma dec_all: "list_all is_ascii_digit (dec n)" "list_all decimal (dec n)" "list_all address_char (dec n)"
  by (auto simp: list_all_iff decimal_def address_char_def dest: dec_digits)

lemma cpu_decode_typed: "cpu_typed (cpu_decode s)"
proof -
  have "has_unit decimal [''GHz''] (dec a @ ''.'' @ dec b @ ''GHz'')" for a b
    using has_unit_app [of "''GHz''" "[''GHz'']" "dec a @ ''.'' @ dec b" decimal]
    by (simp add: dec_all decimal_def)
  then show ?thesis by (simp add: cpu_typed_def cpu_decode_def frequency_def Let_def split: option.splits)
qed

lemma memory_decode_typed: "memory_decode s = Some m \<Longrightarrow> memory_typed m"
proof -
  assume "memory_decode s = Some m"
  then obtain n where m: "m_capacity m = format_capacity n" "m_type m = memory_type (s_byte s 0x12)"
      "m_speed m = memory_speed (s_word s 0x15)" by (auto simp: memory_decode_def capacity_def)
  have "has_unit is_ascii_digit ACCEPTED_MEMORY_SUFFIXES (dec k @ u)" if "u = ''GiB'' \<or> u = ''MiB''" for k u
    using that by (intro has_unit_app) (auto simp: dec_all ACCEPTED_MEMORY_SUFFIXES_def)
  then have "has_unit is_ascii_digit ACCEPTED_MEMORY_SUFFIXES (format_capacity n)"
    by (simp add: format_capacity_def)
  moreover have "memory_type code \<noteq> []" for code by (simp add: memory_type_def)
  moreover have "memory_speed v = [] \<or> has_unit is_ascii_digit [''MHz''] (memory_speed v)" for v
    using has_unit_app [of "''MHz''" "[''MHz'']"] by (auto simp: memory_speed_def dec_all split: option.splits)
  ultimately show ?thesis by (simp add: memory_typed_def m)
qed

lemma disk_decode_typed: "disk_decode d name = Some x \<Longrightarrow> disk_typed x"
  by (auto simp: disk_decode_def disk_typed_def disk_type_def split: if_splits option.splits)

lemma hex_lower_address: "n < 16 \<Longrightarrow> address_char (hex_lower n)"
  by (auto simp: address_char_def decimal_def is_ascii_digit_def hex_lower_def less_eq_char_def)

lemma hex_text_address: "hex_text n \<noteq> [] \<and> list_all address_char (hex_text n)"
  by (induction n rule: hex_text.induct) (subst hex_text.simps, auto simp: hex_lower_address)+

lemma join_address:
  "list_all address_char d \<Longrightarrow> list_all (list_all address_char) ws \<Longrightarrow> list_all address_char (join d ws)"
  using set_join [of d ws] by (auto simp: list_all_iff)

lemma join_nonempty: "ws \<noteq> [] \<Longrightarrow> [] \<notin> set ws \<Longrightarrow> join d ws \<noteq> []"
  by (cases "(d, ws)" rule: join.cases) auto

lemma fmt_ip_address: "fmt_ip ip \<noteq> [] \<and> list_all address_char (fmt_ip ip)"
proof -
  have v4: "list_all address_char (fmt_ipv4 a)" for a
    by (auto simp: list_all_iff address_char_def decimal_def dest: fmt_ipv4_chars)
  have colon: "list_all address_char '':''" "list_all address_char ''::''" "list_all address_char ''::ffff:''"
    by (simp_all add: address_char_def)
  have hexed: "list_all address_char (join '':'' (map hex_text ss))" for ss
    using hex_text_address by (intro join_address colon) (simp add: list_all_iff)
  have "join '':'' (map hex_text (segments w)) \<noteq> []" for w
  proof (rule join_nonempty)
    show "[] \<notin> set (map hex_text (segments w))" using hex_text_address by (metis imageE set_map)
  qed (simp add: segments_def)
  with v4 colon hexed show ?thesis
    by (cases ip) (auto simp: fmt_ip_def fmt_ipv6_def Let_def split: prod.splits)
qed

lemma set_trim_end: "set (trim_end_matches P s) \<subseteq> set s"
  using set_dropWhileD by (fastforce simp: trim_end_matches_def)

lemma nic_speed_typed: "nic_speed raw = [] \<or> has_unit decimal [''Gbps'', ''Mbps''] (nic_speed raw)"
proof -
  have whole: "has_unit decimal [''Gbps'', ''Mbps''] (dec k @ u)" if "u = ''Gbps'' \<or> u = ''Mbps''" for k u
    using that by (intro has_unit_app) (auto simp: dec_all)
  have "list_all decimal (gbps_text m)" for m
  proof -
    let ?digits = "[digit_char (m mod 1000 div 100), digit_char (m mod 1000 div 10 mod 10), digit_char (m mod 1000 mod 10)]"
    have "m mod 1000 div 100 < 10" by (simp add: less_mult_imp_div_less)
    then have "list_all decimal ?digits" by (simp add: decimal_def digit_char_is_digit)
    then have "list_all decimal (trim_end_matches (\<lambda>c. c = CHR ''0'') ?digits)"
      using set_trim_end by (auto simp only: list_all_iff)
    then show ?thesis by (simp add: gbps_text_def Let_def dec_all decimal_def)
  qed
  then have "has_unit decimal [''Gbps'', ''Mbps''] (gbps_text m @ ''Gbps'')" for m
    by (intro has_unit_app) (auto simp: gbps_text_def Let_def)
  with whole show ?thesis by (auto simp: nic_speed_def Let_def split: option.splits)
qed

lemma nic_decode_typed: "nic_decode d addrs name = Some n \<Longrightarrow> nic_typed n"
proof -
  assume "nic_decode d addrs name = Some n"
  then have n: "n_speed n = nic_speed (read_trimmed d [name, ''speed''])"
      "n_ips n = unwrap_or (map_option (map fmt_ip) (addrs name)) []"
    by (auto simp: nic_decode_def split: if_splits)
  show ?thesis unfolding nic_typed_def n
    by (cases "addrs name") (simp_all add: list_all_iff fmt_ip_address [unfolded list_all_iff] nic_speed_typed)
qed

lemma map_filter_all: "(\<And>x y. f x = Some y \<Longrightarrow> P y) \<Longrightarrow> list_all P (List.map_filter f xs)"
  by (induction xs) (auto simp: map_filter_simps split: option.splits)

lemma probe_lists:
  "disks (probe_collect dmi efi blocks nets ifs) = disk_collect_from blocks"
  "nics (probe_collect dmi efi blocks nets ifs) = nic_collect_from nets (interface_addresses ifs)"
  "cpus (probe_collect dmi efi blocks nets ifs) = cpu_collect (unwrap_or (result_ok (from_path dmi)) [])"
  "memory (probe_collect dmi efi blocks nets ifs) = memory_collect (unwrap_or (result_ok (from_path dmi)) [])"
  by (simp_all add: probe_collect_def assemble_def Let_def)

lemma probe_typed: "report_typed (probe_collect dmi efi blocks nets ifs)"
proof -
  have "boot_mode_detected (probe_collect dmi efi blocks nets ifs) \<in> {''UEFI'', ''Legacy''}"
    by (simp add: probe_collect_def assemble_def system_from_parts_def Let_def)
  moreover have "list_all cpu_typed (cpu_collect ss)" "list_all memory_typed (memory_collect ss)" for ss
    by (simp_all add: cpu_collect_def list_all_iff cpu_decode_typed)
      (simp only: memory_collect_def list_all_iff [symmetric], rule map_filter_all, rule memory_decode_typed)
  moreover have "list_all disk_typed (disk_collect_from blocks)" "list_all nic_typed (nic_collect_from nets addrs)" for addrs
    by (auto simp: disk_collect_from_def nic_collect_from_def split: option.splits
        intro: map_filter_all disk_decode_typed nic_decode_typed)
  ultimately show ?thesis by (simp add: report_typed_def probe_lists)
qed

text \<open>The devices that are reported as disks.\<close>

definition fixed_disk :: "fsnode \<Rightarrow> string \<Rightarrow> bool" where
  "fixed_disk d name \<longleftrightarrow> utf8_valid name \<and> path_exists d [name, ''device''] \<and>
     read_trimmed d [name, ''removable''] \<noteq> Some ''1'' \<and>
     (case Option.bind (read_trimmed d [name, ''size'']) parse_u64 of Some sectors \<Rightarrow> sectors \<noteq> 0 | None \<Rightarrow> False)"

lemma disk_names:
  "map d_name (disk_collect_from d) = map (\<lambda>n. ''/dev/'' @ n) (filter (fixed_disk d) (sort (unwrap_or (read_dir d []) [])))"
proof -
  have "map d_name (List.map_filter (disk_decode d) ns) = map (\<lambda>n. ''/dev/'' @ n) (filter (fixed_disk d) ns)" for ns
    by (induction ns) (auto simp: map_filter_simps disk_decode_def fixed_disk_def split: option.splits)
  then show ?thesis by (simp add: disk_collect_from_def split: option.splits)
qed

section \<open>Property\<close>

text \<open>
  C29: whatever the firmware tables and \<open>/sys\<close> hold, the report is one the controller accepts.
  Its boot mode, disk types, frequencies and speeds are of the fixed forms; every capacity is a
  magnitude with an accepted unit, never a bare number; every address is a text of its own,
  never a joined list. There is one CPU entry per populated central processor, one memory entry per
  device of known non-zero size, whose text reads back as that size in MiB, and one disk entry
  per fixed device with a size, in name order.
\<close>

theorem report_contract:
  "let r = probe_collect dmi efi blocks nets ifs; ss = unwrap_or (result_ok (from_path dmi)) [] in
   report_typed r \<and>
   length (cpus r) = length (filter (\<lambda>s. header_type s = TYPE_PROCESSOR \<and> is_central_populated s) ss) \<and>
   map (\<lambda>m. capacity_mib (m_capacity m)) (memory r) =
     map size_mib (filter (\<lambda>s. header_type s = TYPE_MEMORY_DEVICE \<and> size_mib s \<noteq> None) ss) \<and>
   map d_name (disks r) =
     map (\<lambda>n. ''/dev/'' @ n) (filter (fixed_disk blocks) (sort (unwrap_or (read_dir blocks []) [])))"
  unfolding Let_def probe_lists
  by (intro conjI probe_typed memory_collect_spec disk_names) (simp add: cpu_collect_def conj_commute)

end
