(* ===== verification/Contract_Tests.thy ===== *)
theory Contract_Tests
  imports Report_Contract Cmdline
begin

text \<open>
  The checks of \<open>tests/contract.rs\<close> over the fixtures shared with the controller, as functions of the
  fixtures, and the fixtures themselves: the golden report as it decodes, and the golden boot
  script. The model passes them.
\<close>

section \<open>The checks\<close>

definition CONTRACT_VERSION :: string where "CONTRACT_VERSION = ''v4.2''"

definition GOLDEN_NUM_CPU_SOCKETS :: nat where "GOLDEN_NUM_CPU_SOCKETS = 2"
definition GOLDEN_TOTAL_CPU_CORES :: nat where "GOLDEN_TOTAL_CPU_CORES = 64"
definition GOLDEN_NUM_DIMMS :: nat where "GOLDEN_NUM_DIMMS = 4"
definition GOLDEN_NUM_DISKS :: nat where "GOLDEN_NUM_DISKS = 2"
definition GOLDEN_TOTAL_DISK_GB :: nat where "GOLDEN_TOTAL_DISK_GB = 1920"
definition GOLDEN_NUM_NICS :: nat where "GOLDEN_NUM_NICS = 2"
definition GOLDEN_FIRST_NIC_NUM_IPS :: nat where "GOLDEN_FIRST_NIC_NUM_IPS = 2"

definition contract_version_matches_vendored_version_file :: "string \<Rightarrow> bool" where
  "contract_version_matches_vendored_version_file vendored \<longleftrightarrow> CONTRACT_VERSION = trim vendored"

definition carries_suffix :: "memory_module \<Rightarrow> bool" where
  "carries_suffix dimm \<longleftrightarrow> list_ex (\<lambda>s. length s < length (m_capacity dimm) \<and> strip_suffix s (m_capacity dimm) \<noteq> None)
     ACCEPTED_MEMORY_SUFFIXES"

definition hardware_aggregates_match_contract :: "inspection_report \<Rightarrow> bool" where
  "hardware_aggregates_match_contract report \<longleftrightarrow>
     length (cpus report) = GOLDEN_NUM_CPU_SOCKETS \<and>
     sum_list (map (\<lambda>c. unat (c_cores c)) (cpus report)) = GOLDEN_TOTAL_CPU_CORES \<and>
     length (memory report) = GOLDEN_NUM_DIMMS \<and> list_all carries_suffix (memory report) \<and>
     length (disks report) = GOLDEN_NUM_DISKS \<and>
     sum_list (map (\<lambda>d. unat (d_size_gb d)) (disks report)) = GOLDEN_TOTAL_DISK_GB \<and>
     length (nics report) = GOLDEN_NUM_NICS \<and>
     (case nics report of [] \<Rightarrow> False | n # _ \<Rightarrow> length (n_ips n) = GOLDEN_FIRST_NIC_NUM_IPS)"

definition golden_boot_cmdline_provider_id_parses :: "string \<Rightarrow> bool" where
  "golden_boot_cmdline_provider_id_parses script =
     (case find (\<lambda>l. starts_with ''kernel '' (trim_start l)) (lines script) of
        None \<Rightarrow> False
      | Some kernel_line \<Rightarrow> (case params_parse kernel_line of
            Inl _ \<Rightarrow> False
          | Inr params \<Rightarrow> bp_provider_id params = ''b7://contract-test/host-01'' \<and>
              bp_namespace params = ''contract-test'' \<and> bp_host params = ''host-01''))"

section \<open>The fixtures\<close>

definition golden_cpu :: "string \<Rightarrow> cpu" where
  "golden_cpu socket = \<lparr>c_id = ''CPU.Socket.'' @ socket, c_vendor = ''Intel'',
     c_model = ''Intel(R) Xeon(R) Gold 6338 CPU @ 2.00GHz'', c_cores = 32, c_threads = 64, c_frequency = ''2.0GHz''\<rparr>"

definition golden_dimm :: "string \<Rightarrow> memory_module" where
  "golden_dimm slot = \<lparr>m_id = ''DIMM.Socket.'' @ slot, m_type = ''DDR4'', m_capacity = ''32GiB'', m_speed = ''3200MHz''\<rparr>"

definition golden_disk :: "string \<Rightarrow> string \<Rightarrow> disk" where
  "golden_disk dev serial = \<lparr>d_name = dev, d_model = ''Dell Ent NVMe AGN MU U.2 960GB'', d_size_gb = 960,
     d_type = ''NVMe'', d_serial = serial\<rparr>"

definition golden_nic :: "string \<Rightarrow> string \<Rightarrow> string list \<Rightarrow> nic" where
  "golden_nic iface mac ips = \<lparr>n_name = iface, n_mac = mac, n_driver = ''ixgbe'', n_speed = ''10Gbps'', n_ips = ips\<rparr>"

definition GOLDEN :: inspection_report where
  "GOLDEN = \<lparr>manufacturer = ''Dell Inc.'', model = ''PowerEdge R650'', serial_number = ''ABCD123'',
     cpus = [golden_cpu ''1'', golden_cpu ''2''],
     memory = [golden_dimm ''A1'', golden_dimm ''A2'', golden_dimm ''B1'', golden_dimm ''B2''],
     disks = [golden_disk ''/dev/nvme0n1'' ''S64XNE0R301234'', golden_disk ''/dev/nvme1n1'' ''S64XNE0R305678''],
     nics = [golden_nic ''eno1'' ''aa:bb:cc:dd:ee:01'' [''192.0.2.10'', ''fe80::a8bb:ccff:fedd:ee01''],
       golden_nic ''eno2'' ''aa:bb:cc:dd:ee:02'' [''192.0.2.11'']],
     boot_mode_detected = ''UEFI'', firmware_version = ''2.10.2''\<rparr>"

definition golden_params :: "string list" where
  "golden_params = [''kernel'', ''http://images.example.invalid/vmlinuz'', ''beskar7.api=https://beskar7.example.invalid:8082'',
     ''beskar7.namespace=contract-test'', ''beskar7.host=host-01'', ''beskar7.token=test-token-0123456789abcdef'',
     ''beskar7.target=http://images.example.invalid/kairos.raw'',
     ''beskar7.target-digest=sha256:'' @ replicate 64 (CHR ''a''), ''beskar7.provider-id=b7://contract-test/host-01'',
     ''beskar7.ca=dGVzdC1jYS1wZW0tcGxhY2Vob2xkZXI='', ''beskar7.disk=/dev/vda'', ''BOOTIF=01-52-54-00-12-34-56'']"

definition GOLDEN_BOOT_CMDLINE :: string where
  "GOLDEN_BOOT_CMDLINE = join [CHR 0x0A] [''#!ipxe'', join '' '' golden_params,
     ''initrd http://images.example.invalid/initrd.img'', ''boot'', []]"

section \<open>The model passes them\<close>

lemma golden_version: "contract_version_matches_vendored_version_file (''v4.2'' @ [CHR 0x0A])"
  by code_simp

lemma golden_aggregates: "hardware_aggregates_match_contract GOLDEN"
  by code_simp

lemma golden_typed: "report_typed GOLDEN"
  by code_simp

lemma golden_boot_cmdline: "golden_boot_cmdline_provider_id_parses GOLDEN_BOOT_CMDLINE"
  by code_simp

text \<open>Every report within the types of the contract carries the suffixes the controller accepts.\<close>

lemma typed_carries_suffixes: "report_typed r \<Longrightarrow> list_all carries_suffix (memory r)"
proof -
  have "carries_suffix m" if "memory_typed m" for m
  proof -
    from that obtain u n where "u \<in> set ACCEPTED_MEMORY_SUFFIXES" "strip_suffix u (m_capacity m) = Some n" "n \<noteq> []"
      by (auto simp: memory_typed_def has_unit_def list_ex_iff split: option.splits)
    then show ?thesis by (auto simp: carries_suffix_def list_ex_iff strip_suffix_Some intro!: bexI [of _ u])
  qed
  then show "report_typed r \<Longrightarrow> ?thesis" by (simp add: report_typed_def list_all_iff)
qed

end
