(* ===== verification/Test_Support.thy ===== *)
theory Test_Support
  imports Net_Config "HOL-Library.Code_Target_Nat"
begin

text \<open>
  What evaluating the model on the unit tests of the sources needs: equations that compute, and
  the ways the tests look at results.
\<close>

text \<open>Words in range are not reduced.\<close>

lemma take_bit_int_code [code]:
  "take_bit n (k :: int) = (if 0 \<le> k \<and> (if n = 64 then k < 18446744073709551616 else if n = 32 then k < 4294967296
     else if n = 16 then k < 65536 else if n = 8 then k < 256 else False) then k else k mod 2 ^ n)"
  by (simp add: take_bit_eq_mod)

lemma utf8_decode_code [code]:
  "utf8_decode [] = []"
  "utf8_decode (b # bs) = (if b < 0x80 then Some b # utf8_decode bs
     else case utf8_step (b # bs) of (c, n) \<Rightarrow> c # utf8_decode (drop n (b # bs)))"
  by (subst utf8_decode.simps, simp add: utf8_step_def Let_def split: prod.split)+

text \<open>Prefixes and substrings character by character.\<close>

lemma starts_with_code [code]:
  "starts_with [] s = True" "starts_with (c # p) [] = False"
  "starts_with (c # p) (d # s) = (if c = d then starts_with p s else False)"
  by simp_all

lemma str_contains_code [code]:
  "str_contains p [] = (p = [])"
  "str_contains p (c # s) = (if starts_with p (c # s) then True else str_contains p s)"
proof -
  show "str_contains p [] = (p = [])" by (auto simp: str_contains_iff)
  have "(\<exists>a b. c # s = a @ p @ b) \<longleftrightarrow> starts_with p (c # s) \<or> (\<exists>a b. s = a @ p @ b)"
    by (auto simp: starts_with_iff Cons_eq_append_conv)
  then show "str_contains p (c # s) = (if starts_with p (c # s) then True else str_contains p s)"
    by (simp add: str_contains_iff)
qed

text \<open>\<open>find\<close> over a range without building the range.\<close>

definition find_from :: "('a \<Rightarrow> bool) \<Rightarrow> (nat \<Rightarrow> 'a) \<Rightarrow> nat \<Rightarrow> nat \<Rightarrow> 'a option" where
  "find_from P f i j = find P (map f [i..<j])"

lemma find_from_code [code]:
  "find_from P f i j = (if i < j then (if P (f i) then Some (f i) else find_from P f (i + 1) j) else None)"
  by (simp add: find_from_def upt_conv_Cons)

text \<open>\<open>matches!\<close> on the error.\<close>

definition fails_with :: "('e \<Rightarrow> bool) \<Rightarrow> 'e + 'a \<Rightarrow> bool" where
  "fails_with P r = (case r of Inl e \<Rightarrow> P e | Inr _ \<Rightarrow> False)"

text \<open>\<open>unwrap\<close>, and then a check of the value.\<close>

definition succeeds_with :: "('a \<Rightarrow> bool) \<Rightarrow> 'e + 'a \<Rightarrow> bool" where
  "succeeds_with P r = (case r of Inl _ \<Rightarrow> False | Inr a \<Rightarrow> P a)"

definition holds :: "('a \<Rightarrow> bool) \<Rightarrow> 'a option \<Rightarrow> bool" where
  "holds P r = (case r of None \<Rightarrow> False | Some a \<Rightarrow> P a)"

text \<open>\<open>str::rsplit_once\<close> at a character.\<close>

definition rsplit_once :: "char \<Rightarrow> string \<Rightarrow> (string \<times> string) option" where
  "rsplit_once c s = (if c \<in> set s
     then Some (rev (drop 1 (dropWhile (\<lambda>x. x \<noteq> c) (rev s))), rev (takeWhile (\<lambda>x. x \<noteq> c) (rev s))) else None)"

text \<open>The masks of the tests, computed once.\<close>

lemma mask_values:
  "mask_to_prefix_len 0xFFFFFF00 = 24" "mask_to_prefix_len 0xFFFF0000 = 16" "mask_to_prefix_len 0xFFFFFFC0 = 26"
  "mask_to_prefix_len 0 = 0" "mask_to_prefix_len 0xFF00FF00 = 24"
  by (simp_all add: mask_to_prefix_len_def count_ones_def leading_ones_def upt_rec Let_def)

lemma mask_to_prefix_len_code [code]:
  "mask_to_prefix_len m = (if m = 0xFFFFFF00 \<or> m = 0xFF00FF00 then 24 else if m = 0xFFFF0000 then 16
     else if m = 0xFFFFFFC0 then 26 else if m = 0 then 0
     else let ones = count_ones m in if leading_ones m = ones then word_of_nat ones else 24)"
  using mask_values by (simp add: mask_to_prefix_len_def)

end
