(* ===== verification/Boot_Tests.thy ===== *)
theory Boot_Tests
  imports Efiboot Test_Support
begin

text \<open>
  The unit tests of \<open>src/efiboot.rs\<close> as functions, and the model passes them. \<open>MemVars\<close>, the
  store they register entries in, keeps the contract of a variable store.
\<close>

section \<open>The store in memory\<close>

text \<open>A \<open>BTreeMap\<close> as the list of its entries in the order of the keys.\<close>

fun tree_insert :: "string \<Rightarrow> bytes \<Rightarrow> (string \<times> bytes) list \<Rightarrow> (string \<times> bytes) list" where
  "tree_insert k v [] = [(k, v)]"
| "tree_insert k v ((k', v') # t) =
     (if k = k' then (k, v) # t else if k < k' then (k, v) # (k', v') # t else (k', v') # tree_insert k v t)"

record mem_vars =
  mv_vars :: "(string \<times> bytes) list"
  mv_fail_write :: "string option"
  mv_writes :: "string list"

definition mem_default :: mem_vars where
  "mem_default = \<lparr>mv_vars = [], mv_fail_write = None, mv_writes = []\<rparr>"

definition mem_with :: "(string \<times> bytes) list \<Rightarrow> mem_vars" where
  "mem_with vars = mem_default\<lparr>mv_vars := fold (\<lambda>(n, v). tree_insert n v) vars []\<rparr>"

definition mem_get :: "mem_vars \<Rightarrow> string \<Rightarrow> bytes option" where
  "mem_get m name = map_of (mv_vars m) name"

definition mem_write :: "mem_vars \<Rightarrow> string \<Rightarrow> bytes \<Rightarrow> (io_error + unit) \<times> mem_vars" where
  "mem_write m name value =
     (if mv_fail_write m = Some name then (Inl (OsError EIO), m)
      else (Inr (), m\<lparr>mv_writes := mv_writes m @ [name], mv_vars := tree_insert name value (mv_vars m)\<rparr>))"

definition mem_store :: "mem_vars var_store" where
  "mem_store = \<lparr>v_list = (\<lambda>m. Inr (map fst (mv_vars m))), v_read = (\<lambda>m name. Inr (mem_get m name)), v_write = mem_write\<rparr>"

lemma map_of_tree_insert [simp]: "map_of (tree_insert k v t) k' = (if k' = k then Some v else map_of t k')"
  by (induction k v t rule: tree_insert.induct) auto

lemma tree_insert_keys: "k \<in> fst ` set (tree_insert k v t)"
  "filter (\<lambda>x. x \<noteq> k) (map fst (tree_insert k v t)) = filter (\<lambda>x. x \<noteq> k) (map fst t)"
  by (induction k v t rule: tree_insert.induct) auto

interpretation mem: var_store_laws mem_store
  by unfold_locales (auto simp: mem_store_def mem_write_def mem_get_def tree_insert_keys split: if_splits)

section \<open>The paths of the tests\<close>

definition GUID :: bytes where
  "GUID = [0x10, 0x32, 0x54, 0x76, 0x98, 0xBA, 0xDC, 0xFE, 0x01, 0x23, 0x45, 0x67, 0x89, 0xAB, 0xCD, 0xEF]"

definition esp :: gpt_esp where
  "esp = \<lparr>g_number = 1, g_unique_guid = GUID, g_first_lba = 2048, g_last_lba = 2048 + 1023\<rparr>"

lemma esp_code [code]: "esp = \<lparr>g_number = 1, g_unique_guid = GUID, g_first_lba = 2048, g_last_lba = 3071\<rparr>"
  by (simp add: esp_def)

text \<open>The partition node of the tests, computed once.\<close>

definition esp_hd_data :: bytes where
  "esp_hd_data = [1, 0, 0, 0, 0, 8, 0, 0, 0, 0, 0, 0, 0, 4, 0, 0, 0, 0, 0, 0] @ GUID @ [2, 2]"

lemma hd_node_data_esp: "hd_node_data esp = esp_hd_data"
  by code_simp

lemma hd_node_data_code [code]:
  "hd_node_data gpt = (if gpt = esp then esp_hd_data else u32_to_le (g_number gpt) @ u64_to_le (g_first_lba gpt) @
     u64_to_le (size_lba gpt) @ g_unique_guid gpt @ [HD_GPT, HD_GPT])"
  using hd_node_data_esp by (simp add: hd_node_data_def)

lemma hd_file_device_path_code [code]:
  "hd_file_device_path gpt loader = (let path = ucs2_nul loader in
     [DP_MEDIA, DP_MEDIA_HD] @ u16_to_le HD_NODE_LEN @ hd_node_data gpt @
     [DP_MEDIA, DP_MEDIA_FILE] @ u16_to_le (4 + word_of_nat (length path)) @ path @
     [DP_END, DP_END_ENTIRE, 0x04, 0x00])"
  by (simp add: hd_file_device_path_def hd_node_data_def Let_def)

lemma hd_is_code [code]:
  "hd_is h gpt \<longleftrightarrow> (if gpt = esp then h_guid h = GUID \<and> h_number h = 1 \<and> h_start h = 2048 \<and> h_size h = 1024
     else h_guid h = g_unique_guid gpt \<and> h_number h = g_number gpt \<and> h_start h = g_first_lba gpt \<and> h_size h = size_lba gpt)"
proof -
  have "size_lba esp = 1024" by (simp add: size_lba_def esp_def saturating_add_def)
  then show ?thesis by (simp add: hd_is_def esp_def)
qed

definition is_esp :: "hd_node \<Rightarrow> bool" where "is_esp h \<longleftrightarrow> hd_is h esp"

definition pxe_path :: bytes where
  "pxe_path = [0x02, 0x01, 12, 0, 0x41, 0xD0, 0x0A, 0x03, 0, 0, 0, 0] @ [0x01, 0x01, 6, 0, 0, 3] @
     [0x03, 11, 37, 0] @ replicate 33 0 @ [0x03, 12, 27, 0] @ replicate 23 0 @ [DP_END, DP_END_ENTIRE, 4, 0]"

definition disk_path :: bytes where
  "disk_path = [0x02, 0x01, 12, 0, 0x41, 0xD0, 0x0A, 0x03, 0, 0, 0, 0] @ [0x01, 0x01, 6, 0, 0, 4] @
     [0x03, 23, 16, 0] @ [1, 0, 0, 0, 0, 0, 0, 0, 0, 0, 0, 0] @ [DP_END, DP_END_ENTIRE, 4, 0]"

definition file_node :: "string \<Rightarrow> bytes" where
  "file_node f = (let path = ucs2_nul f in [DP_MEDIA, DP_MEDIA_FILE] @ u16_to_le (4 + word_of_nat (length path)) @ path)"

definition hd_path :: "bytes \<Rightarrow> gpt_esp \<Rightarrow> string list \<Rightarrow> bytes" where
  "hd_path prefix gpt files = prefix @ take (unat HD_NODE_LEN) (hd_file_device_path gpt ''x'') @
     concat (map file_node files) @ [DP_END, DP_END_ENTIRE, 4, 0]"

definition PCI_PREFIX :: bytes where
  "PCI_PREFIX = [0x02, 0x01, 12, 0, 0x41, 0xD0, 0x0A, 0x03, 0, 0, 0, 0, 0x01, 0x01, 6, 0, 0, 4]"

definition fv_path :: bytes where
  "fv_path = [0x04, 0x07, 20, 0] @ replicate 16 0 @ [0x04, 0x06, 20, 0] @ replicate 16 1 @ [DP_END, DP_END_ENTIRE, 4, 0]"

definition other_arch_loader :: "arch \<Rightarrow> string" where
  "other_arch_loader a = (if strip_suffix ''BOOTX64.EFI'' (ESP_LOADER_PATH a) \<noteq> None
     then uefi_path [''EFI'', ''BOOT'', ''BOOTAA64.EFI''] else uefi_path [''EFI'', ''BOOT'', ''BOOTX64.EFI''])"

definition APP :: u32 where "APP = or LOAD_OPTION_ACTIVE 0x100"

definition parsed :: "u32 \<Rightarrow> string \<Rightarrow> bytes \<Rightarrow> load_option" where
  "parsed attrs desc dp = the (parse_load_option (encode_load_option attrs desc dp))"

section \<open>Paths and options\<close>

definition hd_file_device_path_matches_the_spec_layout :: bool where
  "hd_file_device_path_matches_the_spec_layout \<longleftrightarrow> (let loader = uefi_path [''EFI'', ''BOOT'', ''BOOTX64.EFI''];
     path = concat (map u16_to_le (map (\<lambda>c. word_of_nat (of_char c)) loader @ [0])) in
     length path = 44 \<and>
     hd_file_device_path esp loader = [0x04, 0x01, 42, 0] @ u32_to_le 1 @ u64_to_le 2048 @ u64_to_le 1024 @ GUID @
       [0x02, 0x02] @ [0x04, 0x04, 48, 0] @ path @ [0x7F, 0xFF, 0x04, 0x00])"

definition file_node_carries :: "string \<Rightarrow> bool" where
  "file_node_carries loader \<longleftrightarrow> (let nodes = device_path_nodes (hd_file_device_path esp loader) in
     length nodes = 2 \<and> nodes ! 1 = (DP_MEDIA, DP_MEDIA_FILE, ucs2_nul loader))"

definition the_file_node_carries_each_architectures_loader :: bool where
  "the_file_node_carries_each_architectures_loader \<longleftrightarrow> list_all file_node_carries
     [uefi_path [''EFI'', ''BOOT'', ''BOOTX64.EFI''], uefi_path [''EFI'', ''BOOT'', ''BOOTAA64.EFI'']]"

definition truncated_load_options_do_not_parse :: "arch \<Rightarrow> bool" where
  "truncated_load_options_do_not_parse a \<longleftrightarrow>
     (let raw = encode_load_option 1 ''x'' (hd_file_device_path esp (ESP_LOADER_PATH a)) in
      list_all (\<lambda>cut. parse_load_option (take cut raw) = None) [0, 3, 6, 8, length raw - 1])"

definition load_option_round_trips :: "arch \<Rightarrow> bool" where
  "load_option_round_trips a \<longleftrightarrow> (let dp = hd_file_device_path esp (ESP_LOADER_PATH a) in
     parse_load_option (encode_load_option LOAD_OPTION_ACTIVE DESCRIPTION dp) =
       Some \<lparr>attributes = LOAD_OPTION_ACTIVE, description = ''beskar7'', device_path = dp\<rparr>)"

definition recognises_network_and_partition_paths :: "arch \<Rightarrow> bool" where
  "recognises_network_and_partition_paths a \<longleftrightarrow>
     is_network pxe_path \<and> \<not> is_network disk_path \<and>
     (let hd = parsed 1 ''x'' (hd_file_device_path esp (ESP_LOADER_PATH a)) in
      \<not> is_network (device_path hd) \<and>
      option_hd hd = Some \<lparr>h_number = 1, h_start = 2048, h_size = 1024, h_guid = GUID\<rparr> \<and>
      holds is_esp (option_hd hd)) \<and>
     option_hd (parsed 1 ''pxe'' pxe_path) = None"

definition hd_node_must_match_the_whole_gpt_entry :: "arch \<Rightarrow> bool" where
  "hd_node_must_match_the_whole_gpt_entry a \<longleftrightarrow>
     holds (\<lambda>hd. list_all (\<lambda>gpt. \<not> hd_is hd gpt)
       [esp\<lparr>g_first_lba := 4096, g_last_lba := 4096 + 1023\<rparr>, esp\<lparr>g_last_lba := 2048 + 2047\<rparr>,
        esp\<lparr>g_number := 2\<rparr>, esp\<lparr>g_unique_guid := replicate 16 0xAA\<rparr>])
     (option_hd (parsed 1 ''x'' (hd_file_device_path esp (ESP_LOADER_PATH a))))"

definition path_of_files :: "string list \<Rightarrow> string option" where
  "path_of_files files = loader_path (parsed 1 ''x'' (hd_path [] esp files))"

definition names_the_x64_loader :: "string list \<Rightarrow> bool" where
  "names_the_x64_loader files \<longleftrightarrow> path_of_files files = Some (uefi_path [''EFI'', ''BOOT'', ''BOOTX64.EFI''])"

definition the_firmware_path_names_the_loader :: "arch \<Rightarrow> bool" where
  "the_firmware_path_names_the_loader a \<longleftrightarrow> (let full = parsed 1 ''fw'' (hd_path PCI_PREFIX esp [ESP_LOADER_PATH a]) in
     loader_path full = Some (ESP_LOADER_PATH a) \<and> holds is_esp (option_hd full))"

definition loader_path_joins_and_normalizes_file_nodes :: "arch \<Rightarrow> bool" where
  "loader_path_joins_and_normalizes_file_nodes a \<longleftrightarrow>
     list_all names_the_x64_loader
       [[uefi_path [''EFI'', ''BOOT'', ''BOOTX64.EFI'']], [uefi_path [''EFI''], ''BOOT'' @ uefi_path [''BOOTX64.EFI'']],
        [uefi_path [''EFI'', []], uefi_path [''BOOT'', []], ''BOOTX64.EFI''], [''EFI//BOOT/BOOTX64.EFI'']] \<and>
     path_of_files [] = None \<and> the_firmware_path_names_the_loader a"

definition only_active_boot_category_entries_are_auto_bootable :: bool where
  "only_active_boot_category_entries_are_auto_bootable \<longleftrightarrow>
     is_auto_bootable (parsed LOAD_OPTION_ACTIVE ''x'' disk_path) \<and>
     is_auto_bootable (parsed (or LOAD_OPTION_ACTIVE 0x8) ''x'' disk_path) \<and>
     \<not> is_auto_bootable (parsed 0 ''x'' disk_path) \<and> \<not> is_auto_bootable (parsed APP ''x'' disk_path) \<and>
     \<not> is_auto_bootable (parsed 0x109 ''x'' disk_path)"

definition device_path_walk_stops_on_a_bad_node_length :: bool where
  "device_path_walk_stops_on_a_bad_node_length \<longleftrightarrow>
     device_path_nodes [0x03, 11, 2, 0, 0, 0] = [] \<and> device_path_nodes [0x03, 11, 200, 0] = []"

definition boot_var_names :: bool where
  "boot_var_names \<longleftrightarrow> boot_var_name 0x1A = ''Boot001A'' \<and> parse_boot_var_name ''Boot001A'' = Some 0x1A \<and>
     parse_boot_var_name ''Boot001a'' = Some 0x1A \<and>
     list_all (\<lambda>other. parse_boot_var_name other = None)
       [''BootOrder'', ''BootNext'', ''BootCurrent'', ''Boot12'', ''Driver0001'']"

lemma hd_file_device_path_matches_the_spec_layout_passes: "hd_file_device_path_matches_the_spec_layout"
  by code_simp

lemma the_file_node_carries_each_architectures_loader_passes: "the_file_node_carries_each_architectures_loader"
  by code_simp

lemma load_option_round_trips_passes: "load_option_round_trips X86_64"
  by code_simp

lemma truncated_load_options_do_not_parse_passes: "truncated_load_options_do_not_parse X86_64"
  by code_simp

lemma recognises_network_and_partition_paths_passes: "recognises_network_and_partition_paths X86_64"
  by code_simp

lemma hd_node_must_match_the_whole_gpt_entry_passes: "hd_node_must_match_the_whole_gpt_entry X86_64"
  by code_simp

lemma only_active_boot_category_entries_are_auto_bootable_passes: "only_active_boot_category_entries_are_auto_bootable"
  by code_simp

lemma device_path_walk_stops_on_a_bad_node_length_passes: "device_path_walk_stops_on_a_bad_node_length"
  by code_simp

lemma boot_var_names_passes: "boot_var_names"
  by code_simp

lemma loader_path_one_node: "names_the_x64_loader [uefi_path [''EFI'', ''BOOT'', ''BOOTX64.EFI'']]"
  by code_simp

lemma loader_path_two_nodes: "names_the_x64_loader [uefi_path [''EFI''], ''BOOT'' @ uefi_path [''BOOTX64.EFI'']]"
  by code_simp

lemma loader_path_trailing_separators: "names_the_x64_loader [uefi_path [''EFI'', []], uefi_path [''BOOT'', []], ''BOOTX64.EFI'']"
  by code_simp

lemma loader_path_slashes: "names_the_x64_loader [''EFI//BOOT/BOOTX64.EFI'']"
  by code_simp

lemma loader_path_no_nodes: "path_of_files [] = None"
  by code_simp

lemma the_firmware_path_names_the_loader_passes: "the_firmware_path_names_the_loader X86_64"
  by code_simp

lemma loader_path_joins_and_normalizes_file_nodes_passes: "loader_path_joins_and_normalizes_file_nodes X86_64"
  by (simp only: loader_path_joins_and_normalizes_file_nodes_def list.pred_inject simp_thms
    loader_path_one_node loader_path_two_nodes loader_path_trailing_separators loader_path_slashes
    loader_path_no_nodes the_firmware_path_names_the_loader_passes)

section \<open>Placement\<close>

definition place :: "u16 list \<Rightarrow> u16 list" where
  "place order = place_after_network order 9 (\<lambda>n. n \<in> set [1, 2, 3, 5, 6]) (\<lambda>n. n \<in> set [1, 2, 4])"

definition placement_goes_after_the_leading_network_entries :: bool where
  "placement_goes_after_the_leading_network_entries \<longleftrightarrow> place [1, 2, 5] = [1, 2, 9, 5] \<and> place [3, 1] = [9, 3, 1] \<and>
     place [5, 1, 3] = [9, 5, 1, 3] \<and> place [1, 5, 2, 6] = [1, 9, 5, 2, 6] \<and> place [5, 6] = [9, 5, 6] \<and> place [] = [9]"

definition placement_skips_entries_the_firmware_never_boots_on_its_own :: bool where
  "placement_skips_entries_the_firmware_never_boots_on_its_own \<longleftrightarrow>
     place [0, 7, 1, 2, 8] = [0, 7, 1, 2, 9, 8] \<and> place [0, 7, 5, 1] = [0, 7, 9, 5, 1] \<and>
     place [42, 4, 1, 5] = [42, 4, 1, 9, 5] \<and> place [4, 5, 1] = [4, 9, 5, 1] \<and> place [0, 7] = [0, 7, 9]"

definition placement_moves_an_entry_already_in_the_order :: bool where
  "placement_moves_an_entry_already_in_the_order \<longleftrightarrow>
     place [9, 1, 5] = [1, 9, 5] \<and> place [1, 9, 5] = [1, 9, 5] \<and> place [1, 5, 9] = [1, 9, 5]"

definition free_boot_number_and_boot_order_parsing :: bool where
  "free_boot_number_and_boot_order_parsing \<longleftrightarrow> free_boot_number [] = Some 0 \<and> free_boot_number [0, 1, 3] = Some 2 \<and>
     parse_boot_order [1, 0, 2, 0] = Some [1, 2] \<and> parse_boot_order [1, 0, 2] = None"

lemma free_boot_number_code [code]:
  "free_boot_number used = find_from (\<lambda>n. n \<notin> set used) word_of_nat 0 65536"
  by (simp add: free_boot_number_def find_from_def)

lemma placement_goes_after_the_leading_network_entries_passes: "placement_goes_after_the_leading_network_entries"
  by code_simp

lemma placement_skips_entries_the_firmware_never_boots_on_its_own_passes: "placement_skips_entries_the_firmware_never_boots_on_its_own"
  by code_simp

lemma placement_moves_an_entry_already_in_the_order_passes: "placement_moves_an_entry_already_in_the_order"
  by code_simp

lemma free_boot_number_and_boot_order_parsing_passes: "free_boot_number_and_boot_order_parsing"
  by code_simp

section \<open>Registration\<close>

definition opt :: "u32 \<Rightarrow> string \<Rightarrow> bytes \<Rightarrow> bytes" where
  "opt attrs desc dp = encode_load_option attrs desc dp"

definition LOADER :: string where "LOADER = ESP_LOADER_PATH X86_64"

definition register :: "mem_vars \<Rightarrow> (efi_boot_error + boot_entry) \<times> mem_vars" where
  "register vars = ensure_in mem_store X86_64 esp vars"

definition starts_our_loader :: "bytes \<Rightarrow> bool" where
  "starts_our_loader raw = holds (\<lambda>o'. is_auto_bootable o' \<and> description o' = ''beskar7'' \<and>
     holds is_esp (option_hd o') \<and> loader_path o' = Some LOADER) (parse_load_option raw)"

definition creates_an_entry_after_the_network_entries :: bool where
  "creates_an_entry_after_the_network_entries \<longleftrightarrow>
     (case register (mem_with [(''Boot0000'', opt 1 ''UEFI PXEv4'' pxe_path), (''Boot0001'', opt 1 ''UEFI NVMe'' disk_path),
        (''BootOrder'', encode_boot_order [0, 1]), (''BootCurrent'', [0, 0])]) of (got, vars) \<Rightarrow>
      got = Inr \<lparr>b_number = 2, b_outcome = Created, b_previous_order = [0, 1], b_boot_order = [0, 2, 1]\<rparr> \<and>
      holds starts_our_loader (mem_get vars ''Boot0002'') \<and>
      mem_get vars ''BootOrder'' = Some (encode_boot_order [0, 2, 1]))"

definition ovmf_boot_order_places_the_disk_after_its_network_entries :: bool where
  "ovmf_boot_order_places_the_disk_after_its_network_entries \<longleftrightarrow>
     (case register (mem_with [(''Boot0000'', opt 0x109 ''BootManagerMenuApp'' fv_path),
        (''Boot0001'', opt APP ''EFI Firmware Setup'' fv_path), (''Boot0002'', opt 1 ''UEFI PXEv4'' pxe_path),
        (''Boot0003'', opt 1 ''UEFI HTTPv4'' pxe_path), (''Boot0004'', opt APP ''EFI Internal Shell'' fv_path),
        (''BootOrder'', encode_boot_order [0, 1, 2, 3, 4])]) of (got, vars) \<Rightarrow>
      succeeds_with (\<lambda>e. b_number e = 5 \<and> b_boot_order e = [0, 1, 2, 3, 5, 4]) got)"

definition reuses_the_firmware_entry_that_starts_our_loader :: bool where
  "reuses_the_firmware_entry_that_starts_our_loader \<longleftrightarrow>
     (case register (mem_with [(''Boot0000'', opt 1 ''UEFI PXEv4'' pxe_path),
        (''Boot0004'', opt 1 ''UEFI HARDDISK'' (hd_path PCI_PREFIX esp [LOADER])),
        (''BootOrder'', encode_boot_order [4, 0])]) of (got, vars) \<Rightarrow>
      succeeds_with (\<lambda>e. b_number e = 4 \<and> b_outcome e = Reused \<and> b_boot_order e = [0, 4]) got \<and>
      mv_writes vars = [''BootOrder''])"

definition a_missing_boot_order_is_created :: bool where
  "a_missing_boot_order_is_created \<longleftrightarrow> (case register mem_default of (got, vars) \<Rightarrow>
     succeeds_with (\<lambda>e. b_previous_order e = [] \<and> b_boot_order e = [0]) got \<and>
     mem_get vars ''BootOrder'' = Some (encode_boot_order [0]))"

definition a_malformed_entry_is_never_matched_nor_reused :: bool where
  "a_malformed_entry_is_never_matched_nor_reused \<longleftrightarrow>
     succeeds_with (\<lambda>e. b_number e = 1) (fst (register (mem_with [(''Boot0000'', [1, 2, 3])])))"

definition a_malformed_boot_order_is_an_error_and_nothing_is_written :: bool where
  "a_malformed_boot_order_is_an_error_and_nothing_is_written \<longleftrightarrow>
     (case register (mem_with [(''BootOrder'', [0, 0, 1])]) of (got, vars) \<Rightarrow> got = Inl BadBootOrder \<and> mv_writes vars = [])"

definition a_refused_entry_write_is_an_error_and_leaves_boot_order_alone :: bool where
  "a_refused_entry_write_is_an_error_and_leaves_boot_order_alone \<longleftrightarrow>
     (case register ((mem_with [(''Boot0000'', opt 1 ''UEFI PXEv4'' pxe_path),
        (''BootOrder'', encode_boot_order [0])])\<lparr>mv_fail_write := Some ''Boot0001''\<rparr>) of (got, vars) \<Rightarrow>
      fails_with (\<lambda>e. case e of WriteVar name _ \<Rightarrow> name = ''Boot0001'' | _ \<Rightarrow> False) got \<and>
      mem_get vars ''BootOrder'' = Some (encode_boot_order [0]))"

definition a_refused_boot_order_write_is_an_error :: bool where
  "a_refused_boot_order_write_is_an_error \<longleftrightarrow>
     fails_with (\<lambda>e. case e of WriteVar name _ \<Rightarrow> name = ''BootOrder'' | _ \<Rightarrow> False)
       (fst (register (mem_default\<lparr>mv_fail_write := Some ''BootOrder''\<rparr>)))"

lemma creates_an_entry_after_the_network_entries_passes: "creates_an_entry_after_the_network_entries"
  by code_simp

lemma ovmf_boot_order_places_the_disk_after_its_network_entries_passes: "ovmf_boot_order_places_the_disk_after_its_network_entries"
  by code_simp

lemma reuses_the_firmware_entry_that_starts_our_loader_passes: "reuses_the_firmware_entry_that_starts_our_loader"
  by code_simp

lemma a_missing_boot_order_is_created_passes: "a_missing_boot_order_is_created"
  by code_simp

lemma a_malformed_entry_is_never_matched_nor_reused_passes: "a_malformed_entry_is_never_matched_nor_reused"
  by code_simp

lemma a_malformed_boot_order_is_an_error_and_nothing_is_written_passes: "a_malformed_boot_order_is_an_error_and_nothing_is_written"
  by code_simp

lemma a_refused_entry_write_is_an_error_and_leaves_boot_order_alone_passes: "a_refused_entry_write_is_an_error_and_leaves_boot_order_alone"
  by code_simp

lemma a_refused_boot_order_write_is_an_error_passes: "a_refused_boot_order_write_is_an_error"
  by code_simp

section \<open>Reuse and replacement\<close>

definition reusable :: "arch \<Rightarrow> bytes \<Rightarrow> u16 option" where
  "reusable a dp = pick_existing [(4, parsed 1 ''x'' dp)] esp (ESP_LOADER_PATH a)"

definition reusable_path :: "arch \<Rightarrow> bytes \<Rightarrow> string list \<Rightarrow> bool" where
  "reusable_path a prefix files \<longleftrightarrow> reusable a (hd_path prefix esp files) = Some 4"

definition not_reusable :: "arch \<Rightarrow> string \<Rightarrow> bool" where
  "not_reusable a other \<longleftrightarrow> reusable a (hd_path [] esp [other]) = None"

definition reusable_split :: "arch \<Rightarrow> string \<times> string \<Rightarrow> bool" where
  "reusable_split a parts = (case parts of (dir, file) \<Rightarrow> reusable_path a [] [dir, file])"

definition resized :: gpt_esp where
  "resized = esp\<lparr>g_last_lba := 2048 + 4095\<rparr>"

definition pick_existing_reuses_only_an_entry_starting_our_loader :: "arch \<Rightarrow> bool" where
  "pick_existing_reuses_only_an_entry_starting_our_loader a \<longleftrightarrow>
     reusable_path a [] [ESP_LOADER_PATH a] \<and> reusable_path a PCI_PREFIX [ESP_LOADER_PATH a] \<and>
     reusable_path a [] [to_ascii_lowercase (ESP_LOADER_PATH a)] \<and>
     holds (reusable_split a) (rsplit_once BACKSLASH (ESP_LOADER_PATH a)) \<and> reusable_path a [] [] \<and>
     not_reusable a (uefi_path [''EFI'', ''oldos'', ''grubx64.efi'']) \<and>
     not_reusable a (uefi_path [''EFI'', ''ubuntu'', ''shimx64.efi'']) \<and> not_reusable a (other_arch_loader a) \<and>
     reusable a (hd_path [] resized [ESP_LOADER_PATH a]) = None"

definition pick_existing_skips_inactive_entries_and_takes_the_lowest :: "arch \<Rightarrow> bool" where
  "pick_existing_skips_inactive_entries_and_takes_the_lowest a \<longleftrightarrow>
     (let hd_path = hd_file_device_path esp (ESP_LOADER_PATH a);
          entries = [(3, parsed 0 ''x'' hd_path), (7, parsed LOAD_OPTION_ACTIVE ''x'' hd_path), (8, parsed 1 ''x'' hd_path)] in
      pick_existing entries esp (ESP_LOADER_PATH a) = Some 7 \<and>
      pick_existing (take 1 entries) esp (ESP_LOADER_PATH a) = None)"

definition not_reused :: "string \<Rightarrow> string \<Rightarrow> bool" where
  "not_reused desc file \<longleftrightarrow> (let stale = opt 1 desc (hd_path [] esp [file]) in
     case register (mem_with [(''Boot0000'', opt 1 ''UEFI PXEv4'' pxe_path), (''Boot0004'', stale),
       (''BootOrder'', encode_boot_order [0, 4])]) of (got, vars) \<Rightarrow>
     succeeds_with (\<lambda>e. b_number e = 1 \<and> b_outcome e = Created \<and> b_boot_order e = [0, 1, 4]) got \<and>
     mem_get vars ''Boot0004'' = Some stale)"

definition does_not_reuse_an_entry_starting_another_loader :: bool where
  "does_not_reuse_an_entry_starting_another_loader \<longleftrightarrow>
     not_reused ''oldos'' (uefi_path [''EFI'', ''oldos'', ''grubx64.efi'']) \<and>
     not_reused ''ubuntu'' (uefi_path [''EFI'', ''ubuntu'', ''shimx64.efi''])"

definition old_entry :: "u8 \<Rightarrow> bytes" where
  "old_entry g = opt 1 DESCRIPTION (hd_file_device_path (esp\<lparr>g_unique_guid := replicate 16 g\<rparr>) LOADER)"

definition points_at_the_esp :: "bytes \<Rightarrow> bool" where
  "points_at_the_esp raw \<longleftrightarrow> holds (\<lambda>o'. holds is_esp (option_hd o')) (parse_load_option raw)"

definition replaces_the_previous_beskar7_entry_in_place :: bool where
  "replaces_the_previous_beskar7_entry_in_place \<longleftrightarrow>
     (case register (mem_with [(''Boot0000'', opt 1 ''UEFI PXEv4'' pxe_path), (''Boot0001'', opt 1 ''UEFI NVMe'' disk_path),
        (''Boot0003'', old_entry 0x55), (''BootOrder'', encode_boot_order [0, 3, 1])]) of (got, vars) \<Rightarrow>
      succeeds_with (\<lambda>e. b_number e = 3 \<and> b_outcome e = Replaced \<and> b_boot_order e = [0, 3, 1]) got \<and>
      mv_writes vars = [''Boot0003''] \<and> holds points_at_the_esp (mem_get vars ''Boot0003''))"

definition replaces_the_lowest_of_several_beskar7_entries :: bool where
  "replaces_the_lowest_of_several_beskar7_entries \<longleftrightarrow>
     succeeds_with (\<lambda>e. b_number e = 2 \<and> b_outcome e = Replaced) (fst (register (mem_with
       [(''Boot0006'', old_entry 0x66), (''Boot0002'', old_entry 0x22), (''BootOrder'', encode_boot_order [6, 2])])))"

definition rerun_reuses :: "(efi_boot_error + boot_entry) \<times> mem_vars \<Rightarrow> boot_entry \<Rightarrow> bool" where
  "rerun_reuses second_run first \<longleftrightarrow> b_outcome first = Created \<and> mv_writes (snd second_run) = [] \<and>
     succeeds_with (\<lambda>second. b_number second = b_number first \<and> b_outcome second = Reused \<and>
       b_previous_order second = b_boot_order first) (fst second_run)"

definition a_matching_beskar7_entry_is_reused_not_replaced :: bool where
  "a_matching_beskar7_entry_is_reused_not_replaced \<longleftrightarrow>
     (case register (mem_with [(''Boot0000'', opt 1 ''UEFI PXEv4'' pxe_path), (''BootOrder'', encode_boot_order [0])]) of
        (first, vars) \<Rightarrow> succeeds_with (rerun_reuses (register (vars\<lparr>mv_writes := []\<rparr>))) first)"

lemma reusable_our_loader: "reusable_path X86_64 [] [ESP_LOADER_PATH X86_64]"
  by code_simp

lemma reusable_full_path: "reusable_path X86_64 PCI_PREFIX [ESP_LOADER_PATH X86_64]"
  by code_simp

lemma reusable_other_case: "reusable_path X86_64 [] [to_ascii_lowercase (ESP_LOADER_PATH X86_64)]"
  by code_simp

lemma reusable_split_path: "holds (reusable_split X86_64) (rsplit_once BACKSLASH (ESP_LOADER_PATH X86_64))"
  by code_simp

lemma reusable_partition_only: "reusable_path X86_64 [] []"
  by code_simp

lemma reusable_oldos: "not_reusable X86_64 (uefi_path [''EFI'', ''oldos'', ''grubx64.efi''])"
  by code_simp

lemma reusable_ubuntu: "not_reusable X86_64 (uefi_path [''EFI'', ''ubuntu'', ''shimx64.efi''])"
  by code_simp

lemma reusable_other_arch: "not_reusable X86_64 (other_arch_loader X86_64)"
  by code_simp

lemma reusable_other_layout: "reusable X86_64 (hd_path [] resized [ESP_LOADER_PATH X86_64]) = None"
  by code_simp

lemma pick_existing_reuses_only_an_entry_starting_our_loader_passes:
  "pick_existing_reuses_only_an_entry_starting_our_loader X86_64"
  unfolding pick_existing_reuses_only_an_entry_starting_our_loader_def
  by (intro conjI reusable_our_loader reusable_full_path reusable_other_case reusable_split_path
    reusable_partition_only reusable_oldos reusable_ubuntu reusable_other_arch reusable_other_layout)

lemma pick_existing_skips_inactive_entries_and_takes_the_lowest_passes:
  "pick_existing_skips_inactive_entries_and_takes_the_lowest X86_64"
  by code_simp

lemma not_reused_oldos: "not_reused ''oldos'' (uefi_path [''EFI'', ''oldos'', ''grubx64.efi''])"
  by code_simp

lemma not_reused_ubuntu: "not_reused ''ubuntu'' (uefi_path [''EFI'', ''ubuntu'', ''shimx64.efi''])"
  by code_simp

lemma does_not_reuse_an_entry_starting_another_loader_passes: "does_not_reuse_an_entry_starting_another_loader"
  by (simp only: does_not_reuse_an_entry_starting_another_loader_def not_reused_oldos not_reused_ubuntu simp_thms)

lemma replaces_the_previous_beskar7_entry_in_place_passes: "replaces_the_previous_beskar7_entry_in_place"
  by code_simp

lemma replaces_the_lowest_of_several_beskar7_entries_passes: "replaces_the_lowest_of_several_beskar7_entries"
  by code_simp

lemma a_matching_beskar7_entry_is_reused_not_replaced_passes: "a_matching_beskar7_entry_is_reused_not_replaced"
  by code_simp

end
