(* ===== verification/Cmdline_Tests.thy ===== *)
theory Cmdline_Tests
  imports Client Test_Support
begin

text \<open>
  The unit tests of \<open>src/cmdline.rs\<close>, \<open>src/secret.rs\<close> and \<open>src/client.rs\<close> as functions, and the model
  passes them.
\<close>

section \<open>The command lines\<close>

definition DIGEST :: string where
  "DIGEST = ''sha256:e3b0c44298fc1c149afbf4c8996fb92427ae41e4649b934ca495991b7852b855''"

definition FULL :: string where
  "FULL = join '' '' [''BOOT_IMAGE=/vmlinuz'', ''beskar7.api=https://beskar7.example.com:8082'',
     ''beskar7.namespace=tenant-a'', ''beskar7.host=node-01'',
     ''beskar7.token=Zm9vYmFyYmF6cXV4MDEyMzQ1Njc4OWFiY2RlZmdoaWprbA'',
     ''beskar7.target=https://images.example.com/kairos-v3-amd64.raw'',
     ''beskar7.target-digest=sha256:e3b0c44298fc1c149afbf4c8996fb92427ae41e4649b934ca495991b7852b855'',
     ''beskar7.provider-id=b7://tenant-a/node-01'', ''beskar7.ca=LS0tLS1CRUdJTiBDRVJUSUZJQ0FURS0tLS0tCg=='',
     ''beskar7.timeout=600'', ''beskar7.debug=true'', ''console=ttyS0,115200n8'', ''quiet'']"

definition minimal :: string where
  "minimal = join '' '' [''beskar7.api=https://h:8082'', ''beskar7.namespace=ns'', ''beskar7.host=h'',
     ''beskar7.token=tok'', ''beskar7.target=https://t'', ''beskar7.target-digest='' @ DIGEST,
     ''beskar7.provider-id=b7://ns/h'', ''beskar7.ca=Zm9v'']"

definition minimal_and :: "string \<Rightarrow> string" where
  "minimal_and param = minimal @ '' '' @ param"

text \<open>The parameters most tests write out, in their order, before any others.\<close>

definition API :: string where "API = ''beskar7.api=https://h''"
definition NAME :: string where "NAME = ''beskar7.namespace=n beskar7.host=h''"
definition TARGET :: string where "TARGET = ''beskar7.target=https://t''"
definition TARGET_DIGEST :: string where "TARGET_DIGEST = ''beskar7.target-digest='' @ DIGEST"
definition PROVIDER :: string where "PROVIDER = ''beskar7.provider-id=b7://n/h''"

definition usual :: "string list \<Rightarrow> string list \<Rightarrow> string" where
  "usual before after = join '' '' (before @ [API, NAME, ''beskar7.token=t'', TARGET, TARGET_DIGEST, PROVIDER] @ after)"

section \<open>The parser\<close>

definition parses_to :: "(boot_params \<Rightarrow> bool) \<Rightarrow> string \<Rightarrow> bool" where
  "parses_to P line = succeeds_with P (params_parse line)"

definition full_fields :: "boot_params \<Rightarrow> bool" where
  "full_fields p \<longleftrightarrow> bp_api p = ''https://beskar7.example.com:8082'' \<and> bp_namespace p = ''tenant-a'' \<and>
     bp_host p = ''node-01'' \<and> expose (bp_token p) = ''Zm9vYmFyYmF6cXV4MDEyMzQ1Njc4OWFiY2RlZmdoaWprbA'' \<and>
     bp_target p = ''https://images.example.com/kairos-v3-amd64.raw'' \<and> bp_target_digest p = DIGEST \<and>
     bp_provider_id p = ''b7://tenant-a/node-01'' \<and> bp_ca p = ''LS0tLS1CRUdJTiBDRVJUSUZJQ0FURS0tLS0tCg=='' \<and>
     bp_timeout p = Some 600 \<and> bp_debug p"

definition parses_full_cmdline :: bool where
  "parses_full_cmdline \<longleftrightarrow> parses_to full_fields FULL"

definition minimal_required_only_has_no_timeout_and_no_debug :: bool where
  "minimal_required_only_has_no_timeout_and_no_debug \<longleftrightarrow>
     parses_to (\<lambda>p. bp_timeout p = None \<and> \<not> bp_debug p) minimal"

definition optional_disk_is_none_when_absent_and_some_when_set :: bool where
  "optional_disk_is_none_when_absent_and_some_when_set \<longleftrightarrow> parses_to (\<lambda>p. bp_disk p = None) minimal \<and>
     parses_to (\<lambda>p. bp_disk p = Some ''/dev/disk/by-id/nvme-FOO'') (minimal_and ''beskar7.disk=/dev/disk/by-id/nvme-FOO'')"

definition optional_ip_is_none_when_absent_and_parsed_when_set :: bool where
  "optional_ip_is_none_when_absent_and_parsed_when_set \<longleftrightarrow> parses_to (\<lambda>p. bp_ip p = None) minimal \<and>
     parses_to (\<lambda>p. holds (\<lambda>ip. st_ip ip = ipv4_new 192 168 150 10 \<and>
         st_gateway ip = Some (ipv4_new 192 168 150 1) \<and> st_prefix_len ip = 24) (bp_ip p))
       (minimal_and ''beskar7.ip=192.168.150.10::192.168.150.1:255.255.255.0'')"

definition malformed_ip_is_a_named_error_not_a_silent_dhcp_fallback :: bool where
  "malformed_ip_is_a_named_error_not_a_silent_dhcp_fallback \<longleftrightarrow>
     params_parse (minimal_and ''beskar7.ip=garbage'') = Inl InvalidStaticIp"

definition empty_disk_value_is_treated_as_absent :: bool where
  "empty_disk_value_is_treated_as_absent \<longleftrightarrow> parses_to (\<lambda>p. bp_disk p = None) (minimal_and ''beskar7.disk='')"

definition bootif_is_parsed_from_the_pxelinux_convention :: bool where
  "bootif_is_parsed_from_the_pxelinux_convention \<longleftrightarrow> parses_to (\<lambda>p. bp_bootif p = None) minimal \<and>
     parses_to (\<lambda>p. bp_bootif p = Some ''01-52-54-00-12-34-56'') (minimal_and ''BOOTIF=01-52-54-00-12-34-56'')"

definition base64_ca_padding_is_preserved :: bool where
  "base64_ca_padding_is_preserved \<longleftrightarrow> parses_to (\<lambda>p. bp_ca p = ''YWJjZGVmZ2hpamts=='')
     (usual [] [''beskar7.ca=YWJjZGVmZ2hpamts==''])"

text \<open>The names in the error are those for which the test looks, and not the others it lists.\<close>

definition names_missing :: "string list \<Rightarrow> string list \<Rightarrow> string \<Rightarrow> bool" where
  "names_missing present absent line = fails_with (\<lambda>e. case e of
       MissingRequired names \<Rightarrow> list_all (\<lambda>k. str_contains k names) present \<and> list_all (\<lambda>k. \<not> str_contains k names) absent
     | _ \<Rightarrow> False) (params_parse line)"

definition missing_one_required_is_named :: bool where
  "missing_one_required_is_named \<longleftrightarrow> names_missing [''beskar7.token'']
     [''beskar7.api'', ''beskar7.target-digest'', ''beskar7.provider-id'']
     (join '' '' [API, NAME, TARGET, TARGET_DIGEST, PROVIDER, ''beskar7.ca=Zm9v''])"

definition missing_target_digest_is_named :: bool where
  "missing_target_digest_is_named \<longleftrightarrow> names_missing [''beskar7.target-digest''] []
     (join '' '' [API, NAME, ''beskar7.token=t'', TARGET, PROVIDER, ''beskar7.ca=Zm9v''])"

definition missing_provider_id_is_named :: bool where
  "missing_provider_id_is_named \<longleftrightarrow> names_missing [''beskar7.provider-id''] [''beskar7.target-digest'']
     (join '' '' [API, NAME, ''beskar7.token=t'', TARGET, TARGET_DIGEST, ''beskar7.ca=Zm9v''])"

definition missing_several_required_are_all_named :: bool where
  "missing_several_required_are_all_named \<longleftrightarrow> names_missing [''beskar7.api'', ''beskar7.namespace'', ''beskar7.host'',
     ''beskar7.token'', ''beskar7.target'', ''beskar7.target-digest'', ''beskar7.provider-id'', ''beskar7.ca''] []
     ''beskar7.debug=true''"

definition empty_required_value_is_treated_as_missing :: bool where
  "empty_required_value_is_treated_as_missing \<longleftrightarrow> names_missing [''beskar7.token''] []
     (join '' '' [API, NAME, ''beskar7.token='', TARGET, TARGET_DIGEST, PROVIDER, ''beskar7.ca=Zm9v''])"

definition invalid_timeout_is_rejected :: bool where
  "invalid_timeout_is_rejected \<longleftrightarrow>
     params_parse (usual [] [''beskar7.ca=Zm9v'', ''beskar7.timeout=soon'']) = Inl InvalidTimeout"

definition duplicate_key_last_wins :: bool where
  "duplicate_key_last_wins \<longleftrightarrow> parses_to (\<lambda>p. bp_api p = ''https://second'')
     (join '' '' [''beskar7.api=https://first'', ''beskar7.api=https://second'', NAME, ''beskar7.token=t'', TARGET,
       TARGET_DIGEST, PROVIDER, ''beskar7.ca=Zm9v''])"

definition non_beskar7_params_are_ignored :: bool where
  "non_beskar7_params_are_ignored \<longleftrightarrow>
     parses_to (\<lambda>_. True) (usual [''root=/dev/sda1'', ''ro''] [''beskar7.ca=Zm9v'', ''quiet'', ''splash''])"

definition debug_flag_is_false_unless_exactly_true :: bool where
  "debug_flag_is_false_unless_exactly_true \<longleftrightarrow>
     parses_to (\<lambda>p. \<not> bp_debug p) (usual [] [''beskar7.ca=Zm9v'', ''beskar7.debug=yes''])"

section \<open>Secrets\<close>

definition debug_is_redacted :: bool where
  "debug_is_redacted \<longleftrightarrow> (let rendered = secret_debug (secret_new ''super-secret-token-value'') in
     rendered = ''Secret([redacted])'' \<and> \<not> str_contains ''super-secret-token-value'' rendered)"

definition expose_returns_the_value :: bool where
  "expose_returns_the_value \<longleftrightarrow> expose (secret_new ''abc123'') = ''abc123''"

section \<open>The client\<close>

definition urls_are_built_with_the_contract_paths :: bool where
  "urls_are_built_with_the_contract_paths \<longleftrightarrow>
     inspection_url ''https://h:8082'' ''ns'' ''node-1'' = ''https://h:8082/api/v1/inspection/ns/node-1'' \<and>
     bootstrap_url ''https://h:8082'' ''ns'' ''node-1'' = ''https://h:8082/api/v1/bootstrap/ns/node-1'' \<and>
     provisioned_url ''https://h:8082'' ''ns'' ''node-1'' = ''https://h:8082/api/v1/provisioned/ns/node-1'' \<and>
     provision_failed_url ''https://h:8082'' ''ns'' ''node-1'' = ''https://h:8082/api/v1/provision-failed/ns/node-1''"

definition url_trailing_slash_on_api_is_tolerated :: bool where
  "url_trailing_slash_on_api_is_tolerated \<longleftrightarrow>
     inspection_url ''https://h:8082/'' ''ns'' ''h'' = ''https://h:8082/api/v1/inspection/ns/h'' \<and>
     provisioned_url ''https://h:8082/'' ''ns'' ''h'' = ''https://h:8082/api/v1/provisioned/ns/h'' \<and>
     provision_failed_url ''https://h:8082/'' ''ns'' ''h'' = ''https://h:8082/api/v1/provision-failed/ns/h''"

definition transient_statuses_retry_terminal_ones_do_not :: bool where
  "transient_statuses_retry_terminal_ones_do_not \<longleftrightarrow>
     list_all is_transient [408, 429, 500, 502, 503, 504] \<and>
     list_all (\<lambda>s. \<not> is_transient s) [400, 401, 403, 404, 413, 200, 202, 301]"

definition backoff_is_monotonic_and_capped :: bool where
  "backoff_is_monotonic_and_capped \<longleftrightarrow> backoff 0 = BACKOFF_BASE \<and> backoff 0 < backoff 1 \<and> backoff 1 < backoff 2 \<and>
     backoff 3 = 4 * 1000 \<and> backoff 4 = BACKOFF_CAP \<and> backoff 60 = BACKOFF_CAP \<and> backoff (2 ^ 32 - 1) = BACKOFF_CAP"

text \<open>The attempts count their calls; the sleeps are in the result.\<close>

definition twice_unavailable :: "nat \<Rightarrow> nat \<Rightarrow> nat attempt \<times> nat" where
  "twice_unavailable n calls = (if calls < 2 then Retry (Http 503) else Done 42, calls + 1)"

definition retries_succeed_after_transient_failures :: bool where
  "retries_succeed_after_transient_failures \<longleftrightarrow>
     (case run_with_retries 5 twice_unavailable 0 of (out, calls, sleeps) \<Rightarrow>
      out = Inr 42 \<and> calls = 3 \<and> length sleeps = 2)"

definition always :: "unit attempt \<Rightarrow> nat \<Rightarrow> nat \<Rightarrow> unit attempt \<times> nat" where
  "always a n calls = (a, calls + 1)"

definition fatal_outcome_stops_immediately :: bool where
  "fatal_outcome_stops_immediately \<longleftrightarrow>
     run_with_retries 5 (always (Fatal (Http 401))) 0 = (Inl (Http 401), 1, [])"

definition exhausting_retries_surfaces_the_last_error :: bool where
  "exhausting_retries_surfaces_the_last_error \<longleftrightarrow>
     (case run_with_retries 3 (always (Retry (Http 503))) 0 of (out, calls, sleeps) \<Rightarrow>
      out = Inl (RetriesExhausted (Http 503)) \<and> calls = 3 \<and> length sleeps = 2)"

section \<open>The model passes them\<close>

lemma parses_full_cmdline_passes: "parses_full_cmdline"
  by code_simp

lemma minimal_required_only_has_no_timeout_and_no_debug_passes: "minimal_required_only_has_no_timeout_and_no_debug"
  by code_simp

lemma optional_disk_is_none_when_absent_and_some_when_set_passes: "optional_disk_is_none_when_absent_and_some_when_set"
  by code_simp

lemma optional_ip_is_none_when_absent_and_parsed_when_set_passes: "optional_ip_is_none_when_absent_and_parsed_when_set"
  by code_simp

lemma malformed_ip_is_a_named_error_not_a_silent_dhcp_fallback_passes: "malformed_ip_is_a_named_error_not_a_silent_dhcp_fallback"
  by code_simp

lemma empty_disk_value_is_treated_as_absent_passes: "empty_disk_value_is_treated_as_absent"
  by code_simp

lemma bootif_is_parsed_from_the_pxelinux_convention_passes: "bootif_is_parsed_from_the_pxelinux_convention"
  by code_simp

lemma base64_ca_padding_is_preserved_passes: "base64_ca_padding_is_preserved"
  by code_simp

lemma missing_one_required_is_named_passes: "missing_one_required_is_named"
  by code_simp

lemma missing_target_digest_is_named_passes: "missing_target_digest_is_named"
  by code_simp

lemma missing_provider_id_is_named_passes: "missing_provider_id_is_named"
  by code_simp

lemma missing_several_required_are_all_named_passes: "missing_several_required_are_all_named"
  by code_simp

lemma empty_required_value_is_treated_as_missing_passes: "empty_required_value_is_treated_as_missing"
  by code_simp

lemma invalid_timeout_is_rejected_passes: "invalid_timeout_is_rejected"
  by code_simp

lemma duplicate_key_last_wins_passes: "duplicate_key_last_wins"
  by code_simp

lemma non_beskar7_params_are_ignored_passes: "non_beskar7_params_are_ignored"
  by code_simp

lemma debug_flag_is_false_unless_exactly_true_passes: "debug_flag_is_false_unless_exactly_true"
  by code_simp

lemma debug_is_redacted_passes: "debug_is_redacted"
  by code_simp

lemma expose_returns_the_value_passes: "expose_returns_the_value"
  by code_simp

lemma urls_are_built_with_the_contract_paths_passes: "urls_are_built_with_the_contract_paths"
  by code_simp

lemma url_trailing_slash_on_api_is_tolerated_passes: "url_trailing_slash_on_api_is_tolerated"
  by code_simp

lemma transient_statuses_retry_terminal_ones_do_not_passes: "transient_statuses_retry_terminal_ones_do_not"
  by code_simp

lemma backoff_is_monotonic_and_capped_passes: "backoff_is_monotonic_and_capped"
  by code_simp

lemma retries_succeed_after_transient_failures_passes: "retries_succeed_after_transient_failures"
  by code_simp

lemma fatal_outcome_stops_immediately_passes: "fatal_outcome_stops_immediately"
  by code_simp

lemma exhausting_retries_surfaces_the_last_error_passes: "exhausting_retries_surfaces_the_last_error"
  by code_simp

end
