(* ===== verification/Run_Tests.thy ===== *)
theory Run_Tests
  imports Run_Policy Test_Support
begin

text \<open>
  The unit tests of \<open>src/run.rs\<close> as functions, and the model passes them. A closure that must not be
  called marks the state it threads, and one that counts its calls adds to it.
\<close>

section \<open>The bootstrap poll\<close>

definition poll_budget_divides_timeout_by_interval :: bool where
  "poll_budget_divides_timeout_by_interval \<longleftrightarrow> poll_budget_iterations (Some 600) = 120 \<and>
     poll_budget_iterations None = 360 \<and> poll_budget_iterations (Some 1) = 1 \<and> poll_budget_iterations (Some 0) = 1"

definition classify_poll_retries_404_and_5xx :: bool where
  "classify_poll_retries_404_and_5xx \<longleftrightarrow> list_all (\<lambda>e. classify_poll e = NotReady)
     [Http 404, Http 500, Http 502, Http 503, Http 504, Transport ''reset'', RetriesExhausted (Http 503)]"

definition classify_poll_aborts_on_auth_and_config_errors :: bool where
  "classify_poll_aborts_on_auth_and_config_errors \<longleftrightarrow> list_all (\<lambda>e. classify_poll e = Abort)
     [Http 401, Http 403, Http 400, BootstrapTooLarge, CaDecode, CaEmpty]"

text \<open>The calls of \<open>fetch\<close> and of \<open>sleep\<close> so far.\<close>

type_synonym poll_counts = "nat \<times> nat"

definition count_sleep :: "nat \<Rightarrow> poll_counts \<Rightarrow> poll_counts" where
  "count_sleep d s = (fst s, snd s + 1)"

definition third_ready :: "poll_counts \<Rightarrow> (client_error + bytes) \<times> poll_counts" where
  "third_ready s = (if fst s < 3 then Inl (Http 404) else Inr (as_bytes (''#cloud-config'' @ [CHR 0x0A])),
     (fst s + 1, snd s))"

definition always_http :: "u16 \<Rightarrow> poll_counts \<Rightarrow> (client_error + bytes) \<times> poll_counts" where
  "always_http code s = (Inl (Http code), (fst s + 1, snd s))"

definition poll_returns_data_once_ready :: bool where
  "poll_returns_data_once_ready \<longleftrightarrow>
     poll_bootstrap 10 count_sleep third_ready (0, 0) = (Inr (as_bytes (''#cloud-config'' @ [CHR 0x0A])), (4, 3))"

definition poll_aborts_immediately_on_auth_failure :: bool where
  "poll_aborts_immediately_on_auth_failure \<longleftrightarrow> (case poll_bootstrap 10 count_sleep (always_http 401) (0, 0) of
     (out, counts) \<Rightarrow> fails_with (\<lambda>e. case e of BootstrapAborted _ \<Rightarrow> True | _ \<Rightarrow> False) out \<and> fst counts = 1)"

definition poll_times_out_after_max_polls :: bool where
  "poll_times_out_after_max_polls \<longleftrightarrow>
     poll_bootstrap 3 count_sleep (always_http 404) (0, 0) = (Inl BootstrapTimeout, (3, 2))"

section \<open>Mounts\<close>

definition flags_of :: "string \<Rightarrow> u64" where
  "flags_of mp = (case find (\<lambda>(_, t, _, _). t = mp) mount_specs of Some (_, _, _, flags) \<Rightarrow> flags | None \<Rightarrow> 0)"

definition has_flag :: "u64 \<Rightarrow> u64 \<Rightarrow> bool" where
  "has_flag f flags \<longleftrightarrow> and flags f = f"

definition run_mount_allows_device_nodes_but_proc_does_not :: bool where
  "run_mount_allows_device_nodes_but_proc_does_not \<longleftrightarrow>
     \<not> has_flag MS_NODEV (flags_of ''/run'') \<and> \<not> has_flag MS_NODEV (flags_of ''/dev'') \<and>
     list_all (\<lambda>mp. has_flag MS_NODEV (flags_of mp)) [''/proc'', ''/sys'', ''/tmp''] \<and>
     list_all (\<lambda>(_, _, _, flags). has_flag MS_NOSUID flags \<and> has_flag MS_NOEXEC flags) mount_specs"

section \<open>Reasons\<close>

definition deploy_reason_names_the_failing_step_without_secrets :: "arch \<Rightarrow> bool" where
  "deploy_reason_names_the_failing_step_without_secrets a \<longleftrightarrow>
     deploy_error_reason (ImageFailed (DigestMismatch ''sha256:aa'' ''sha256:bb'')) = ''image digest mismatch'' \<and>
     deploy_error_reason (ImageFailed (TooLarge 1)) = ''image too large'' \<and>
     deploy_error_reason (ImageFailed (ImageHttp 500)) = ''image fetch failed'' \<and>
     deploy_error_reason (SyncFailed (IoOther ''x'')) = ''whole-disk write failed'' \<and>
     deploy_error_reason (Reread ''/dev/sda'' EIO) = ''partition re-read failed'' \<and>
     deploy_error_reason (ConfigWrite (IoOther ''x'')) = ''COS_OEM inject failed'' \<and>
     deploy_error_reason (MountFailed Esp ''/dev/sda1'' EIO) = ''ESP loader check failed'' \<and>
     deploy_error_reason (MountFailed Oem ''/dev/sda2'' ENODEV) = ''COS_OEM inject failed'' \<and>
     deploy_error_reason (EspLoaderMissing (ESP_LOADER_PATH a)) = ''ESP loader check failed'' \<and>
     deploy_error_reason (EspLoaderCheck (ESP_LOADER_PATH a) (IoOther ''x'')) = ''ESP loader check failed'' \<and>
     provision_failure_reason (EspErr (BadGpt ''sda'')) = ''ESP GPT read failed'' \<and>
     provision_failure_reason (EspErr (EspDevice (NoDeviceNumber ''/dev/sda''))) = ''target disk error'' \<and>
     provision_failure_reason (OemErr (OemNotFound ''nvme0n1'')) = ''COS_OEM partition not found'' \<and>
     list_all (\<lambda>r. length r < 64 \<and> \<not> str_contains ''Bearer'' r)
       [deploy_error_reason (SyncFailed (IoOther ''x'')), provision_failure_reason (OemErr (OemNotFound ''nvme0n1''))]"

definition names_no_device :: "disk_error \<times> string \<Rightarrow> bool" where
  "names_no_device c = (case c of (err, want) \<Rightarrow> (let got = provision_failure_reason (DiskErr err) in
     got = want \<and> list_all (\<lambda>name. \<not> str_contains name got)
       [''wwn-0x5000c500a1b2c3d4'', ''ttyS0'', ''sda1'', ''sdb'', ''/dev/'']))"

definition disk_reasons_name_the_cause_without_device_names :: bool where
  "disk_reasons_name_the_cause_without_device_names \<longleftrightarrow> list_all names_no_device
     [(NoEligibleDisk, ''no eligible target disk''),
      (PinNotFound ''/dev/disk/by-id/wwn-0x5000c500a1b2c3d4'', ''pinned target disk not found''),
      (PinNotBlockDevice ''ttyS0'', ''pinned target disk is not a block device''),
      (PinNotWholeDisk ''sda1'', ''pinned target disk is a partition''),
      (PinIneligible ''sdb'' Removable, ''pinned target disk is ineligible'')]"

definition an_esp_write_failure_has_its_own_reason :: bool where
  "an_esp_write_failure_has_its_own_reason \<longleftrightarrow>
     deploy_error_reason (EspWrite ''writing the marker'' (IoOther ''x'')) = ''ESP write failed''"

section \<open>The boot entry step\<close>

definition located_esp :: esp_partition where
  "located_esp = \<lparr>esp_kname = ''sda1'', esp_dev_number = ''8:1'',
     esp_gpt = \<lparr>g_number = 1, g_unique_guid = replicate 16 7, g_first_lba = 2048, g_last_lba = 3071\<rparr>\<rparr>"

text \<open>The state is whether a closure was called that must not be.\<close>

definition no_search :: "bool \<Rightarrow> (esp_error + esp_partition) \<times> bool" where
  "no_search s = (Inr located_esp, True)"

definition no_registration :: "esp_partition \<Rightarrow> bool \<Rightarrow> (run_error + unit) \<times> bool" where
  "no_registration e s = (Inr (), True)"

definition search_gives :: "esp_error + esp_partition \<Rightarrow> bool \<Rightarrow> (esp_error + esp_partition) \<times> bool" where
  "search_gives r s = (r, s)"

definition esp_step_skips_on_legacy_boot_without_looking_for_the_esp :: bool where
  "esp_step_skips_on_legacy_boot_without_looking_for_the_esp \<longleftrightarrow>
     esp_boot_entry_step False no_search no_registration False = (Inr (), False)"

definition esp_step_skips_when_the_image_has_no_gpt_or_no_esp :: bool where
  "esp_step_skips_when_the_image_has_no_gpt_or_no_esp \<longleftrightarrow>
     list_all (\<lambda>absent. esp_boot_entry_step True (search_gives (Inl absent)) no_registration False = (Inr (), False))
       [NoGpt ''sda'', EspNotFound ''sda'']"

definition gpt_reason :: "run_error \<Rightarrow> bool" where
  "gpt_reason e \<longleftrightarrow> provision_failure_reason e = ''ESP GPT read failed''"

definition loader_reason :: "run_error \<Rightarrow> bool" where
  "loader_reason e \<longleftrightarrow> provision_failure_reason e = ''ESP loader check failed''"

definition esp_step_fails_hard_on_a_gpt_read_error :: bool where
  "esp_step_fails_hard_on_a_gpt_read_error \<longleftrightarrow>
     (case esp_boot_entry_step True (search_gives (Inl (ReadGpt ''sda'' (OsError EIO)))) no_registration False of
      (got, called) \<Rightarrow> fails_with gpt_reason got \<and> \<not> called)"

definition mount_refused :: "esp_partition \<Rightarrow> bool \<Rightarrow> (run_error + unit) \<times> bool" where
  "mount_refused e s = (Inl (DeployErr (MountFailed Esp (esp_dev_path e) EIO)), s)"

definition esp_step_fails_hard_on_an_io_error_on_a_located_esp :: bool where
  "esp_step_fails_hard_on_an_io_error_on_a_located_esp \<longleftrightarrow>
     fails_with loader_reason (fst (esp_boot_entry_step True (search_gives (Inr located_esp)) mount_refused False))"

definition seen_kname :: "esp_partition \<Rightarrow> string option \<Rightarrow> (run_error + unit) \<times> string option" where
  "seen_kname e s = (Inr (), Some (esp_kname e))"

definition find_located :: "string option \<Rightarrow> (esp_error + esp_partition) \<times> string option" where
  "find_located s = (Inr located_esp, s)"

definition esp_step_registers_a_located_esp :: bool where
  "esp_step_registers_a_located_esp \<longleftrightarrow>
     esp_boot_entry_step True find_located seen_kname None = (Inr (), Some ''sda1'')"

definition new_entry :: "outcome \<Rightarrow> boot_entry" where
  "new_entry out = \<lparr>b_number = 6, b_outcome = out, b_previous_order = [0, 1], b_boot_order = [0, 6, 1]\<rparr>"

text \<open>The state is whether the variables were touched; the line goes to the console.\<close>

definition no_console :: "efi_boot_error + boot_entry \<Rightarrow> esp_partition \<Rightarrow> bool \<Rightarrow> bool" where
  "no_console r e s = s"

definition verify_gives :: "deploy_error + unit \<Rightarrow> esp_partition \<Rightarrow> bool \<Rightarrow> (deploy_error + unit) \<times> bool" where
  "verify_gives r e s = (r, s)"

definition ensure_gives :: "efi_boot_error + boot_entry \<Rightarrow> esp_partition \<Rightarrow> bool \<Rightarrow> (efi_boot_error + boot_entry) \<times> bool" where
  "ensure_gives r e s = (r, True)"

definition survives_refusal :: "efi_boot_error \<Rightarrow> bool" where
  "survives_refusal e \<longleftrightarrow>
     fst (register_boot_entry no_console (verify_gives (Inr ())) (ensure_gives (Inl e)) located_esp False) = Inr ()"

definition a_refused_nvram_write_does_not_fail_the_deploy :: bool where
  "a_refused_nvram_write_does_not_fail_the_deploy \<longleftrightarrow>
     list_all survives_refusal [WriteVar ''Boot0001'' (OsError ENOSPC), EfiMount ENODEV, BadBootOrder]"

definition a_located_esp_without_its_loader_still_fails_the_deploy :: "arch \<Rightarrow> bool" where
  "a_located_esp_without_its_loader_still_fails_the_deploy a \<longleftrightarrow>
     (case register_boot_entry no_console (verify_gives (Inl (EspLoaderMissing (ESP_LOADER_PATH a))))
        (ensure_gives (Inr (new_entry Created))) located_esp False of
      (got, ensured) \<Rightarrow> fails_with loader_reason got \<and> \<not> ensured)"

section \<open>Console lines\<close>

definition boot_entry_line_shows_the_order_before_and_after :: "(io_error \<Rightarrow> string) \<Rightarrow> (errno \<Rightarrow> string) \<Rightarrow> bool" where
  "boot_entry_line_shows_the_order_before_and_after show_io show_errno \<longleftrightarrow>
     boot_entry_line show_io show_errno (Inr (new_entry Replaced)) located_esp =
       ''UEFI boot entry Boot0006 replaced for /dev/sda1 (BootOrder 0000,0001 -> 0000,0006,0001)'' \<and>
     (let warning = boot_entry_line show_io show_errno (Inl (WriteVar ''BootOrder'' (OsError ENOSPC))) located_esp in
      starts_with ''warning: UEFI boot entry not registered (writing UEFI variable BootOrder: '' warning \<and>
      str_contains ''removable-media fallback to boot /dev/sda1'' warning)"

definition prepared_with :: "startup_nsh \<Rightarrow> esp_prepared" where
  "prepared_with nsh = \<lparr>ep_marker = ''0123456789abcdef'', ep_startup_nsh = nsh\<rparr>"

definition esp_prepared_line_says_whether_our_script_was_written :: bool where
  "esp_prepared_line_says_whether_our_script_was_written \<longleftrightarrow>
     esp_prepared_line (prepared_with (Written False)) located_esp =
       ''ESP /dev/sda1 prepared: marker 0123456789abcdef, startup.nsh fallback written'' \<and>
     esp_prepared_line (prepared_with (Written True)) located_esp =
       ''ESP /dev/sda1 prepared: marker 0123456789abcdef, startup.nsh fallback written, replacing ours from an earlier deploy'' \<and>
     esp_prepared_line (prepared_with (LeftInPlace (uefi_path [''startup.nsh'']))) located_esp =
       ''ESP /dev/sda1 prepared: the image'' @ QUOTE_CHAR @ ''s own '' @ uefi_path [''startup.nsh''] @
       '' left in place, no startup.nsh fallback or marker written'' \<and>
     esp_prepared_line (prepared_with (NotWritten ''No space left on device (os error 28)'')) located_esp =
       ''warning: ESP /dev/sda1: startup.nsh fallback not written (No space left on device (os error 28)); the deploy carries on without it''"

section \<open>A missing target disk\<close>

text \<open>The state is the list of the reasons reported.\<close>

definition reported :: "string \<Rightarrow> string list \<Rightarrow> (client_error + unit) \<times> string list" where
  "reported reason s = (Inr (), s @ [reason])"

definition refused :: "string \<Rightarrow> string list \<Rightarrow> (client_error + unit) \<times> string list" where
  "refused reason s = (Inl (Http 404), s @ [reason])"

definition some_disk :: target_disk where
  "some_disk = \<lparr>t_kname = ''nvme0n1'', t_size_bytes = push_bit 30 1, t_dev_number = ''259:0''\<rparr>"

definition a_missing_target_disk_is_reported_then_returned :: bool where
  "a_missing_target_disk_is_reported_then_returned \<longleftrightarrow>
     require_target (Inl NoEligibleDisk) reported [] = (Inl (DiskErr NoEligibleDisk), [''no eligible target disk''])"

definition an_unusable_pinned_disk_is_reported_too :: bool where
  "an_unusable_pinned_disk_is_reported_too \<longleftrightarrow> require_target (Inl (PinNotWholeDisk ''sda1'')) reported [] =
     (Inl (DiskErr (PinNotWholeDisk ''sda1'')), [''pinned target disk is a partition''])"

definition a_selected_target_disk_reports_nothing :: bool where
  "a_selected_target_disk_reports_nothing \<longleftrightarrow> (case require_target (Inr some_disk) reported [] of (out, said) \<Rightarrow>
     said = [] \<and> succeeds_with (\<lambda>t. t_kname t = ''nvme0n1'') out)"

definition a_failed_callback_does_not_mask_the_missing_disk :: bool where
  "a_failed_callback_does_not_mask_the_missing_disk \<longleftrightarrow> (case require_target (Inl NoEligibleDisk) refused [] of
     (out, said) \<Rightarrow> out = Inl (DiskErr NoEligibleDisk) \<and> length said = 1)"

section \<open>The model passes them\<close>

lemma poll_budget_divides_timeout_by_interval_passes: "poll_budget_divides_timeout_by_interval"
  by code_simp

lemma classify_poll_retries_404_and_5xx_passes: "classify_poll_retries_404_and_5xx"
  by code_simp

lemma classify_poll_aborts_on_auth_and_config_errors_passes: "classify_poll_aborts_on_auth_and_config_errors"
  by code_simp

lemma poll_returns_data_once_ready_passes: "poll_returns_data_once_ready"
  by code_simp

lemma poll_aborts_immediately_on_auth_failure_passes: "poll_aborts_immediately_on_auth_failure"
  by code_simp

lemma poll_times_out_after_max_polls_passes: "poll_times_out_after_max_polls"
  by code_simp

lemma run_mount_allows_device_nodes_but_proc_does_not_passes: "run_mount_allows_device_nodes_but_proc_does_not"
  by (simp add: run_mount_allows_device_nodes_but_proc_does_not_def flags_of_def has_flag_def mount_specs_def Let_def
    MS_NODEV_def MS_NOSUID_def MS_NOEXEC_def)

lemma disk_reasons_name_the_cause_without_device_names_passes: "disk_reasons_name_the_cause_without_device_names"
  by code_simp

lemma an_esp_write_failure_has_its_own_reason_passes: "an_esp_write_failure_has_its_own_reason"
  by code_simp

lemma esp_step_skips_on_legacy_boot_without_looking_for_the_esp_passes: "esp_step_skips_on_legacy_boot_without_looking_for_the_esp"
  by code_simp

lemma esp_step_skips_when_the_image_has_no_gpt_or_no_esp_passes: "esp_step_skips_when_the_image_has_no_gpt_or_no_esp"
  by code_simp

lemma esp_step_fails_hard_on_a_gpt_read_error_passes: "esp_step_fails_hard_on_a_gpt_read_error"
  by code_simp

lemma esp_step_fails_hard_on_an_io_error_on_a_located_esp_passes: "esp_step_fails_hard_on_an_io_error_on_a_located_esp"
  by code_simp

lemma esp_step_registers_a_located_esp_passes: "esp_step_registers_a_located_esp"
  by code_simp

lemma a_refused_nvram_write_does_not_fail_the_deploy_passes: "a_refused_nvram_write_does_not_fail_the_deploy"
  by code_simp

lemma esp_prepared_line_says_whether_our_script_was_written_passes: "esp_prepared_line_says_whether_our_script_was_written"
  by code_simp

lemma a_missing_target_disk_is_reported_then_returned_passes: "a_missing_target_disk_is_reported_then_returned"
  by code_simp

lemma an_unusable_pinned_disk_is_reported_too_passes: "an_unusable_pinned_disk_is_reported_too"
  by code_simp

lemma a_selected_target_disk_reports_nothing_passes: "a_selected_target_disk_reports_nothing"
  by (simp add: a_selected_target_disk_reports_nothing_def require_target_def some_disk_def succeeds_with_def)

lemma a_failed_callback_does_not_mask_the_missing_disk_passes: "a_failed_callback_does_not_mask_the_missing_disk"
  by code_simp

lemma deploy_reason_names_the_failing_step_without_secrets_passes:
  "deploy_reason_names_the_failing_step_without_secrets X86_64"
  by code_simp

lemma a_located_esp_without_its_loader_still_fails_the_deploy_passes:
  "a_located_esp_without_its_loader_still_fails_the_deploy X86_64"
  by code_simp

text \<open>With the text of \<open>ENOSPC\<close> for every error.\<close>

definition no_space :: "'e \<Rightarrow> string" where
  "no_space e = ''No space left on device (os error 28)''"

lemma boot_entry_line_shows_the_order_before_and_after_passes:
  "boot_entry_line_shows_the_order_before_and_after no_space no_space"
  by code_simp

end
