(* ===== verification/Net_Tests.thy ===== *)
theory Net_Tests
  imports Net Test_Support
begin

text \<open>
  The unit tests of \<open>src/net.rs\<close>, \<open>src/net/dhcp.rs\<close> and \<open>src/net/netlink.rs\<close> as functions, and the
  model passes them. The scratch directories of the tests are trees.
\<close>

section \<open>Interfaces\<close>

definition nl :: string where "nl = [CHR 0x0A]"

definition write_iface :: "string \<Rightarrow> string \<Rightarrow> string \<times> fsnode" where
  "write_iface name mac = (name, Dir [(''address'', Attr (mac @ nl)), (''ifindex'', Attr (''2'' @ nl))])"

definition lo :: "string \<times> fsnode" where
  "lo = (''lo'', Dir [(''address'', Attr (''00:00:00:00:00:00'' @ nl))])"

definition select_nics_single_non_loopback_is_pinned :: bool where
  "select_nics_single_non_loopback_is_pinned \<longleftrightarrow>
     select_nics (Dir [lo, write_iface ''eth0'' ''52:54:00:12:34:56'']) None = Inr (Pinned ''eth0'')"

definition select_nics_multiple_without_bootif_races_all_sorted :: bool where
  "select_nics_multiple_without_bootif_races_all_sorted \<longleftrightarrow>
     select_nics (Dir [write_iface ''eth1'' ''52:54:00:00:00:02'', write_iface ''eth0'' ''52:54:00:00:00:01'']) None =
       Inr (Race [''eth0'', ''eth1''])"

definition select_nics_bootif_matches_mac :: bool where
  "select_nics_bootif_matches_mac \<longleftrightarrow>
     select_nics (Dir [write_iface ''eth0'' ''52:54:00:00:00:01'', write_iface ''eth1'' ''52:54:00:aa:bb:cc''])
       (Some ''01-52-54-00-AA-BB-CC'') = Inr (Pinned ''eth1'')"

definition select_nics_bootif_no_match_errors :: bool where
  "select_nics_bootif_no_match_errors \<longleftrightarrow>
     fails_with (\<lambda>e. case e of BootifNoMatch _ \<Rightarrow> True | _ \<Rightarrow> False)
       (select_nics (Dir [write_iface ''eth0'' ''52:54:00:00:00:01'', write_iface ''eth1'' ''52:54:00:00:00:02''])
         (Some ''01-de-ad-be-ef-00-00''))"

definition select_nics_no_interface :: bool where
  "select_nics_no_interface \<longleftrightarrow> select_nics (Dir [lo]) None = Inl NoInterface"

definition normalize_bootif_strips_prefix_and_lowercases :: bool where
  "normalize_bootif_strips_prefix_and_lowercases \<longleftrightarrow>
     normalize_bootif ''01-52-54-00-AA-BB-CC'' = ''52:54:00:aa:bb:cc'' \<and>
     normalize_bootif ''52-54-00-11-22-33'' = ''52:54:00:11:22:33''"

definition parse_mac_roundtrips_and_rejects_bad :: bool where
  "parse_mac_roundtrips_and_rejects_bad \<longleftrightarrow>
     parse_mac ''52:54:00:12:34:56'' = Some [0x52, 0x54, 0x00, 0x12, 0x34, 0x56] \<and>
     parse_mac ''52:54:00:12:34'' = None \<and> parse_mac ''52:54:00:12:34:56:78'' = None \<and>
     parse_mac ''zz:54:00:12:34:56'' = None"

section \<open>Leases\<close>

definition lease_with :: "ipv4 option \<Rightarrow> lease" where
  "lease_with gateway = \<lparr>l_ip = ipv4_new 192 168 1 10, l_prefix_len = 24, l_gateway = gateway, l_dns = []\<rparr>"

definition choose_lease_none_when_nothing_leased :: bool where
  "choose_lease_none_when_nothing_leased \<longleftrightarrow> choose_lease [] = None \<and> choose_lease [None, None] = None"

definition choose_lease_prefers_a_lease_with_a_gateway :: bool where
  "choose_lease_prefers_a_lease_with_a_gateway \<longleftrightarrow>
     choose_lease [Some (lease_with None), Some (lease_with (Some (ipv4_new 192 168 1 1)))] = Some 1"

definition choose_lease_gateway_beats_an_earlier_gatewayless_lease :: bool where
  "choose_lease_gateway_beats_an_earlier_gatewayless_lease \<longleftrightarrow>
     choose_lease [Some (lease_with None), None, Some (lease_with (Some (ipv4_new 10 0 0 1)))] = Some 2"

definition choose_lease_lowest_index_among_gatewayed :: bool where
  "choose_lease_lowest_index_among_gatewayed \<longleftrightarrow>
     choose_lease [Some (lease_with (Some (ipv4_new 10 0 0 1))), Some (lease_with (Some (ipv4_new 10 0 1 1)))] = Some 0"

definition choose_lease_falls_back_to_lowest_index_lease_without_gateway :: bool where
  "choose_lease_falls_back_to_lowest_index_lease_without_gateway \<longleftrightarrow>
     choose_lease [None, Some (lease_with None), Some (lease_with None)] = Some 1"

section \<open>Masks, resolvers and static addresses\<close>

text \<open>Equations that compute: no recursion under an abstraction.\<close>

definition fmt_octet :: "u8 \<Rightarrow> string" where "fmt_octet b = dec (unat b)"

lemma fmt_ipv4_code [code]: "fmt_ipv4 ip = join ''.'' (map fmt_octet (u32_to_be ip))"
  by (simp add: fmt_ipv4_def fmt_octet_def [abs_def])

definition nameserver_line :: "ipv4 \<Rightarrow> string" where
  "nameserver_line ip = ''nameserver '' @ fmt_ipv4 ip @ [CHR 0x0A]"

lemma render_resolv_conf_code [code]:
  "render_resolv_conf dns = concat (map nameserver_line (choose_servers [] dns))"
  by (simp add: render_resolv_conf_def nameserver_line_def [abs_def])

definition mask_to_prefix_len_common_masks :: bool where
  "mask_to_prefix_len_common_masks \<longleftrightarrow> mask_to_prefix_len (ipv4_new 255 255 255 0) = 24 \<and>
     mask_to_prefix_len (ipv4_new 255 255 0 0) = 16 \<and> mask_to_prefix_len (ipv4_new 255 255 255 192) = 26 \<and>
     mask_to_prefix_len (ipv4_new 0 0 0 0) = 0 \<and> mask_to_prefix_len (ipv4_new 255 0 255 0) = 24"

definition render_resolv_conf_empty_input_is_empty :: bool where
  "render_resolv_conf_empty_input_is_empty \<longleftrightarrow> render_resolv_conf [] = []"

definition render_resolv_conf_one_line_per_server_in_order :: bool where
  "render_resolv_conf_one_line_per_server_in_order \<longleftrightarrow>
     render_resolv_conf [ipv4_new 192 168 1 1, ipv4_new 8 8 8 8] =
       ''nameserver 192.168.1.1'' @ nl @ ''nameserver 8.8.8.8'' @ nl"

definition render_resolv_conf_dedups_preserving_first_seen_order :: bool where
  "render_resolv_conf_dedups_preserving_first_seen_order \<longleftrightarrow>
     render_resolv_conf [ipv4_new 8 8 8 8, ipv4_new 1 1 1 1, ipv4_new 8 8 8 8] =
       ''nameserver 8.8.8.8'' @ nl @ ''nameserver 1.1.1.1'' @ nl"

definition render_resolv_conf_caps_at_the_resolver_limit :: bool where
  "render_resolv_conf_caps_at_the_resolver_limit \<longleftrightarrow>
     render_resolv_conf [ipv4_new 10 0 0 1, ipv4_new 10 0 0 2, ipv4_new 10 0 0 3, ipv4_new 10 0 0 4] =
       ''nameserver 10.0.0.1'' @ nl @ ''nameserver 10.0.0.2'' @ nl @ ''nameserver 10.0.0.3'' @ nl"

definition static_ip_parse_full_form :: bool where
  "static_ip_parse_full_form \<longleftrightarrow> static_ip_parse ''192.168.150.10::192.168.150.1:255.255.255.0:8.8.8.8'' =
     Some \<lparr>st_ip = ipv4_new 192 168 150 10, st_gateway = Some (ipv4_new 192 168 150 1), st_prefix_len = 24,
       st_dns = [ipv4_new 8 8 8 8]\<rparr>"

definition static_ip_parse_no_gateway_no_dns :: bool where
  "static_ip_parse_no_gateway_no_dns \<longleftrightarrow> static_ip_parse ''10.0.0.5:::255.255.0.0'' =
     Some \<lparr>st_ip = ipv4_new 10 0 0 5, st_gateway = None, st_prefix_len = 16, st_dns = []\<rparr>"

definition static_ip_parse_accepts_cidr_prefix_mask :: bool where
  "static_ip_parse_accepts_cidr_prefix_mask \<longleftrightarrow> holds (\<lambda>s. st_prefix_len s = 24 \<and>
     st_gateway s = Some (ipv4_new 172 16 0 1) \<and> st_dns s = []) (static_ip_parse ''172.16.0.9::172.16.0.1:24'')"

definition static_ip_parse_rejects_malformed :: bool where
  "static_ip_parse_rejects_malformed \<longleftrightarrow>
     static_ip_parse ''192.168.1.1:255.255.255.0'' = None \<and> static_ip_parse ''not-an-ip::10.0.0.1:24'' = None \<and>
     static_ip_parse ''10.0.0.5::nope:24'' = None \<and> static_ip_parse ''10.0.0.5::10.0.0.1:33'' = None \<and>
     static_ip_parse ''10.0.0.5::10.0.0.1:not-a-mask'' = None \<and>
     static_ip_parse ''10.0.0.5::10.0.0.1:24:8.8.8.8:extra'' = None"

section \<open>DHCP\<close>

text \<open>\<open>windows(n).any(|w| w == x)\<close>, for a pattern of \<open>n\<close> bytes.\<close>

fun begins_with :: "bytes \<Rightarrow> bytes \<Rightarrow> bool" where
  "begins_with [] bs = True"
| "begins_with (x # w) [] = False"
| "begins_with (x # w) (b # bs) = (if x = b then begins_with w bs else False)"

fun has_window :: "bytes \<Rightarrow> bytes \<Rightarrow> bool" where
  "has_window w [] = begins_with w []"
| "has_window w (b # bs) = (if begins_with w (b # bs) then True else has_window w bs)"

text \<open>The packets in one piece, with the zeros written out.\<close>

definition zeros_16 :: bytes where "zeros_16 = [0, 0, 0, 0, 0, 0, 0, 0, 0, 0, 0, 0, 0, 0, 0, 0]"

definition zeros_200 :: bytes where
  "zeros_200 = concat [zeros_16, zeros_16, zeros_16, zeros_16, zeros_16, zeros_16, zeros_16, zeros_16, zeros_16, zeros_16,
     zeros_16, zeros_16, [0, 0, 0, 0, 0, 0, 0, 0]]"

lemma zeros: "zeros_16 = replicate 16 0" "zeros_200 = replicate 200 0"
  by (simp_all add: zeros_16_def zeros_200_def numeral_eq_Suc)

lemma build_packet_code [code]:
  "build_packet ty xid mac requested_ip sid =
     (if length mac = 6 then [OP_REQUEST, HTYPE_ETHER, HLEN_ETHER, 0] @ u32_to_be xid @ [0, 0] @ FLAG_BROADCAST @
        zeros_16 @ mac @ zeros_200 @ [0, 0] @ MAGIC @ [OPT_MSG_TYPE, 1, ty] @ ip_option OPT_REQUESTED_IP requested_ip @
        ip_option OPT_SERVER_ID sid @ [OPT_PARAM_LIST, 4, OPT_SUBNET_MASK, OPT_ROUTER, OPT_DNS, OPT_LEASE_TIME] @ [OPT_END]
      else let p = replicate (COOKIE_OFFSET + 4) 0;
          p = p[0 := OP_REQUEST, 1 := HTYPE_ETHER, 2 := HLEN_ETHER];
          p = put p XID_OFFSET (u32_to_be xid);
          p = put p 10 FLAG_BROADCAST;
          p = put p CHADDR_OFFSET mac;
          p = put p COOKIE_OFFSET MAGIC
      in p @ [OPT_MSG_TYPE, 1, ty] @ ip_option OPT_REQUESTED_IP requested_ip
           @ ip_option OPT_SERVER_ID sid
           @ [OPT_PARAM_LIST, 4, OPT_SUBNET_MASK, OPT_ROUTER, OPT_DNS, OPT_LEASE_TIME]
           @ [OPT_END])"
proof -
  have r: "replicate 240 0 = (0 :: u8) # 0 # 0 # replicate 237 0" "replicate 2 0 = [0 :: u8, 0]"
    "replicate 202 0 = zeros_200 @ [0 :: u8, 0]"
    by (simp_all add: zeros numeral_eq_Suc)
  show ?thesis
    by (simp add: build_packet_def put_def COOKIE_OFFSET_def XID_OFFSET_def CHADDR_OFFSET_def FLAG_BROADCAST_def MAGIC_def r zeros Let_def)
qed

definition build_discover_has_header_cookie_and_msg_type :: bool where
  "build_discover_has_header_cookie_and_msg_type \<longleftrightarrow>
     (let mac = [0x52, 0x54, 0x00, 0x12, 0x34, 0x56]; p = build_packet DHCP_DISCOVER 0xDEADBEEF mac None None in
      p ! 0 = OP_REQUEST \<and> p ! 1 = HTYPE_ETHER \<and> take 4 (drop XID_OFFSET p) = u32_to_be 0xDEADBEEF \<and>
      take 6 (drop CHADDR_OFFSET p) = mac \<and> take 4 (drop COOKIE_OFFSET p) = MAGIC \<and>
      take 3 (drop (COOKIE_OFFSET + 4) p) = [OPT_MSG_TYPE, 1, DHCP_DISCOVER] \<and> last p = OPT_END)"

definition build_request_includes_requested_ip_and_server_id :: bool where
  "build_request_includes_requested_ip_and_server_id \<longleftrightarrow>
     (let p = build_packet DHCP_REQUEST 1 (replicate 6 0) (Some (ipv4_new 192 168 122 50)) (Some (ipv4_new 192 168 122 1)) in
      has_window [OPT_REQUESTED_IP, 4, 192, 168, 122, 50] p \<and> has_window [OPT_SERVER_ID, 4, 192, 168, 122, 1] p)"

definition reply_option :: "u8 \<times> bytes \<Rightarrow> bytes" where
  "reply_option = (\<lambda>(code, val). [code, word_of_nat (length val)] @ val)"

definition make_reply :: "u8 \<Rightarrow> u32 \<Rightarrow> ipv4 \<Rightarrow> (u8 \<times> bytes) list \<Rightarrow> bytes" where
  "make_reply ty xid yi opts =
     (let p = (replicate (COOKIE_OFFSET + 4) 0)[0 := OP_REPLY];
          p = put p XID_OFFSET (u32_to_be xid);
          p = put p YIADDR_OFFSET (u32_to_be yi);
          p = put p COOKIE_OFFSET MAGIC
      in p @ [OPT_MSG_TYPE, 1, ty] @ concat (map reply_option opts) @ [OPT_END])"

lemma make_reply_code [code]:
  "make_reply ty xid yi opts = [OP_REPLY, 0, 0, 0] @ u32_to_be xid @ replicate 8 0 @ u32_to_be yi @ zeros_200 @ zeros_16 @
     MAGIC @ [OPT_MSG_TYPE, 1, ty] @ concat (map reply_option opts) @ [OPT_END]"
proof -
  have r: "replicate 240 0 = (0 :: u8) # replicate 239 0" "replicate 3 0 = [0 :: u8, 0, 0]"
    "replicate 216 0 = zeros_200 @ zeros_16"
    by (simp_all add: zeros numeral_eq_Suc)
  show ?thesis
    by (simp add: make_reply_def put_def COOKIE_OFFSET_def XID_OFFSET_def YIADDR_OFFSET_def MAGIC_def r Let_def)
qed

definition parse_offer_extracts_address_and_options :: bool where
  "parse_offer_extracts_address_and_options \<longleftrightarrow>
     parse_reply (make_reply DHCP_OFFER 0x12345678 (ipv4_new 192 168 122 77)
       [(OPT_SERVER_ID, [192, 168, 122, 1]), (OPT_SUBNET_MASK, [255, 255, 255, 0]), (OPT_ROUTER, [192, 168, 122, 1]),
        (OPT_DNS, [8, 8, 8, 8, 1, 1, 1, 1])]) 0x12345678 =
     Some \<lparr>msg_type = DHCP_OFFER, yiaddr = ipv4_new 192 168 122 77, server_id = Some (ipv4_new 192 168 122 1),
       r_mask = Some (ipv4_new 255 255 255 0), router = Some (ipv4_new 192 168 122 1),
       r_dns = [ipv4_new 8 8 8 8, ipv4_new 1 1 1 1]\<rparr>"

definition parse_reply_rejects_wrong_xid_and_bad_cookie :: bool where
  "parse_reply_rejects_wrong_xid_and_bad_cookie \<longleftrightarrow>
     (let buf = make_reply DHCP_ACK 1 (ipv4_new 10 0 0 2) [] in
      parse_reply buf 999 = None \<and>
      parse_reply (buf[COOKIE_OFFSET := xor (buf ! COOKIE_OFFSET) 0xFF]) 1 = None \<and>
      parse_reply (replicate 100 0) 1 = None)"

section \<open>Netlink\<close>

definition word_at :: "bytes \<Rightarrow> nat \<Rightarrow> u32" where
  "word_at b i = u32_le (take 4 (drop i b))"

definition link_up_message_is_well_formed :: bool where
  "link_up_message_is_well_formed \<longleftrightarrow> (let b = build_link_set_flags 3 IFF_UP in
     nl_len b = length b \<and> nl_len b = NLMSGHDR_LEN + 16 \<and> nl_type b = RTM_NEWLINK \<and>
     word_at b (NLMSGHDR_LEN + 4) = 3 \<and> and (word_at b (NLMSGHDR_LEN + 8)) IFF_UP = IFF_UP \<and>
     word_at b (NLMSGHDR_LEN + 12) = IFF_UP)"

definition link_down_clears_iff_up_within_the_same_mask :: bool where
  "link_down_clears_iff_up_within_the_same_mask \<longleftrightarrow> (let b = build_link_set_flags 7 0 in
     nl_type b = RTM_NEWLINK \<and> word_at b (NLMSGHDR_LEN + 4) = 7 \<and>
     and (word_at b (NLMSGHDR_LEN + 8)) IFF_UP = 0 \<and> word_at b (NLMSGHDR_LEN + 12) = IFF_UP)"

definition add_address_message_carries_ip_and_prefix :: bool where
  "add_address_message_carries_ip_and_prefix \<longleftrightarrow>
     (let ip = ipv4_new 192 168 122 50; b = build_add_address 3 ip 24 in
      nl_len b = length b \<and> nl_type b = RTM_NEWADDR \<and> b ! NLMSGHDR_LEN = AF_INET_U8 \<and>
      b ! (NLMSGHDR_LEN + 1) = 24 \<and> has_window (u32_to_be ip) b \<and> length b mod 4 = 0)"

definition add_route_message_is_default_via_gateway :: bool where
  "add_route_message_is_default_via_gateway \<longleftrightarrow>
     (let gw = ipv4_new 192 168 122 1; b = build_add_route 3 gw in
      nl_len b = length b \<and> nl_type b = RTM_NEWROUTE \<and> b ! (NLMSGHDR_LEN + 1) = 0 \<and>
      b ! NLMSGHDR_LEN = AF_INET_U8 \<and> has_window (u32_to_be gw) b \<and> length b mod 4 = 0)"

text \<open>The acknowledgements of the test; \<open>EPERM\<close> is 1.\<close>

definition ack_of :: "u32 \<Rightarrow> bytes" where
  "ack_of err = put (put (replicate (NLMSGHDR_LEN + 4) 0) 4 (u16_to_le NLMSG_ERROR)) NLMSGHDR_LEN (u32_to_le err)"

definition parse_ack_success_and_failure :: bool where
  "parse_ack_success_and_failure \<longleftrightarrow> parse_ack (ack_of 0) = Inr () \<and> parse_ack (ack_of (- 1)) = Inl 1 \<and>
     parse_ack (replicate 4 0) = Inl EBADMSG"

section \<open>The model passes them\<close>

lemma select_nics_single_non_loopback_is_pinned_passes: "select_nics_single_non_loopback_is_pinned"
  by code_simp

lemma select_nics_multiple_without_bootif_races_all_sorted_passes: "select_nics_multiple_without_bootif_races_all_sorted"
  by code_simp

lemma select_nics_bootif_matches_mac_passes: "select_nics_bootif_matches_mac"
  by code_simp

lemma select_nics_bootif_no_match_errors_passes: "select_nics_bootif_no_match_errors"
  by code_simp

lemma select_nics_no_interface_passes: "select_nics_no_interface"
  by code_simp

lemma normalize_bootif_strips_prefix_and_lowercases_passes: "normalize_bootif_strips_prefix_and_lowercases"
  by code_simp

lemma parse_mac_roundtrips_and_rejects_bad_passes: "parse_mac_roundtrips_and_rejects_bad"
  by code_simp

lemma choose_lease_none_when_nothing_leased_passes: "choose_lease_none_when_nothing_leased"
  by code_simp

lemma choose_lease_prefers_a_lease_with_a_gateway_passes: "choose_lease_prefers_a_lease_with_a_gateway"
  by code_simp

lemma choose_lease_gateway_beats_an_earlier_gatewayless_lease_passes: "choose_lease_gateway_beats_an_earlier_gatewayless_lease"
  by code_simp

lemma choose_lease_lowest_index_among_gatewayed_passes: "choose_lease_lowest_index_among_gatewayed"
  by code_simp

lemma choose_lease_falls_back_to_lowest_index_lease_without_gateway_passes: "choose_lease_falls_back_to_lowest_index_lease_without_gateway"
  by code_simp

lemma mask_to_prefix_len_common_masks_passes: "mask_to_prefix_len_common_masks"
  by code_simp

lemma render_resolv_conf_empty_input_is_empty_passes: "render_resolv_conf_empty_input_is_empty"
  by code_simp

lemma render_resolv_conf_one_line_per_server_in_order_passes: "render_resolv_conf_one_line_per_server_in_order"
  by code_simp

lemma render_resolv_conf_dedups_preserving_first_seen_order_passes: "render_resolv_conf_dedups_preserving_first_seen_order"
  by code_simp

lemma render_resolv_conf_caps_at_the_resolver_limit_passes: "render_resolv_conf_caps_at_the_resolver_limit"
  by code_simp

lemma static_ip_parse_full_form_passes: "static_ip_parse_full_form"
  by code_simp

lemma static_ip_parse_no_gateway_no_dns_passes: "static_ip_parse_no_gateway_no_dns"
  by code_simp

lemma static_ip_parse_accepts_cidr_prefix_mask_passes: "static_ip_parse_accepts_cidr_prefix_mask"
  by code_simp

lemma static_ip_parse_rejects_malformed_passes: "static_ip_parse_rejects_malformed"
  by code_simp

lemma build_discover_has_header_cookie_and_msg_type_passes: "build_discover_has_header_cookie_and_msg_type"
  by code_simp

lemma build_request_includes_requested_ip_and_server_id_passes: "build_request_includes_requested_ip_and_server_id"
  by code_simp

lemma parse_offer_extracts_address_and_options_passes: "parse_offer_extracts_address_and_options"
  by code_simp

lemma parse_reply_rejects_wrong_xid_and_bad_cookie_passes: "parse_reply_rejects_wrong_xid_and_bad_cookie"
  by code_simp

lemma link_up_message_is_well_formed_passes: "link_up_message_is_well_formed"
  by code_simp

lemma link_down_clears_iff_up_within_the_same_mask_passes: "link_down_clears_iff_up_within_the_same_mask"
  by code_simp

lemma add_address_message_carries_ip_and_prefix_passes: "add_address_message_carries_ip_and_prefix"
  by code_simp

lemma add_route_message_is_default_via_gateway_passes: "add_route_message_is_default_via_gateway"
  by code_simp

lemma parse_ack_success_and_failure_passes: "parse_ack_success_and_failure"
  by code_simp

end
