(* ===== verification/Disk_Tests.thy ===== *)
theory Disk_Tests
  imports Target_Disk Test_Support
begin

text \<open>
  The unit tests of \<open>src/target_disk.rs\<close> as functions, and the model passes them. The scratch
  directories of the tests are trees.
\<close>

section \<open>The trees\<close>

definition eol :: string where "eol = [CHR 0x0A]"

definition sectors_for_gb :: "u64 \<Rightarrow> u64" where
  "sectors_for_gb gb = gb * 1000000000 div SECTOR_BYTES"

text \<open>The contents of \<open>size\<close>, computed once for the sizes of the tests.\<close>

definition size_text :: "u64 \<Rightarrow> string" where
  "size_text gb = dec (unat (sectors_for_gb gb))"

lemma size_100: "size_text 100 = ''195312500'' \<and> parse_u64 ''195312500'' = Some 195312500"
  by code_simp

lemma size_480: "size_text 480 = ''937500000'' \<and> parse_u64 ''937500000'' = Some 937500000"
  by code_simp

lemma size_500: "size_text 500 = ''976562500'' \<and> parse_u64 ''976562500'' = Some 976562500"
  by code_simp

lemma size_800: "size_text 800 = ''1562500000'' \<and> parse_u64 ''1562500000'' = Some 1562500000"
  by code_simp

lemma size_960: "size_text 960 = ''1875000000'' \<and> parse_u64 ''1875000000'' = Some 1875000000"
  by code_simp

lemma size_1000: "size_text 1000 = ''1953125000'' \<and> parse_u64 ''1953125000'' = Some 1953125000"
  by code_simp

lemma size_2000: "size_text 2000 = ''3906250000'' \<and> parse_u64 ''3906250000'' = Some 3906250000"
  by code_simp

lemma size_text_code [code]:
  "size_text gb = (if gb = 100 then ''195312500''
     else if gb = 480 then ''937500000''
     else if gb = 500 then ''976562500''
     else if gb = 800 then ''1562500000''
     else if gb = 960 then ''1875000000''
     else if gb = 1000 then ''1953125000''
     else if gb = 2000 then ''3906250000''
     else dec (unat (sectors_for_gb gb)))"
  by (simp add: size_100 size_480 size_500 size_800 size_960 size_1000 size_2000 flip: size_text_def)

definition size_of_text :: "string \<Rightarrow> u64" where
  "size_of_text t = (case parse_u64 t of Some sectors \<Rightarrow> sectors * SECTOR_BYTES | None \<Rightarrow> 0)"

lemma size_of_text_code [code]:
  "size_of_text t = (if t = ''195312500'' then 100000000000
     else if t = ''937500000'' then 480000000000
     else if t = ''976562500'' then 500000000000
     else if t = ''1562500000'' then 800000000000
     else if t = ''1875000000'' then 960000000000
     else if t = ''1953125000'' then 1000000000000
     else if t = ''3906250000'' then 2000000000000
     else case parse_u64 t of Some sectors \<Rightarrow> sectors * SECTOR_BYTES | None \<Rightarrow> 0)"
  using size_100 size_480 size_500 size_800 size_960 size_1000 size_2000
  by (simp add: size_of_text_def SECTOR_BYTES_def)

lemma read_candidate_code [code]:
  "read_candidate d kname = \<lparr>c_kname = kname,
     c_size_bytes = (case read_trimmed d [kname, ''size''] of Some t \<Rightarrow> size_of_text t | None \<Rightarrow> 0),
     c_dev_number = unwrap_or (read_trimmed d [kname, ''dev'']) [],
     c_removable = (read_trimmed d [kname, ''removable''] = Some ''1''),
     c_read_only = (read_trimmed d [kname, ''ro''] = Some ''1''),
     c_physical = path_exists d [kname, ''device'']\<rparr>"
  by (simp add: read_candidate_def size_of_text_def split: option.split)

definition flag_attr :: "bool \<Rightarrow> fsnode" where
  "flag_attr b = Attr ((if b then ''1'' else ''0'') @ eol)"

text \<open>A disk, a virtual device, a slave of a device, and a partition below its disk.\<close>

definition write_disk :: "string \<Rightarrow> u64 \<Rightarrow> bool \<Rightarrow> bool \<Rightarrow> (string \<times> fsnode) list \<Rightarrow> string \<times> fsnode" where
  "write_disk kname gb rem ro below = (kname, Dir ([(''size'', Attr (size_text gb @ eol)),
     (''dev'', Attr (''8:0'' @ eol)), (''removable'', flag_attr rem), (''ro'', flag_attr ro),
     (''device'', Dir [(''model'', Attr (''Test Disk'' @ eol))])] @ below))"

definition write_virtual :: "string \<Rightarrow> u64 \<Rightarrow> (string \<times> fsnode) list \<Rightarrow> string \<times> fsnode" where
  "write_virtual kname gb below = (kname, Dir ([(''size'', Attr (size_text gb @ eol)),
     (''removable'', flag_attr False), (''ro'', flag_attr False)] @ below))"

definition slave_entry :: "string \<Rightarrow> string \<times> fsnode" where
  "slave_entry c = (c, Dir [(''_'', Attr [])])"

definition write_slaves :: "string list \<Rightarrow> (string \<times> fsnode) list" where
  "write_slaves cs = [(''slaves'', Dir (map slave_entry cs))]"

definition write_partition :: "string \<Rightarrow> string \<times> fsnode" where
  "write_partition part = (part, Dir [(''partition'', Attr (''1'' @ eol))])"

definition no_ramdisk :: "string set" where "no_ramdisk = {}"

definition no_class :: fsnode where "no_class = Dir []"

definition picks :: "string \<Rightarrow> disk_error + target_disk \<Rightarrow> bool" where
  "picks kname r = succeeds_with (\<lambda>t. t_kname t = kname) r"

section \<open>Automatic selection\<close>

definition auto_selects_smallest_eligible_disk :: bool where
  "auto_selects_smallest_eligible_disk \<longleftrightarrow>
     select_core (Dir [write_disk ''sda'' 2000 False False [], write_disk ''nvme0n1'' 480 False False [],
       write_disk ''sdb'' 1000 False False []]) no_class None 0 no_ramdisk =
     Inr \<lparr>t_kname = ''nvme0n1'', t_size_bytes = 480 * 1000000000, t_dev_number = ''8:0''\<rparr>"

definition empty_slot :: "string \<times> fsnode" where
  "empty_slot = (''mmcblk0'', Dir [(''size'', Attr (''0'' @ eol)), (''removable'', flag_attr False), (''ro'', flag_attr False),
     (''device'', Dir [(''model'', Attr (''Reader'' @ eol))])])"

definition auto_excludes_removable_readonly_virtual_and_empty :: bool where
  "auto_excludes_removable_readonly_virtual_and_empty \<longleftrightarrow> picks ''nvme0n1''
     (select_core (Dir [write_disk ''sda'' 500 True False [], write_disk ''sdb'' 500 False True [],
       write_virtual ''dm-0'' 100 [], empty_slot, write_disk ''nvme0n1'' 960 False False []]) no_class None 0 no_ramdisk)"

definition auto_excludes_ramdisk_backing_device :: bool where
  "auto_excludes_ramdisk_backing_device \<longleftrightarrow> picks ''nvme0n1''
     (select_core (Dir [write_disk ''sda'' 480 False False [], write_disk ''nvme0n1'' 960 False False []])
       no_class None 0 {''sda''})"

definition auto_respects_the_size_floor :: bool where
  "auto_respects_the_size_floor \<longleftrightarrow> picks ''sdb''
     (select_core (Dir [write_disk ''sda'' 100 False False [], write_disk ''sdb'' 800 False False []])
       no_class None (500 * 1000000000) no_ramdisk)"

definition auto_with_no_eligible_disk_errors :: bool where
  "auto_with_no_eligible_disk_errors \<longleftrightarrow>
     select_core (Dir [write_disk ''sda'' 500 True False [], write_virtual ''loop0'' 100 []]) no_class None 0 no_ramdisk =
       Inl NoEligibleDisk"

section \<open>Pinned selection\<close>

definition pinned_eligible_disk_is_used_exactly :: bool where
  "pinned_eligible_disk_is_used_exactly \<longleftrightarrow> picks ''nvme0n1''
     (select_core (Dir [write_disk ''sda'' 480 False False [], write_disk ''nvme0n1'' 960 False False []])
       no_class (Some ''nvme0n1'') 0 no_ramdisk)"

definition pinned_removable_disk_aborts_without_fallback :: bool where
  "pinned_removable_disk_aborts_without_fallback \<longleftrightarrow>
     select_core (Dir [write_disk ''sdb'' 500 True False [], write_disk ''nvme0n1'' 960 False False []])
       no_class (Some ''sdb'') 0 no_ramdisk = Inl (PinIneligible ''sdb'' Removable)"

definition pinned_too_small_disk_reports_sizes :: bool where
  "pinned_too_small_disk_reports_sizes \<longleftrightarrow>
     select_core (Dir [write_disk ''sda'' 100 False False []]) no_class (Some ''sda'') (500 * 1000000000) no_ramdisk =
       Inl (PinIneligible ''sda'' (TooSmall (100 * 1000000000) (500 * 1000000000)))"

definition pinned_system_backing_disk_aborts :: bool where
  "pinned_system_backing_disk_aborts \<longleftrightarrow>
     select_core (Dir [write_disk ''sda'' 960 False False []]) no_class (Some ''sda'') 0 {''sda''} =
       Inl (PinIneligible ''sda'' SystemBacking)"

definition pinned_partition_is_rejected_as_not_whole_disk :: bool where
  "pinned_partition_is_rejected_as_not_whole_disk \<longleftrightarrow>
     select_core (Dir [write_disk ''sda'' 960 False False []]) (Dir [write_partition ''sda1'']) (Some ''sda1'') 0 no_ramdisk =
       Inl (PinNotWholeDisk ''sda1'')"

definition pinned_nonexistent_name_is_not_a_block_device :: bool where
  "pinned_nonexistent_name_is_not_a_block_device \<longleftrightarrow>
     select_core (Dir [write_disk ''sda'' 960 False False []]) no_class (Some ''sdz'') 0 no_ramdisk =
       Inl (PinNotBlockDevice ''sdz'')"

definition pinned_virtual_device_is_ineligible_not_physical :: bool where
  "pinned_virtual_device_is_ineligible_not_physical \<longleftrightarrow>
     select_core (Dir [write_virtual ''dm-0'' 500 []]) no_class (Some ''dm-0'') 0 no_ramdisk =
       Inl (PinIneligible ''dm-0'' NotPhysical)"

definition target_disk_dev_path :: bool where
  "target_disk_dev_path \<longleftrightarrow>
     dev_path \<lparr>t_kname = ''nvme0n1'', t_size_bytes = 0, t_dev_number = ''259:0''\<rparr> = ''/dev/nvme0n1''"

section \<open>The disks behind a device\<close>

definition backing_resolves_lvm_dm_to_physical_parent :: bool where
  "backing_resolves_lvm_dm_to_physical_parent \<longleftrightarrow>
     backing_whole_disks [''dm-0''] (Dir [write_virtual ''dm-0'' 500 (write_slaves [''nvme1n1p3'']),
       (''nvme1n1'', Dir [write_partition ''nvme1n1p3''])]) = {''nvme1n1''}"

definition backing_resolves_md_raid_to_all_members :: bool where
  "backing_resolves_md_raid_to_all_members \<longleftrightarrow>
     backing_whole_disks [''md0''] (Dir [write_virtual ''md0'' 1000 (write_slaves [''sda1'', ''sdb1'']),
       (''sda'', Dir [write_partition ''sda1'']), (''sdb'', Dir [write_partition ''sdb1''])]) = {''sda'', ''sdb''}"

definition backing_resolves_stacked_dm_on_dm :: bool where
  "backing_resolves_stacked_dm_on_dm \<longleftrightarrow>
     backing_whole_disks [''dm-1''] (Dir [write_virtual ''dm-1'' 500 (write_slaves [''dm-0'']),
       write_virtual ''dm-0'' 500 (write_slaves [''nvme0n1p3'']), (''nvme0n1'', Dir [write_partition ''nvme0n1p3''])]) =
     {''nvme0n1''}"

definition backing_resolves_nvme_partition_authoritatively_not_by_string :: bool where
  "backing_resolves_nvme_partition_authoritatively_not_by_string \<longleftrightarrow>
     backing_whole_disks [''nvme1n1p3''] (Dir [(''nvme1n1'', Dir [write_partition ''nvme1n1p3''])]) = {''nvme1n1''}"

definition backing_slaves_cycle_is_bounded :: bool where
  "backing_slaves_cycle_is_bounded \<longleftrightarrow>
     backing_whole_disks [''dm-0''] (Dir [write_virtual ''dm-0'' 500 (write_slaves [''dm-1'']),
       write_virtual ''dm-1'' 500 (write_slaves [''dm-0''])]) = {}"

definition backing_unresolvable_partition_falls_back_to_string_strip :: bool where
  "backing_unresolvable_partition_falls_back_to_string_strip \<longleftrightarrow>
     backing_whole_disks [''nvme1n1p2''] (Dir []) = {''nvme1n1''}"

definition backing_plain_whole_disk_source_is_kept :: bool where
  "backing_plain_whole_disk_source_is_kept \<longleftrightarrow>
     backing_whole_disks [''sdb''] (Dir [write_disk ''sdb'' 1000 False False []]) = {''sdb''}"

definition auto_select_excludes_lvm_backed_system_disk_end_to_end :: bool where
  "auto_select_excludes_lvm_backed_system_disk_end_to_end \<longleftrightarrow>
     (let s = Dir [write_disk ''nvme1n1'' 480 False False [write_partition ''nvme1n1p3''],
        write_disk ''nvme0n1'' 960 False False [], write_virtual ''dm-0'' 480 (write_slaves [''nvme1n1p3''])];
          ramdisk = backing_whole_disks [''dm-0''] s in
      ''nvme1n1'' \<in> ramdisk \<and> picks ''nvme0n1'' (select_core s no_class None 0 ramdisk))"

section \<open>Mounts and swap\<close>

definition mount_sources_keeps_dev_and_drops_virtual :: bool where
  "mount_sources_keeps_dev_and_drops_virtual \<longleftrightarrow>
     mount_sources (join eol [''rootfs / rootfs rw 0 0'', ''/dev/mapper/vg-root / ext4 rw 0 0'',
       ''/dev/nvme1n1p2 /boot/efi vfat rw 0 0'', ''tmpfs /run tmpfs rw 0 0'', ''proc /proc proc rw 0 0'',
       ''overlay /var/lib/docker overlay rw 0 0'', []]) = [''/dev/mapper/vg-root'', ''/dev/nvme1n1p2'']"

definition tab :: string where "tab = [CHR 0x09]"

definition swap_sources_skips_header_and_swapfiles :: bool where
  "swap_sources_skips_header_and_swapfiles \<longleftrightarrow>
     swap_sources (join eol [join tab [''Filename'', [], [], [], ''Type'', [], ''Size'', ''Used'', ''Priority''],
       join tab [''/dev/sda3                               partition'', ''8388604'', ''0'', ''-2''],
       join tab [''/dev/mapper/vg-swap                     partition'', ''4194300'', ''0'', ''-3''],
       join tab [''/swapfile                               file'', [], ''2097148'', ''0'', ''-4''], []]) =
     [''/dev/sda3'', ''/dev/mapper/vg-swap'']"

definition strip_partition_suffix_handles_standard_partition_schemes :: bool where
  "strip_partition_suffix_handles_standard_partition_schemes \<longleftrightarrow>
     strip_partition_suffix ''sda2'' = ''sda'' \<and> strip_partition_suffix ''nvme0n1p3'' = ''nvme0n1'' \<and>
     strip_partition_suffix ''mmcblk0p1'' = ''mmcblk0'' \<and> strip_partition_suffix ''md0p2'' = ''md0'' \<and>
     strip_partition_suffix ''sda'' = ''sda''"

definition strip_partition_suffix_handles_multi_digit_nvme_names :: bool where
  "strip_partition_suffix_handles_multi_digit_nvme_names \<longleftrightarrow>
     strip_partition_suffix ''nvme0n1p12'' = ''nvme0n1'' \<and> strip_partition_suffix ''nvme10n2p1'' = ''nvme10n2'' \<and>
     strip_partition_suffix ''nvme1n12p3'' = ''nvme1n12''"

section \<open>NVMe and pins\<close>

definition nvme_parts :: "(string \<times> fsnode) list" where
  "nvme_parts = map write_partition [''nvme0n1p1'', ''nvme0n1p2'', ''nvme0n1p3'']"

definition nvme_whole_disk_with_partitions_is_selected_not_a_partition :: bool where
  "nvme_whole_disk_with_partitions_is_selected_not_a_partition \<longleftrightarrow>
     (let s = Dir [write_disk ''nvme0n1'' 480 False False nvme_parts]; class_dir = Dir nvme_parts in
      map c_kname (enumerate_disks s) = [''nvme0n1''] \<and>
      succeeds_with (\<lambda>auto. t_kname auto = ''nvme0n1'' \<and> dev_path auto = ''/dev/nvme0n1'')
        (select_core s class_dir None 0 no_ramdisk) \<and>
      picks ''nvme0n1'' (select_core s class_dir (Some ''nvme0n1'') 0 no_ramdisk))"

definition pinned_nvme_partition_is_rejected_as_not_whole_disk :: bool where
  "pinned_nvme_partition_is_rejected_as_not_whole_disk \<longleftrightarrow>
     select_core (Dir [write_disk ''nvme0n1'' 960 False False [write_partition ''nvme0n1p3'']])
       (Dir [write_partition ''nvme0n1p3'']) (Some ''nvme0n1p3'') 0 no_ramdisk = Inl (PinNotWholeDisk ''nvme0n1p3'')"

text \<open>A directory with the file \<open>sdc\<close> and a link to it.\<close>

definition by_id_link :: canonicalizer where
  "by_id_link p = (if p \<in> {''/scratch/by-id-link'', ''/scratch/sdc''} then Some ''/scratch/sdc'' else None)"

definition resolve_pin_follows_a_symlink_to_its_kname :: bool where
  "resolve_pin_follows_a_symlink_to_its_kname \<longleftrightarrow> resolve_pin_to_kname by_id_link ''/scratch/by-id-link'' = Inr ''sdc''"

definition resolve_pin_bare_name_is_passed_through :: bool where
  "resolve_pin_bare_name_is_passed_through \<longleftrightarrow> resolve_pin_to_kname by_id_link ''nvme0n1'' = Inr ''nvme0n1''"

definition resolve_pin_nonexistent_path_errors :: bool where
  "resolve_pin_nonexistent_path_errors \<longleftrightarrow>
     resolve_pin_to_kname by_id_link ''/dev/disk/by-id/does-not-exist-xyz'' =
       Inl (PinNotFound ''/dev/disk/by-id/does-not-exist-xyz'')"

section \<open>The model passes them\<close>

lemma auto_selects_smallest_eligible_disk_passes: "auto_selects_smallest_eligible_disk"
  by code_simp

lemma auto_excludes_removable_readonly_virtual_and_empty_passes: "auto_excludes_removable_readonly_virtual_and_empty"
  by code_simp

lemma auto_excludes_ramdisk_backing_device_passes: "auto_excludes_ramdisk_backing_device"
  by code_simp

lemma auto_respects_the_size_floor_passes: "auto_respects_the_size_floor"
  by code_simp

lemma auto_with_no_eligible_disk_errors_passes: "auto_with_no_eligible_disk_errors"
  by code_simp

lemma pinned_eligible_disk_is_used_exactly_passes: "pinned_eligible_disk_is_used_exactly"
  by code_simp

lemma pinned_removable_disk_aborts_without_fallback_passes: "pinned_removable_disk_aborts_without_fallback"
  by code_simp

lemma pinned_too_small_disk_reports_sizes_passes: "pinned_too_small_disk_reports_sizes"
  by code_simp

lemma pinned_system_backing_disk_aborts_passes: "pinned_system_backing_disk_aborts"
  by code_simp

lemma pinned_partition_is_rejected_as_not_whole_disk_passes: "pinned_partition_is_rejected_as_not_whole_disk"
  by code_simp

lemma pinned_nonexistent_name_is_not_a_block_device_passes: "pinned_nonexistent_name_is_not_a_block_device"
  by code_simp

lemma pinned_virtual_device_is_ineligible_not_physical_passes: "pinned_virtual_device_is_ineligible_not_physical"
  by code_simp

lemma target_disk_dev_path_passes: "target_disk_dev_path"
  by code_simp

lemma backing_resolves_lvm_dm_to_physical_parent_passes: "backing_resolves_lvm_dm_to_physical_parent"
  by code_simp

lemma backing_resolves_md_raid_to_all_members_passes: "backing_resolves_md_raid_to_all_members"
  by code_simp

lemma backing_resolves_stacked_dm_on_dm_passes: "backing_resolves_stacked_dm_on_dm"
  by code_simp

lemma backing_resolves_nvme_partition_authoritatively_not_by_string_passes: "backing_resolves_nvme_partition_authoritatively_not_by_string"
  by code_simp

lemma backing_slaves_cycle_is_bounded_passes: "backing_slaves_cycle_is_bounded"
  by code_simp

lemma backing_unresolvable_partition_falls_back_to_string_strip_passes: "backing_unresolvable_partition_falls_back_to_string_strip"
  by code_simp

lemma backing_plain_whole_disk_source_is_kept_passes: "backing_plain_whole_disk_source_is_kept"
  by code_simp

lemma auto_select_excludes_lvm_backed_system_disk_end_to_end_passes: "auto_select_excludes_lvm_backed_system_disk_end_to_end"
  by code_simp

lemma mount_sources_keeps_dev_and_drops_virtual_passes: "mount_sources_keeps_dev_and_drops_virtual"
  by code_simp

lemma swap_sources_skips_header_and_swapfiles_passes: "swap_sources_skips_header_and_swapfiles"
  by code_simp

lemma strip_partition_suffix_handles_standard_partition_schemes_passes: "strip_partition_suffix_handles_standard_partition_schemes"
  by code_simp

lemma strip_partition_suffix_handles_multi_digit_nvme_names_passes: "strip_partition_suffix_handles_multi_digit_nvme_names"
  by code_simp

lemma nvme_whole_disk_with_partitions_is_selected_not_a_partition_passes: "nvme_whole_disk_with_partitions_is_selected_not_a_partition"
  by code_simp

lemma pinned_nvme_partition_is_rejected_as_not_whole_disk_passes: "pinned_nvme_partition_is_rejected_as_not_whole_disk"
  by code_simp

lemma resolve_pin_follows_a_symlink_to_its_kname_passes: "resolve_pin_follows_a_symlink_to_its_kname"
  by code_simp

lemma resolve_pin_bare_name_is_passed_through_passes: "resolve_pin_bare_name_is_passed_through"
  by code_simp

lemma resolve_pin_nonexistent_path_errors_passes: "resolve_pin_nonexistent_path_errors"
  by code_simp

end
