(* ===== verification/Well_Formed.thy ===== *)
theory Well_Formed
  imports Machine
begin

text \<open>
  The types of the machine's parts beyond those of HOL: a file system is a tree whose names
  are distinct, a mount is on a directory that exists, nodes, directories and UEFI variables have
  one entry each. Every operation of the run keeps them, whatever fails.
\<close>

section \<open>File systems\<close>

definition tree_shaped :: "fs \<Rightarrow> bool" where
  "tree_shaped fs \<longleftrightarrow> distinct (map (map (fold_name (fs_nocase fs)) \<circ> fst) (fs_entries fs)) \<and>
     list_all (\<lambda>(p, _). p \<noteq> [] \<and> node_at fs (parent p) = Some SubDir) (fs_entries fs)"

lemma tree_shaped_calls [simp]: "tree_shaped (fs\<lparr>fs_calls := n\<rparr>) = tree_shaped fs"
  by (simp add: tree_shaped_def)

lemma entry_at_mem: "entry_at c p es = Some n \<Longrightarrow> \<exists>q. (q, n) \<in> set es \<and> same_path c p q"
  by (induction c p es rule: entry_at.induct) (auto split: if_splits)

lemma mem_entry_at: "(q, n) \<in> set es \<Longrightarrow> \<exists>k. entry_at c q es = Some k"
  by (induction es) (auto simp: same_path_def)

lemma same_parent: "same_path c p q \<Longrightarrow> same_path c (parent p) (parent q)"
  by (simp add: same_path_def parent_def map_butlast)

lemma parent_other: "p \<noteq> [] \<Longrightarrow> \<not> same_path c (parent p) p"
proof
  assume "p \<noteq> []" "same_path c (parent p) p"
  from arg_cong [OF same_path_length [OF this(2)], of length] this(1) show False by (simp add: parent_def flip: length_greater_0_conv)
qed

text \<open>The parent of what exists is a directory.\<close>

lemma tree_parent:
  assumes "tree_shaped fs" "node_at fs p = Some n" "p \<noteq> []"
  shows "node_at fs (parent p) = Some SubDir"
proof -
  from assms obtain q where q: "(q, n) \<in> set (fs_entries fs)" "same_path (fs_nocase fs) p q"
    by (auto simp: node_at_def dest: entry_at_mem)
  then have "node_at fs (parent q) = Some SubDir" using assms(1) by (auto simp: tree_shaped_def list_all_iff)
  with node_at_same_path [OF same_parent [OF q(2)]] show ?thesis by simp
qed

lemma put_node_folded:
  "map (map (fold_name c) \<circ> fst) (put_node c p n es) =
     (if entry_at c p es = None then map (map (fold_name c) \<circ> fst) es @ [map (fold_name c) p]
      else map (map (fold_name c) \<circ> fst) es)"
  by (induction c p n es rule: put_node.induct) (auto simp: same_path_def)

lemma del_node_filter: "del_node c p es = filter (\<lambda>(q, _). \<not> same_path c p q) es"
  by (induction c p es rule: del_node.induct) auto

lemma no_entry_folded: "entry_at c p es = None \<longleftrightarrow> map (fold_name c) p \<notin> set (map (map (fold_name c) \<circ> fst) es)"
  by (induction c p es rule: entry_at.induct) (auto simp: same_path_def)

lemma tree_shaped_set:
  assumes "tree_shaped fs" "p \<noteq> []" "node_at fs (parent p) = Some SubDir"
    and "n = SubDir \<or> node_at fs p \<noteq> Some SubDir"
  shows "tree_shaped (set_node p n fs)"
proof -
  let ?c = "fs_nocase fs"
  have names: "distinct (map (map (fold_name ?c) \<circ> fst) (fs_entries (set_node p n fs)))"
    using assms(1) by (auto simp: tree_shaped_def set_node_def put_node_folded no_entry_folded)
  have "q \<noteq> [] \<and> node_at (set_node p n fs) (parent q) = Some SubDir"
    if q: "(q, k) \<in> set (fs_entries (set_node p n fs))" for q k
  proof (cases "same_path ?c q p")
    case True
    then have nonempty: "q \<noteq> []" using assms(2) by (auto simp: same_path_def)
    have "node_at fs (parent q) = Some SubDir"
      using node_at_same_path [OF same_parent [OF True]] assms(3) by simp
    moreover have "\<not> same_path ?c (parent q) p"
      using same_path_subst [OF True, of "parent q"] parent_other [OF nonempty] by simp
    ultimately show ?thesis using nonempty assms(2) by simp
  next
    case False
    have "(q, k) \<in> set (fs_entries fs)"
    proof -
      have "(q, k) \<in> set (put_node c p n es) \<Longrightarrow> \<not> same_path c q p \<Longrightarrow> (q, k) \<in> set es" for c es
        by (induction c p n es rule: put_node.induct) (auto simp: same_path_def split: if_splits)
      then show ?thesis using q False by (simp add: set_node_def)
    qed
    then have "q \<noteq> []" "node_at fs (parent q) = Some SubDir" using assms(1) by (auto simp: tree_shaped_def list_all_iff)
    moreover have "n = SubDir" if s: "same_path ?c (parent q) p"
      using node_at_same_path [OF s] calculation assms(4) by auto
    ultimately show ?thesis using assms(2) by auto
  qed
  with names show ?thesis by (auto simp: tree_shaped_def list_all_iff)
qed

lemma tree_shaped_unset:
  assumes "tree_shaped fs" "p \<noteq> []" "node_at fs p \<noteq> Some SubDir"
  shows "tree_shaped (unset_node p fs)"
proof -
  have "q \<noteq> [] \<and> node_at (unset_node p fs) (parent q) = Some SubDir" if "(q, k) \<in> set (fs_entries fs)" for q k
  proof -
    from that assms(1) have "q \<noteq> []" "node_at fs (parent q) = Some SubDir" by (auto simp: tree_shaped_def list_all_iff)
    then show ?thesis using assms(2,3) node_at_same_path [of fs "parent q" p] by auto
  qed
  moreover have "distinct (map f (filter P es))" if "distinct (map f es)" for f P and es :: "(string list \<times> fs_node) list"
    using that by (induction es) auto
  ultimately show ?thesis using assms(1)
    by (auto simp: tree_shaped_def list_all_iff unset_node_def del_node_filter)
qed

section \<open>The calls on a file system\<close>

lemma maintains_fs_do [maintain_intros]: "maintains tree_shaped act \<Longrightarrow> maintains tree_shaped (fs_do k act)"
  by (auto simp: maintains_def fs_do_def answer_def split: option.splits)

lemma calls_tree_shaped [maintain_intros]:
  "maintains tree_shaped (open_truncate p m)" "maintains tree_shaped (set_mode p m)"
  "maintains tree_shaped (fs_write_all p b)" "maintains tree_shaped (remove_file p)"
  "maintains tree_shaped (fs_rename p q)" "maintains tree_shaped (metadata p)"
  "maintains tree_shaped (read_file p)" "maintains tree_shaped (fs_read_dir p)"
  "maintains tree_shaped sync_all" "maintains tree_shaped (open_dir p)"
proof -
  have reg: "p \<noteq> []" if "node_at fs p = Some (RegFile b m)" for p fs b m
    using that by auto
  have none: "p \<noteq> []" if "node_at fs p = None" for p fs
    using that by auto
  have over: "tree_shaped (set_node p n fs)" if "tree_shaped fs" "node_at fs p = Some (RegFile b m)" for p n fs b m
    using tree_shaped_set [OF that(1) reg [OF that(2)] tree_parent [OF that reg [OF that(2)]]] that(2) by simp
  show "maintains tree_shaped (open_truncate p m)"
    unfolding open_truncate_def
    by (rule maintains_fs_do)
      (auto simp: maintains_def split: option.splits fs_node.splits intro: over tree_shaped_set dest: none)
  show "maintains tree_shaped (set_mode p m)"
    unfolding set_mode_def
    by (rule maintains_fs_do) (auto simp: maintains_def split: option.splits fs_node.splits intro: over)
  show "maintains tree_shaped (fs_write_all p b)"
    by (auto simp: maintains_def fs_write_all_def answer_def append_bytes_def split: option.splits fs_node.splits intro: over)
  show "maintains tree_shaped (remove_file p)"
    unfolding remove_file_def
    by (rule maintains_fs_do)
      (auto simp: maintains_def split: option.splits fs_node.splits intro!: tree_shaped_unset dest: reg)
  show "maintains tree_shaped (fs_rename p q)"
    unfolding fs_rename_def
  proof (rule maintains_fs_do)
    have "tree_shaped (set_node q (RegFile b m) (unset_node p fs))"
      if fs: "tree_shaped fs" and p: "node_at fs p = Some (RegFile b m)"
        and q: "node_at fs (parent q) = Some SubDir" "node_at fs q \<noteq> Some SubDir" for fs b m
    proof (rule tree_shaped_set)
      show "tree_shaped (unset_node p fs)" using tree_shaped_unset [OF fs reg [OF p]] p by simp
      show "q \<noteq> []" using q(2) by auto
      show "node_at (unset_node p fs) (parent q) = Some SubDir"
        using q(1) p reg [OF p] node_at_same_path [of fs "parent q" p] by auto
      show "RegFile b m = SubDir \<or> node_at (unset_node p fs) q \<noteq> Some SubDir" using q(2) reg [OF p] by simp
    qed
    then show "maintains tree_shaped (\<lambda>fs. case node_at fs p of
        Some (RegFile b m) \<Rightarrow> if node_at fs (parent q) \<noteq> Some SubDir then (Inl (OsError ENOENT), fs)
          else if node_at fs q = Some SubDir then (Inl (OsError EISDIR), fs)
          else (Inr (), set_node q (RegFile b m) (unset_node p fs))
      | _ \<Rightarrow> (Inl (OsError ENOENT), fs))"
      by (auto simp: maintains_def split: option.splits fs_node.splits)
  qed
qed (auto simp: maintains_def metadata_def read_file_def fs_read_dir_def sync_all_def open_dir_def
    fs_do_def answer_def sreturn_def split: option.splits fs_node.splits prod.splits)

text \<open>\<open>create_dir_all\<close> makes a directory only when its parent is one, as it goes from the top.\<close>

lemma make_dir_below:
  assumes "tree_shaped fs" "node_at fs (parent p) = Some SubDir" "p \<noteq> []" "make_dir p fs = (r, fs')"
  shows "tree_shaped fs' \<and> (is_ok r \<longrightarrow> node_at fs' p = Some SubDir)"
  using assms tree_shaped_set [OF assms(1,3,2), of SubDir]
  by (auto simp: make_dir_def fs_do_def answer_def split: option.splits fs_node.splits)

lemma make_dirs_below:
  "tree_shaped fs \<Longrightarrow> node_at fs (take (k - 1) p) = Some SubDir \<Longrightarrow> 1 \<le> k \<Longrightarrow> k + n = Suc (length p) \<Longrightarrow>
     tree_shaped (snd (sfor (map (\<lambda>i. take i p) [k..<k + n]) make_dir fs))"
proof (induction n arbitrary: k fs)
  case (Suc n)
  obtain r fs1 where m: "make_dir (take k p) fs = (r, fs1)" by fastforce
  have "parent (take k p) = take (k - 1) p" "take k p \<noteq> []"
    using Suc.prems by (auto simp: parent_def butlast_take)
  with make_dir_below [OF Suc.prems(1) _ _ m] Suc.prems(2)
  have fs1: "tree_shaped fs1" "is_ok r \<Longrightarrow> node_at fs1 (take k p) = Some SubDir" by auto
  have "[k..<k + Suc n] = k # [Suc k..<Suc k + n]" by (simp add: upt_conv_Cons)
  with m fs1 Suc.prems Suc.IH [of fs1 "Suc k"] show ?case by (cases r) (simp_all add: sbind_def del: upt_Suc)
qed simp

lemma create_dir_all_tree_shaped [maintain_intros]: "maintains tree_shaped (create_dir_all p)"
  unfolding maintains_def create_dir_all_def
  using make_dirs_below [of _ 1 p "length p"] by (simp del: upt_Suc)

section \<open>The artifacts\<close>

lemma inject_files_tree_shaped: "maintains tree_shaped (inject_files data pid mnt)"
proof -
  have "maintains tree_shaped (sbind (write_and_sync_config mnt data) (\<lambda>_. write_and_sync_provider_id mnt pid))"
    unfolding write_and_sync_config_def write_and_sync_provider_id_def Let_def by (intro maintain_intros)
  then show ?thesis
    unfolding inject_files_def [abs_def]
    by (rule maintains_match) (auto intro!: maintains_result maintains_result_after maintains_signore calls_tree_shaped)
qed

lemma remove_quietly_tree_shaped: "tree_shaped fs \<Longrightarrow> tree_shaped (remove_quietly ps fs)"
  unfolding remove_quietly_def
  by (induction ps arbitrary: fs) (auto intro: maintains_signore calls_tree_shaped)

lemma path_tests_tree_shaped:
  "maintains tree_shaped (path_is_file p)" "maintains tree_shaped (path_is_dir p)"
  by (auto simp: maintains_def path_is_file_def path_is_dir_def metadata_def fs_do_def answer_def
      split: option.splits fs_node.splits)

lemma sync_dirs_tree_shaped [maintain_intros]: "maintains tree_shaped (sync_dirs dirs)"
proof -
  have eq: "sync_dirs dirs = sfor dirs (\<lambda>dir fs. case path_is_dir dir fs of (b, fs) \<Rightarrow>
      (if b then smap_err (at_step ''flushing the ESP directories'') (sbind (open_dir dir) (\<lambda>_. sync_all))
       else (\<lambda>fs. (Inr (), fs))) fs)"
    unfolding sync_dirs_def by (intro arg_cong [of _ _ "sfor dirs"] ext) (simp split: prod.splits bool.splits)
  have step: "maintains tree_shaped (if b then smap_err (at_step ''flushing the ESP directories'')
      (sbind (open_dir dir) (\<lambda>_. sync_all)) else (\<lambda>fs. (Inr (), fs)))" for b dir
    by (cases b) (simp_all, intro maintain_intros, rule maintains_result)
  show ?thesis unfolding eq by (rule maintains_sfor, rule maintains_then [OF path_tests_tree_shaped(2) step])
qed

lemma dir_child_tree_shaped [maintain_intros]: "maintains tree_shaped (dir_child dir name)"
  by (auto simp: maintains_def dir_child_def split: prod.splits sum.splits option.splits
      dest: maintainsD [OF calls_tree_shaped(8)])

lemma resolve_from_tree_shaped: "maintains tree_shaped (resolve_from parts path uefi)"
proof (induction parts arbitrary: path uefi)
  case (Cons part parts)
  show ?case unfolding maintains_def
  proof (intro allI impI)
    fix fs
    assume fs: "tree_shaped fs"
    obtain r fs1 where d: "dir_child path part fs = (r, fs1)" by fastforce
    from maintainsD [OF dir_child_tree_shaped fs d] Cons.IH
    show "tree_shaped (snd (resolve_from (part # parts) path uefi fs))"
      by (auto simp: d maintains_def split: sum.splits option.splits)
  qed
qed (simp add: maintains_def)

lemma resolve_file_tree_shaped: "maintains tree_shaped (resolve_file root parts)"
  by (auto simp: maintains_def resolve_file_def split: prod.splits sum.splits option.splits
      dest: maintainsD [OF resolve_from_tree_shaped] maintainsD [OF path_tests_tree_shaped(1)])

lemma is_ours_tree_shaped: "maintains tree_shaped (is_ours path)"
  unfolding is_ours_def by (intro maintain_intros)

lemma scan_scripts_tree_shaped [maintain_intros]: "maintains tree_shaped (scan_scripts mnt dirs ours img)"
proof (induction dirs arbitrary: ours img)
  case (Cons dir dirs)
  show ?case unfolding maintains_def
  proof (intro allI impI)
    fix fs
    assume fs: "tree_shaped fs"
    obtain r fs1 where r: "smap_err (at_step ''reading the ESP'') (resolve_file mnt (dir @ [STARTUP_NSH_FILENAME])) fs = (r, fs1)"
      by fastforce
    have fs1: "tree_shaped fs1" by (rule maintainsD [OF maintains_smap_err [OF resolve_file_tree_shaped] fs r])
    have rest: "tree_shaped (snd (scan_scripts mnt dirs ours img fs))" if "tree_shaped fs" for ours img fs
      using Cons.IH that by (simp add: maintains_def)
    have ours: "tree_shaped fs2" if "smap_err (at_step ''reading the ESP'') (is_ours p) fs1 = (b, fs2)" for p b fs2
      by (rule maintainsD [OF maintains_smap_err [OF is_ours_tree_shaped] fs1 that])
    have ours': "tree_shaped fs2" if "is_ours p fs1 = (b, fs2)" for p b fs2
      by (rule maintainsD [OF is_ours_tree_shaped fs1 that])
    show "tree_shaped (snd (scan_scripts mnt (dir # dirs) ours img fs))"
      by (auto simp: r Let_def fs1 rest split: sum.splits option.splits prod.splits bool.splits dest: ours ours')
  qed
qed (simp add: maintains_def)

lemma remove_markers_tree_shaped [maintain_intros]: "maintains tree_shaped (remove_markers dir keep)"
proof -
  have "maintains tree_shaped (sbind (sfor names (\<lambda>name.
        if is_marker_name name \<and> Some (dir @ [name]) \<noteq> keep
        then smap_err (at_step ''removing an old marker'') (remove_file (dir @ [name])) else sreturn ()))
      (\<lambda>_. case err of Some e \<Rightarrow> sfail (at_step ''reading the ESP'' e) | None \<Rightarrow> sreturn ()))" for names err
    by (intro maintains_sbind maintains_sfor) (auto intro: maintain_intros split: option.splits)
  then show ?thesis
    by (auto simp: maintains_def remove_markers_def split: prod.splits sum.splits
        dest: maintainsD [OF calls_tree_shaped(8)])
qed

lemma place_pair_tree_shaped [maintain_intros]: "maintains tree_shaped (place_pair a marker ps)"
proof -
  have synced: "maintains tree_shaped (write_synced path contents)" for path contents
    unfolding write_synced_def by (intro maintain_intros)
  show ?thesis unfolding place_pair_def [abs_def]
    by (intro maintains_match maintains_sbind maintains_smap_err synced create_dir_all_tree_shaped calls_tree_shaped(5)
        maintains_result maintains_result_after remove_quietly_tree_shaped)
qed

lemma write_esp_files_tree_shaped: "maintains tree_shaped (write_esp_files a mnt marker)"
proof -
  have leave: "maintains tree_shaped (leave_image_script mnt ps ours i)" for ps ours i
    unfolding leave_image_script_def by (auto intro!: maintain_intros)
  have stale: "maintains tree_shaped (remove_stale mnt ps ours)" for ps ours
    unfolding remove_stale_def by (auto intro!: maintain_intros)
  show ?thesis unfolding write_esp_files_def Let_def
    by (auto intro!: maintain_intros leave stale split: option.splits)
qed

lemma esp_work_tree_shaped:
  "maintains tree_shaped (sbind (check_loader [] loader) (\<lambda>_. write_esp_fallback a show_io [] marker))"
proof (rule maintains_sbind)
  show "maintains tree_shaped (check_loader [] loader)"
    by (auto simp: maintains_def check_loader_def split: prod.splits sum.splits fs_node.splits
        dest: maintainsD [OF calls_tree_shaped(6)])
  show "maintains tree_shaped (write_esp_fallback a show_io [] marker)" for u :: unit
    using maintains_then [OF write_esp_files_tree_shaped maintains_result(1)]
    by (simp add: write_esp_fallback_def [abs_def])
qed

section \<open>The kernel\<close>

definition kernel_wf :: "kernel \<Rightarrow> bool" where
  "kernel_wf k \<longleftrightarrow> distinct (map fst (k_nodes k)) \<and> distinct (k_dirs k) \<and>
     list_all (\<lambda>me. me_mountpoint me \<in> set (k_dirs k)) (k_mounts k) \<and> (\<forall>d. tree_shaped (k_parts k d))"

lemma kernel_wf_calls [simp]: "kernel_wf (k\<lparr>k_calls := n\<rparr>) = kernel_wf k"
  by (simp add: kernel_wf_def)

lemma maintains_sys_do: "maintains kernel_wf act \<Longrightarrow> maintains kernel_wf (sys_do op act)"
  by (auto simp: maintains_def sys_do_def Let_def split: option.splits)

lemma map_of_None: "map_of es p = None \<longleftrightarrow> p \<notin> set (map fst es)"
  by (induction es) auto

lemma sys_calls_wf:
  "maintains kernel_wf (unlink_node path)" "maintains kernel_wf (mknod_block path devnum)"
  "maintains kernel_wf (make_mountpoint mnt)" "maintains kernel_wf (mount node mnt fstype flags data)"
  "maintains kernel_wf (umount2 op mnt)" "maintains kernel_wf (remove_dir mnt)"
proof -
  show "maintains kernel_wf (unlink_node path)"
    unfolding unlink_node_def
    by (rule maintains_sys_do) (auto simp: maintains_def kernel_wf_def distinct_map_filter)
  show "maintains kernel_wf (mknod_block path devnum)"
    unfolding mknod_block_def
    by (rule maintains_sys_do) (auto simp: maintains_def kernel_wf_def map_of_None)
  show "maintains kernel_wf (make_mountpoint mnt)"
    by (auto simp: maintains_def make_mountpoint_def sys_do_def Let_def kernel_wf_def list_all_iff split: option.splits)
  show "maintains kernel_wf (mount node mnt fstype flags data)"
    unfolding mount_def
    by (rule maintains_sys_do) (auto simp: maintains_def kernel_wf_def Let_def split: option.splits)
  show "maintains kernel_wf (umount2 op mnt)"
    unfolding umount2_def
    by (rule maintains_sys_do) (auto simp: maintains_def kernel_wf_def list_all_iff split: option.splits dest: notin_set_remove1)
  show "maintains kernel_wf (remove_dir mnt)"
    unfolding remove_dir_def mounted_on_def
    by (rule maintains_sys_do) (auto simp: maintains_def kernel_wf_def list_all_iff find_None_iff distinct_removeAll)
qed

lemma on_mount_wf: "maintains tree_shaped work \<Longrightarrow> maintains kernel_wf (on_mount mnt work absent)"
  by (auto simp: maintains_def on_mount_def kernel_wf_def split: option.splits prod.splits) (metis snd_conv)

lemma unmount_wf: "maintains kernel_wf (unmount spec)"
  unfolding unmount_def [abs_def]
  by (rule maintains_match [OF sys_calls_wf(5)])
    (rule maintains_result maintains_ignored [OF sys_calls_wf(5)])+

lemma with_private_mount_wf:
  assumes "maintains tree_shaped work"
  shows "maintains kernel_wf (with_private_mount makedev spec dev number work)"
proof -
  note ignored = maintains_ignored [OF sys_calls_wf(1)] maintains_ignored [OF sys_calls_wf(6)]
  have run: "maintains kernel_wf (mount_write_unmount spec node dev work)" for node
    unfolding mount_write_unmount_def [abs_def] Let_def
    by (rule maintains_match [OF sys_calls_wf(3) maintains_result(1)], rule maintains_match [OF sys_calls_wf(4) ignored(2)],
      rule maintains_then [OF on_mount_wf [OF assms]], rule maintains_then [OF unmount_wf], rule ignored(2))
  show ?thesis
  proof (cases "parse_dev_number makedev number")
    case (Some devnum)
    have "maintains kernel_wf (\<lambda>k. case mknod_block (pm_node spec) devnum (signore (unlink_node (pm_node spec)) k) of
          (Inl e, k) \<Rightarrow> (Inl (MakeNode (pm_part spec) dev e), k)
        | (Inr _, k) \<Rightarrow> (case mount_write_unmount spec (pm_node spec) dev work k of
            (result, k) \<Rightarrow> (result, signore (unlink_node (pm_node spec)) k)))"
      by (rule maintains_match [OF maintains_after [OF sys_calls_wf(2)] maintains_result(1)])
        (rule maintains_signore [OF sys_calls_wf(1)], assumption, rule maintains_then [OF run ignored(1)])
    with Some show ?thesis by (simp add: with_private_mount_def [abs_def])
  qed (simp add: with_private_mount_def [abs_def] maintains_result)
qed

section \<open>The UEFI variables\<close>

definition vars_wf :: "efivar_fs \<Rightarrow> bool" where
  "vars_wf v \<longleftrightarrow> distinct (map fst (ev_files v))"

lemma put_file_names: "map fst (put_file path raw files) =
    (if path \<in> set (map fst files) then map fst files else map fst files @ [path])"
proof -
  have "map fst (map (\<lambda>(p, r). if p = path then (p, raw) else (p, r)) files) = map fst files"
    by (induction files) auto
  then show ?thesis by (simp add: put_file_def)
qed

lemma efivar_write_wf: "vars_wf v \<Longrightarrow> vars_wf (snd (efivar_write v name val))"
  by (auto simp: efivar_write_def open_for_write_def clear_immutable_def vars_wf_def Let_def put_file_names
      split: sum.splits option.splits if_splits prod.splits)

lemma boot_entry_wf: "maintains vars_wf (ensure_disk_boot_entry ans a esp)"
proof -
  have entry: "maintains vars_wf (write_entry efivarfs a gpt n out)" for gpt n out
    using efivar_write_wf by (auto simp: maintains_def write_entry_def efivarfs_def Let_def split: outcome.splits prod.splits)
      (metis snd_conv)+
  have order: "maintains vars_wf (write_order efivarfs previous ns)" for previous ns
    using efivar_write_wf by (auto simp: maintains_def write_order_def efivarfs_def split: prod.splits) (metis snd_conv)
  have ensure: "maintains vars_wf (ensure_in efivarfs a gpt)" for gpt
    by (auto simp: maintains_def ensure_in_def Let_def split: sum.splits prod.splits
        dest: maintainsD [OF entry] maintainsD [OF order])
  show ?thesis
    by (cases "mount_efivarfs ans") (simp_all add: ensure_disk_boot_entry_def [abs_def] maintains_result ensure)
qed

section \<open>The machine\<close>

definition machine_wf :: "'cert machine \<Rightarrow> bool" where
  "machine_wf m \<longleftrightarrow> kernel_wf (m_kernel m) \<and> vars_wf (m_vars m)"

text \<open>The file systems the kernel finds on re-read partitions are trees.\<close>

definition finds_trees :: "('r, 'h, 'cert) outside \<Rightarrow> bool" where
  "finds_trees x \<longleftrightarrow> (\<forall>ds d. tree_shaped (x_filesystems x ds d))"

lemma on_kernel_wf: "maintains kernel_wf f \<Longrightarrow> maintains machine_wf (on_kernel f)"
  by (simp add: maintains_def on_kernel_def machine_wf_def case_prod_beta)

lemma machine_wf_log: "\<exists>new z. m' = m\<lparr>m_log := m_log m @ new, m_slept := z\<rparr> \<Longrightarrow> machine_wf m' = machine_wf m"
  by (auto simp: machine_wf_def)

lemmas client_calls_wf = client_calls [THEN machine_wf_log]

lemma prepare_esp_wf: "maintains kernel_wf (prepare_esp a show_io makedev urandom esp)"
  unfolding prepare_esp_def [abs_def]
  by (cases "new_marker urandom"; simp add: maintains_result)
    (rule maintains_then [OF with_private_mount_wf [OF esp_work_tree_shaped] maintains_result(1)])

lemma machine_ops_wf:
  assumes "finds_trees x"
  shows "kept_by_host (machine_host x) machine_wf"
proof
  show "maintains machine_wf (h_reread (machine_host x) t)" for t
    using assms by (auto simp: machine_host_def maintains_def m_reread_def machine_wf_def kernel_wf_def finds_trees_def
        split: sum.splits)
  show "maintains machine_wf (h_prepare_esp (machine_host x) esp)" for esp
    by (simp add: machine_host_def m_prepare_esp_def on_kernel_wf prepare_esp_wf)
  show "maintains machine_wf (h_inject (machine_host x) oem data pid)" for oem data pid
    by (simp add: machine_host_def m_inject_def inject_oem_config_def on_kernel_wf with_private_mount_wf
        inject_files_tree_shaped)
  show "maintains machine_wf (h_boot_entry (machine_host x) esp)" for esp
    using boot_entry_wf by (auto simp: machine_host_def maintains_def m_boot_entry_def machine_wf_def split: prod.splits)
      (metis snd_conv)
qed (auto simp: machine_host_def maintains_def machine_wf_def m_mount_def m_network_def m_probe_def m_find_esp_def
    m_other_disks_def m_load_drivers_def m_write_image_def sfor_unchanged client_calls_wf [unfolded machine_wf_def]
    split: sum.splits prod.splits option.splits)

interpretation machine_types: kept_by_host "machine_host x" "\<lambda>m. finds_trees x \<longrightarrow> machine_wf m" for x
proof (cases "finds_trees x")
  case True
  then show "kept_by_host (machine_host x) (\<lambda>m. finds_trees x \<longrightarrow> machine_wf m)"
    using machine_ops_wf [OF True] by simp
next
  case False
  then show "kept_by_host (machine_host x) (\<lambda>m. finds_trees x \<longrightarrow> machine_wf m)"
    by unfold_locales (simp_all add: maintains_def)
qed

section \<open>The run\<close>

text \<open>
  A run keeps the machine well-formed, whatever fails in it, even when it ends in the middle
  of a deploy: on every partition the names are distinct and the parent of whatever exists is a
  directory, so the injection and the ESP steps never leave an orphan; the nodes under \<open>/run\<close> and
  the UEFI variables have one entry each; and a mount table entry is always on a mountpoint that
  exists. The partitions the kernel finds after the re-read have to be trees themselves.
\<close>

theorem run_well_formed:
  assumes "finds_trees x" "machine_wf m"
  shows "case run (machine_host x) dry_run m of (r, m') \<Rightarrow> machine_wf m'"
  using machine_types.run_maintains [of x dry_run] assms by (simp add: maintains_def case_prod_beta)

end
