(* ===== verification/Twin_Machines.thy ===== *)
theory Twin_Machines
  imports Machine
begin

text \<open>
  Two machines in the same surroundings whose controllers answer differently, or whose command
  lines differ in the token: what carries over from the differences allowed in the requests and
  the answers to whole runs (locale \<open>twin_machines\<close>).
\<close>

section \<open>States beside each other\<close>

text \<open>Equal but for the log of exchanges, related by \<open>L\<close>, and the kernel, related by \<open>K\<close>.\<close>

definition same_but :: "('cert exchange list \<Rightarrow> 'cert exchange list \<Rightarrow> bool) \<Rightarrow> (kernel \<Rightarrow> kernel \<Rightarrow> bool) \<Rightarrow>
    'cert machine \<Rightarrow> 'cert machine \<Rightarrow> bool" where
  "same_but L K m' m \<longleftrightarrow> m' = m\<lparr>m_kernel := m_kernel m', m_log := m_log m'\<rparr> \<and> L (m_log m') (m_log m) \<and>
     K (m_kernel m') (m_kernel m)"

lemma same_butE:
  assumes "same_but L K m' m"
  obtains k log where "m' = m\<lparr>m_kernel := k, m_log := log\<rparr>" "L log (m_log m)" "K k (m_kernel m)"
  using assms unfolding same_but_def by blast

lemma same_but_update [simp]:
  "same_but L K (m\<lparr>m_kernel := k, m_log := log\<rparr>) m \<longleftrightarrow> L log (m_log m) \<and> K k (m_kernel m)"
  by (cases m) (simp add: same_but_def)

lemma same_but_weaken: "same_but L (=) m' m \<Longrightarrow> (\<And>k. K k k) \<Longrightarrow> same_but L K m' m"
  by (cases m; cases m') (simp add: same_but_def)

text \<open>Operations that leave the log alone.\<close>

lemma unlogged:
  assumes "\<And>m log. f (m\<lparr>m_log := log\<rparr>) = (fst (f m), (snd (f m))\<lparr>m_log := log\<rparr>)" "\<And>m. m_log (snd (f m)) = m_log m"
  shows "related (same_but L (=)) (=) f f"
proof (rule relatedI)
  fix m' m :: "'a machine"
  assume "same_but L (=) m' m"
  then obtain log where l: "m' = m\<lparr>m_log := log\<rparr>" "L log (m_log m)" by (auto elim: same_butE)
  have "same_but L (=) (s\<lparr>m_log := log\<rparr>) s" if "L log (m_log s)" for s :: "'a machine"
    using that by (cases s) (simp add: same_but_def)
  with l assms(2) [of m] show "fst (f m') = fst (f m) \<and> same_but L (=) (snd (f m')) (snd (f m))"
    by (simp add: assms(1))
qed

lemma on_kernel_unlogged: "related (same_but L (=)) (=) (on_kernel f) (on_kernel f)"
  by (rule unlogged) (simp_all add: on_kernel_def split: prod.splits)

lemma on_kernel_takes:
  assumes "takes (=) K (=) f' f"
  shows "takes (same_but L (=)) (same_but L K) (=) (on_kernel f') (on_kernel f)"
  using assms by (auto simp: takes_def on_kernel_def case_prod_beta elim!: same_butE) (simp add: same_but_def)

lemma ops_unlogged:
  "related (same_but L (=)) (=) (m_mount x src target fstype flags) (m_mount x src target fstype flags)"
  "related (same_but L (=)) (=) (m_network x p) (m_network x p)"
  "related (same_but L (=)) (=) (m_probe x) (m_probe x)"
  "related (same_but L (=)) (=) (m_write_image x t url dig cap) (m_write_image x t url dig cap)"
  "related (same_but L (=)) (=) (m_reread x t) (m_reread x t)"
  "related (same_but L (=)) (=) (m_find_esp x t) (m_find_esp x t)"
  "related (same_but L (=)) (=) (m_other_disks x t guid) (m_other_disks x t guid)"
  "related (same_but L (=)) (=) (m_boot_entry x esp) (m_boot_entry x esp)"
  by (rule unlogged; simp add: m_mount_def m_network_def m_probe_def m_write_image_def m_reread_def m_find_esp_def
      m_other_disks_def m_boot_entry_def split: prod.splits sum.splits option.splits)+

text \<open>Operations that only look, and the commands.\<close>

lemma looks_unlogged:
  "related (same_but L (=)) (=) (\<lambda>m. (select_on x (m_tree m) pin n, m)) (\<lambda>m. (select_on x (m_tree m) pin n, m))"
  "related (same_but L (=)) (=) (\<lambda>m. (path_exists (m_tree m) path, m)) (\<lambda>m. (path_exists (m_tree m) path, m))"
  "related (same_but L (=)) (=) (\<lambda>m. (find_oem_on x (m_disks m) (m_tree m) t, m)) (\<lambda>m. (find_oem_on x (m_disks m) (m_tree m) t, m))"
  by (rule unlogged; simp)+

lemma resolv_unlogged:
  "related (same_but L K) (=) (sfor ws (\<lambda>w m. (x_etc x w, m))) (sfor ws (\<lambda>w m. (x_etc x w, m)))"
  by (rule related_sfor) (rule related_result)

lemma cmds_unlogged:
  "related_cmd (same_but L K) (\<lambda>m. m) (\<lambda>m. m)"
  "related_cmd (same_but L K) (\<lambda>m. m\<lparr>m_slept := m_slept m + ms\<rparr>) (\<lambda>m. m\<lparr>m_slept := m_slept m + ms\<rparr>)"
  "related_cmd (same_but L K) (\<lambda>m. m\<lparr>m_console := m_console m @ [l]\<rparr>) (\<lambda>m. m\<lparr>m_console := m_console m @ [l]\<rparr>)"
  "related_cmd (same_but L K) (m_load_drivers x b) (m_load_drivers x b)"
  "related (same_but L K) (=) (\<lambda>m. (reboot_now e, m\<lparr>m_reboots := Suc (m_reboots m)\<rparr>)) (\<lambda>m. (reboot_now e, m\<lparr>m_reboots := Suc (m_reboots m)\<rparr>))"
  by (auto simp: related_cmd_def related_def m_load_drivers_def elim!: same_butE) (simp_all add: same_but_def)

section \<open>The calls of the client\<close>

lemma retry_loop_related:
  assumes "\<And>n. related R (rel_attempt A) (a' n) (a n)" "R s' s"
  shows "case retry_loop n k e a' s' of (r', t', w') \<Rightarrow> case retry_loop n k e a s of (r, t, w) \<Rightarrow>
    rel_sum (=) A r' r \<and> R t' t \<and> w' = w"
  using assms(2)
proof (induction k arbitrary: n e s' s)
  case (Suc k)
  obtain v' t' v t where o: "a' n s' = (v', t')" "a n s = (v, t)" by fastforce
  with relatedD [OF assms(1) Suc.prems, of n] have v: "rel_attempt A v' v" "R t' t" by simp_all
  show ?case
  proof (cases v)
    case (Retry err)
    with v(1) have "v' = Retry err" by (cases v') simp_all
    with Retry Suc.IH [OF v(2), of "n + 1" "Some err"] show ?thesis by (auto simp: o split: prod.splits)
  qed (use v in \<open>cases v'; simp add: o\<close>)+
qed simp

lemma slept_related:
  assumes "\<And>n. related (same_but L K) (rel_attempt A) (a' n) (a n)"
  shows "related (same_but L K) (rel_sum (=) A) (slept (run_with_retries k a')) (slept (run_with_retries k a))"
proof (rule relatedI)
  fix m' m
  assume m: "same_but L K m' m"
  obtain r' t' w' r t w where o: "retry_loop 0 k None a' m' = (r', t', w')" "retry_loop 0 k None a m = (r, t, w)"
    by (metis prod.exhaust)
  from retry_loop_related [where a' = a' and a = a and R = "same_but L K" and n = 0 and k = k and e = None, OF assms m]
  have e: "rel_sum (=) A r' r" "same_but L K t' t" "w' = w" by (simp_all add: o)
  have "same_but L K (t'\<lparr>m_slept := m_slept t' + z\<rparr>) (t\<lparr>m_slept := m_slept t + z\<rparr>)" for z
    using e(2) by (auto elim!: same_butE) (simp add: same_but_def)
  with e show "rel_sum (=) A (fst (slept (run_with_retries k a') m')) (fst (slept (run_with_retries k a) m)) \<and>
      same_but L K (snd (slept (run_with_retries k a') m')) (snd (slept (run_with_retries k a) m))"
    by (simp add: slept_def run_with_retries_def o)
qed

section \<open>Parameters and clients\<close>

text \<open>Equal but for the token, where \<open>T\<close> says which tokens may stand for each other.\<close>

definition same_but_token :: "(secret \<Rightarrow> secret \<Rightarrow> bool) \<Rightarrow> boot_params \<Rightarrow> boot_params \<Rightarrow> bool" where
  "same_but_token T p' p \<longleftrightarrow> T (bp_token p') (bp_token p) \<and> p'\<lparr>bp_token := bp_token p\<rparr> = p"

definition same_client :: "(secret \<Rightarrow> secret \<Rightarrow> bool) \<Rightarrow> 'cert client \<Rightarrow> 'cert client \<Rightarrow> bool" where
  "same_client T c' c \<longleftrightarrow> T (cl_token c') (cl_token c) \<and> c'\<lparr>cl_token := cl_token c\<rparr> = c"

lemma same_clientD: "same_client T c' c \<Longrightarrow> cl_roots c' = cl_roots c \<and> cl_inspection_url c' = cl_inspection_url c \<and>
    cl_bootstrap_url c' = cl_bootstrap_url c \<and> cl_provisioned_url c' = cl_provisioned_url c \<and>
    cl_provision_failed_url c' = cl_provision_failed_url c"
  by (cases c; cases c') (simp add: same_client_def)

lemma same_paramsD: "same_but_token T p' p \<Longrightarrow> bp_bootif p' = bp_bootif p \<and> bp_disk p' = bp_disk p \<and>
    bp_timeout p' = bp_timeout p \<and> bp_target p' = bp_target p \<and> bp_target_digest p' = bp_target_digest p \<and>
    bp_provider_id p' = bp_provider_id p \<and> bp_ip p' = bp_ip p \<and> bp_api p' = bp_api p \<and> bp_host p' = bp_host p \<and>
    bp_namespace p' = bp_namespace p \<and> bp_ca p' = bp_ca p \<and> T (bp_token p') (bp_token p)"
  by (cases p; cases p') (simp add: same_but_token_def)

lemma rel_same_but_token:
  assumes "rel_sum (=) (same_but_token T) r' r"
  obtains t where "r' = map_sum id (\<lambda>p. p\<lparr>bp_token := t\<rparr>) r"
proof (cases r)
  case (Inl e)
  with assms that show ?thesis by (cases r') simp_all
next
  case (Inr p)
  with assms obtain p' where p': "r' = Inr p'" "same_but_token T p' p" by (cases r') simp_all
  then have "p' = p\<lparr>bp_token := bp_token p'\<rparr>" by (cases p; cases p') (simp add: same_but_token_def)
  with p'(1) Inr show ?thesis by (intro that [of "bp_token p'"]) simp
qed

section \<open>Twin machines\<close>

text \<open>Another controller, and the command line read as \<open>ps\<close>.\<close>

lemma drivers_loaded_http: "drivers_loaded (x\<lparr>x_http := http\<rparr>) = drivers_loaded x"
  by (simp add: fun_eq_iff drivers_loaded_def Let_def split: option.splits prod.splits)

lemma with_drivers_http: "with_drivers (x\<lparr>x_http := http\<rparr>) = with_drivers x"
  by (simp add: fun_eq_iff with_drivers_def drivers_loaded_http)

lemma outside_http:
  "m_mount (x\<lparr>x_http := http\<rparr>) = m_mount x" "m_network (x\<lparr>x_http := http\<rparr>) = m_network x" "m_probe (x\<lparr>x_http := http\<rparr>) = m_probe x"
  "select_on (x\<lparr>x_http := http\<rparr>) = select_on x" "open_disk (x\<lparr>x_http := http\<rparr>) = open_disk x"
  "disk_reader (x\<lparr>x_http := http\<rparr>) = disk_reader x" "find_oem_on (x\<lparr>x_http := http\<rparr>) = find_oem_on x"
  "m_prepare_esp (x\<lparr>x_http := http\<rparr>) = m_prepare_esp x" "m_inject (x\<lparr>x_http := http\<rparr>) = m_inject x"
  "m_boot_entry (x\<lparr>x_http := http\<rparr>) = m_boot_entry x" "m_load_drivers (x\<lparr>x_http := http\<rparr>) = m_load_drivers x"
  by (simp_all add: fun_eq_iff m_mount_def m_network_def m_probe_def select_on_def open_disk_def disk_reader_def
      find_oem_on_def m_prepare_esp_def m_inject_def m_boot_entry_def m_load_drivers_def with_drivers_http drivers_loaded_http)

lemma outside_http_disks:
  "m_write_image (x\<lparr>x_http := http\<rparr>) = m_write_image x" "m_reread (x\<lparr>x_http := http\<rparr>) = m_reread x"
  "m_find_esp (x\<lparr>x_http := http\<rparr>) = m_find_esp x" "m_other_disks (x\<lparr>x_http := http\<rparr>) = m_other_disks x"
  by (intro ext; simp add: m_write_image_def m_reread_def m_find_esp_def m_other_disks_def outside_http split: sum.splits)+

text \<open>
  \<open>T\<close> are the tokens that may differ, \<open>same_rq\<close> the requests that count as the same, \<open>Q\<close> the answers, \<open>data\<close> the bootstrap data
  of such answers, and \<open>K\<close> what may be left of their difference after the injection.
\<close>

locale twin_machines =
  fixes x :: "('r, 'h, 'cert) outside"
    and http :: "nat \<Rightarrow> 'cert list \<Rightarrow> request \<Rightarrow> ureq_error + response"
    and ps :: "cmdline_error + boot_params"
    and T :: "secret \<Rightarrow> secret \<Rightarrow> bool"
    and L :: "'cert exchange list \<Rightarrow> 'cert exchange list \<Rightarrow> bool"
    and K :: "kernel \<Rightarrow> kernel \<Rightarrow> bool"
    and same_rq :: "request \<Rightarrow> request \<Rightarrow> bool"
    and Q :: "ureq_error + response \<Rightarrow> ureq_error + response \<Rightarrow> bool"
    and data :: "bytes \<Rightarrow> bytes \<Rightarrow> bool"
  assumes lines: "rel_sum (=) (same_but_token T) ps (from_proc_cmdline (x_cmdline x))"
    and requests: "same_client T (c' :: 'cert client) c \<Longrightarrow> same_rq (post_json c' url body) (post_json c url body)"
      "same_client T (c' :: 'cert client) c \<Longrightarrow> same_rq (get_bootstrap c') (get_bootstrap c)"
    and answers: "L l' l \<Longrightarrow> same_rq rq' rq \<Longrightarrow> Q (http (length l') roots rq') (x_http x (length l) roots rq) \<and>
      L (l' @ [(roots, rq', http (length l') roots rq')]) (l @ [(roots, rq, x_http x (length l) roots rq)])"
    and accepted: "Q a' a \<Longrightarrow> accept_attempt a' = accept_attempt a"
    and received: "Q a' a \<Longrightarrow> rel_attempt data (bootstrap_attempt a') (bootstrap_attempt a)"
    and kernels: "K k k"
    and injected: "data d' d \<Longrightarrow>
      takes (=) K (=) (inject_oem_config (x_makedev x) oem d' pid) (inject_oem_config (x_makedev x) oem d pid)"
begin

abbreviation (input) twin :: "('r, 'h, 'cert) outside" where "twin \<equiv> x\<lparr>x_http := http\<rparr>"

lemma exchanged:
  assumes "same_client T c' c" "same_rq rq' rq" "\<And>a' a. Q a' a \<Longrightarrow> rel_attempt A (verdict a') (verdict a)"
  shows "related (same_but L K') (rel_attempt A) (attempts (exchange twin) c' rq' verdict n)
    (attempts (exchange x) c rq verdict n)"
proof (rule relatedI)
  fix m' m :: "'cert machine"
  assume "same_but L K' m' m"
  then obtain k log where m: "m' = m\<lparr>m_kernel := k, m_log := log\<rparr>" "L log (m_log m)" "K' k (m_kernel m)" by (rule same_butE)
  have "cl_roots c' = cl_roots c" using same_clientD [OF assms(1)] by simp
  with m answers [OF m(2) assms(2), of "cl_roots c"] assms(3)
  show "rel_attempt A (fst (attempts (exchange twin) c' rq' verdict n m')) (fst (attempts (exchange x) c rq verdict n m)) \<and>
      same_but L K' (snd (attempts (exchange twin) c' rq' verdict n m')) (snd (attempts (exchange x) c rq verdict n m))"
    by (cases m) (simp add: attempts_def exchange_def Let_def same_but_def)
qed

lemma accepting:
  assumes "same_client T c' c" "same_rq rq' rq"
  shows "related (same_but L K') (=) (slept (run_with_retries k (attempts (exchange twin) c' rq' accept_attempt)))
    (slept (run_with_retries k (attempts (exchange x) c rq accept_attempt)))"
proof -
  have "related (same_but L K') (rel_attempt (=)) (attempts (exchange twin) c' rq' accept_attempt n)
      (attempts (exchange x) c rq accept_attempt n)" for n
    by (rule exchanged [OF assms]) (simp add: accepted attempt.rel_eq)
  from slept_related [where k = k, OF this] show ?thesis by (simp add: sum.rel_eq)
qed

lemma client_calls_related:
  assumes "same_client T c' c"
  shows "related (same_but L K') (=) (slept (submit_report (exchange twin) tj c' report)) (slept (submit_report (exchange x) tj c report))"
    "related (same_but L K') (=) (slept (provisioned (exchange twin) c')) (slept (provisioned (exchange x) c))"
    "related (same_but L K') (=) (slept (provision_failed (exchange twin) rj c' why)) (slept (provision_failed (exchange x) rj c why))"
    "related (same_but L K') (rel_sum (=) data) (slept (fetch_bootstrap (exchange twin) c')) (slept (fetch_bootstrap (exchange x) c))"
proof -
  note c = same_clientD [OF assms]
  note post = accepting [OF assms requests(1) [OF assms]]
  have failure: "related R (=) (slept (\<lambda>m. (r, m, []))) (slept (\<lambda>m. (r, m, [])))" for r :: "client_error + unit" and R
    by (simp add: related_def slept_failure)
  show "related (same_but L K') (=) (slept (submit_report (exchange twin) tj c' report)) (slept (submit_report (exchange x) tj c report))"
    using c by (cases "tj report") (simp_all add: submit_report_def [abs_def] failure post)
  show "related (same_but L K') (=) (slept (provisioned (exchange twin) c')) (slept (provisioned (exchange x) c))"
    using c by (simp add: provisioned_def [abs_def] post)
  show "related (same_but L K') (=) (slept (provision_failed (exchange twin) rj c' why)) (slept (provision_failed (exchange x) rj c why))"
    using c by (cases "rj why") (simp_all add: provision_failed_def [abs_def] failure post)
  show "related (same_but L K') (rel_sum (=) data) (slept (fetch_bootstrap (exchange twin) c')) (slept (fetch_bootstrap (exchange x) c))"
    unfolding fetch_bootstrap_def [abs_def]
    by (rule slept_related, rule exchanged [OF assms requests(2) [OF assms] received])
qed

end

sublocale twin_machines \<subseteq> related_hosts "(machine_host (x\<lparr>x_http := http\<rparr>))\<lparr>h_cmdline := \<lambda>m. (ps, m)\<rparr>" "machine_host x"
  "same_but L (=)" "same_but L K" "same_but_token T" "same_client T" data
proof
  fix p' p
  assume "same_but_token T p' p"
  note p = same_paramsD [OF this]
  show "bp_bootif p' = bp_bootif p \<and> bp_disk p' = bp_disk p \<and> bp_timeout p' = bp_timeout p \<and>
      bp_target p' = bp_target p \<and> bp_target_digest p' = bp_target_digest p \<and> bp_provider_id p' = bp_provider_id p"
    using p by simp
  show "rel_sum (=) (same_client T) (h_client ((machine_host (x\<lparr>x_http := http\<rparr>))\<lparr>h_cmdline := \<lambda>m. (ps, m)\<rparr>) p') (h_client (machine_host x) p)"
    using p by (cases "tls_config (x_base64 x) (x_pem x) (x_trustable x) (bp_ca p)")
      (simp_all add: machine_host_def client_new_def same_client_def)
  show "related (same_but L (=)) (=) (h_network ((machine_host (x\<lparr>x_http := http\<rparr>))\<lparr>h_cmdline := \<lambda>m. (ps, m)\<rparr>) p') (h_network (machine_host x) p)"
    using p ops_unlogged(2) [of L x p] by (simp add: machine_host_def outside_http m_network_def [abs_def])
next
  show "related (same_but L (=)) (rel_sum (=) (same_but_token T)) (h_cmdline ((machine_host (x\<lparr>x_http := http\<rparr>))\<lparr>h_cmdline := \<lambda>m. (ps, m)\<rparr>)) (h_cmdline (machine_host x))"
    using lines by (simp add: related_def machine_host_def)
next
  show "same_but L K m' m" if "same_but L (=) m' m" for m' m using that kernels
    by (rule same_but_weaken)
next
  show "takes (same_but L (=)) (same_but L K) (=) (h_inject ((machine_host (x\<lparr>x_http := http\<rparr>))\<lparr>h_cmdline := \<lambda>m. (ps, m)\<rparr>) oem d' pid)
      (h_inject (machine_host x) oem d pid)" if "data d' d" for d' d oem pid
    using on_kernel_takes [OF injected [OF that]] by (simp add: machine_host_def outside_http m_inject_def [abs_def])
qed (simp_all add: machine_host_def outside_http outside_http_disks ops_unlogged on_kernel_unlogged client_calls_related m_prepare_esp_def
    looks_unlogged resolv_unlogged cmds_unlogged)

context twin_machines
begin

lemma twins:
  assumes "L (m_log m) (m_log m)"
  shows "fst (run ((machine_host (x\<lparr>x_http := http\<rparr>))\<lparr>h_cmdline := \<lambda>m. (ps, m)\<rparr>) dry m) = fst (run (machine_host x) dry m) \<and>
    same_but L K (snd (run ((machine_host (x\<lparr>x_http := http\<rparr>))\<lparr>h_cmdline := \<lambda>m. (ps, m)\<rparr>) dry m))
      (snd (run (machine_host x) dry m))"
proof -
  have "same_but L (=) m m" using assms by (simp add: same_but_def)
  with run show ?thesis by (rule takesD)
qed

end

end
