(* ===== verification/Secrecy.thy ===== *)
theory Secrecy
  imports Twin_Machines
begin

text \<open>
  Where the bearer token goes: two runs whose command lines differ in the token are compared, as
  twin machines. They differ in the \<open>Authorization\<close> header of their requests and in nothing
  else.
\<close>

section \<open>Without the token\<close>

definition without_auth :: "request \<Rightarrow> request" where
  "without_auth rq = rq\<lparr>rq_headers := filter (\<lambda>(name, _). name \<noteq> ''Authorization'') (rq_headers rq)\<rparr>"

definition blind_log :: "'cert exchange list \<Rightarrow> 'cert exchange list" where
  "blind_log log = map (\<lambda>(roots, rq, res). (roots, without_auth rq, res)) log"

text \<open>The controller's answers do not depend on the token.\<close>

definition token_blind :: "('r, 'h, 'cert) outside \<Rightarrow> bool" where
  "token_blind x \<longleftrightarrow> (\<forall>n roots rq. x_http x n roots rq = x_http x n roots (without_auth rq))"

lemma blind_log_length: "blind_log log' = blind_log log \<Longrightarrow> length log' = length log"
  unfolding blind_log_def by (metis length_map)

lemma blind_log_snoc: "blind_log (log @ [(roots, rq, res)]) = blind_log log @ [(roots, without_auth rq, res)]"
  by (simp add: blind_log_def)

section \<open>Command lines with another token\<close>

text \<open>The states of the parser, but for the token.\<close>

definition same_parse :: "parse_state \<Rightarrow> parse_state \<Rightarrow> bool" where
  "same_parse st' st \<longleftrightarrow> st'\<lparr>p_token := p_token st\<rparr> = st"

lemma same_parseE:
  assumes "same_parse st' st" obtains w where "st' = st\<lparr>p_token := w\<rparr>"
  using assms by (cases st; cases st') (simp add: same_parse_def)

lemma same_parse_refl: "same_parse (st\<lparr>p_token := w\<rparr>) st" by (simp add: same_parse_def)

lemma set_key_same:
  assumes "same_parse st' st" "k \<noteq> ''beskar7.token''"
  shows "rel_sum (=) same_parse (set_key k v st') (set_key k v st)"
proof -
  from assms(1) obtain w where w: "st' = st\<lparr>p_token := w\<rparr>" by (rule same_parseE)
  have "set_key k v (st\<lparr>p_token := w\<rparr>) = map_sum id (\<lambda>s. s\<lparr>p_token := w\<rparr>) (set_key k v st)"
    using assms(2) unfolding set_key_def by (simp split: option.split) (simp add: rbind_def split: sum.split)
  then show ?thesis by (cases "set_key k v st") (simp_all add: w same_parse_refl)
qed

lemma set_param_same:
  assumes "same_parse st' st"
  shows "rel_sum (=) same_parse (set_param (retoken f p) st') (set_param p st)"
proof (cases "split_once (CHR ''='') p")
  case None
  with assms show ?thesis by (simp add: retoken_def set_param_def)
next
  case (Some kv)
  obtain k v where kv: "kv = (k, v)" by fastforce
  show ?thesis
  proof (cases "k = ''beskar7.token''")
    case True
    from assms obtain w where w: "st' = st\<lparr>p_token := w\<rparr>" by (rule same_parseE)
    have "split_once (CHR ''='') (retoken f p) = Some (''beskar7.token'', f v)"
      using split_once_app [of "CHR ''=''" "''beskar7.token''" "f v"] Some kv True by (simp add: retoken_def)
    then show ?thesis using Some kv True by (simp add: set_param_def set_key_def w same_parse_def)
  next
    case False
    with Some kv have "retoken f p = p" by (simp add: retoken_def)
    with Some kv show ?thesis using set_key_same [OF assms False] by (simp add: set_param_def)
  qed
qed

lemma set_params_same:
  "same_parse st' st \<Longrightarrow> rel_sum (=) same_parse (set_params (map (retoken f) ps) st') (set_params ps st)"
proof (induction ps arbitrary: st' st)
  case (Cons p ps)
  from set_param_same [OF Cons.prems, of f p] show ?case
    by cases (simp_all add: Cons.IH)
qed simp

lemma params_same:
  assumes "\<And>v. f v = [] \<longleftrightarrow> v = []" "split_ascii_whitespace cl' = map (retoken f) (split_ascii_whitespace cl)"
  shows "rel_sum (=) (same_but_token (\<lambda>_ _. True)) (params_parse cl') (params_parse cl)"
proof -
  let ?ps = "split_ascii_whitespace cl"
  have "same_parse init_state init_state" by (simp add: same_parse_def)
  from set_params_same [OF this, of f ?ps] show ?thesis
  proof cases
    case (1 e' e)
    then show ?thesis by (simp add: params_parse_def assms(2))
  next
    case (2 st' st)
    from 2(3) obtain w where w: "st' = st\<lparr>p_token := w\<rparr>" by (rule same_parseE)
    have "missing st' = missing st"
      by (simp add: missing_absent [OF 2(1)] missing_absent [OF 2(2)] absent_retoken [OF assms(1)])
    then show ?thesis by (simp add: params_parse_def assms(2) 2 same_but_token_def) (simp add: w)
  qed
qed

section \<open>The two hosts\<close>

lemma drivers_loaded_cmdline: "drivers_loaded (x\<lparr>x_cmdline := cl\<rparr>) = drivers_loaded x"
  by (simp add: fun_eq_iff drivers_loaded_def Let_def split: option.splits prod.splits)

lemma with_drivers_cmdline: "with_drivers (x\<lparr>x_cmdline := cl\<rparr>) = with_drivers x"
  by (simp add: fun_eq_iff with_drivers_def drivers_loaded_cmdline)

lemma outside_cmdline:
  "machine_host (x\<lparr>x_cmdline := cl\<rparr>) = (machine_host x)\<lparr>h_cmdline := (\<lambda>m. (from_proc_cmdline cl, m))\<rparr>"
proof -
  let ?y = "x\<lparr>x_cmdline := cl\<rparr>"
  have "m_mount ?y = m_mount x" "m_network ?y = m_network x" "m_probe ?y = m_probe x"
    "select_on ?y = select_on x" "open_disk ?y = open_disk x" "disk_reader ?y = disk_reader x" "find_oem_on ?y = find_oem_on x"
    "m_prepare_esp ?y = m_prepare_esp x" "m_inject ?y = m_inject x" "m_boot_entry ?y = m_boot_entry x" "exchange ?y = exchange x"
    by (simp_all add: fun_eq_iff m_mount_def m_network_def m_probe_def select_on_def open_disk_def
        disk_reader_def find_oem_on_def m_prepare_esp_def m_inject_def m_boot_entry_def exchange_def)
  moreover from this have "m_load_drivers ?y = m_load_drivers x" "m_write_image ?y = m_write_image x" "m_reread ?y = m_reread x"
    "m_find_esp ?y = m_find_esp x" "m_other_disks ?y = m_other_disks x"
    by - (intro ext; simp add: with_drivers_cmdline drivers_loaded_cmdline m_load_drivers_def m_write_image_def m_reread_def m_find_esp_def
        m_other_disks_def split: sum.splits)+
  ultimately show ?thesis by (simp add: machine_host_def)
qed

text \<open>A controller that does not see the header, and any token in the parameters.\<close>

definition blind_http :: "(nat \<Rightarrow> 'cert list \<Rightarrow> request \<Rightarrow> ureq_error + response) \<Rightarrow>
    nat \<Rightarrow> 'cert list \<Rightarrow> request \<Rightarrow> ureq_error + response" where
  "blind_http http n roots rq = http n roots (without_auth rq)"

lemma same_http: "x\<lparr>x_http := x_http x\<rparr> = x"
  by (cases x) simp

lemma token_blind_http: "token_blind x \<Longrightarrow> blind_http (x_http x) = x_http x"
  by (simp add: token_blind_def blind_http_def fun_eq_iff)

interpretation tokens: twin_machines "x\<lparr>x_http := blind_http http\<rparr>" "blind_http http"
  "map_sum id (\<lambda>p. p\<lparr>bp_token := t\<rparr>) (from_proc_cmdline (x_cmdline x))"
  "\<lambda>_ _. True" "\<lambda>l' l. blind_log l' = blind_log l" "(=)" "\<lambda>q' q. without_auth q' = without_auth q" "(=)" "(=)"
  for x :: "('c, 'd, 'e) outside" and http t
proof
  show "rel_sum (=) (same_but_token (\<lambda>_ _. True)) (map_sum id (\<lambda>p. p\<lparr>bp_token := t\<rparr>) (from_proc_cmdline (x_cmdline x)))
      (from_proc_cmdline (x_cmdline (x\<lparr>x_http := blind_http http\<rparr>)))"
    by (cases "from_proc_cmdline (x_cmdline x)") (simp_all add: same_but_token_def)
next
  fix c' c :: "'e client" and url body
  assume "same_client (\<lambda>_ _. True) c' c"
  from same_clientD [OF this] have "cl_bootstrap_url c' = cl_bootstrap_url c" by simp
  then show "without_auth (post_json c' url body) = without_auth (post_json c url body)"
      "without_auth (get_bootstrap c') = without_auth (get_bootstrap c)"
    by (simp_all add: without_auth_def post_json_def get_bootstrap_def)
next
  fix l' l :: "'e exchange list" and rq' rq roots
  assume l: "blind_log l' = blind_log l" "without_auth rq' = without_auth rq"
  from blind_log_length [OF l(1)] l show "blind_http http (length l') roots rq' = x_http (x\<lparr>x_http := blind_http http\<rparr>) (length l) roots rq \<and>
      blind_log (l' @ [(roots, rq', blind_http http (length l') roots rq')]) =
        blind_log (l @ [(roots, rq, x_http (x\<lparr>x_http := blind_http http\<rparr>) (length l) roots rq)])"
    by (simp add: blind_http_def blind_log_snoc)
qed (simp_all add: attempt.rel_eq related_def)

section \<open>The property\<close>

text \<open>
  C4: the bearer token reaches the controller in the \<open>Authorization\<close> header and nothing else.
  Take two boots whose command lines differ in the values of \<open>beskar7.token\<close> only (an empty one
  stays empty, and no other becomes empty), against a controller whose answers do not depend
  on that header. Both runs end in the same result, errors of the parser included. They leave
  the same machine: the same console lines, the same disks, partitions and boot variables,
  the same sleeps and reboots, and the same requests but for that header.
\<close>

theorem token_noninterference:
  fixes x :: "('r, 'h, 'cert) outside"
  assumes "token_blind x" "x_cmdline x = Inr cl" "\<And>v. f v = [] \<longleftrightarrow> v = []"
    and "split_ascii_whitespace cl' = map (retoken f) (split_ascii_whitespace cl)"
  shows "case run (machine_host (x\<lparr>x_cmdline := Inr cl'\<rparr>)) dry m of (r', m') \<Rightarrow>
    case run (machine_host x) dry m of (r, m1) \<Rightarrow> r' = r \<and> m' = m1\<lparr>m_log := m_log m'\<rparr> \<and>
      blind_log (m_log m') = blind_log (m_log m1)"
proof -
  let ?h' = "machine_host (x\<lparr>x_cmdline := Inr cl'\<rparr>)" and ?h = "machine_host x"
  obtain t where t: "params_parse cl' = map_sum id (\<lambda>p. p\<lparr>bp_token := t\<rparr>) (params_parse cl)"
    using params_same [of f, OF assms(3,4)] by (rule rel_same_but_token)
  have h': "?h\<lparr>h_cmdline := \<lambda>m. (map_sum id (\<lambda>p. p\<lparr>bp_token := t\<rparr>) (from_proc_cmdline (x_cmdline x)), m)\<rparr> = ?h'"
    by (simp add: outside_cmdline from_proc_cmdline_def assms(2) t)
  note r = tokens.twins [where x = x and http = "x_http x" and t = t and m = m and dry = dry, OF refl,
    unfolded token_blind_http [OF assms(1)] same_http h']
  from conjunct2 [OF r] obtain k log where "snd (run ?h' dry m) = snd (run ?h dry m)\<lparr>m_kernel := k, m_log := log\<rparr>"
    "blind_log log = blind_log (m_log (snd (run ?h dry m)))" "k = m_kernel (snd (run ?h dry m))" by (rule same_butE)
  with conjunct1 [OF r] show ?thesis by (simp add: case_prod_beta)
qed

end
