(* ===== verification/Join_Secret.thy ===== *)
theory Join_Secret
  imports Secrecy
begin

text \<open>
  Where the bootstrap data goes, which holds the cluster's join secret: two runs whose controllers
  differ in the bodies of their responses are compared, as twin machines. They differ in the log
  of those answers and in the content of \<open>99_beskar7.yaml\<close>, and in nothing else.
\<close>

lemma related_signore: "related R (=) m' m \<Longrightarrow> related_cmd R (signore m') (signore m)"
  by (simp add: related_def related_cmd_def signore_def)

section \<open>File systems but for the content of the config\<close>

fun emptied :: "fs_node \<Rightarrow> fs_node" where
  "emptied (RegFile _ m) = RegFile [] m"
| "emptied SubDir = SubDir"

definition hide_node :: "bool \<Rightarrow> string list \<Rightarrow> fs_node \<Rightarrow> fs_node" where
  "hide_node c p n = (if same_path c config_path p then emptied n else n)"

definition hide_config :: "fs \<Rightarrow> fs" where
  "hide_config fs = fs\<lparr>fs_entries := map (\<lambda>(p, n). (p, hide_node (fs_nocase fs) p n)) (fs_entries fs)\<rparr>"

lemma hide_node_eq [simp]: "hide_node c p SubDir = SubDir" "emptied (emptied n) = emptied n"
  "hide_node c p (RegFile b m) = RegFile (if same_path c config_path p then [] else b) m"
  "hide_node c p n = SubDir \<longleftrightarrow> n = SubDir"
  by (cases n; simp add: hide_node_def)+

lemma hide_node_same_path: "same_path c p q \<Longrightarrow> hide_node c p = hide_node c q"
  by (rule ext) (simp add: hide_node_def same_path_def)

lemma hide_config_fields [simp]:
  "fs_nocase (hide_config fs) = fs_nocase fs" "fs_umask (hide_config fs) = fs_umask fs"
  "fs_calls (hide_config fs) = fs_calls fs" "fs_fault (hide_config fs) = fs_fault fs"
  by (simp_all add: hide_config_def)

lemma hide_config_calls [simp]: "hide_config (fs\<lparr>fs_calls := n\<rparr>) = (hide_config fs)\<lparr>fs_calls := n\<rparr>"
  by (simp add: hide_config_def)

lemma node_at_hide: "node_at (hide_config fs) p = map_option (hide_node (fs_nocase fs) p) (node_at fs p)"
proof -
  have "entry_at c p (map (\<lambda>(q, n). (q, hide_node c q n)) es) = map_option (hide_node c p) (entry_at c p es)" for c es
    by (induction c p es rule: entry_at.induct) (auto simp: hide_node_same_path)
  then show ?thesis by (simp add: node_at_def hide_config_def)
qed

lemma hide_set_node: "hide_config (set_node p n fs) = set_node p (hide_node (fs_nocase fs) p n) (hide_config fs)"
proof -
  have "map (\<lambda>(q, n). (q, hide_node c q n)) (put_node c p n es) =
      put_node c p (hide_node c p n) (map (\<lambda>(q, n). (q, hide_node c q n)) es)" for c es
    by (induction c p n es rule: put_node.induct) (auto simp: hide_node_same_path)
  then show ?thesis by (simp add: hide_config_def set_node_def)
qed

lemma hide_unset_node: "hide_config (unset_node p fs) = unset_node p (hide_config fs)"
proof -
  have "map (\<lambda>(q, n). (q, hide_node c q n)) (del_node c p es) = del_node c p (map (\<lambda>(q, n). (q, hide_node c q n)) es)" for c es
    by (induction c p es rule: del_node.induct) auto
  then show ?thesis by (simp add: hide_config_def unset_node_def)
qed

section \<open>Calls that do not read the content\<close>

text \<open>Seen without the content, the call \<open>f\<close> acts as \<open>g\<close>.\<close>

definition blind :: "(fs \<Rightarrow> 'r \<times> fs) \<Rightarrow> (fs \<Rightarrow> 'r \<times> fs) \<Rightarrow> bool" where
  "blind f g \<longleftrightarrow> (\<forall>fs. map_prod id hide_config (f fs) = g (hide_config fs))"

abbreviation (input) same_but_config :: "fs \<Rightarrow> fs \<Rightarrow> bool" where
  "same_but_config fs' fs \<equiv> hide_config fs' = hide_config fs"

lemma blind_related: "blind f' g \<Longrightarrow> blind f g \<Longrightarrow> related same_but_config (=) f' f"
  unfolding blind_def by (rule relatedI) (metis fst_map_prod id_apply snd_map_prod)

lemma blind_self: "blind f f \<Longrightarrow> related same_but_config (=) f f"
  by (rule blind_related)

lemma blind_fs_do: "blind act act' \<Longrightarrow> blind (fs_do k act) (fs_do k act')"
  by (simp add: blind_def fs_do_def answer_def split: option.split)

lemma blind_calls:
  "blind (open_truncate p m) (open_truncate p m)" "blind (set_mode p m) (set_mode p m)"
  "blind sync_all sync_all" "blind (open_dir p) (open_dir p)" "blind (remove_file p) (remove_file p)"
  unfolding open_truncate_def set_mode_def sync_all_def open_dir_def remove_file_def
  by (rule blind_fs_do; auto simp: blind_def node_at_hide hide_set_node hide_unset_node sreturn_def
      split: option.split fs_node.split)+

lemma blind_make_dir: "blind (make_dir p) (make_dir p)"
  by (auto simp: blind_def make_dir_def fs_do_def answer_def node_at_hide hide_set_node
      split: option.split fs_node.split)

lemma hide_append: "hide_config (append_bytes p data fs) =
    append_bytes p (if same_path (fs_nocase fs) config_path p then [] else data) (hide_config fs)"
  by (auto simp: append_bytes_def node_at_hide hide_set_node split: option.split fs_node.split)

lemma blind_write:
  "blind (fs_write_all config_path data) (fs_write_all config_path [])"
  "(\<And>c. \<not> same_path c config_path p) \<Longrightarrow> blind (fs_write_all p data) (fs_write_all p data)"
  by (auto simp: blind_def fs_write_all_def answer_def hide_append split: option.split)

lemmas blind_same [related_intros] = blind_calls [THEN blind_self] blind_make_dir [THEN blind_self]

lemma config_related [related_intros]:
  "related same_but_config (=) (fs_write_all config_path data') (fs_write_all config_path data)"
  by (rule blind_related blind_write(1))+

lemma provider_related [related_intros]:
  "related same_but_config (=) (fs_write_all provider_path data) (fs_write_all provider_path data)"
  by (rule blind_self, rule blind_write(2)) simp

lemma config_written: "related same_but_config (=) (write_and_sync_config [] data') (write_and_sync_config [] data)"
  unfolding write_and_sync_config_def Let_def append_Nil by (intro related_intros)

lemma provider_written: "related same_but_config (=) (write_and_sync_provider_id [] pid) (write_and_sync_provider_id [] pid)"
  unfolding write_and_sync_provider_id_def create_dir_all_def Let_def append_Nil append_Cons by (intro related_intros)

lemma inject_files_related: "related same_but_config (=) (inject_files data' pid []) (inject_files data pid [])"
proof -
  have "related_cmd same_but_config (signore (remove_file p)) (signore (remove_file p))" for p
    by (intro related_signore related_intros)
  note removed = related_result_after [OF related_cmd_comp [OF this this]]
  show ?thesis
    unfolding inject_files_def [abs_def] sum_cases_pair
    by (rule related_then_same, rule related_sbind [OF config_written provider_written], rule related_cases,
      rule removed, rule related_result)
qed

section \<open>The mount\<close>

text \<open>Kernels but for the content of the config on every partition.\<close>

definition hide_configs :: "kernel \<Rightarrow> kernel" where
  "hide_configs k = k\<lparr>k_parts := \<lambda>d. hide_config (k_parts k d)\<rparr>"

abbreviation (input) same_but_configs :: "kernel \<Rightarrow> kernel \<Rightarrow> bool" where
  "same_but_configs k' k \<equiv> hide_configs k' = hide_configs k"

lemma same_but_configsE:
  assumes "same_but_configs k' k"
  obtains ps where "k' = k\<lparr>k_parts := ps\<rparr>" "\<And>d. same_but_config (ps d) (k_parts k d)"
proof -
  from assms have "k' = k\<lparr>k_parts := k_parts k'\<rparr>" by (cases k; cases k') (simp add: hide_configs_def)
  moreover from assms have "(\<lambda>d. hide_config (k_parts k' d)) = (\<lambda>d. hide_config (k_parts k d))"
    by (cases k; cases k') (simp add: hide_configs_def)
  ultimately show ?thesis using that by (simp add: fun_eq_iff)
qed

lemma partless:
  assumes "\<And>k ps. f (k\<lparr>k_parts := ps\<rparr>) = (fst (f k), (snd (f k))\<lparr>k_parts := ps\<rparr>)" "\<And>k. k_parts (snd (f k)) = k_parts k"
  shows "related same_but_configs (=) f f"
proof (rule relatedI)
  fix k' k :: kernel
  assume "same_but_configs k' k"
  then obtain ps where ps: "k' = k\<lparr>k_parts := ps\<rparr>" "\<And>d. same_but_config (ps d) (k_parts k d)"
    by (rule same_but_configsE) blast
  from ps(2) assms(2) [of k] show "fst (f k') = fst (f k) \<and> same_but_configs (snd (f k')) (snd (f k))"
    by (simp add: ps(1) assms(1) hide_configs_def)
qed

lemma sys_calls_related [related_intros]:
  "related same_but_configs (=) (unlink_node p) (unlink_node p)"
  "related same_but_configs (=) (mknod_block p d) (mknod_block p d)"
  "related same_but_configs (=) (make_mountpoint mnt) (make_mountpoint mnt)"
  "related same_but_configs (=) (mount node mnt fstype flags opts) (mount node mnt fstype flags opts)"
  "related same_but_configs (=) (umount2 op mnt) (umount2 op mnt)"
  "related same_but_configs (=) (remove_dir mnt) (remove_dir mnt)"
  by (rule partless; simp add: unlink_node_def mknod_block_def make_mountpoint_def mount_def umount2_def remove_dir_def
      mounted_on_def sys_do_def Let_def split: option.split)+

text \<open>The private mount, by works that are related.\<close>

lemma on_mount_related:
  assumes "related same_but_config (=) work' work"
  shows "related same_but_configs (=) (on_mount mnt work' r) (on_mount mnt work r)"
proof (rule relatedI)
  fix k' k :: kernel
  assume "same_but_configs k' k"
  then obtain ps where ps: "k' = k\<lparr>k_parts := ps\<rparr>" "\<And>d. same_but_config (ps d) (k_parts k d)"
    by (rule same_but_configsE) blast
  show "fst (on_mount mnt work' r k') = fst (on_mount mnt work r k) \<and>
      same_but_configs (snd (on_mount mnt work' r k')) (snd (on_mount mnt work r k))"
  proof (cases "mounted_on k mnt")
    case None
    with ps show ?thesis by (simp add: on_mount_def mounted_on_def hide_configs_def)
  next
    case (Some me)
    from relatedD [OF assms ps(2), of "me_dev me"] ps Some show ?thesis
      by (auto simp: on_mount_def mounted_on_def hide_configs_def fun_eq_iff split: prod.split)
  qed
qed

lemma unmount_related: "related same_but_configs (=) (unmount spec) (unmount spec)"
  unfolding unmount_def [abs_def] sum_cases_pair
  by (rule related_then_same, rule sys_calls_related, rule related_cases, rule related_result_after,
    rule related_signore, rule sys_calls_related, rule related_result)

lemma mount_write_unmount_related:
  assumes "related same_but_config (=) work' work"
  shows "related same_but_configs (=) (mount_write_unmount spec node dev work') (mount_write_unmount spec node dev work)"
proof -
  have ending: "related same_but_configs (=) (\<lambda>k. (r, signore (remove_dir mnt) k)) (\<lambda>k. (r, signore (remove_dir mnt) k))"
    for r :: "deploy_error + 'a" and mnt
    by (intro related_result_after related_signore sys_calls_related)
  show ?thesis unfolding mount_write_unmount_def [abs_def] sum_cases_pair Let_def
    by (rule related_then_same [OF sys_calls_related(3)], rule related_cases, rule related_result,
      rule related_then_same [OF sys_calls_related(4)], rule related_cases, rule ending,
      rule related_then_same [OF on_mount_related [OF assms]], rule related_then_same [OF unmount_related], rule ending)
qed

lemma with_private_mount_related:
  assumes "related same_but_config (=) work' work"
  shows "related same_but_configs (=) (with_private_mount makedev spec dev num work') (with_private_mount makedev spec dev num work)"
proof (cases "parse_dev_number makedev num")
  case None
  then show ?thesis by (simp add: with_private_mount_def [abs_def] related_result)
next
  case (Some d)
  have gone: "related_cmd same_but_configs (signore (unlink_node p)) (signore (unlink_node p))" for p
    by (intro related_signore sys_calls_related)
  show ?thesis unfolding with_private_mount_def [abs_def] sum_cases_pair Some option.case
    by (rule related_then_same, rule related_after [OF sys_calls_related(2) gone], rule related_cases, rule related_result,
      rule related_then_same [OF mount_write_unmount_related [OF assms]], rule related_result_after [OF gone])
qed

lemma inject_takes: "takes (=) same_but_configs (=) (inject_oem_config makedev oem data' pid) (inject_oem_config makedev oem data pid)"
  using with_private_mount_related [OF inject_files_related]
  by (auto simp: takes_def related_def inject_oem_config_def)

section \<open>Controllers that differ in the bodies\<close>

text \<open>The same status, and bodies that the client takes or not alike.\<close>

definition same_but_body :: "response \<Rightarrow> response \<Rightarrow> bool" where
  "same_but_body r' r \<longleftrightarrow> rs_status r' = rs_status r \<and> rs_broken r' = rs_broken r \<and>
     (length (rs_body r') \<le> MAX_BOOTSTRAP_BYTES \<longleftrightarrow> length (rs_body r) \<le> MAX_BOOTSTRAP_BYTES)"

definition same_but_bodies :: "(nat \<Rightarrow> 'cert list \<Rightarrow> request \<Rightarrow> ureq_error + response) \<Rightarrow>
    (nat \<Rightarrow> 'cert list \<Rightarrow> request \<Rightarrow> ureq_error + response) \<Rightarrow> bool" where
  "same_but_bodies http' http \<longleftrightarrow> (\<forall>n roots rq. rel_sum (=) same_but_body (http' n roots rq) (http n roots rq))"

definition bodiless :: "'cert exchange list \<Rightarrow> 'cert exchange list" where
  "bodiless log = map (\<lambda>(roots, rq, res). (roots, rq, map_sum id (\<lambda>r. r\<lparr>rs_body := []\<rparr>) res)) log"

lemma bodiless_length: "bodiless l' = bodiless l \<Longrightarrow> length l' = length l"
  unfolding bodiless_def by (metis length_map)

lemma same_but_bodyD:
  assumes "rel_sum (=) same_but_body a' a"
  shows "map_sum id (\<lambda>r. r\<lparr>rs_body := []\<rparr>) a' = map_sum id (\<lambda>r. r\<lparr>rs_body := []\<rparr>) a"
    "accept_attempt a' = accept_attempt a" "rel_attempt (\<lambda>_ _. True) (bootstrap_attempt a') (bootstrap_attempt a)"
proof -
  show "map_sum id (\<lambda>r. r\<lparr>rs_body := []\<rparr>) a' = map_sum id (\<lambda>r. r\<lparr>rs_body := []\<rparr>) a"
    using assms by cases (auto simp: same_but_body_def)
  show "accept_attempt a' = accept_attempt a"
    using assms by cases (auto simp: same_but_body_def accept_attempt_def classify_status_def Let_def into_attempt_def)
  show "rel_attempt (\<lambda>_ _. True) (bootstrap_attempt a') (bootstrap_attempt a)"
    using assms by cases (auto simp: same_but_body_def bootstrap_attempt_def classify_status_def read_capped_def Let_def
      into_attempt_def not_le)
qed

text \<open>A controller with the bodies of another where they are taken alike.\<close>

definition rebodied :: "(nat \<Rightarrow> 'cert list \<Rightarrow> request \<Rightarrow> ureq_error + response) \<Rightarrow>
    (nat \<Rightarrow> 'cert list \<Rightarrow> request \<Rightarrow> ureq_error + response) \<Rightarrow> nat \<Rightarrow> 'cert list \<Rightarrow> request \<Rightarrow> ureq_error + response" where
  "rebodied http' http n roots rq = (case (http' n roots rq, http n roots rq) of
       (Inr r', Inr r) \<Rightarrow> if same_but_body r' r then Inr r' else Inr r
     | (_, res) \<Rightarrow> res)"

lemma rebodied_bodies: "rel_sum (=) same_but_body (rebodied http' http n roots rq) (http n roots rq)"
proof -
  have "same_but_body r r" for r by (simp add: same_but_body_def)
  then show ?thesis by (cases "http' n roots rq"; cases "http n roots rq") (simp_all add: rebodied_def)
qed

lemma rebodied_same:
  assumes "same_but_bodies http' http"
  shows "rebodied http' http = http'"
proof (intro ext)
  fix n roots rq
  from assms have "rel_sum (=) same_but_body (http' n roots rq) (http n roots rq)" by (simp add: same_but_bodies_def)
  then show "rebodied http' http n roots rq = http' n roots rq" by cases (simp_all add: rebodied_def)
qed

interpretation bodies: twin_machines x "rebodied http' (x_http x)" "from_proc_cmdline (x_cmdline x)" "(=)"
  "\<lambda>l' l. bodiless l' = bodiless l" same_but_configs "(=)" "rel_sum (=) same_but_body" "\<lambda>_ _. True"
  for x :: "('c, 'd, 'e) outside" and http'
proof
  show "rel_sum (=) (same_but_token (=)) (from_proc_cmdline (x_cmdline x)) (from_proc_cmdline (x_cmdline x))"
    by (cases "from_proc_cmdline (x_cmdline x)") (simp_all add: same_but_token_def)
next
  fix c' c :: "'e client" and url body
  assume "same_client (=) c' c"
  then have "c' = c" by (cases c; cases c') (simp add: same_client_def)
  then show "post_json c' url body = post_json c url body" "get_bootstrap c' = get_bootstrap c" by simp_all
next
  fix l' l :: "'e exchange list" and rq' rq :: request and roots
  assume l: "bodiless l' = bodiless l" "rq' = rq"
  let ?a' = "rebodied http' (x_http x) (length l') roots rq'" and ?a = "x_http x (length l) roots rq"
  have "rel_sum (=) same_but_body ?a' ?a" using rebodied_bodies bodiless_length [OF l(1)] l(2) by simp
  moreover from same_but_bodyD(1) [OF this] l have "bodiless (l' @ [(roots, rq', ?a')]) = bodiless (l @ [(roots, rq, ?a)])"
    by (simp add: bodiless_def)
  ultimately show "rel_sum (=) same_but_body ?a' ?a \<and>
      bodiless (l' @ [(roots, rq', ?a')]) = bodiless (l @ [(roots, rq, ?a)])" ..
qed (simp_all add: same_but_bodyD inject_takes)

section \<open>The property\<close>

text \<open>
  C5: the bootstrap data, which holds the join secret, reaches \<open>99_beskar7.yaml\<close> and nothing
  else. Take two controllers that give the same statuses and differ in the bodies of their
  responses (each body within the cap in both or in neither). Both runs end in the same
  result. They leave the same machine: the same console lines, the same disks and boot variables,
  the same sleeps and reboots, the same requests, and on every partition the same files, modes
  and contents but for the content of that file.
\<close>

theorem join_secret_confined:
  fixes x :: "('r, 'h, 'cert) outside"
  assumes "same_but_bodies http' (x_http x)"
  shows "case run (machine_host (x\<lparr>x_http := http'\<rparr>)) dry m of (r', m') \<Rightarrow>
    case run (machine_host x) dry m of (r, m1) \<Rightarrow> r' = r \<and>
      m' = m1\<lparr>m_kernel := m_kernel m', m_log := m_log m'\<rparr> \<and>
      hide_configs (m_kernel m') = hide_configs (m_kernel m1) \<and> bodiless (m_log m') = bodiless (m_log m1)"
proof -
  have same: "(machine_host (x\<lparr>x_http := http'\<rparr>))\<lparr>h_cmdline := \<lambda>m. (from_proc_cmdline (x_cmdline x), m)\<rparr> =
      machine_host (x\<lparr>x_http := http'\<rparr>)"
    by (simp add: machine_host_def)
  from bodies.twins [where x = x and http' = http' and m = m and dry = dry, OF refl,
      unfolded rebodied_same [OF assms] same]
  show ?thesis by (simp add: case_prod_beta same_but_def)
qed

end
