(* ===== verification/Example.thy ===== *)
theory Example
  imports Well_Formed Join_Secret
begin

text \<open>
  A whole run on a concrete machine, evaluated: one disk and one interface, a DHCP server, an
  image server, a controller that answers at once, and an image whose table gives one ext
  partition labelled \<open>COS_OEM\<close>. The firmware is not UEFI.
\<close>

section \<open>The machine\<close>

definition disk_tree :: "(string \<times> fsnode) list \<Rightarrow> fsnode" where
  "disk_tree parts = Dir [
     (''sys'', Dir [
        (''block'', Dir [(''vda'', Dir ([(''device'', Dir []), (''size'', Attr ''4000''), (''dev'', Attr ''2:0'')] @ parts))]),
        (''class'', Dir [
           (''block'', Dir []),
           (''net'', Dir [(''eth0'', Dir [(''ifindex'', Attr ''2''), (''address'', Attr ''52:54:00:00:00:01'')])])])]),
     (''proc'', Dir [(''mounts'', Attr []), (''swaps'', Attr [])])]"

definition first_tree :: fsnode where "first_tree = disk_tree []"

definition second_tree :: fsnode where
  "second_tree = disk_tree [(''vda1'', Dir [(''partition'', Attr ''1''), (''dev'', Attr ''2:1'')])]"

definition digest_text :: string where "digest_text = ''sha256:'' @ replicate 64 (CHR ''0'')"

definition cmdline_with :: "string \<Rightarrow> string" where
  "cmdline_with token = ''beskar7.api=https://c beskar7.namespace=n beskar7.host=h beskar7.token='' @ token @
     '' beskar7.ca=a beskar7.target=http://i beskar7.provider-id=p beskar7.target-digest='' @ digest_text"

definition sample_params :: boot_params where
  "sample_params = \<lparr>bp_api = ''https://c'', bp_namespace = ''n'', bp_host = ''h'', bp_token = secret_new ''t'',
     bp_target = ''http://i'', bp_target_digest = digest_text, bp_provider_id = ''p'', bp_ca = ''a'',
     bp_disk = None, bp_bootif = None, bp_ip = None, bp_timeout = None, bp_debug = False\<rparr>"

definition sample_superblock :: bytes where
  "sample_superblock = superblock (replicate 1080 0) EXT_MAGIC (replicate 62 7) (as_bytes ''COS_OEM'' @ replicate 9 0) []"

definition sample_fs :: fs where
  "sample_fs = \<lparr>fs_nocase = False, fs_umask = 0, fs_entries = [], fs_calls = 0, fs_fault = (\<lambda>_ _. None)\<rparr>"

definition sample_kernel :: kernel where
  "sample_kernel = \<lparr>k_nodes = [], k_dirs = [], k_mounts = [], k_history = [], k_parts = (\<lambda>_. sample_fs),
     k_calls = 0, k_fault = (\<lambda>_ _. None)\<rparr>"

definition sample_disk :: disk_node where
  "sample_disk = \<lparr>dn_meta = Inr (True, 512), dn_content = [9, 9, 9, 9, 9], dn_answers = [], dn_sync = Inr ()\<rparr>"

definition sample_answer :: "request \<Rightarrow> response" where
  "sample_answer rq = \<lparr>rs_status = 200, rs_body = (if rq_method rq = ''GET'' then [7, 8] else []), rs_broken = False\<rparr>"

definition sample_outside :: "(bytes, unit, unit) outside" where
  "sample_outside = \<lparr>
     x_cmdline = Inr (cmdline_with ''t''), x_mount = (\<lambda>_. Inr ()), x_open_module = (\<lambda>_. Inl (OsError ENOENT)),
     x_finit = (\<lambda>_. Inr ()), x_polls = (\<lambda>_. (NoAccess, 0)), x_dhcp_call = (\<lambda>_. None), x_dhcp_random = None,
     x_dhcp_sock = (\<lambda>_. demo_sock), x_etc = (\<lambda>_. Inr ()), x_dmi = Inl (OsError ENOENT), x_ifaddrs = None,
     x_canon = Some, x_major = (\<lambda>d. d div 256), x_minor = (\<lambda>d. d mod 256), x_makedev = (\<lambda>a b. a * 256 + b),
     x_open = (\<lambda>_ _. None), x_read_fault = (\<lambda>_ _. None), x_get = (\<lambda>_. Inr (200, [1, 2, 3])),
     x_body = (\<lambda>r n. (Inr (take n r), drop n r)), x_sha = (\<lambda>_. replicate 32 0), x_blkrrpart = (\<lambda>_. Inr ()),
     x_rescan = (\<lambda>_ _. second_tree), x_filesystems = (\<lambda>_ _. sample_fs),
     x_part_reads = (\<lambda>_ _. Inr [Inr sample_superblock]), x_arch = X86_64, x_show_io = (\<lambda>_. []),
     x_urandom = Inl (OsError ENOENT), x_efivar_mount = Inl ENODEV, x_base64 = (\<lambda>_. Some []),
     x_pem = (\<lambda>_. [Inr ()]), x_trustable = (\<lambda>_. True), x_report_json = (\<lambda>_. Some []),
     x_reason_json = (\<lambda>_. Some []), x_http = (\<lambda>_ _ rq. Inr (sample_answer rq)), x_reboot = 1\<rparr>"

definition sample_links :: nl_state where
  "sample_links = \<lparr>nl_log = [], nl_answers = [], nl_carrier = (\<lambda>_ _. (0, Some ''1'')), nl_waits = []\<rparr>"

definition sample_machine :: "unit machine" where
  "sample_machine = \<lparr>m_tree = first_tree, m_disks = (\<lambda>p. if p = ''/dev/vda'' then Inr sample_disk else Inl (OsError ENOENT)),
     m_kernel = sample_kernel,
     m_vars = \<lparr>ev_listable = False, ev_files = [], ev_immutable = {}, ev_keep_flag = {}, ev_eio = {},
       ev_open = (\<lambda>_. None), ev_set = (\<lambda>_ b. Inr (length b))\<rparr>,
     m_links = sample_links, m_log = [], m_pseudo = [], m_console = [], m_slept = 0, m_reboots = 0\<rparr>"

abbreviation (input) X where "X \<equiv> sample_outside"
abbreviation (input) H where "H \<equiv> machine_host sample_outside"

section \<open>Its parts\<close>

lemma sample_digest: "digest_parse digest_text = Inr (Sha256Digest (replicate 32 0))"
proof -
  have z: "hex_nibble (char_byte (CHR ''0'')) = Some 0"
    by (simp add: hex_nibble_def char_byte_def)
  have "chunks_exact 2 (as_bytes (replicate (2 * n) (CHR ''0''))) =
      replicate n [char_byte (CHR ''0''), char_byte (CHR ''0'')]" for n
    by (induction n) (simp_all add: as_bytes_def chunks_exact_short chunks_exact_append [of "[_, _]", simplified])
  from this [of 32] have c: "chunks_exact 2 (as_bytes (replicate 64 (CHR ''0''))) =
      replicate 32 [char_byte (CHR ''0''), char_byte (CHR ''0'')]" by simp
  have "try_map hex_pair (replicate n [char_byte (CHR ''0''), char_byte (CHR ''0'')]) = Inr (replicate n 0)" for n
    by (induction n) (simp_all add: hex_pair_def z)
  with c show ?thesis by (simp add: digest_text_def digest_parse_def strip_prefix_def starts_with_def)
qed

lemma cmdline_with_split:
  assumes "\<not> is_ascii_ws c"
  shows "split_ascii_whitespace (cmdline_with [c]) =
    [''beskar7.api=https://c'', ''beskar7.namespace=n'', ''beskar7.host=h'', ''beskar7.token='' @ [c], ''beskar7.ca=a'',
     ''beskar7.target=http://i'', ''beskar7.provider-id=p'', ''beskar7.target-digest='' @ digest_text]"
proof -
  have "split_pred is_ascii_ws digest_text = [digest_text]"
    by (rule split_pred_none) (simp add: digest_text_def is_ascii_ws_def)
  then show ?thesis
    using assms by (simp add: cmdline_with_def split_ascii_whitespace_def is_ascii_ws_def)
qed

lemma cmdline_with_parse:
  assumes "\<not> is_ascii_ws c"
  shows "from_proc_cmdline (Inr (cmdline_with [c])) = Inr (sample_params\<lparr>bp_token := secret_new [c]\<rparr>)"
proof -
  have one: "set_param (''beskar7.target-digest='' @ digest_text) st =
      Inr (st\<lparr>p_target_digest := Some digest_text\<rparr>)" for st
    using split_once_app [of "CHR ''=''" "''beskar7.target-digest''" digest_text]
    by (simp add: set_param_def set_key_def non_empty_def digest_text_def)
  have "set_params (split_ascii_whitespace (cmdline_with [c])) init_state = Inr \<lparr>p_api = Some ''https://c'',
      p_namespace = Some ''n'', p_host = Some ''h'', p_token = Some [c], p_target = Some ''http://i'',
      p_target_digest = Some digest_text, p_provider_id = Some ''p'', p_ca = Some ''a'', p_disk = None,
      p_bootif = None, p_ip = None, p_timeout = None, p_debug = False\<rparr>"
    unfolding cmdline_with_split [OF assms] set_params.simps one
    by (simp add: set_param_def set_key_def non_empty_def init_state_def)
  then show ?thesis
    by (simp add: from_proc_cmdline_def params_parse_def missing_def required_def sample_params_def)
qed

lemma sample_params_read: "from_proc_cmdline (x_cmdline X) = Inr sample_params"
proof -
  have "x_cmdline X = Inr (cmdline_with ''t'')" by (simp add: sample_outside_def)
  with cmdline_with_parse [of "CHR ''t''"] show ?thesis by (simp add: is_ascii_ws_def sample_params_def)
qed

section \<open>Its steps\<close>

lemma tree_parts:
  "subtree (disk_tree ps) SYSFS_NET = Dir [(''eth0'', Dir [(''ifindex'', Attr ''2''), (''address'', Attr ''52:54:00:00:00:01'')])]"
  "subtree (disk_tree ps) SYSFS_BLOCK =
     Dir [(''vda'', Dir ([(''device'', Dir []), (''size'', Attr ''4000''), (''dev'', Attr ''2:0'')] @ ps))]"
  "subtree (disk_tree ps) SYSFS_CLASS_BLOCK = Dir []"
  "subtree (disk_tree ps) MODULES_ROOT = NoAccess"
  "\<not> path_exists (disk_tree ps) EFI_SYSFS_PATH"
  by (simp_all add: subtree_def disk_tree_def child_def SYSFS_NET_def SYSFS_BLOCK_def SYSFS_CLASS_BLOCK_def
      MODULES_ROOT_def EFI_SYSFS_PATH_def path_exists_def)

lemma sample_loaded: "drivers_loaded x b (disk_tree ps) = (disk_tree ps, 0)"
  by (simp add: drivers_loaded_def Let_def load_drivers_def find_load_list_def tree_parts read_dir_def)

lemma sample_drivers: "with_drivers x b (disk_tree ps) = disk_tree ps"
  by (simp add: with_drivers_def sample_loaded)


text \<open>What the later steps depend on.\<close>

definition core :: "'cert machine \<Rightarrow> fsnode \<times> disks \<times> kernel \<times> nat" where
  "core m = (m_tree m, m_disks m, m_kernel m, m_reboots m)"

lemma sample_mounts: "\<exists>m'. (if False then sreturn () else mount_and_lock H) m = (Inr (), m') \<and>
     core m' = core m \<and> m_links m' = m_links m"
  by (simp add: mount_and_lock_def mount_pseudo_filesystems_def mount_specs_def sbind_def mount_one_def
      machine_host_def m_mount_def sample_outside_def Let_def core_def)

lemma sample_target: "select_on X first_tree None 0 = Inr \<lparr>t_kname = ''vda'', t_size_bytes = 2048000, t_dev_number = ''2:0''\<rparr>"
proof -
  have a: "ascii ''vda''" "ascii []" by (simp_all add: ascii_def)
  have mounts: "read_to_string (disk_tree []) PROC_MOUNTS = Some []" "read_to_string (disk_tree []) PROC_SWAPS = Some []"
    by (simp_all add: read_to_string_def disk_tree_def child_def PROC_MOUNTS_def PROC_SWAPS_def utf8_valid_ascii a)
  let ?d = "Dir [(''vda'', Dir [(''device'', Dir []), (''size'', Attr ''4000''), (''dev'', Attr ''2:0'')])]"
  have l: "read_trimmed ?d [''vda'', ''size''] = Some ''4000''" "read_trimmed ?d [''vda'', ''dev''] = Some ''2:0''"
    by (rule read_trimmed_plain; simp add: child_def graphic_def)+
  have none: "read_trimmed ?d [''vda'', ''removable''] = None" "read_trimmed ?d [''vda'', ''ro''] = None"
    by (rule read_trimmed_missing; simp add: child_def)+
  have r: "ramdisk_backing_knames c (Some []) (Some []) ?d = {}" for c
    by (simp add: ramdisk_backing_knames_def mount_sources_def swap_sources_def lines_def backing_whole_disks_def
        map_filter_simps split_char_def)
  have e: "enumerate_disks ?d = [\<lparr>c_kname = ''vda'', c_size_bytes = 2048000, c_dev_number = ''2:0'',
      c_removable = False, c_read_only = False, c_physical = True\<rparr>]"
    by (simp add: enumerate_disks_def read_dir_def utf8_names_def utf8_valid_ascii a read_candidate_def l none
        SECTOR_BYTES_def parse_u64_def parse_unsigned_def strip_plus_def digit_val_def path_exists_def child_def)
  show ?thesis
    unfolding first_tree_def select_on_def mounts tree_parts select_disk_def append_Nil2 r
    by (simp add: select_core_def e auto_select_def classify_def candidate_target_def)
qed


lemma sample_lease: "fst (acquire (\<lambda>_. None) None i mac demo_sock) =
    Inr \<lparr>l_ip = ipv4_new 10 0 0 9, l_prefix_len = 24, l_gateway = None, l_dns = []\<rparr>"
proof -
  have x: "random_xid None = 0xB7B70001" by (simp add: random_xid_def)
  have rounds: "MAX_ROUNDS = Suc 3" by (simp add: MAX_ROUNDS_def)
  show ?thesis
    unfolding acquire_def open_dhcp_def open_calls_def x rounds acquire_rounds.simps(2)
    by (simp add: rc_to_result_def demo_sock_def send_broadcast_def recv_reply_def demo_parse lease_of_def empty_reply_def)
qed

lemma sample_network:
  assumes "m_tree m = first_tree" "m_links m = sample_links"
  shows "\<exists>net m'. nc_dns net = [] \<and> m_network X sample_params m = (Inr net, m') \<and> core m' = core m"
proof -
  let ?net = "subtree first_tree SYSFS_NET"
  have net: "?net = Dir [(''eth0'', Dir [(''ifindex'', Attr ''2''), (''address'', Attr ''52:54:00:00:00:01'')])]"
    by (simp add: first_tree_def tree_parts)
  have a: "ascii ''eth0''" by (simp add: ascii_def)
  have l: "read_trimmed ?net [''eth0'', ''ifindex''] = Some ''2''"
    "read_trimmed ?net [''eth0'', ''address''] = Some ''52:54:00:00:00:01''"
    unfolding net by (rule read_trimmed_plain; simp add: child_def graphic_def)+
  have i: "read_ifindex ?net ''eth0'' = Inr 2" "read_mac ?net ''eth0'' = Inr [0x52, 0x54, 0, 0, 0, 1]"
    by (simp_all add: read_ifindex_def l parse_u32_def parse_unsigned_def strip_plus_def digit_val_def
        read_mac_def parse_mac_def split_char_def hex_u8_def)
  have sel: "select_nics ?net None = Inr (Pinned ''eth0'')"
    by (simp add: net select_nics_def candidate_interfaces_def read_dir_def utf8_names_def utf8_valid_ascii a)
  have ack: "parse_ack (take 4096 ok_ack) = Inr ()"
    by (simp add: ok_ack_def parse_ack_def NLMSGHDR_LEN_def)
  have a: "heard (answer_at [] j) = Inr ()" "took (answer_at [] j)" for j
    by (simp_all add: answer_at_def heard_def rbind_def ack took_def)
  show ?thesis
    by (simp add: assms m_network_def bring_up_provisioning_network_def sample_params_def sel bring_up_one_def i
        dhcp_link_def link_msg send_nl a link_waited_def sample_links_def nl_step_def sample_outside_def sample_lease apply_lease_def apply_addr_def
        net_config_of_def core_def)
qed

lemma sample_bring_up:
  assumes "m_tree m = first_tree" "m_links m = sample_links"
  shows "\<exists>m'. (if False then sreturn () else bring_up H sample_params) m = (Inr (), m') \<and> core m' = core m"
proof -
  have d: "m_load_drivers X b m = m" for b
    using assms(1) sample_loaded [of X b "[]"] by (simp add: m_load_drivers_def with_drivers_def first_tree_def)
  have none: "write_resolv_conf [] = []" by (simp add: write_resolv_conf_def render_resolv_conf_def)
  from sample_network [OF assms] obtain net m1 where "nc_dns net = []" "m_network X sample_params m = (Inr net, m1)"
    "core m1 = core m" by blast
  then show ?thesis
    by (simp add: bring_up_def machine_host_def sbind_def smap_err_def d none core_def)
qed

lemma sample_client: "\<exists>c. h_client H sample_params = Inr c"
  by (simp add: machine_host_def client_new_def tls_config_def sample_outside_def)


lemma first_try: "attempt 0 s = (Done v, s') \<Longrightarrow> run_with_retries MAX_ATTEMPTS attempt s = (Inr v, s', [])"
  by (simp add: run_with_retries_def MAX_ATTEMPTS_def eval_nat_numeral)

lemma sample_http: "attempts (exchange X) c rq verdict n m =
    (verdict (Inr (sample_answer rq)), m\<lparr>m_log := m_log m @ [(cl_roots c, rq, Inr (sample_answer rq))]\<rparr>)"
  by (simp add: attempts_def exchange_def sample_outside_def Let_def)

lemma sample_exchanges:
  "\<exists>m'. h_submit_report H c report m = (Inr (), m') \<and> core m' = core m"
  "\<exists>m'. h_fetch_bootstrap H c m = (Inr [7, 8], m') \<and> core m' = core m"
  "\<exists>m'. h_provisioned H c m = (Inr (), m') \<and> core m' = core m"
proof -
  have json: "x_report_json X report = Some []" by (simp add: sample_outside_def)
  note defs = machine_host_def slept_def core_def
  have post: "accept_attempt (Inr (sample_answer (post_json c url body))) = Done ()" for url body
    by (simp add: accept_attempt_def classify_status_def sample_answer_def Let_def)
  have get: "bootstrap_attempt (Inr (sample_answer (get_bootstrap c))) = Done [7, 8]"
    by (simp add: bootstrap_attempt_def classify_status_def sample_answer_def Let_def get_bootstrap_def
      read_capped_def MAX_BOOTSTRAP_BYTES_def)
  have posted: "run_with_retries MAX_ATTEMPTS (attempts (exchange X) c (post_json c url body) accept_attempt) m =
      (Inr (), m\<lparr>m_log := m_log m @ [(cl_roots c, post_json c url body, Inr (sample_answer (post_json c url body)))]\<rparr>, [])" for url body
    by (rule first_try) (simp add: sample_http post)
  have got: "run_with_retries MAX_ATTEMPTS (attempts (exchange X) c (get_bootstrap c) bootstrap_attempt) m =
      (Inr [7, 8], m\<lparr>m_log := m_log m @ [(cl_roots c, get_bootstrap c, Inr (sample_answer (get_bootstrap c)))]\<rparr>, [])"
    by (rule first_try) (simp add: sample_http get)
  show "\<exists>m'. h_submit_report H c report m = (Inr (), m') \<and> core m' = core m"
    by (simp add: defs submit_report_def json posted)
  show "\<exists>m'. h_fetch_bootstrap H c m = (Inr [7, 8], m') \<and> core m' = core m"
    by (simp add: defs fetch_bootstrap_def got)
  show "\<exists>m'. h_provisioned H c m = (Inr (), m') \<and> core m' = core m"
    by (simp add: defs provisioned_def posted)
qed

text \<open>The selected disk.\<close>

abbreviation (input) VDA where
  "VDA \<equiv> \<lparr>t_kname = ''vda'', t_size_bytes = 2048000, t_dev_number = ''2:0''\<rparr>"

lemma sample_identity: "f_meta f = Inr (True, 512) \<Longrightarrow>
    verify_node_identity (x_major X) (x_minor X) f p ''2:0'' = Inr ()"
proof -
  have "dec 2 = ''2''" "dec 0 = ''0''" by (code_simp, code_simp)
  then show "f_meta f = Inr (True, 512) \<Longrightarrow> ?thesis"
    by (simp add: verify_node_identity_def rdev_matches_def dev_text_def sample_outside_def Let_def)
qed


lemma sample_fetch:
  assumes "f_answers f = []" "f_written f = []"
  shows "fetch_to (x_get X) (x_sha X) (x_body X) write_all file_flush ''http://i'' (Sha256Digest (replicate 32 0)) 2048000 f =
    (Inr 3, f\<lparr>f_written := [1, 2, 3], f_answers := []\<rparr>)"
proof -
  have body: "x_body X = (\<lambda>r n. (Inr (take n r), drop n r))" by (simp add: sample_outside_def)
  have plan: "write_plan [] [1, 2, 3] [] = (Inr (), [1, 2, 3], [])" by simp
  have lim: "saturating_add 2048000 1 = (2048001 :: u64)"
    by (simp add: saturating_add_def)
  have t1: "take_read (x_body X) [1, 2, 3] 2048001 = (Inr [1, 2, 3], [])"
    and t2: "take_read (x_body X) [] 2047998 = (Inr [], [])"
    by (simp_all add: take_read_def body READ_BUF_BYTES_def)
  have "stream_loop (x_body X) write_all 2048000 [1, 2, 3] 2048001 0 [] f =
      (Inr (3, [1, 2, 3]), f\<lparr>f_written := [1, 2, 3], f_answers := []\<rparr>)"
    by (subst stream_loop.simps, simp add: t1 write_all_def assms plan, subst stream_loop.simps, simp add: t2)
  moreover have "validate_image_scheme ''http://i'' = Inr ()" "x_get X (image_get ''http://i'') = Inr (200, [1, 2, 3])"
    "x_sha X bs = replicate 32 0" for bs
    by (simp_all add: validate_image_scheme_def sample_outside_def eq_ignore_ascii_case_def to_ascii_lowercase_def)
  ultimately show ?thesis
    by (simp add: fetch_to_def stream_verify_def lim file_flush_def)
qed

lemma sample_write:
  assumes "m_disks m = m_disks sample_machine"
  shows "\<exists>m'. h_write_image H VDA (bp_target sample_params) (bp_target_digest sample_params) DEFAULT_MAX_IMAGE_BYTES m = (Inr 3, m') \<and>
    m_disks m' ''/dev/vda'' = Inr (sample_disk\<lparr>dn_content := [1, 2, 3, 9, 9]\<rparr>) \<and>
    m_tree m' = m_tree m \<and> m_kernel m' = m_kernel m \<and> m_reboots m' = m_reboots m"
proof -
  have p: "dev_path VDA = ''/dev/vda''" by (simp add: dev_path_def)
  have cap: "effective_max_bytes DEFAULT_MAX_IMAGE_BYTES (2048000) = 2048000"
    by (simp add: effective_max_bytes_def DEFAULT_MAX_IMAGE_BYTES_def min_def)
  have d: "m_disks m ''/dev/vda'' = Inr sample_disk" unfolding assms by (simp add: sample_machine_def)
  have o: "open_disk X e (m_disks m) ''/dev/vda'' = Inr sample_disk" for e
    by (simp add: open_disk_def d sample_outside_def del: fun_upd_apply)
  have meta: "f_meta (opened sample_disk) = Inr (True, 512)" "f_answers (opened sample_disk) = []"
    "f_written (opened sample_disk) = []" "f_sync (opened sample_disk) = Inr ()"
    by (simp_all add: opened_def sample_disk_def)
  have "write_image (\<lambda>p. map_sum id opened (open_disk X True (m_disks m) p)) (x_major X) (x_minor X)
      (x_get X) (x_sha X) (x_body X) VDA ''http://i'' digest_text DEFAULT_MAX_IMAGE_BYTES =
      (Inr 3, Some ((opened sample_disk)\<lparr>f_written := [1, 2, 3], f_answers := []\<rparr>))"
    unfolding write_image_def sample_digest p
    by (simp add: cap [simplified] o sample_identity meta sample_fetch)
  then show ?thesis
    by (simp add: machine_host_def m_write_image_def sample_params_def p d overwritten_def)
      (simp add: sample_disk_def)
qed

lemma sample_reread:
  assumes "m_disks m ''/dev/vda'' = Inr (sample_disk\<lparr>dn_content := [1, 2, 3, 9, 9]\<rparr>)"
  shows "h_reread H VDA m = (Inr (), m\<lparr>m_tree := second_tree, m_kernel := (m_kernel m)\<lparr>k_parts := (\<lambda>_. sample_fs)\<rparr>\<rparr>)"
proof -
  have p: "dev_path VDA = ''/dev/vda''" by (simp add: dev_path_def)
  let ?d = "sample_disk\<lparr>dn_content := [1, 2, 3, 9, 9]\<rparr>"
  have o: "open_disk X e (m_disks m) ''/dev/vda'' = Inr ?d" for e
    by (simp add: open_disk_def assms sample_outside_def del: fun_upd_apply)
  have meta: "f_meta (opened ?d) = Inr (True, 512)" by (simp add: opened_def sample_disk_def)
  have x: "x_blkrrpart X = (\<lambda>_. Inr ())" "x_rescan X = (\<lambda>_ _. second_tree)" "x_filesystems X = (\<lambda>_ _. sample_fs)"
    by (simp_all add: sample_outside_def)
  show ?thesis
    by (simp add: machine_host_def m_reread_def reread_partition_table_def p o sample_identity meta x)
qed

text \<open>The partition found on it.\<close>

abbreviation (input) VDA1 where "VDA1 \<equiv> \<lparr>oem_kname = ''vda1'', oem_dev_number = ''2:1''\<rparr>"

lemma sample_oem:
  assumes "m_tree m = second_tree"
  shows "h_efi_booted H m = (False, m)" "h_find_oem H VDA m = (Inr VDA1, m)"
proof -
  show "h_efi_booted H m = (False, m)"
    by (simp add: machine_host_def assms second_tree_def tree_parts)
  let ?d = "subtree second_tree SYSFS_BLOCK"
  have d: "?d = Dir [(''vda'', Dir ([(''device'', Dir []), (''size'', Attr ''4000''), (''dev'', Attr ''2:0''),
      (''vda1'', Dir [(''partition'', Attr ''1''), (''dev'', Attr ''2:1'')])]))]"
    by (simp add: second_tree_def tree_parts)
  have a: "ascii ''vda1''" "ascii ''device''" "ascii ''size''" "ascii ''dev''" "ascii ''COS_OEM''" by (simp_all add: ascii_def)
  have parts: "target_partitions ?d ''vda'' = [''vda1'']"
    by (simp add: target_partitions_def d read_dir_def child_def utf8_names_def utf8_valid_ascii a path_exists_def)
  have nr: "read_trimmed ?d [''vda'', ''vda1'', ''dev''] = Some ''2:1''"
    unfolding d by (rule read_trimmed_plain; simp add: child_def graphic_def)
  have len: "length sample_superblock = 1160"
    by (simp add: sample_superblock_def superblock_def as_bytes_def)
  have nz: "\<forall>b\<in>set (as_bytes ''COS_OEM''). b \<noteq> 0"
    by (simp add: as_bytes_def char_byte_def)
  have "ext_label sample_superblock = Option.bind (from_utf8 (of_bytes (as_bytes ''COS_OEM''))) (\<lambda>l. if l \<noteq> [] then Some l else None)"
    unfolding sample_superblock_def by (subst superblock_label) (use nz in \<open>auto simp: as_bytes_def\<close>)
  then have label: "ext_label sample_superblock = Some OEM_LABEL"
    by (simp add: of_bytes_as_bytes from_utf8_ascii a OEM_LABEL_def)
  have reads: "read_up_to [Inr sample_superblock] SUPERBLOCK_READ_BYTES [] = Inr sample_superblock"
  proof -
    have "sample_superblock \<noteq> []" using len by auto
    with len show ?thesis by (simp add: SUPERBLOCK_READ_BYTES_def read_up_to.simps)
  qed
  have "read_ext_label_of_device (x_part_reads X ds) ''vda1'' = Some OEM_LABEL" for ds
    by (simp add: read_ext_label_of_device_def sample_outside_def reads label del: read_up_to.simps)
  then show "h_find_oem H VDA m = (Inr VDA1, m)"
    by (simp add: machine_host_def find_oem_on_def find_oem_partition_def find_oem_in_def assms parts nr)
qed

lemma sample_inject:
  assumes "m_kernel m = sample_kernel"
  shows "\<exists>m'. h_inject H VDA1 [7, 8] (bp_provider_id sample_params) m = (Inr (), m') \<and> m_reboots m' = m_reboots m"
proof -
  have dev: "parse_dev_number (x_makedev X) ''2:1'' = Some 513"
    by (simp add: parse_dev_number_def parse_u64_def parse_unsigned_def strip_plus_def digit_val_def sample_outside_def)
  have files: "fst (inject_files [7, 8] ''p'' [] sample_fs) = Inr ()"
    by (simp add: inject_files_def write_and_sync_config_def write_and_sync_provider_id_def sbind_def smap_err_def
        open_truncate_def set_mode_def fs_write_all_def append_bytes_def sync_all_def open_dir_def create_dir_all_def
        make_dir_def fs_do_def answer_def sreturn_def node_at_def set_node_def parent_def sample_fs_def same_path_def
        fold_name_def OEM_CONFIG_FILENAME_def OEM_PROVIDER_ID_SUBDIR_def OEM_PROVIDER_ID_FILENAME_def Let_def upt_rec)
  have "fst (inject_oem_config (x_makedev X) VDA1 [7, 8] ''p'' sample_kernel) = Inr ()"
  proof (cases "inject_files [7, 8] ''p'' [] sample_fs")
    case (Pair r fs')
    with files have r: "inject_files [7, 8] ''p'' [] sample_fs = (Inr (), fs')" by simp
    show ?thesis
      by (simp add: inject_oem_config_def with_private_mount_def dev mknod_block_def unlink_node_def sys_do_def
          sample_kernel_def signore_def mount_write_unmount_def make_mountpoint_def mount_def on_mount_def
          mounted_on_def r unmount_def umount2_def Let_def OEM_MOUNT_def)
  qed
  then show ?thesis
    by (cases "inject_oem_config (x_makedev X) VDA1 [7, 8] ''p'' sample_kernel")
      (simp add: machine_host_def m_inject_def on_kernel_def assms sample_params_def)
qed

text \<open>The commands between the steps.\<close>

lemma sample_print: "core (h_print H l m) = core m"
  by (simp add: machine_host_def core_def)

lemma sample_deploy:
  assumes "m_disks m = m_disks sample_machine" "m_kernel m = sample_kernel"
  shows "\<exists>m'. run_deploy_steps H VDA sample_params [7, 8] m = (Inr (), m') \<and> m_reboots m' = m_reboots m"
proof -
  from sample_write [OF assms(1)] obtain m1 where
    w: "h_write_image H VDA (bp_target sample_params) (bp_target_digest sample_params) DEFAULT_MAX_IMAGE_BYTES m = (Inr 3, m1)"
    "m_disks m1 ''/dev/vda'' = Inr (sample_disk\<lparr>dn_content := [1, 2, 3, 9, 9]\<rparr>)" "m_kernel m1 = sample_kernel"
    "m_reboots m1 = m_reboots m" using assms(2) by auto
  define m2 where "m2 = m1\<lparr>m_tree := second_tree, m_kernel := (m_kernel m1)\<lparr>k_parts := (\<lambda>_. sample_fs)\<rparr>\<rparr>"
  have r: "h_reread H VDA m1 = (Inr (), m2)" using sample_reread [OF w(2)] by (simp only: m2_def)
  have k2: "m_tree m2 = second_tree" "m_kernel m2 = sample_kernel" "m_reboots m2 = m_reboots m"
    using w(3,4) by (simp_all add: m2_def sample_kernel_def)
  from sample_inject [OF k2(2)] obtain m3 where
    "h_inject H VDA1 [7, 8] (bp_provider_id sample_params) m2 = (Inr (), m3)" "m_reboots m3 = m_reboots m2" by blast
  then show ?thesis
    using k2(3) by (simp add: run_deploy_steps_def sbind_def smap_err_def w(1) r esp_step_def sample_oem [OF k2(1)]
        esp_boot_entry_step_def)
qed

lemma sample_run: "\<exists>e m'. run H False sample_machine = (Inl e, m') \<and> m_reboots m' = 1"
proof -
  let ?ps = sample_params
  obtain m1 where 1: "(if False then sreturn () else mount_and_lock H) sample_machine = (Inr (), m1)"
    "core m1 = core sample_machine" "m_links m1 = m_links sample_machine"
    using sample_mounts [of sample_machine] by blast
  have c: "h_cmdline H m1 = (Inr ?ps, m1)" by (simp add: machine_host_def sample_params_read)
  have "m_tree m1 = first_tree" "m_links m1 = sample_links"
    using 1(2,3) by (simp_all add: core_def sample_machine_def)
  then obtain m2 where 2: "(if False then sreturn () else bring_up H ?ps) m1 = (Inr (), m2)" "core m2 = core m1"
    using sample_bring_up by blast
  obtain report where p: "h_probe H m2 = (report, m2)" by (simp add: machine_host_def m_probe_def)
  have "m_tree m2 = first_tree" using 1(2) 2(2) by (simp add: core_def sample_machine_def)
  then have s: "h_select H (bp_disk ?ps) 0 m2 = (Inr VDA, m2)"
    by (simp add: machine_host_def sample_params_def sample_target)
  define m3 where "m3 = h_print H (TargetLine VDA) m2"
  obtain cl where cl: "h_client H ?ps = Inr cl" using sample_client by blast
  obtain m4 where 4: "h_submit_report H cl report m3 = (Inr (), m4)" "core m4 = core m3"
    using sample_exchanges(1) by blast
  define m5 where "m5 = h_print H ReportAccepted m4"
  obtain m6 where 6: "h_fetch_bootstrap H cl m5 = (Inr [7, 8], m6)" "core m6 = core m5"
    using sample_exchanges(2) by blast
  have polls: "\<exists>n. poll_budget_iterations (bp_timeout ?ps) = Suc n"
    by (rule exI [of _ 359]) (simp add: sample_params_def poll_budget_iterations_def DEFAULT_POLL_BUDGET_def POLL_INTERVAL_def)
  define m7 where "m7 = h_print H BootstrapReceived m6"
  have k: "core m7 = core sample_machine"
    by (simp add: m7_def m5_def m3_def sample_print 6(2) 4(2) 2(2) 1(2))
  then have "m_disks m7 = m_disks sample_machine" "m_kernel m7 = sample_kernel" "m_reboots m7 = 0"
    by (simp_all add: core_def) (simp_all add: sample_machine_def)
  with sample_deploy obtain m8 where 8: "run_deploy_steps H VDA ?ps [7, 8] m7 = (Inr (), m8)" "m_reboots m8 = 0" by metis
  obtain m9 where 9: "h_provisioned H cl m8 = (Inr (), m9)" "core m9 = core m8"
    using sample_exchanges(3) by blast
  have reboot: "h_reboot H m = (RebootFailed 1, m\<lparr>m_reboots := Suc (m_reboots m)\<rparr>)" for m
    by (simp add: machine_host_def reboot_now_def) (simp add: sample_outside_def)
  have "m_reboots (h_print H RebootingLine (h_print H ProvisionedAccepted m9)) = 0"
    using 9(2) 8(2) sample_print by (simp add: core_def)
  then show ?thesis
    using polls unfolding run_def enroll_def
    by (auto simp: sbind_def smap_err_def 1(1) [simplified] c 2(1) [simplified] p s print_target_def m3_def [symmetric]
        cl 4(1) m5_def [symmetric] provision_def require_target_def poll_bootstrap_def 6(1) deploy_and_confirm_def
        m7_def [symmetric] 8(1) 9(1) reboot)
qed

section \<open>The witness\<close>

theorem reboot_means_deployed_witness:
  "case run (machine_host sample_outside) False sample_machine of (r, m') \<Rightarrow> \<not> is_ok r \<and> m_reboots m' = 1 \<and>
     (\<exists>c t data oem. client_new (x_base64 X) (x_pem X) (x_trustable X) sample_params = Inr c \<and>
         select_on X first_tree None 0 = Inr t \<and>
         find_oem_on X (m_disks m') second_tree t = Inr oem \<and>
         holds_image X (m_disks m') t digest_text DEFAULT_MAX_IMAGE_BYTES \<and>
         holds_config X (k_parts (m_kernel m')) oem data ''p'' \<and>
         data_received (m_log m') c data \<and> completion_accepted (m_log m') c)"
proof -
  have start: "sample_machine\<lparr>m_log := [], m_reboots := 0\<rparr> = sample_machine" by (simp add: sample_machine_def)
  have tree: "m_tree sample_machine = first_tree" by (simp add: sample_machine_def)
  have drivers: "with_drivers X b first_tree = first_tree" for b by (simp add: first_tree_def sample_drivers)
  have x: "x_rescan X d t = second_tree" for d t by (simp add: sample_outside_def)
  have params: "bp_disk sample_params = None" "bp_target_digest sample_params = digest_text" "bp_provider_id sample_params = ''p''"
    by (simp_all add: sample_params_def)
  obtain e m' where run: "run H False sample_machine = (Inl e, m')" "m_reboots m' = 1" using sample_run by blast
  from reboot_means_deployed [of sample_outside sample_machine]
  show ?thesis unfolding start run(1) tree
    by (auto simp: run sample_params_read drivers x params Let_def)
qed

theorem run_well_formed_witness:
  "case run (machine_host sample_outside) False sample_machine of (r, m') \<Rightarrow> machine_wf m'"
proof (rule run_well_formed)
  have "tree_shaped sample_fs" by (simp add: tree_shaped_def sample_fs_def)
  then show "finds_trees sample_outside" "machine_wf sample_machine"
    by (simp_all add: finds_trees_def sample_outside_def machine_wf_def sample_machine_def kernel_wf_def sample_kernel_def
        vars_wf_def)
qed

text \<open>Another token on the command line.\<close>

theorem token_noninterference_witness:
  "case run (machine_host (sample_outside\<lparr>x_cmdline := Inr (cmdline_with ''u'')\<rparr>)) False sample_machine of (r', m') \<Rightarrow>
    case run (machine_host sample_outside) False sample_machine of (r, m1) \<Rightarrow> r' = r \<and>
      m' = m1\<lparr>m_log := m_log m'\<rparr> \<and> blind_log (m_log m') = blind_log (m_log m1)"
proof (rule token_noninterference)
  show "token_blind sample_outside"
    by (simp add: token_blind_def without_auth_def sample_outside_def sample_answer_def)
  show "x_cmdline sample_outside = Inr (cmdline_with ''t'')" by (simp add: sample_outside_def)
  show "(if v = [] then [] else ''u'') = [] \<longleftrightarrow> v = []" for v :: string by simp
  have "retoken (\<lambda>v. if v = [] then [] else ''u'') (''beskar7.target-digest='' @ digest_text) =
      ''beskar7.target-digest='' @ digest_text"
    using split_once_app [of "CHR ''=''" "''beskar7.target-digest''" digest_text] by (simp add: retoken_def)
  then show "split_ascii_whitespace (cmdline_with ''u'') =
      map (retoken (\<lambda>v. if v = [] then [] else ''u'')) (split_ascii_whitespace (cmdline_with ''t''))"
    by (simp add: cmdline_with_split is_ascii_ws_def) (simp add: retoken_def)
qed

text \<open>Another join secret from the controller.\<close>

theorem join_secret_confined_witness:
  "case run (machine_host (sample_outside\<lparr>x_http := \<lambda>_ _ rq. Inr (sample_answer rq\<lparr>rs_body := [1, 2, 3]\<rparr>)\<rparr>)) False sample_machine of
    (r', m') \<Rightarrow> case run (machine_host sample_outside) False sample_machine of (r, m1) \<Rightarrow> r' = r \<and>
      m' = m1\<lparr>m_kernel := m_kernel m', m_log := m_log m'\<rparr> \<and>
      hide_configs (m_kernel m') = hide_configs (m_kernel m1) \<and> bodiless (m_log m') = bodiless (m_log m1)"
proof (rule join_secret_confined)
  show "same_but_bodies (\<lambda>_ _ rq. Inr (sample_answer rq\<lparr>rs_body := [1, 2, 3]\<rparr>)) (x_http sample_outside)"
    by (simp add: same_but_bodies_def sample_outside_def same_but_body_def sample_answer_def MAX_BOOTSTRAP_BYTES_def)
qed

end
